(* ===== verification/Prelude.thy ===== *)
theory Prelude
  imports Complex_Main "HOL-Library.AList"
begin

text \<open>
  What every component shares: the result type for the fallible code, the
  JavaScript string, number, map and array operations the sources use, and the strict replay of an
  event log.

  A JavaScript string is modelled by its UTF-8 encoding, a \<open>string\<close> whose characters are bytes;
  \<open>js_length\<close> counts UTF-16 code units of that encoding and \<open>js_trim\<close> removes the ECMAScript
  white space and line terminators. A JavaScript \<open>Map\<close> keeps its insertion order: it is an
  association list, \<open>Map.get\<close> is \<open>map_of\<close>, \<open>Map.set\<close> is \<open>AList.update\<close> (in place for a
  known key, at the end for a new one), \<open>Map.delete\<close> is \<open>AList.delete\<close>.
\<close>

named_theorems res_simps \<open>inversion of successful results\<close>

section \<open>Fallible computations\<close>

text \<open>A pure function that may throw returns \<open>Inl\<close> of the error or \<open>Inr\<close> of the value.\<close>

definition and_then :: "'e + 'a \<Rightarrow> ('a \<Rightarrow> 'e + 'b) \<Rightarrow> 'e + 'b" where
  "and_then r f = (case r of Inl e \<Rightarrow> Inl e | Inr x \<Rightarrow> f x)"

definition is_ok :: "'e + 'a \<Rightarrow> bool" where
  "is_ok r = (case r of Inl _ \<Rightarrow> False | Inr _ \<Rightarrow> True)"

definition throw_if :: "bool \<Rightarrow> 'e \<Rightarrow> 'e + unit" where
  "throw_if b e = (if b then Inl e else Inr ())"

definition of_option :: "'e \<Rightarrow> 'a option \<Rightarrow> 'e + 'a" where
  "of_option e x = (case x of None \<Rightarrow> Inl e | Some v \<Rightarrow> Inr v)"

lemma and_then_simps [simp]:
  "and_then (Inl e) f = Inl e"
  "and_then (Inr x) f = f x"
  by (simp_all add: and_then_def)

lemma and_then_Inr_right [simp]: "and_then r Inr = r"
  by (cases r) simp_all

lemma and_then_Inr_iff [res_simps]:
  "and_then r f = Inr y \<longleftrightarrow> (\<exists>x. r = Inr x \<and> f x = Inr y)"
  by (cases r) auto

lemma and_then_Inl_iff [res_simps]:
  "and_then r f = Inl e \<longleftrightarrow> r = Inl e \<or> (\<exists>x. r = Inr x \<and> f x = Inl e)"
  by (cases r) auto

lemma is_ok_simps [simp]: "is_ok (Inr x)" "\<not> is_ok (Inl e)"
  by (simp_all add: is_ok_def)

lemma is_ok_iff: "is_ok r \<longleftrightarrow> (\<exists>x. r = Inr x)"
  by (cases r) auto

lemma throw_if_iff [res_simps]:
  "throw_if b e = Inr u \<longleftrightarrow> \<not> b"
  "throw_if b e = Inl e' \<longleftrightarrow> b \<and> e' = e"
  by (auto simp: throw_if_def)

lemma throw_if_simps [simp]: "throw_if True e = Inl e" "throw_if False e = Inr ()"
  by (simp_all add: throw_if_def)

lemma of_option_iff [res_simps]:
  "of_option e x = Inr v \<longleftrightarrow> x = Some v"
  "of_option e x = Inl e' \<longleftrightarrow> x = None \<and> e' = e"
  by (auto simp: of_option_def split: option.splits)

lemma of_option_simps [simp]: "of_option e None = Inl e" "of_option e (Some v) = Inr v"
  by (simp_all add: of_option_def)

text \<open>
  An operation on shared state may mutate it and then throw: it returns the outcome and the state
  left behind in both cases.
\<close>

type_synonym ('s, 'a) io = "'s \<Rightarrow> (string + 'a) \<times> 's"

section \<open>Strings\<close>

text \<open>The byte sequences of the characters that \<open>String.prototype.trim\<close> removes.\<close>

definition bytes :: "nat list \<Rightarrow> string" where
  "bytes ns = map char_of ns"

definition js_white_space :: "string list" where
  "js_white_space = map bytes
     ([[9], [10], [11], [12], [13], [32], [194, 160], [225, 154, 128]]
      @ map (\<lambda>b. [226, 128, b]) [128..<139]
      @ [[226, 128, 168], [226, 128, 169], [226, 128, 175], [226, 129, 159], [227, 128, 128],
         [239, 187, 191]])"

fun starts_with :: "'a list \<Rightarrow> 'a list \<Rightarrow> bool" where
  "starts_with [] s = True"
| "starts_with (p # ps) [] = False"
| "starts_with (p # ps) (c # s) = (p = c \<and> starts_with ps s)"

lemma starts_with_iff: "starts_with p s \<longleftrightarrow> (\<exists>r. s = p @ r)"
  by (induction p s rule: starts_with.induct) auto

lemma starts_with_length: "starts_with p s \<Longrightarrow> length p \<le> length s"
  by (auto simp: starts_with_iff)

function strip_front :: "'a list list \<Rightarrow> 'a list \<Rightarrow> 'a list" where
  "strip_front ws s =
     (case find (\<lambda>w. w \<noteq> [] \<and> starts_with w s) ws of
        None \<Rightarrow> s
      | Some w \<Rightarrow> strip_front ws (drop (length w) s))"
  by pat_completeness auto
termination
  by (relation "measure (\<lambda>(ws, s). length s)")
    (auto simp: find_Some_iff simp flip: length_greater_0_conv dest!: starts_with_length)

declare strip_front.simps [simp del]

definition trim_start :: "string \<Rightarrow> string" where
  "trim_start s = strip_front js_white_space s"

definition trim_end :: "string \<Rightarrow> string" where
  "trim_end s = rev (strip_front (map rev js_white_space) (rev s))"

definition js_trim :: "string \<Rightarrow> string" where
  "js_trim s = trim_end (trim_start s)"

definition is_blank :: "string \<Rightarrow> bool" where
  "is_blank s \<longleftrightarrow> js_trim s = []"

lemma strip_front_suffix: "\<exists>p. s = p @ strip_front ws s"
proof (induction ws s rule: strip_front.induct)
  case (1 ws s)
  show ?case
  proof (cases "find (\<lambda>w. w \<noteq> [] \<and> starts_with w s) ws")
    case None
    then show ?thesis by (simp add: strip_front.simps [of ws s])
  next
    case (Some w)
    then have "starts_with w s" by (auto simp: find_Some_iff)
    then have s: "s = w @ drop (length w) s" by (auto simp: starts_with_iff)
    from "1.IH" [OF Some] obtain p where
      "drop (length w) s = p @ strip_front ws (drop (length w) s)" by blast
    with s have "s = (w @ p) @ strip_front ws (drop (length w) s)" by simp
    moreover have "strip_front ws s = strip_front ws (drop (length w) s)"
      using Some by (simp add: strip_front.simps [of ws s])
    ultimately show ?thesis by metis
  qed
qed

lemma strip_front_stuck: "w \<in> set ws \<Longrightarrow> w \<noteq> [] \<Longrightarrow> \<not> starts_with w (strip_front ws s)"
proof (induction ws s rule: strip_front.induct)
  case (1 ws s)
  show ?case
  proof (cases "find (\<lambda>w. w \<noteq> [] \<and> starts_with w s) ws")
    case None
    then have "strip_front ws s = s" by (simp add: strip_front.simps [of ws s])
    with None "1.prems" show ?thesis by (auto simp: find_None_iff)
  next
    case (Some w')
    with "1.IH" [OF Some "1.prems"] show ?thesis by (simp add: strip_front.simps [of ws s])
  qed
qed

lemma strip_front_id: "(\<And>w. w \<in> set ws \<Longrightarrow> w \<noteq> [] \<Longrightarrow> \<not> starts_with w s) \<Longrightarrow> strip_front ws s = s"
  by (subst strip_front.simps) (auto split: option.splits simp: find_Some_iff)

lemma strip_front_idem [simp]: "strip_front ws (strip_front ws s) = strip_front ws s"
  by (rule strip_front_id) (rule strip_front_stuck)

lemma js_trim_nil [simp]: "js_trim [] = []"
proof -
  have "strip_front ws [] = []" for ws :: "string list"
    by (rule strip_front_id) (auto simp: starts_with_iff)
  then show ?thesis by (simp add: js_trim_def trim_start_def trim_end_def)
qed

lemma js_trim_idem [simp]: "js_trim (js_trim s) = js_trim s"
proof -
  let ?a = "trim_start s" and ?t = "js_trim s"
  have stuck: "\<not> starts_with w ?a" if "w \<in> set js_white_space" "w \<noteq> []" for w
    using that by (simp add: trim_start_def strip_front_stuck)
  obtain p where "rev ?a = p @ strip_front (map rev js_white_space) (rev ?a)"
    using strip_front_suffix by blast
  then have "?a = ?t @ rev p"
    by (metis js_trim_def rev_append rev_rev_ident trim_end_def)
  then have "\<not> starts_with w ?t" if "w \<in> set js_white_space" "w \<noteq> []" for w
    using stuck [OF that] by (auto simp: starts_with_iff)
  then have "trim_start ?t = ?t"
    by (simp add: trim_start_def strip_front_id)
  moreover have "trim_end ?t = ?t"
    by (simp add: js_trim_def trim_end_def)
  ultimately show ?thesis by (simp add: js_trim_def)
qed

text \<open>Trimming leaves a string alone whose ends are printable ASCII characters.\<close>

definition printable :: "char \<Rightarrow> bool" where
  "printable c \<longleftrightarrow> 33 \<le> (of_char c :: nat) \<and> (of_char c :: nat) < 127"

lemma js_white_space_not_printable:
  "list_all (\<lambda>w. w \<noteq> [] \<and> \<not> printable (hd w) \<and> \<not> printable (last w)) js_white_space"
  by code_simp

lemma js_trim_printable: "s \<noteq> [] \<Longrightarrow> printable (hd s) \<Longrightarrow> printable (last s) \<Longrightarrow> js_trim s = s"
proof -
  assume s: "s \<noteq> []" "printable (hd s)" "printable (last s)"
  have w: "w \<noteq> []" "\<not> printable (hd w)" "\<not> printable (last w)" if "w \<in> set js_white_space" for w
    using js_white_space_not_printable that by (auto simp: list_all_iff)
  have "trim_start s = s"
    unfolding trim_start_def using s w by (intro strip_front_id) (auto simp: starts_with_iff)
  moreover have "strip_front (map rev js_white_space) (rev s) = rev s"
  proof (intro strip_front_id notI)
    fix v assume "v \<in> set (map rev js_white_space)" "v \<noteq> []" "starts_with v (rev s)"
    then obtain u r where u: "u \<in> set js_white_space" "rev s = rev u @ r"
      by (auto simp: starts_with_iff)
    then have "last s = last u" using w [OF u(1)] s(1)
      by (metis hd_append2 hd_rev rev_is_Nil_conv)
    with s(3) w [OF u(1)] show False by simp
  qed
  ultimately show ?thesis by (simp add: js_trim_def trim_end_def)
qed

lemma strip_front_nonempty:
  "t \<noteq> [] \<Longrightarrow> \<forall>w \<in> set ws. w \<noteq> [] \<longrightarrow> last w \<noteq> last t \<Longrightarrow> strip_front ws t \<noteq> []"
proof (induction ws t rule: strip_front.induct)
  case (1 ws t)
  show ?case
  proof (cases "find (\<lambda>w. w \<noteq> [] \<and> starts_with w t) ws")
    case None
    with "1.prems" show ?thesis by (simp add: strip_front.simps [of ws t])
  next
    case (Some w)
    then have w: "w \<in> set ws" "w \<noteq> []" "starts_with w t" by (auto simp: find_Some_iff)
    then have t: "t = w @ drop (length w) t" by (auto simp: starts_with_iff)
    have "drop (length w) t \<noteq> []"
    proof
      assume "drop (length w) t = []"
      with t have "t = w" by simp
      with w(1,2) "1.prems"(2) show False by blast
    qed
    moreover from this t have "last (drop (length w) t) = last t" by (metis last_appendR)
    ultimately have "strip_front ws (drop (length w) t) \<noteq> []" using "1.IH" [OF Some] "1.prems"(2) by simp
    with Some show ?thesis by (simp add: strip_front.simps [of ws t])
  qed
qed

lemma js_trim_nonempty:
  assumes "s \<noteq> []" "printable (hd s)"
  shows "js_trim s \<noteq> []"
proof -
  have w: "w \<noteq> []" "\<not> printable (hd w)" if "w \<in> set js_white_space" for w
    using js_white_space_not_printable that by (auto simp: list_all_iff)
  have "trim_start s = s"
    unfolding trim_start_def using assms w by (intro strip_front_id) (auto simp: starts_with_iff)
  moreover have "strip_front (map rev js_white_space) (rev s) \<noteq> []"
  proof (rule strip_front_nonempty)
    have "last (rev w) \<noteq> last (rev s)" if "w \<in> set js_white_space" for w
      using w [OF that] assms by (metis last_rev)
    then show "\<forall>v \<in> set (map rev js_white_space). v \<noteq> [] \<longrightarrow> last v \<noteq> last (rev s)" by simp
  qed (use assms in simp)
  ultimately show ?thesis by (simp add: js_trim_def trim_end_def)
qed

text \<open>The number of UTF-16 code units of a UTF-8 encoded string.\<close>

definition js_length :: "string \<Rightarrow> nat" where
  "js_length s = sum_list (map (\<lambda>c. let b = (of_char c :: nat) in
     if 128 \<le> b \<and> b < 192 then 0 else if 240 \<le> b then 2 else 1) s)"

text \<open>\<open>String(n)\<close> of a non-negative integer, and the digits read back.\<close>

fun digit_char :: "nat \<Rightarrow> char" where
  "digit_char d = char_of (48 + d)"

fun str_of_nat :: "nat \<Rightarrow> string" where
  "str_of_nat n = (if n < 10 then [digit_char n] else str_of_nat (n div 10) @ [digit_char (n mod 10)])"

declare str_of_nat.simps [simp del]

definition is_digit :: "char \<Rightarrow> bool" where
  "is_digit c \<longleftrightarrow> 48 \<le> (of_char c :: nat) \<and> (of_char c :: nat) < 58"

definition nat_of_digits :: "string \<Rightarrow> nat" where
  "nat_of_digits s = foldl (\<lambda>n c. 10 * n + (of_char c - 48)) 0 s"

lemma digit_char_props:
  assumes "d < 10"
  shows "is_digit (digit_char d)" "of_char (digit_char d) - 48 = d"
  using assms by (simp_all add: is_digit_def of_char_of)

lemma str_of_nat_digits: "s = str_of_nat n \<Longrightarrow> s \<noteq> [] \<and> list_all is_digit s \<and> nat_of_digits s = n"
proof (induction n arbitrary: s rule: str_of_nat.induct)
  case (1 n)
  show ?case
  proof (cases "n < 10")
    case True
    with "1.prems" show ?thesis
      by (auto simp: str_of_nat.simps [of n] digit_char_props nat_of_digits_def
          simp del: digit_char.simps)
  next
    case False
    let ?q = "str_of_nat (n div 10)"
    from "1.IH" [OF False refl] have q: "list_all is_digit ?q" "nat_of_digits ?q = n div 10"
      by simp_all
    have s: "s = ?q @ [digit_char (n mod 10)]"
      using False "1.prems" by (simp add: str_of_nat.simps [of n])
    have "nat_of_digits s = 10 * nat_of_digits ?q + n mod 10"
      by (simp add: s nat_of_digits_def digit_char_props del: digit_char.simps)
    with q s show ?thesis by (simp add: digit_char_props del: digit_char.simps)
  qed
qed

lemma str_of_nat_inj [simp]: "str_of_nat m = str_of_nat n \<longleftrightarrow> m = n"
  using str_of_nat_digits by metis

fun js_join :: "string \<Rightarrow> string list \<Rightarrow> string" where
  "js_join sep [] = []"
| "js_join sep [x] = x"
| "js_join sep (x # y # xs) = x @ sep @ js_join sep (y # xs)"

text \<open>A string between double quotes, as the error messages embed it.\<close>

definition quoted :: "string \<Rightarrow> string" where
  "quoted s = CHR 0x22 # s @ [CHR 0x22]"

text \<open>ASCII lower case: \<open>toLowerCase\<close> on the letters the sources compare.\<close>

definition lower_char :: "char \<Rightarrow> char" where
  "lower_char c = (let b = (of_char c :: nat) in if 65 \<le> b \<and> b \<le> 90 then char_of (b + 32) else c)"

definition js_lower :: "string \<Rightarrow> string" where
  "js_lower s = map lower_char s"

text \<open>Groups of lower-case letters and digits separated by single hyphens: \<open>[a-z0-9]+(?:-[a-z0-9]+)*\<close>.\<close>

definition kebab_char :: "char \<Rightarrow> bool" where
  "kebab_char c \<longleftrightarrow> (let b = (of_char c :: nat) in 97 \<le> b \<and> b \<le> 122 \<or> 48 \<le> b \<and> b < 58)"

fun kebab :: "bool \<Rightarrow> string \<Rightarrow> bool" where
  "kebab inside [] = inside"
| "kebab inside (c # s) =
     (if kebab_char c then kebab True s else c = CHR ''-'' \<and> inside \<and> kebab False s)"

section \<open>Numbers\<close>

text \<open>A JavaScript number: exact rationals (no rounding is modelled) and the three special values.\<close>

datatype js_number = Finite rat | NaN | PosInfinity | NegInfinity

definition is_finite_number :: "js_number \<Rightarrow> bool" where
  "is_finite_number x = (case x of Finite _ \<Rightarrow> True | _ \<Rightarrow> False)"

definition is_integer_number :: "js_number \<Rightarrow> bool" where
  "is_integer_number x = (case x of Finite r \<Rightarrow> snd (quotient_of r) = 1 | _ \<Rightarrow> False)"

definition max_safe :: int where
  "max_safe = 9007199254740991"

definition safe_integer_of :: "js_number \<Rightarrow> int option" where
  "safe_integer_of x =
     (case x of
        Finite r \<Rightarrow>
          if snd (quotient_of r) = 1 \<and> \<bar>fst (quotient_of r)\<bar> \<le> max_safe
          then Some (fst (quotient_of r)) else None
      | _ \<Rightarrow> None)"

lemma safe_integer_of_int [simp]:
  "safe_integer_of (Finite (of_int k)) = (if \<bar>k\<bar> \<le> max_safe then Some k else None)"
  by (simp add: safe_integer_of_def quotient_of_int)

section \<open>Arrays, sets and maps\<close>

text \<open>\<open>xs.map(f)\<close> for an \<open>f\<close> that may throw.\<close>

fun traverse :: "('a \<Rightarrow> 'e + 'b) \<Rightarrow> 'a list \<Rightarrow> 'e + 'b list" where
  "traverse f [] = Inr []"
| "traverse f (x # xs) = and_then (f x) (\<lambda>y. and_then (traverse f xs) (\<lambda>ys. Inr (y # ys)))"

lemma traverse_append [simp]:
  "traverse f (xs @ ys) = and_then (traverse f xs) (\<lambda>as. and_then (traverse f ys) (\<lambda>bs. Inr (as @ bs)))"
proof (induction xs)
  case Nil
  then show ?case by (cases "traverse f ys") simp_all
next
  case (Cons x xs)
  then show ?case by (cases "f x"; cases "traverse f xs"; cases "traverse f ys") simp_all
qed

lemma traverse_length: "traverse f xs = Inr ys \<Longrightarrow> length ys = length xs"
  by (induction xs arbitrary: ys) (auto simp: res_simps)

text \<open>\<open>[...new Set(xs)]\<close>: the distinct elements in order of first occurrence.\<close>

fun dedup :: "'a list \<Rightarrow> 'a list" where
  "dedup [] = []"
| "dedup (x # xs) = x # filter (\<lambda>y. y \<noteq> x) (dedup xs)"

lemma set_dedup [simp]: "set (dedup xs) = set xs"
  by (induction xs) auto

lemma distinct_dedup [simp]: "distinct (dedup xs)"
  by (induction xs) auto

lemma dedup_distinct: "distinct xs \<Longrightarrow> dedup xs = xs"
proof (induction xs)
  case (Cons x xs)
  then have "filter (\<lambda>y. y \<noteq> x) xs = xs" by (auto simp: filter_id_conv)
  with Cons show ?case by simp
qed simp

lemma dedup_idem [simp]: "dedup (dedup xs) = dedup xs"
  by (rule dedup_distinct) simp

text \<open>The position of the first element that satisfies a predicate.\<close>

fun find_index :: "('a \<Rightarrow> bool) \<Rightarrow> 'a list \<Rightarrow> nat option" where
  "find_index P [] = None"
| "find_index P (x # xs) = (if P x then Some 0 else map_option Suc (find_index P xs))"

lemma find_index_Some:
  "find_index P xs = Some i \<Longrightarrow> i < length xs \<and> P (xs ! i) \<and> (\<forall>j < i. \<not> P (xs ! j))"
proof (induction xs arbitrary: i)
  case (Cons x xs)
  show ?case
  proof (cases "P x")
    case True
    with Cons.prems show ?thesis by simp
  next
    case False
    with Cons.prems obtain k where k: "find_index P xs = Some k" "i = Suc k" by auto
    from Cons.IH [OF k(1)] False k(2) show ?thesis
      by (auto simp: nth_Cons split: nat.splits)
  qed
qed simp

lemma find_index_None: "find_index P xs = None \<longleftrightarrow> (\<forall>x \<in> set xs. \<not> P x)"
  by (induction xs) auto

lemma distinct_map_nth:
  assumes "distinct (map f xs)" "i < j" "j < length xs"
  shows "f (xs ! i) \<noteq> f (xs ! j)"
proof
  assume "f (xs ! i) = f (xs ! j)"
  then have "map f xs ! i = map f xs ! j" using assms by simp
  with assms have "i = j"
    using nth_eq_iff_index_eq [of "map f xs" i j] by simp
  with assms(2) show False by simp
qed

lemma Cons_eq_drop: "x # xs = drop k ys \<Longrightarrow> k < length ys \<and> x = ys ! k \<and> xs = drop (Suc k) ys"
  by (metis Cons_nth_drop_Suc drop_all leI list.inject list.simps(3))

lemma enumerate_ball: "(\<forall>(i, x) \<in> set (enumerate n xs). P i x) \<longleftrightarrow> (\<forall>i < length xs. P (n + i) (xs ! i))"
proof
  assume L: "\<forall>(i, x) \<in> set (enumerate n xs). P i x"
  show "\<forall>i < length xs. P (n + i) (xs ! i)"
  proof (intro allI impI)
    fix i assume "i < length xs"
    then have "(n + i, xs ! i) \<in> set (enumerate n xs)" by (simp add: in_set_enumerate_eq)
    with L show "P (n + i) (xs ! i)" by blast
  qed
next
  assume R: "\<forall>i < length xs. P (n + i) (xs ! i)"
  show "\<forall>(i, x) \<in> set (enumerate n xs). P i x"
  proof clarify
    fix i x assume "(i, x) \<in> set (enumerate n xs)"
    then have "n \<le> i" "i - n < length xs" "xs ! (i - n) = x" by (auto simp: in_set_enumerate_eq)
    with R show "P i x" by (metis le_add_diff_inverse)
  qed
qed

lemma case_prod_nil: "(case p of (i, x) \<Rightarrow> f i x) = [] \<longleftrightarrow> (case p of (i, x) \<Rightarrow> f i x = [])"
  by (cases p) simp

lemma enumerate_ball_elem: "(\<forall>(i, x) \<in> set (enumerate n xs). P x) \<longleftrightarrow> (\<forall>x \<in> set xs. P x)"
  unfolding enumerate_ball [of n xs "\<lambda>_. P"] by (simp add: all_set_conv_all_nth)

abbreviation js_get :: "('k \<times> 'v) list \<Rightarrow> 'k \<Rightarrow> 'v option" where
  "js_get m k \<equiv> map_of m k"

abbreviation js_set :: "'k \<Rightarrow> 'v \<Rightarrow> ('k \<times> 'v) list \<Rightarrow> ('k \<times> 'v) list" where
  "js_set k v m \<equiv> AList.update k v m"

abbreviation js_has :: "('k \<times> 'v) list \<Rightarrow> 'k \<Rightarrow> bool" where
  "js_has m k \<equiv> map_of m k \<noteq> None"

abbreviation js_delete :: "'k \<Rightarrow> ('k \<times> 'v) list \<Rightarrow> ('k \<times> 'v) list" where
  "js_delete k m \<equiv> AList.delete k m"

abbreviation js_keys :: "('k \<times> 'v) list \<Rightarrow> 'k list" where
  "js_keys m \<equiv> map fst m"

abbreviation js_values :: "('k \<times> 'v) list \<Rightarrow> 'v list" where
  "js_values m \<equiv> map snd m"

lemma js_get_set [simp]: "map_of (AList.update k v m) k' = (if k' = k then Some v else map_of m k')"
  by (simp add: update_conv')

lemma js_get_delete [simp]: "map_of (AList.delete k m) k' = (if k' = k then None else map_of m k')"
  by (simp add: delete_conv')

lemma js_set_new: "map_of m k = None \<Longrightarrow> AList.update k v m = m @ [(k, v)]"
  by (induction m) (auto split: if_splits)

lemma js_set_keys_known: "map_of m k \<noteq> None \<Longrightarrow> map fst (AList.update k v m) = map fst m"
  by (induction m) (auto split: if_splits)

text \<open>\<open>new Map(pairs)\<close>: a repeated key keeps its first position and its last value.\<close>

definition js_map :: "('k \<times> 'v) list \<Rightarrow> ('k \<times> 'v) list" where
  "js_map ps = foldl (\<lambda>m (k, v). js_set k v m) [] ps"

lemma js_map_get: "map_of (js_map ps) = map_of (rev ps)"
proof -
  have "map_of (foldl (\<lambda>m (k, v). AList.update k v m) m0 ps) = map_of m0 ++ map_of (rev ps)" for m0
    by (induction ps arbitrary: m0) (auto simp: update_conv' map_add_def fun_eq_iff split: option.splits)
  then show ?thesis by (simp add: js_map_def)
qed

lemma js_map_in: "map_of (js_map ps) k = Some v \<Longrightarrow> (k, v) \<in> set ps"
  by (auto simp: js_map_get dest: map_of_SomeD)

section \<open>Strict replay of an event log\<close>

text \<open>
  Several components rebuild their state by applying a validating transition to every event of a
  session log; the first event that is rejected aborts the replay.
\<close>

fun replay :: "('s \<Rightarrow> 'e \<Rightarrow> 'err + 's) \<Rightarrow> 's \<Rightarrow> 'e list \<Rightarrow> 'err + 's" where
  "replay step s [] = Inr s"
| "replay step s (e # es) = and_then (step s e) (\<lambda>s'. replay step s' es)"

lemma replay_append: "replay step s (xs @ ys) = and_then (replay step s xs) (\<lambda>s'. replay step s' ys)"
proof (induction xs arbitrary: s)
  case (Cons x xs)
  then show ?case by (cases "step s x") simp_all
qed simp

lemma replay_snoc: "replay step s (xs @ [y]) = and_then (replay step s xs) (\<lambda>s'. step s' y)"
  by (cases "replay step s xs") (auto simp: replay_append and_then_def split: sum.splits)

text \<open>A transition with an invariant, and what every successful replay inherits from it.\<close>

locale strict_log =
  fixes step :: "'s \<Rightarrow> 'e \<Rightarrow> 'err + 's"
    and inv :: "'s \<Rightarrow> bool"
  assumes step_inv: "inv s \<Longrightarrow> step s e = Inr s' \<Longrightarrow> inv s'"
begin

lemma replay_inv: "inv s \<Longrightarrow> replay step s es = Inr s' \<Longrightarrow> inv s'"
proof (induction es arbitrary: s)
  case (Cons e es)
  then obtain t where "step s e = Inr t" "replay step t es = Inr s'" by (auto simp: res_simps)
  with Cons show ?case using step_inv by blast
qed simp

lemma replay_prefix:
  assumes "inv s" "replay step s (xs @ ys) = Inr s'"
  shows "\<exists>t. replay step s xs = Inr t \<and> inv t \<and> replay step t ys = Inr s'"
  using assms replay_inv by (fastforce simp: replay_append res_simps)

end

end
