(* ===== verification/LabDomain.thy ===== *)
theory LabDomain
  imports Prelude
begin

text \<open>
  The shared vocabulary of the laboratory automation packages
  (\<open>packages/experimental/lab-domain/src/types.ts\<close>, \<open>validation.ts\<close>, \<open>project.ts\<close>): status
  enumerations, the declarative experiment plan and its parts, the validation result types, the
  Skill lifecycle table, the unit-value check and the projections rebuilt from session events.
  Branded identifiers are strings. A \<open>ReadonlySet\<close> is the list of its elements, a \<open>ReadonlyMap\<close>
  and a record object are association lists in enumeration order.
\<close>

section \<open>Lifecycle enumerations\<close>

datatype lab_skill_status =
  Skill_DRAFT | Skill_VALIDATED | Skill_HUMAN_APPROVED | Skill_ACTIVE | Skill_RETIRED

datatype operation_kind = Op_device | Op_human | Op_approval | Op_script | Op_api

datatype plan_status =
  Plan_DRAFT | Plan_VALIDATED | Plan_HUMAN_APPROVED | Plan_LOCKED | Plan_REJECTED

datatype run_status =
  Run_CREATED | Run_WAITING_CONFIRMATION | Run_RUNNING | Run_BLOCKED | Run_FAILED
  | Run_COMPLETED | Run_STOPPED

fun skill_status_name :: "lab_skill_status \<Rightarrow> string" where
  "skill_status_name Skill_DRAFT = ''DRAFT''"
| "skill_status_name Skill_VALIDATED = ''VALIDATED''"
| "skill_status_name Skill_HUMAN_APPROVED = ''HUMAN_APPROVED''"
| "skill_status_name Skill_ACTIVE = ''ACTIVE''"
| "skill_status_name Skill_RETIRED = ''RETIRED''"

fun operation_kind_name :: "operation_kind \<Rightarrow> string" where
  "operation_kind_name Op_device = ''device''"
| "operation_kind_name Op_human = ''human''"
| "operation_kind_name Op_approval = ''approval''"
| "operation_kind_name Op_script = ''script''"
| "operation_kind_name Op_api = ''api''"

section \<open>Plans and their validation context\<close>

record unit_value =
  uv_value :: js_number
  uv_unit :: string

datatype plan_parameter =
  P_unit unit_value | P_string string | P_number js_number | P_bool bool

record plan_step =
  ps_stepId :: string
  ps_title :: string
  ps_dependencies :: "string list"
  ps_skillRevisionId :: string
  ps_operationKind :: operation_kind
  ps_operationResource :: string
  ps_deviceId :: "string option"
  ps_deviceCapability :: "string option"
  ps_requiresApproval :: bool
  ps_requiredInputs :: "string list"
  ps_parameters :: "(string \<times> plan_parameter) list"
  ps_citations :: "string list"
  ps_expectedOutputs :: "string list"

record experiment_plan =
  pl_planId :: string
  pl_experimentId :: string
  pl_revision :: js_number
  pl_supersedesPlanId :: "string option"
  pl_status :: plan_status
  pl_objective :: string
  pl_citations :: "string list"
  pl_assumptions :: "string list"
  pl_unresolved :: "string list"
  pl_steps :: "plan_step list"

record plan_validation_context =
  cx_availableInputs :: "string list"
  cx_availableCitations :: "string list"
  cx_requiredCitations :: "string list option"
  cx_skillStatuses :: "(string \<times> lab_skill_status) list"
  cx_skillParameterConstraints :: "(string \<times> (string \<times> string) list) list"
  cx_installedOperations :: "string list"
  cx_deviceCapabilities :: "(string \<times> string list) list"

record validation_issue =
  vi_code :: string
  vi_message :: string
  vi_path :: "string option"

record validation_result =
  vr_valid :: bool
  vr_issues :: "validation_issue list"

record plan_validation_result =
  pv_planId :: string
  pv_revision :: js_number
  pv_valid :: bool
  pv_issues :: "validation_issue list"

record executable_step_input =
  ex_skillStatus :: lab_skill_status
  ex_operationKind :: operation_kind
  ex_operationInstalled :: bool

record skill_snapshot =
  sn_skillId :: string
  sn_revisionId :: string
  sn_status :: string
  sn_definitionHash :: string

record artifact_manifest =
  am_artifactId :: string
  am_runId :: string
  am_kind :: string
  am_displayName :: string
  am_uri :: string
  am_mediaType :: string
  am_size :: nat
  am_digest :: string
  am_createdAt :: nat

datatype cache_status = Cache_plan plan_status | Cache_run run_status

record experiment_cache_projection =
  ec_experimentId :: string
  ec_planId :: "string option"
  ec_runId :: "string option"
  ec_status :: cache_status
  ec_knowledgeCitations :: "string list"
  ec_skillRevisionIds :: "string list"
  ec_updatedBy :: string

section \<open>Skill lifecycle and step checks\<close>

fun next_skill_status :: "lab_skill_status \<Rightarrow> lab_skill_status list" where
  "next_skill_status Skill_DRAFT = [Skill_VALIDATED]"
| "next_skill_status Skill_VALIDATED = [Skill_HUMAN_APPROVED]"
| "next_skill_status Skill_HUMAN_APPROVED = [Skill_ACTIVE]"
| "next_skill_status Skill_ACTIVE = [Skill_RETIRED]"
| "next_skill_status Skill_RETIRED = []"

definition assert_skill_transition :: "lab_skill_status \<Rightarrow> lab_skill_status \<Rightarrow> string + unit" where
  "assert_skill_transition from_status to_status =
     throw_if (to_status \<notin> set (next_skill_status from_status))
       (''cannot transition Lab Skill from '' @ skill_status_name from_status @ '' to ''
        @ skill_status_name to_status @ ''; allowed next states: ''
        @ (let names = js_join '', '' (map skill_status_name (next_skill_status from_status))
           in if names = [] then ''none'' else names))"

definition validate_unit_value :: "unit_value \<Rightarrow> string + unit" where
  "validate_unit_value v =
     (if \<not> is_finite_number (uv_value v) then Inl ''unit value must be finite''
      else if js_trim (uv_unit v) = [] then Inl ''unit must be non-blank''
      else Inr ())"

definition validate_executable_step :: "executable_step_input \<Rightarrow> validation_result" where
  "validate_executable_step inp =
     (let issues =
        (if ex_skillStatus inp \<noteq> Skill_ACTIVE
         then [\<lparr>vi_code = ''SKILL_NOT_ACTIVE'',
                vi_message = ''plan step must reference an ACTIVE Lab Skill revision'',
                vi_path = None\<rparr>] else [])
        @ (if \<not> ex_operationInstalled inp
           then [\<lparr>vi_code = ''OPERATION_NOT_INSTALLED'',
                  vi_message = ''operation implementation for ''
                    @ operation_kind_name (ex_operationKind inp) @ '' is not installed and approved'',
                  vi_path = None\<rparr>] else [])
      in \<lparr>vr_valid = (issues = []), vr_issues = issues\<rparr>)"

text \<open>Position in the prescribed lifecycle: every legal transition moves exactly one place on.\<close>

fun skill_stage :: "lab_skill_status \<Rightarrow> nat" where
  "skill_stage Skill_DRAFT = 0"
| "skill_stage Skill_VALIDATED = 1"
| "skill_stage Skill_HUMAN_APPROVED = 2"
| "skill_stage Skill_ACTIVE = 3"
| "skill_stage Skill_RETIRED = 4"

instantiation lab_skill_status :: linorder
begin

definition less_eq_lab_skill_status :: "lab_skill_status \<Rightarrow> lab_skill_status \<Rightarrow> bool" where
  "less_eq_lab_skill_status a b \<longleftrightarrow> skill_stage a \<le> skill_stage b"

definition less_lab_skill_status :: "lab_skill_status \<Rightarrow> lab_skill_status \<Rightarrow> bool" where
  "less_lab_skill_status a b \<longleftrightarrow> skill_stage a < skill_stage b"

instance
proof
  fix a b :: lab_skill_status
  show "a = b" if "a \<le> b" "b \<le> a"
    using that by (cases a; cases b) (simp_all add: less_eq_lab_skill_status_def)
qed (auto simp: less_eq_lab_skill_status_def less_lab_skill_status_def)

end

lemma assert_skill_transition_ok [res_simps]:
  "assert_skill_transition a b = Inr u \<longleftrightarrow> b \<in> set (next_skill_status a)"
  by (auto simp: assert_skill_transition_def throw_if_def)

lemma next_skill_status_stage: "b \<in> set (next_skill_status a) \<longleftrightarrow> skill_stage b = Suc (skill_stage a)"
  by (cases a; cases b) simp_all

lemma next_skill_status_less: "b \<in> set (next_skill_status a) \<Longrightarrow> a < b"
  by (simp add: next_skill_status_stage less_lab_skill_status_def)

lemma validate_unit_value_ok [res_simps]:
  "validate_unit_value v = Inr u \<longleftrightarrow> is_finite_number (uv_value v) \<and> js_trim (uv_unit v) \<noteq> []"
  by (auto simp: validate_unit_value_def)

lemma validate_executable_step_valid:
  "vr_valid (validate_executable_step inp) \<longleftrightarrow> ex_skillStatus inp = Skill_ACTIVE \<and> ex_operationInstalled inp"
  by (simp add: validate_executable_step_def Let_def)

section \<open>Projections rebuilt from session events\<close>

text \<open>
  The session events these folds look at; every other event type is \<open>Lab_other\<close>.
\<close>

record evidence_projection =
  ep_projectId :: string
  ep_sessionId :: string
  ep_experimentId :: string
  ep_kind :: string
  ep_referenceId :: string
  ep_status :: string
  ep_updatedAt :: nat

datatype lab_event =
  Lab_cache_projected experiment_cache_projection
  | Lab_evidence_projected evidence_projection
  | Lab_other

fun rebuild_cache_from ::
  "experiment_cache_projection option \<Rightarrow> string option \<Rightarrow> lab_event list \<Rightarrow> experiment_cache_projection option"
where
  "rebuild_cache_from proj eid [] = proj"
| "rebuild_cache_from proj eid (Lab_cache_projected p # es) =
     (if eid \<noteq> None \<and> Some (ec_experimentId p) \<noteq> eid then rebuild_cache_from proj eid es
      else rebuild_cache_from (Some p) eid es)"
| "rebuild_cache_from proj eid (_ # es) = rebuild_cache_from proj eid es"

definition rebuild_experiment_cache ::
  "lab_event list \<Rightarrow> string option \<Rightarrow> experiment_cache_projection option" where
  "rebuild_experiment_cache events eid = rebuild_cache_from None eid events"

definition evidence_key :: "evidence_projection \<Rightarrow> string" where
  "evidence_key p = ep_projectId p @ '':'' @ ep_kind p @ '':'' @ ep_referenceId p"

fun rebuild_evidence_from ::
  "(string \<times> evidence_projection) list \<Rightarrow> string option \<Rightarrow> lab_event list \<Rightarrow> (string \<times> evidence_projection) list"
where
  "rebuild_evidence_from latest pid [] = latest"
| "rebuild_evidence_from latest pid (Lab_evidence_projected p # es) =
     (if pid \<noteq> None \<and> Some (ep_projectId p) \<noteq> pid then rebuild_evidence_from latest pid es
      else rebuild_evidence_from (js_set (evidence_key p) p latest) pid es)"
| "rebuild_evidence_from latest pid (_ # es) = rebuild_evidence_from latest pid es"

definition rebuild_project_evidence :: "lab_event list \<Rightarrow> string option \<Rightarrow> evidence_projection list" where
  "rebuild_project_evidence events pid = js_values (rebuild_evidence_from [] pid events)"

text \<open>Specification: the last matching projection of the log.\<close>

fun matching_caches :: "string option \<Rightarrow> lab_event list \<Rightarrow> experiment_cache_projection list" where
  "matching_caches eid [] = []"
| "matching_caches eid (Lab_cache_projected p # es) =
     (if eid = None \<or> eid = Some (ec_experimentId p) then p # matching_caches eid es
      else matching_caches eid es)"
| "matching_caches eid (_ # es) = matching_caches eid es"

fun matching_evidence :: "string option \<Rightarrow> lab_event list \<Rightarrow> evidence_projection list" where
  "matching_evidence pid [] = []"
| "matching_evidence pid (Lab_evidence_projected p # es) =
     (if pid = None \<or> pid = Some (ep_projectId p) then p # matching_evidence pid es
      else matching_evidence pid es)"
| "matching_evidence pid (_ # es) = matching_evidence pid es"

lemma rebuild_cache_from_last:
  "rebuild_cache_from proj eid es =
     (if matching_caches eid es = [] then proj else Some (last (matching_caches eid es)))"
  by (induction proj eid es rule: rebuild_cache_from.induct) auto

lemma rebuild_evidence_from_get:
  "map_of (rebuild_evidence_from latest pid es) k =
     (case find (\<lambda>p. evidence_key p = k) (rev (matching_evidence pid es)) of
        Some p \<Rightarrow> Some p | None \<Rightarrow> map_of latest k)"
proof (induction latest pid es rule: rebuild_evidence_from.induct)
  case (2 latest pid p es)
  have find_snoc: "find P (xs @ [x]) = (case find P xs of Some y \<Rightarrow> Some y | None \<Rightarrow> if P x then Some x else None)"
    for P :: "evidence_projection \<Rightarrow> bool" and xs x
    by (induction xs) simp_all
  from 2 show ?case by (auto simp: find_snoc split: option.splits)
qed auto

lemma rebuild_evidence_distinct:
  "distinct (map fst latest) \<Longrightarrow> distinct (map fst (rebuild_evidence_from latest pid es))"
  by (induction latest pid es rule: rebuild_evidence_from.induct) (simp_all add: distinct_update)

lemma rebuild_evidence_keys:
  "\<forall>(k, p) \<in> set latest. k = evidence_key p \<Longrightarrow>
   \<forall>(k, p) \<in> set (rebuild_evidence_from latest pid es). k = evidence_key p"
proof (induction latest pid es rule: rebuild_evidence_from.induct)
  case (2 latest pid p es)
  have "set (AList.update (evidence_key p) p latest) \<subseteq> insert (evidence_key p, p) (set latest)"
    by (induction latest) auto
  with 2 show ?case by auto
qed auto

text \<open>
  Replaying the session log rebuilds exactly the last cache projection recorded for the
  requested experiment (for any experiment when none is requested), and nothing when there is
  none.
\<close>

theorem rebuild_experiment_cache_last:
  "rebuild_experiment_cache es eid =
     (if matching_caches eid es = [] then None else Some (last (matching_caches eid es)))"
  by (simp add: rebuild_experiment_cache_def rebuild_cache_from_last)

end
