(* ===== verification/GraphSearch.thy ===== *)
theory GraphSearch
  imports Prelude
begin

text \<open>
  Facts on dependency graphs that the two depth-first cycle searches of the program share (plan
  steps in \<open>lab-domain\<close>, team tasks in \<open>agent-team\<close>): a graph is a successor function, a list is
  in finishing order when the successors of each of its elements stand before it, and a set that
  has a finishing order carries no cycle.
\<close>

definition edges :: "('a \<Rightarrow> 'a list) \<Rightarrow> 'a set \<Rightarrow> ('a \<times> 'a) set" where
  "edges succs V = {(x, y). x \<in> V \<and> y \<in> V \<and> y \<in> set (succs x)}"

fun finishing_order :: "('a \<Rightarrow> 'a list) \<Rightarrow> 'a set \<Rightarrow> 'a list \<Rightarrow> bool" where
  "finishing_order succs V [] = True"
| "finishing_order succs V (x # xs) =
     (set (succs x) \<inter> V \<subseteq> set xs \<and> x \<notin> set xs \<and> finishing_order succs V xs)"

text \<open>The most recently finished node is at the head.\<close>

lemma finishing_order_step:
  "finishing_order succs V xs \<Longrightarrow> x \<in> set xs \<Longrightarrow> (x, y) \<in> edges succs V \<Longrightarrow> y \<in> set xs"
  by (induction xs) (auto simp: edges_def)

lemma finishing_order_distinct: "finishing_order succs V xs \<Longrightarrow> distinct xs"
  by (induction xs) auto

lemma finishing_order_trancl:
  assumes "(x, y) \<in> (edges succs V)\<^sup>+" "finishing_order succs V (x # xs)"
  shows "y \<in> set xs"
proof -
  from assms(1) show ?thesis
  proof (induction rule: trancl_induct)
    case (base y)
    with assms(2) show ?case by (auto simp: edges_def)
  next
    case (step y z)
    with assms(2) finishing_order_step [of succs V xs y z] show ?case by simp
  qed
qed

lemma finishing_order_acyclic_at:
  "finishing_order succs V xs \<Longrightarrow> x \<in> set xs \<Longrightarrow> (x, x) \<notin> (edges succs V)\<^sup>+"
proof (induction xs)
  case (Cons z zs)
  show ?case
  proof (cases "x = z")
    case True
    with Cons.prems finishing_order_trancl [of z z succs V zs] show ?thesis by auto
  next
    case False
    with Cons show ?thesis by auto
  qed
qed simp

lemma edges_trancl_dom: "(x, y) \<in> (edges succs V)\<^sup>+ \<Longrightarrow> x \<in> V"
  by (induction rule: trancl_induct) (auto simp: edges_def)

lemma finishing_order_acyclic:
  assumes "finishing_order succs V xs" "V \<subseteq> set xs"
  shows "acyclic (edges succs V)"
  using assms finishing_order_acyclic_at edges_trancl_dom
  by (fastforce simp: acyclic_def)

text \<open>The active path of a search, innermost node first.\<close>

fun active_path :: "('a \<Rightarrow> 'a list) \<Rightarrow> 'a set \<Rightarrow> 'a list \<Rightarrow> bool" where
  "active_path succs V [] = True"
| "active_path succs V [x] = (x \<in> V)"
| "active_path succs V (x # y # xs) = (x \<in> V \<and> x \<in> set (succs y) \<and> active_path succs V (y # xs))"

lemma active_path_reach:
  "active_path succs V (x # xs) \<Longrightarrow> y \<in> set (x # xs) \<Longrightarrow> (y, x) \<in> (edges succs V)\<^sup>*"
proof (induction xs arbitrary: x)
  case (Cons z zs)
  then have zx: "(z, x) \<in> edges succs V"
    by (cases zs) (auto simp: edges_def)
  show ?case
  proof (cases "y = x")
    case False
    with Cons have "(y, z) \<in> (edges succs V)\<^sup>*" by auto
    from this zx show ?thesis by (rule rtrancl.rtrancl_into_rtrancl)
  qed simp
qed simp

lemma active_path_cycle:
  assumes "active_path succs V (x # xs)" "y \<in> set (x # xs)" "y \<in> set (succs x)"
  shows "\<not> acyclic (edges succs V)"
proof -
  from assms(1,2) have "(y, x) \<in> (edges succs V)\<^sup>*" by (rule active_path_reach)
  moreover have "y \<in> V" using assms(1,2)
  proof (induction xs arbitrary: x)
    case (Cons z zs)
    then show ?case by (cases zs) auto
  qed simp
  moreover have "x \<in> V" using assms(1) by (cases xs) auto
  ultimately have "(x, x) \<in> (edges succs V)\<^sup>+"
    using assms(3) by (auto simp: edges_def intro: rtrancl_into_trancl2)
  then show ?thesis by (auto simp: acyclic_def)
qed

text \<open>Threading a partial state transformer over a list.\<close>

fun fold_opt :: "('a \<Rightarrow> 's \<Rightarrow> 's option) \<Rightarrow> 'a list \<Rightarrow> 's \<Rightarrow> 's option" where
  "fold_opt f [] s = Some s"
| "fold_opt f (x # xs) s = (case f x s of None \<Rightarrow> None | Some s' \<Rightarrow> fold_opt f xs s')"

lemma fold_opt_cong [fundef_cong]:
  "xs = ys \<Longrightarrow> s = t \<Longrightarrow> (\<And>x u. x \<in> set ys \<Longrightarrow> f x u = g x u) \<Longrightarrow> fold_opt f xs s = fold_opt g ys t"
  by (induction ys arbitrary: xs s t) (auto split: option.splits)

lemma fold_opt_inv:
  assumes "fold_opt f xs s = Some t" "I s"
    and "\<And>x u v. x \<in> set xs \<Longrightarrow> I u \<Longrightarrow> f x u = Some v \<Longrightarrow> I v"
  shows "I t"
  using assms
proof (induction xs arbitrary: s)
  case (Cons x xs)
  then obtain u where u: "f x s = Some u" "fold_opt f xs u = Some t"
    by (auto split: option.splits)
  from Cons.prems(3) [OF _ Cons.prems(2) u(1)] have "I u" by simp
  from Cons.IH [OF u(2) this] Cons.prems(3) show ?case by auto
qed simp

lemma fold_opt_total:
  assumes "\<And>x u. x \<in> set xs \<Longrightarrow> I u \<Longrightarrow> \<exists>v. f x u = Some v \<and> I v" "I s"
  shows "\<exists>t. fold_opt f xs s = Some t \<and> I t"
  using assms by (induction xs arbitrary: s) (fastforce split: option.splits)+

end
