(* ===== verification/LabValidation.thy ===== *)
theory LabValidation
  imports LabDomain GraphSearch
begin

text \<open>
  The deterministic plan validator of \<open>packages/experimental/lab-domain/src/validation.ts\<close>: the
  per-step checks, the parameter constraints with their little unit and comparison language, and
  the dependency-cycle search. Each TypeScript function that pushes onto the shared \<open>issues\<close>
  array returns the list it pushes; the caller concatenates them in the order of the calls.
\<close>

section \<open>Constraint language\<close>

text \<open>The micro sign (U+00B5), the Greek letter mu (U+03BC) and the degree sign in UTF-8.\<close>

definition micro_sign :: string where "micro_sign = bytes [194, 181]"
definition greek_mu :: string where "greek_mu = bytes [206, 188]"
definition degree_sign :: string where "degree_sign = bytes [194, 176]"

fun replace_first :: "string \<Rightarrow> string \<Rightarrow> string \<Rightarrow> string" where
  "replace_first pat rep [] = []"
| "replace_first pat rep (c # s) =
     (if starts_with pat (c # s) then rep @ drop (length pat) (c # s)
      else c # replace_first pat rep s)"

definition normalize_unit :: "string \<Rightarrow> string" where
  "normalize_unit unit =
     (let normalized = replace_first greek_mu micro_sign (js_lower (js_trim unit)) in
      if normalized = ''ul'' then micro_sign @ ''l''
      else if normalized = ''um'' then micro_sign @ ''m''
      else if normalized = ''sec'' then ''s''
      else if normalized = ''hr'' then ''h''
      else normalized)"

definition known_units :: "string list" where
  "known_units =
     [micro_sign @ ''l'', ''ul'', ''ml'', ''nl'', ''l'', ''um'', greek_mu @ ''m'', ''mm'', ''m'',
      ''ng'', ''mg'', ''kg'', ''g'', ''min'', ''rpm'', ''sec'', ''s'', ''hr'', ''h'',
      degree_sign @ ''c'', ''c'', ''%'']"

text \<open>\<open>constraint.split(/[^a-z...]+/)\<close> with the empty tokens filtered out.\<close>

definition unit_byte :: "char \<Rightarrow> bool" where
  "unit_byte c \<longleftrightarrow> (let b = (of_char c :: nat) in 97 \<le> b \<and> b \<le> 122) \<or> c = CHR ''%''"

fun unit_tokens :: "string \<Rightarrow> string \<Rightarrow> string list" where
  "unit_tokens acc [] = (if acc = [] then [] else [acc])"
| "unit_tokens acc [c] =
     (if unit_byte c then [acc @ [c]] else if acc = [] then [] else [acc])"
| "unit_tokens acc (c # d # s) =
     (if unit_byte c then unit_tokens (acc @ [c]) (d # s)
      else if [c, d] \<in> {micro_sign, greek_mu, degree_sign} then unit_tokens (acc @ [c, d]) s
      else if acc = [] then unit_tokens [] (d # s)
      else acc # unit_tokens [] (d # s))"

definition constraint_unit :: "string \<Rightarrow> string option" where
  "constraint_unit constr =
     find (\<lambda>t. t \<in> set known_units) (map normalize_unit (unit_tokens [] constr))"

text \<open>Words of the regular expressions, matched between ASCII word boundaries.\<close>

definition is_word_char :: "char \<Rightarrow> bool" where
  "is_word_char c \<longleftrightarrow> (let b = (of_char c :: nat) in
     48 \<le> b \<and> b < 58 \<or> 65 \<le> b \<and> b \<le> 90 \<or> b = 95 \<or> 97 \<le> b \<and> b \<le> 122)"

definition at_boundary :: "string \<Rightarrow> bool" where
  "at_boundary s = (case s of [] \<Rightarrow> True | c # _ \<Rightarrow> \<not> is_word_char c)"

fun has_word :: "string list \<Rightarrow> bool \<Rightarrow> string \<Rightarrow> bool" where
  "has_word ws prev [] = False"
| "has_word ws prev (c # s) =
     (\<not> prev \<and> list_ex (\<lambda>w. starts_with w (c # s) \<and> at_boundary (drop (length w) (c # s))) ws
      \<or> has_word ws (is_word_char c) s)"

definition decimal_value :: "string \<Rightarrow> string \<Rightarrow> rat" where
  "decimal_value whole digits =
     of_nat (nat_of_digits whole) + of_nat (nat_of_digits digits) / 10 ^ length digits"

text \<open>\<open>(-?\d+(?:\.\d+)?)\<close> at the front of a string, as a number.\<close>

definition parse_decimal :: "string \<Rightarrow> rat option" where
  "parse_decimal s =
     (let negative = starts_with ''-'' s;
          body = (if negative then drop 1 s else s);
          whole = takeWhile is_digit body;
          rest = dropWhile is_digit body;
          fraction = (if starts_with ''.'' rest then takeWhile is_digit (drop 1 rest) else []);
          v = decimal_value whole fraction
      in if whole = [] then None else Some (if negative then - v else v))"

text \<open>The leftmost match of \<open>(?:k1|k2)\s*(-?\d+(?:\.\d+)?)\<close>.\<close>

definition bound_here :: "string list \<Rightarrow> string \<Rightarrow> rat option" where
  "bound_here keys s =
     (case find (\<lambda>k. starts_with k s \<and> parse_decimal (trim_start (drop (length k) s)) \<noteq> None) keys of
        None \<Rightarrow> None
      | Some k \<Rightarrow> parse_decimal (trim_start (drop (length k) s)))"

fun find_bound :: "string list \<Rightarrow> string \<Rightarrow> rat option" where
  "find_bound keys [] = None"
| "find_bound keys (c # s) =
     (case bound_here keys (c # s) of Some r \<Rightarrow> Some r | None \<Rightarrow> find_bound keys s)"

definition js_less_eq :: "js_number \<Rightarrow> js_number \<Rightarrow> bool" where
  "js_less_eq x y =
     (case (x, y) of
        (Finite a, Finite b) \<Rightarrow> a \<le> b
      | (NaN, _) \<Rightarrow> False
      | (_, NaN) \<Rightarrow> False
      | (NegInfinity, _) \<Rightarrow> True
      | (_, PosInfinity) \<Rightarrow> True
      | _ \<Rightarrow> False)"

definition js_less :: "js_number \<Rightarrow> js_number \<Rightarrow> bool" where
  "js_less x y \<longleftrightarrow> js_less_eq x y \<and> x \<noteq> y"

definition numeric_condition_for :: "string \<Rightarrow> (js_number \<Rightarrow> bool) option" where
  "numeric_condition_for constr =
     (if has_word [''non-positive'', ''non positive'', ''nonpositive''] False constr
        then Some (\<lambda>v. js_less_eq v (Finite 0))
      else if has_word [''non-negative'', ''non negative'', ''nonnegative'', ''zero or positive''] False constr
        then Some (\<lambda>v. js_less_eq (Finite 0) v)
      else if has_word [''positive'', ''greater than zero''] False constr
        then Some (\<lambda>v. js_less (Finite 0) v)
      else if has_word [''negative'', ''less than zero''] False constr
        then Some (\<lambda>v. js_less v (Finite 0))
      else case find_bound [''>='', ''at least''] constr of
        Some r \<Rightarrow> Some (\<lambda>v. js_less_eq (Finite r) v)
      | None \<Rightarrow> (case find_bound [''<='', ''at most''] constr of
          Some r \<Rightarrow> Some (\<lambda>v. js_less_eq v (Finite r))
        | None \<Rightarrow> None))"

section \<open>Step checks\<close>

definition issue :: "string \<Rightarrow> string \<Rightarrow> string \<Rightarrow> validation_issue" where
  "issue code message path = \<lparr>vi_code = code, vi_message = message, vi_path = Some path\<rparr>"

definition check :: "bool \<Rightarrow> validation_issue \<Rightarrow> validation_issue list" where
  "check bad i = (if bad then [i] else [])"

text \<open>
  A property read off a plain object reaches \<open>Object.prototype\<close> when the object has no own
  property of that name, and so does the \<open>in\<close> operator.
\<close>

definition object_prototype_names :: "string list" where
  "object_prototype_names =
     [''constructor'', ''__defineGetter__'', ''__defineSetter__'', ''hasOwnProperty'',
      ''__lookupGetter__'', ''__lookupSetter__'', ''isPrototypeOf'', ''propertyIsEnumerable'',
      ''toString'', ''valueOf'', ''__proto__'', ''toLocaleString'']"

datatype 'v js_property = Own 'v | Inherited | Missing

definition js_property_of :: "(string \<times> 'v) list \<Rightarrow> string \<Rightarrow> 'v js_property" where
  "js_property_of obj name =
     (case map_of obj name of
        Some v \<Rightarrow> Own v
      | None \<Rightarrow> if name \<in> set object_prototype_names then Inherited else Missing)"

text \<open>The value is \<open>None\<close> for an inherited member, which is neither a number, a unit value nor a string.\<close>

definition validate_parameter_value ::
  "plan_parameter option \<Rightarrow> string \<Rightarrow> string \<Rightarrow> validation_issue list" where
  "validate_parameter_value parameter constr path =
     (let normalized = js_lower (js_trim constr);
          expected_unit = constraint_unit normalized;
          condition = numeric_condition_for normalized
      in case parameter of
        Some (P_number _) \<Rightarrow> []
      | Some (P_unit v) \<Rightarrow>
          (case validate_unit_value v of
             Inl message \<Rightarrow> [issue ''PARAMETER_UNIT_INVALID'' message path]
           | Inr _ \<Rightarrow>
               check (expected_unit \<noteq> None \<and> Some (normalize_unit (uv_unit v)) \<noteq> expected_unit)
                 (issue ''PARAMETER_CONSTRAINT_VIOLATION''
                   (''parameter unit '' @ quoted (uv_unit v) @ '' does not satisfy '' @ quoted constr) path)
               @ check (case condition of None \<Rightarrow> False | Some holds \<Rightarrow> \<not> holds (uv_value v))
                   (issue ''PARAMETER_CONSTRAINT_VIOLATION''
                     (''parameter value does not satisfy '' @ quoted constr) path))
      | other \<Rightarrow>
          if condition \<noteq> None
          then [issue ''PARAMETER_CONSTRAINT_VIOLATION''
                  (''parameter must be a unit-bearing numeric value satisfying '' @ quoted constr) path]
          else check (case other of Some (P_string s) \<Rightarrow> js_trim s = [] | _ \<Rightarrow> False)
                 (issue ''PARAMETER_CONSTRAINT_VIOLATION'' ''parameter value must be non-blank'' path))"

definition constraint_entry_issues ::
  "(string \<times> plan_parameter) list \<Rightarrow> string \<Rightarrow> string \<times> string \<Rightarrow> validation_issue list" where
  "constraint_entry_issues parameters path entry =
     (let (name, constr) = entry in
      if js_trim name = [] \<or> js_trim constr = []
      then [issue ''PARAMETER_CONSTRAINT_INVALID''
              ''Skill parameter constraints must have non-blank names and values'' path]
      else case js_property_of parameters name of
        Missing \<Rightarrow> [issue ''PARAMETER_REQUIRED''
          (''parameter '' @ quoted name @ '' is required by the Skill constraint'') (path @ ''.'' @ name)]
      | Inherited \<Rightarrow> validate_parameter_value None constr (path @ ''.'' @ name)
      | Own p \<Rightarrow> validate_parameter_value (Some p) constr (path @ ''.'' @ name))"

definition validate_parameter_constraints ::
  "(string \<times> plan_parameter) list \<Rightarrow> (string \<times> string) list \<Rightarrow> string \<Rightarrow> validation_issue list" where
  "validate_parameter_constraints parameters constraints path =
     concat (map (constraint_entry_issues parameters path) constraints)
     @ concat (map (\<lambda>name. check (js_property_of constraints name = Missing)
         (issue ''PARAMETER_UNDECLARED''
           (''parameter '' @ quoted name @ '' is not declared by the Skill constraints'')
           (path @ ''.'' @ name))) (js_keys parameters))"

definition validate_device_step ::
  "plan_step \<Rightarrow> string \<Rightarrow> plan_validation_context \<Rightarrow> validation_issue list" where
  "validate_device_step step path context =
     check (\<not> ps_requiresApproval step)
       (issue ''APPROVAL_REQUIRED'' ''device steps require explicit approval'' (path @ ''.requiresApproval''))
     @ (case (ps_deviceId step, ps_deviceCapability step) of
          (Some device, Some capability) \<Rightarrow>
            if js_trim capability = []
            then [issue ''DEVICE_CAPABILITY_REQUIRED'' ''device steps require a device and capability''
                    (path @ ''.deviceCapability'')]
            else (case map_of (cx_deviceCapabilities context) device of
                None \<Rightarrow> [issue ''DEVICE_UNKNOWN''
                  (''device '' @ quoted device @ '' is not available'') (path @ ''.deviceId'')]
              | Some capabilities \<Rightarrow> check (capability \<notin> set capabilities)
                  (issue ''DEVICE_CAPABILITY_UNAVAILABLE''
                    (''device '' @ quoted device @ '' does not provide capability '' @ quoted capability)
                    (path @ ''.deviceCapability'')))
        | _ \<Rightarrow> [issue ''DEVICE_CAPABILITY_REQUIRED'' ''device steps require a device and capability''
                  (path @ ''.deviceCapability'')])"

definition parameter_entry_issues :: "string \<Rightarrow> string \<times> plan_parameter \<Rightarrow> validation_issue list" where
  "parameter_entry_issues path entry =
     (let (name, parameter) = entry in
      case parameter of
        P_number _ \<Rightarrow> [issue ''PARAMETER_UNIT_REQUIRED''
          (''parameter '' @ quoted name @ '' must include a unit'') (path @ ''.parameters.'' @ name)]
      | P_unit v \<Rightarrow> (case validate_unit_value v of
            Inl message \<Rightarrow> [issue ''PARAMETER_UNIT_INVALID'' message (path @ ''.parameters.'' @ name)]
          | Inr _ \<Rightarrow> [])
      | _ \<Rightarrow> [])"

definition skill_issues :: "plan_step \<Rightarrow> string \<Rightarrow> plan_validation_context \<Rightarrow> validation_issue list" where
  "skill_issues step path context =
     (case map_of (cx_skillStatuses context) (ps_skillRevisionId step) of
        None \<Rightarrow> [issue ''SKILL_REVISION_UNKNOWN''
          (''Skill revision '' @ quoted (ps_skillRevisionId step) @ '' is not available'')
          (path @ ''.skillRevisionId'')]
      | Some status \<Rightarrow>
          (let result = validate_executable_step
                 \<lparr>ex_skillStatus = status, ex_operationKind = ps_operationKind step,
                  ex_operationInstalled = True\<rparr>
           in (if \<not> vr_valid result
               then map (\<lambda>i. i\<lparr>vi_path := Some (path @ ''.skillRevisionId'')\<rparr>) (vr_issues result)
               else [])
              @ (case map_of (cx_skillParameterConstraints context) (ps_skillRevisionId step) of
                   None \<Rightarrow> [issue ''SKILL_CONSTRAINTS_UNKNOWN''
                     (''parameter constraints for Skill revision '' @ quoted (ps_skillRevisionId step)
                      @ '' are not available'') (path @ ''.skillRevisionId'')]
                 | Some constraints \<Rightarrow>
                     validate_parameter_constraints (ps_parameters step) constraints
                       (path @ ''.parameters''))))"

definition operation_key :: "operation_kind \<Rightarrow> string \<Rightarrow> string" where
  "operation_key kind resource = operation_kind_name kind @ '':'' @ resource"

definition validate_step ::
  "plan_step \<Rightarrow> string \<Rightarrow> string list \<Rightarrow> string list \<Rightarrow> plan_validation_context \<Rightarrow> validation_issue list" where
  "validate_step step path step_ids plan_citation_ids context =
     check (js_trim (ps_title step) = [])
       (issue ''STEP_TITLE_REQUIRED'' ''step title must be non-blank'' (path @ ''.title''))
     @ check (ps_citations step = [])
         (issue ''CITATION_REQUIRED'' ''step must contain at least one knowledge citation''
           (path @ ''.citations''))
     @ concat (map (\<lambda>c.
         check (c \<notin> set (cx_availableCitations context))
           (issue ''CITATION_UNKNOWN'' (''step citation '' @ c @ '' is not in the retrieved context'')
             (path @ ''.citations''))
         @ check (c \<notin> set plan_citation_ids)
             (issue ''CITATION_NOT_IN_PLAN'' (''step citation '' @ c @ '' is not listed in plan citations'')
               (path @ ''.citations''))) (ps_citations step))
     @ concat (map (\<lambda>i. check (i \<notin> set (cx_availableInputs context))
         (issue ''REQUIRED_INPUT_MISSING'' (''required input '' @ quoted i @ '' is not available'')
           (path @ ''.requiredInputs''))) (ps_requiredInputs step))
     @ skill_issues step path context
     @ (if js_trim (ps_operationResource step) = []
        then [issue ''OPERATION_RESOURCE_REQUIRED'' ''operation resource must be non-blank''
                (path @ ''.operationResource'')]
        else check (operation_key (ps_operationKind step) (ps_operationResource step)
                      \<notin> set (cx_installedOperations context))
               (issue ''OPERATION_NOT_INSTALLED''
                 (''operation '' @ operation_key (ps_operationKind step) (ps_operationResource step)
                  @ '' is not installed and approved'') (path @ ''.operationResource'')))
     @ (if ps_operationKind step = Op_device then validate_device_step step path context else [])
     @ concat (map (parameter_entry_issues path) (ps_parameters step))
     @ concat (map (\<lambda>d. check (d \<notin> set step_ids)
         (issue ''DEPENDENCY_UNKNOWN'' (''dependency '' @ quoted d @ '' is not present in the plan'')
           (path @ ''.dependencies''))) (ps_dependencies step))"

section \<open>Dependencies\<close>

definition step_path :: "nat \<Rightarrow> string" where
  "step_path index = ''steps['' @ str_of_nat index @ '']''"

definition validate_dependency_references :: "plan_step list \<Rightarrow> validation_issue list" where
  "validate_dependency_references steps =
     concat (map (\<lambda>(index, step).
       concat (map (\<lambda>d. check (d = ps_stepId step)
         (issue ''DEPENDENCY_SELF'' ''step cannot depend on itself'' (step_path index @ ''.dependencies'')))
         (ps_dependencies step))) (enumerate 0 steps))"

definition step_graph :: "plan_step list \<Rightarrow> (string \<times> string list) list" where
  "step_graph steps = foldl (\<lambda>g s. js_set (ps_stepId s) (ps_dependencies s) g) [] steps"

record cycle_state =
  cy_visiting :: "string list"
  cy_visited :: "string list"
  cy_reported :: "string list"
  cy_issues :: "validation_issue list"

definition graph_succs :: "(string \<times> string list) list \<Rightarrow> string \<Rightarrow> string list" where
  "graph_succs g k = (case map_of g k of None \<Rightarrow> [] | Some ds \<Rightarrow> ds)"

text \<open>
  The recursive closure \<open>visit\<close>. Every nested call enters a node that is not yet on the active
  path, so one more unit of fuel than there are nodes is enough (\<open>cycle_search_total\<close>).
\<close>

primrec visit_step ::
  "nat \<Rightarrow> (string \<times> string list) list \<Rightarrow> string \<Rightarrow> cycle_state \<Rightarrow> cycle_state option" where
  "visit_step 0 g stepId st = None"
| "visit_step (Suc fuel) g stepId st =
     (if stepId \<in> set (cy_visited st) then Some st
      else if stepId \<in> set (cy_visiting st) then
        Some (if stepId \<notin> set (cy_reported st)
              then st\<lparr>cy_issues := cy_issues st @ [issue ''DEPENDENCY_CYCLE''
                        (''dependency cycle includes step '' @ quoted stepId) ''steps''],
                      cy_reported := stepId # cy_reported st\<rparr>
              else st)
      else
        (case fold_opt (\<lambda>d u. if js_has g d then visit_step fuel g d u else Some u)
                (graph_succs g stepId) (st\<lparr>cy_visiting := stepId # cy_visiting st\<rparr>) of
           None \<Rightarrow> None
         | Some u \<Rightarrow> Some (u\<lparr>cy_visiting := removeAll stepId (cy_visiting u),
                              cy_visited := stepId # cy_visited u\<rparr>)))"

definition empty_cycle_state :: cycle_state where
  "empty_cycle_state = \<lparr>cy_visiting = [], cy_visited = [], cy_reported = [], cy_issues = []\<rparr>"

definition cycle_search :: "plan_step list \<Rightarrow> cycle_state option" where
  "cycle_search steps =
     (let g = step_graph steps in
      fold_opt (\<lambda>s st. visit_step (Suc (length g)) g (ps_stepId s) st) steps empty_cycle_state)"

definition validate_dependency_cycles :: "plan_step list \<Rightarrow> validation_issue list" where
  "validate_dependency_cycles steps =
     (case cycle_search steps of None \<Rightarrow> [] | Some st \<Rightarrow> cy_issues st)"

section \<open>The plan\<close>

definition citation_issues :: "experiment_plan \<Rightarrow> plan_validation_context \<Rightarrow> validation_issue list" where
  "citation_issues plan context =
     concat (map (\<lambda>(index, c).
       check (c \<notin> set (cx_availableCitations context))
         (issue ''CITATION_UNKNOWN'' (''plan citation '' @ c @ '' is not in the retrieved context'') ''citations'')
       @ check (find_index (\<lambda>d. d = c) (pl_citations plan) \<noteq> Some index)
           (issue ''CITATION_DUPLICATE'' ''plan citations must be unique''
             (''citations['' @ str_of_nat index @ '']''))) (enumerate 0 (pl_citations plan)))
     @ concat (map (\<lambda>c. check (c \<notin> set (pl_citations plan))
         (issue ''CITATION_SOURCE_MISSING'' (''plan is missing required source citation '' @ c) ''citations''))
         (case cx_requiredCitations context of None \<Rightarrow> [] | Some cs \<Rightarrow> cs))
     @ check (pl_citations plan = [])
         (issue ''CITATION_REQUIRED'' ''plan must contain at least one knowledge citation'' ''citations'')"

text \<open>The loop that builds the map of known steps: a repeated step id is reported, the first one kept.\<close>

fun duplicate_step_issues :: "string list \<Rightarrow> (nat \<times> plan_step) list \<Rightarrow> validation_issue list" where
  "duplicate_step_issues seen [] = []"
| "duplicate_step_issues seen ((index, step) # rest) =
     (if ps_stepId step \<in> set seen
      then issue ''STEP_ID_DUPLICATE'' (''step id '' @ quoted (ps_stepId step) @ '' is duplicated'')
             (step_path index @ ''.stepId'') # duplicate_step_issues seen rest
      else duplicate_step_issues (ps_stepId step # seen) rest)"

definition positive_integer_number :: "js_number \<Rightarrow> bool" where
  "positive_integer_number x \<longleftrightarrow> is_integer_number x \<and> js_less_eq (Finite 1) x"

definition validate_experiment_plan ::
  "experiment_plan \<Rightarrow> plan_validation_context \<Rightarrow> plan_validation_result" where
  "validate_experiment_plan plan context =
     (let steps = pl_steps plan;
          step_ids = map ps_stepId steps;
          issues =
            check (pl_status plan \<noteq> Plan_DRAFT)
              (issue ''PLAN_STATUS_INVALID''
                ''only a DRAFT plan revision can enter deterministic validation'' ''status'')
            @ check (\<not> positive_integer_number (pl_revision plan))
                (issue ''PLAN_REVISION_INVALID'' ''plan revision must be a positive integer'' ''revision'')
            @ check (js_trim (pl_objective plan) = [])
                (issue ''OBJECTIVE_REQUIRED'' ''plan objective must be non-blank'' ''objective'')
            @ citation_issues plan context
            @ check (pl_unresolved plan \<noteq> [])
                (issue ''UNRESOLVED_INFORMATION'' ''plan contains unresolved information'' ''unresolved'')
            @ check (steps = [])
                (issue ''STEP_REQUIRED'' ''plan must contain at least one step'' ''steps'')
            @ duplicate_step_issues [] (enumerate 0 steps)
            @ concat (map (\<lambda>(index, step).
                validate_step step (step_path index) step_ids (pl_citations plan) context) (enumerate 0 steps))
            @ validate_dependency_references steps
            @ validate_dependency_cycles steps
      in \<lparr>pv_planId = pl_planId plan, pv_revision = pl_revision plan,
          pv_valid = (issues = []), pv_issues = issues\<rparr>)"

section \<open>The cycle search is total and exact\<close>

definition step_nodes :: "(string \<times> string list) list \<Rightarrow> string set" where
  "step_nodes g = dom (map_of g)"

lemma finite_step_nodes [simp]: "finite (step_nodes g)"
  by (simp add: step_nodes_def finite_dom_map_of)

lemma step_nodes_iff: "k \<in> step_nodes g \<longleftrightarrow> js_has g k"
  by (auto simp: step_nodes_def)

lemma card_step_nodes: "card (step_nodes g) \<le> length g"
proof -
  have "step_nodes g = fst ` set g" by (simp add: step_nodes_def dom_map_of_conv_image_fst)
  then show ?thesis by (metis card_image_le card_length le_trans List.finite_set)
qed

lemma step_graph_nodes: "step_nodes (step_graph steps) = ps_stepId ` set steps"
proof -
  have "step_nodes (foldl (\<lambda>g s. AList.update (ps_stepId s) (ps_dependencies s) g) g0 steps)
        = step_nodes g0 \<union> ps_stepId ` set steps" for g0
    by (induction steps arbitrary: g0) (auto simp: step_nodes_def update_conv')
  then show ?thesis by (simp add: step_graph_def step_nodes_def)
qed

lemma visit_step_total:
  assumes "stepId \<in> step_nodes g" "set (cy_visiting st) \<subseteq> step_nodes g"
    "card (step_nodes g - set (cy_visiting st)) < fuel"
  shows "\<exists>st'. visit_step fuel g stepId st = Some st' \<and> cy_visiting st' = cy_visiting st"
  using assms
proof (induction fuel arbitrary: stepId st)
  case (Suc fuel)
  show ?case
  proof (cases "stepId \<in> set (cy_visited st) \<or> stepId \<in> set (cy_visiting st)")
    case False
    let ?vs = "stepId # cy_visiting st"
    let ?f = "\<lambda>d u. if js_has g d then visit_step fuel g d u else Some u"
    have "step_nodes g - set ?vs \<subset> step_nodes g - set (cy_visiting st)"
      using False Suc.prems(1) by auto
    then have card: "card (step_nodes g - set ?vs) < fuel"
      using Suc.prems(3) psubset_card_mono [of "step_nodes g - set (cy_visiting st)"] by fastforce
    have "\<exists>u. fold_opt ?f (graph_succs g stepId) (st\<lparr>cy_visiting := ?vs\<rparr>) = Some u \<and> cy_visiting u = ?vs"
    proof (rule fold_opt_total [where I = "\<lambda>u :: cycle_state. cy_visiting u = ?vs"])
      fix d and u :: cycle_state assume u: "cy_visiting u = ?vs"
      show "\<exists>v. ?f d u = Some v \<and> cy_visiting v = ?vs"
        using Suc.IH [of d u] Suc.prems u card by (auto simp: step_nodes_iff)
    qed simp
    with False show ?thesis by auto
  qed auto
qed simp

text \<open>What one call adds to the state when nothing is reported, and what a report means.\<close>

definition quiet :: "(string \<times> string list) list \<Rightarrow> cycle_state \<Rightarrow> bool" where
  "quiet g st \<longleftrightarrow> finishing_order (graph_succs g) (step_nodes g) (cy_visited st)
     \<and> set (cy_visiting st) \<inter> set (cy_visited st) = {}"

definition honest :: "(string \<times> string list) list \<Rightarrow> cycle_state \<Rightarrow> bool" where
  "honest g st \<longleftrightarrow>
     (cy_reported st = [] \<longleftrightarrow> cy_issues st = [])
     \<and> (cy_reported st \<noteq> [] \<longrightarrow> \<not> acyclic (edges (graph_succs g) (step_nodes g)))"

lemma visit_step_honest:
  assumes "visit_step fuel g stepId st = Some st'" "honest g st"
    "stepId \<in> step_nodes g" "active_path (graph_succs g) (step_nodes g) (cy_visiting st)"
    "cy_visiting st = [] \<or> stepId \<in> set (graph_succs g (hd (cy_visiting st)))"
  shows "honest g st' \<and> cy_visiting st' = cy_visiting st"
  using assms
proof (induction fuel arbitrary: stepId st st')
  case (Suc fuel)
  let ?vs = "stepId # cy_visiting st"
  let ?f = "\<lambda>d u. if js_has g d then visit_step fuel g d u else Some u"
  consider (known) "stepId \<in> set (cy_visited st)"
    | (hit) "stepId \<notin> set (cy_visited st)" "stepId \<in> set (cy_visiting st)"
    | (enter) "stepId \<notin> set (cy_visited st)" "stepId \<notin> set (cy_visiting st)" by blast
  then show ?case
  proof cases
    case hit
    then obtain x xs where vs: "cy_visiting st = x # xs" by (cases "cy_visiting st") auto
    then have "\<not> acyclic (edges (graph_succs g) (step_nodes g))"
      using active_path_cycle [of "graph_succs g" "step_nodes g" x xs stepId] hit Suc.prems by auto
    with hit Suc.prems show ?thesis by (auto simp: honest_def split: if_splits)
  next
    case enter
    then obtain u where u: "fold_opt ?f (graph_succs g stepId) (st\<lparr>cy_visiting := ?vs\<rparr>) = Some u"
      and st': "st' = u\<lparr>cy_visiting := removeAll stepId (cy_visiting u), cy_visited := stepId # cy_visited u\<rparr>"
      using Suc.prems(1) by (auto split: option.splits)
    have path: "active_path (graph_succs g) (step_nodes g) ?vs"
      using Suc.prems(3-5) by (cases "cy_visiting st") auto
    have "honest g u \<and> cy_visiting u = ?vs"
    proof (rule fold_opt_inv [OF u])
      show "honest g (st\<lparr>cy_visiting := ?vs\<rparr>) \<and> cy_visiting (st\<lparr>cy_visiting := ?vs\<rparr>) = ?vs"
        using Suc.prems(2) by (simp add: honest_def)
      fix d a b
      assume "d \<in> set (graph_succs g stepId)" "honest g a \<and> cy_visiting a = ?vs" "?f d a = Some b"
      then show "honest g b \<and> cy_visiting b = ?vs"
        using Suc.IH [of d a b] path by (auto simp: step_nodes_iff split: if_splits)
    qed
    with st' enter show ?thesis by (simp add: honest_def)
  qed (use Suc.prems in auto)
qed simp

lemma visit_step_reported: "visit_step fuel g stepId st = Some st' \<Longrightarrow> cy_reported st' = [] \<Longrightarrow> cy_reported st = []"
proof (induction fuel arbitrary: stepId st st')
  case (Suc fuel)
  let ?f = "\<lambda>d u. if js_has g d then visit_step fuel g d u else Some u"
  have reported_back: "fold_opt ?f ds a = Some b \<Longrightarrow> cy_reported b = [] \<Longrightarrow> cy_reported a = []" for ds a b
    using Suc.IH by (induction ds arbitrary: a) (auto split: option.splits if_splits)
  show ?case
    using Suc.prems reported_back by (auto split: if_splits option.splits) fastforce
qed simp

lemma visit_step_quiet:
  assumes "visit_step fuel g stepId st = Some st'" "cy_reported st' = []" "quiet g st"
    "stepId \<in> step_nodes g"
  shows "quiet g st' \<and> stepId \<in> set (cy_visited st') \<and> set (cy_visited st) \<subseteq> set (cy_visited st')
    \<and> cy_visiting st' = cy_visiting st"
  using assms
proof (induction fuel arbitrary: stepId st st')
  case (Suc fuel)
  let ?vs = "stepId # cy_visiting st"
  let ?f = "\<lambda>d u. if js_has g d then visit_step fuel g d u else Some u"
  show ?case
  proof (cases "stepId \<in> set (cy_visited st) \<or> stepId \<in> set (cy_visiting st)")
    case True
    with Suc.prems show ?thesis by (auto split: if_splits)
  next
    case False
    then obtain u where u: "fold_opt ?f (graph_succs g stepId) (st\<lparr>cy_visiting := ?vs\<rparr>) = Some u"
      and st': "st' = u\<lparr>cy_visiting := removeAll stepId (cy_visiting u), cy_visited := stepId # cy_visited u\<rparr>"
      using Suc.prems(1) by (auto split: option.splits)
    have fold: "fold_opt ?f ds a = Some b \<Longrightarrow> cy_reported b = [] \<Longrightarrow> quiet g a \<Longrightarrow>
        quiet g b \<and> set ds \<inter> step_nodes g \<subseteq> set (cy_visited b) \<and> set (cy_visited a) \<subseteq> set (cy_visited b)
        \<and> cy_visiting b = cy_visiting a" for ds a b
    proof (induction ds arbitrary: a)
      case (Cons d ds)
      then obtain c where c: "?f d a = Some c" "fold_opt ?f ds c = Some b"
        by (auto split: option.splits)
      have rep: "cy_reported c = []"
        using c(2) Cons.prems(2) visit_step_reported
        by (induction ds arbitrary: c) (auto split: option.splits if_splits)
      have "quiet g c \<and> {d} \<inter> step_nodes g \<subseteq> set (cy_visited c) \<and> set (cy_visited a) \<subseteq> set (cy_visited c)
        \<and> cy_visiting c = cy_visiting a"
        using c(1) Suc.IH [OF _ rep Cons.prems(3), of d] Cons.prems(3)
        by (auto simp: step_nodes_iff split: if_splits)
      with Cons.IH [OF c(2) Cons.prems(2)] show ?case by auto
    qed simp
    have "quiet g (st\<lparr>cy_visiting := ?vs\<rparr>)"
      using Suc.prems(3) False by (auto simp: quiet_def)
    from fold [OF u _ this] Suc.prems(2) st'
    have "quiet g u" "set (graph_succs g stepId) \<inter> step_nodes g \<subseteq> set (cy_visited u)"
      "set (cy_visited st) \<subseteq> set (cy_visited u)" "cy_visiting u = ?vs" by auto
    with st' False show ?thesis by (auto simp: quiet_def)
  qed
qed simp

lemma cycle_search_total: "\<exists>st. cycle_search steps = Some st"
proof -
  let ?g = "step_graph steps"
  have "\<exists>st. fold_opt (\<lambda>s st. visit_step (Suc (length ?g)) ?g (ps_stepId s) st) steps empty_cycle_state
      = Some st \<and> cy_visiting st = []"
  proof (rule fold_opt_total [where I = "\<lambda>u :: cycle_state. cy_visiting u = []"])
    fix s and u :: cycle_state assume "s \<in> set steps" "cy_visiting u = []"
    then show "\<exists>v. visit_step (Suc (length ?g)) ?g (ps_stepId s) u = Some v \<and> cy_visiting v = []"
      using visit_step_total [of "ps_stepId s" ?g u "Suc (length ?g)"] card_step_nodes [of ?g]
      by (auto simp: step_graph_nodes simp del: visit_step.simps)
  qed (simp add: empty_cycle_state_def)
  then show ?thesis by (auto simp: cycle_search_def Let_def)
qed

definition dependency_edges :: "plan_step list \<Rightarrow> (string \<times> string) set" where
  "dependency_edges steps =
     edges (graph_succs (step_graph steps)) (step_nodes (step_graph steps))"

lemma cycle_search_reports:
  assumes "cycle_search steps = Some st"
  shows "cy_issues st = [] \<longleftrightarrow> acyclic (dependency_edges steps)"
proof -
  let ?g = "step_graph steps"
  let ?run = "fold_opt (\<lambda>s u. visit_step (Suc (length ?g)) ?g (ps_stepId s) u)"
  from assms have run: "?run steps empty_cycle_state = Some st"
    by (simp add: cycle_search_def Let_def)
  have "honest ?g st \<and> cy_visiting st = []"
  proof (rule fold_opt_inv [OF run])
    show "honest ?g empty_cycle_state \<and> cy_visiting empty_cycle_state = []"
      by (simp add: honest_def empty_cycle_state_def)
    fix s a b
    assume "s \<in> set steps" "honest ?g a \<and> cy_visiting a = []"
      "visit_step (Suc (length ?g)) ?g (ps_stepId s) a = Some b"
    then show "honest ?g b \<and> cy_visiting b = []"
      using visit_step_honest [of "Suc (length ?g)" ?g "ps_stepId s" a b]
      by (simp add: step_graph_nodes del: visit_step.simps)
  qed
  moreover have "acyclic (dependency_edges steps)" if "cy_reported st = []"
  proof -
    have fold: "?run ss a = Some b \<Longrightarrow> cy_reported b = [] \<Longrightarrow> quiet ?g a \<Longrightarrow> set ss \<subseteq> set steps \<Longrightarrow>
        quiet ?g b \<and> ps_stepId ` set ss \<subseteq> set (cy_visited b) \<and> set (cy_visited a) \<subseteq> set (cy_visited b)"
      for ss a b
    proof (induction ss arbitrary: a)
      case (Cons s ss)
      then obtain c where c: "visit_step (Suc (length ?g)) ?g (ps_stepId s) a = Some c" "?run ss c = Some b"
        by (auto simp del: visit_step.simps split: option.splits)
      have rep: "cy_reported c = []"
        using c(2) Cons.prems(2) visit_step_reported
        by (induction ss arbitrary: c) (auto simp del: visit_step.simps split: option.splits)
      from visit_step_quiet [OF c(1) rep Cons.prems(3)] Cons.prems(4) Cons.IH [OF c(2) Cons.prems(2)]
      show ?case by (auto simp: step_graph_nodes)
    qed simp
    have "quiet ?g empty_cycle_state" by (simp add: quiet_def empty_cycle_state_def)
    from fold [OF run that this] show ?thesis
      unfolding dependency_edges_def
      by (intro finishing_order_acyclic [where xs = "cy_visited st"]) (auto simp: quiet_def step_graph_nodes)
  qed
  ultimately show ?thesis by (auto simp: honest_def dependency_edges_def)
qed

lemma validate_dependency_cycles_acyclic:
  "validate_dependency_cycles steps = [] \<longleftrightarrow> acyclic (dependency_edges steps)"
  using cycle_search_total [of steps] cycle_search_reports [of steps]
  by (auto simp: validate_dependency_cycles_def)

section \<open>What a valid plan is\<close>

definition parameter_conforms :: "string \<Rightarrow> plan_parameter option \<Rightarrow> bool" where
  "parameter_conforms constr parameter \<longleftrightarrow>
     (let normalized = js_lower (js_trim constr) in
      case parameter of
        Some (P_number _) \<Rightarrow> True
      | Some (P_unit v) \<Rightarrow>
          is_finite_number (uv_value v) \<and> js_trim (uv_unit v) \<noteq> []
          \<and> (\<forall>u. constraint_unit normalized = Some u \<longrightarrow> normalize_unit (uv_unit v) = u)
          \<and> (\<forall>holds. numeric_condition_for normalized = Some holds \<longrightarrow> holds (uv_value v))
      | Some (P_string s) \<Rightarrow> numeric_condition_for normalized = None \<and> js_trim s \<noteq> []
      | _ \<Rightarrow> numeric_condition_for normalized = None)"

definition parameters_conform ::
  "(string \<times> plan_parameter) list \<Rightarrow> (string \<times> string) list \<Rightarrow> bool" where
  "parameters_conform parameters constraints \<longleftrightarrow>
     (\<forall>(name, constr) \<in> set constraints.
        js_trim name \<noteq> [] \<and> js_trim constr \<noteq> [] \<and>
        (case js_property_of parameters name of
           Missing \<Rightarrow> False
         | Inherited \<Rightarrow> parameter_conforms constr None
         | Own p \<Rightarrow> parameter_conforms constr (Some p)))
     \<and> (\<forall>(name, p) \<in> set parameters. js_property_of constraints name \<noteq> Missing)"

definition device_step_acceptable :: "plan_step \<Rightarrow> plan_validation_context \<Rightarrow> bool" where
  "device_step_acceptable step context \<longleftrightarrow>
     ps_requiresApproval step
     \<and> (\<exists>device capability capabilities.
          ps_deviceId step = Some device \<and> ps_deviceCapability step = Some capability
          \<and> js_trim capability \<noteq> []
          \<and> map_of (cx_deviceCapabilities context) device = Some capabilities
          \<and> capability \<in> set capabilities)"

definition step_acceptable ::
  "plan_step \<Rightarrow> string list \<Rightarrow> string list \<Rightarrow> plan_validation_context \<Rightarrow> bool" where
  "step_acceptable step step_ids plan_citation_ids context \<longleftrightarrow>
     js_trim (ps_title step) \<noteq> []
     \<and> ps_citations step \<noteq> []
     \<and> set (ps_citations step) \<subseteq> set (cx_availableCitations context) \<inter> set plan_citation_ids
     \<and> set (ps_requiredInputs step) \<subseteq> set (cx_availableInputs context)
     \<and> map_of (cx_skillStatuses context) (ps_skillRevisionId step) = Some Skill_ACTIVE
     \<and> (\<exists>constraints.
          map_of (cx_skillParameterConstraints context) (ps_skillRevisionId step) = Some constraints
          \<and> parameters_conform (ps_parameters step) constraints)
     \<and> js_trim (ps_operationResource step) \<noteq> []
     \<and> operation_key (ps_operationKind step) (ps_operationResource step)
          \<in> set (cx_installedOperations context)
     \<and> (ps_operationKind step = Op_device \<longrightarrow> device_step_acceptable step context)
     \<and> (\<forall>(name, p) \<in> set (ps_parameters step).
          (\<forall>x. p \<noteq> P_number x)
          \<and> (\<forall>v. p = P_unit v \<longrightarrow> is_finite_number (uv_value v) \<and> js_trim (uv_unit v) \<noteq> []))
     \<and> set (ps_dependencies step) \<subseteq> set step_ids"

definition plan_acceptable :: "experiment_plan \<Rightarrow> plan_validation_context \<Rightarrow> bool" where
  "plan_acceptable plan context \<longleftrightarrow>
     pl_status plan = Plan_DRAFT
     \<and> positive_integer_number (pl_revision plan)
     \<and> js_trim (pl_objective plan) \<noteq> []
     \<and> pl_citations plan \<noteq> [] \<and> distinct (pl_citations plan)
     \<and> set (pl_citations plan) \<subseteq> set (cx_availableCitations context)
     \<and> (\<forall>cs. cx_requiredCitations context = Some cs \<longrightarrow> set cs \<subseteq> set (pl_citations plan))
     \<and> pl_unresolved plan = []
     \<and> pl_steps plan \<noteq> [] \<and> distinct (map ps_stepId (pl_steps plan))
     \<and> (\<forall>step \<in> set (pl_steps plan).
          step_acceptable step (map ps_stepId (pl_steps plan)) (pl_citations plan) context)
     \<and> acyclic (dependency_edges (pl_steps plan))
     \<and> (\<forall>step \<in> set (pl_steps plan). ps_stepId step \<notin> set (ps_dependencies step))"

section \<open>The validator accepts exactly the acceptable plans\<close>

lemma check_nil [simp]: "check bad i = [] \<longleftrightarrow> \<not> bad"
  by (simp add: check_def)

lemma validate_parameter_value_nil:
  "validate_parameter_value p constr path = [] \<longleftrightarrow> parameter_conforms constr p"
proof (cases p)
  case (Some q)
  then show ?thesis
    by (cases q; cases "constraint_unit (js_lower (js_trim constr))")
      (auto simp: validate_parameter_value_def parameter_conforms_def Let_def res_simps
        validate_unit_value_def split: sum.splits option.splits)
qed (auto simp: validate_parameter_value_def parameter_conforms_def Let_def)

lemma constraint_entry_issues_nil:
  "constraint_entry_issues parameters path entry = [] \<longleftrightarrow>
     (case entry of (name, constr) \<Rightarrow>
        js_trim name \<noteq> [] \<and> js_trim constr \<noteq> [] \<and>
        (case js_property_of parameters name of
           Missing \<Rightarrow> False
         | Inherited \<Rightarrow> parameter_conforms constr None
         | Own p \<Rightarrow> parameter_conforms constr (Some p)))"
  by (cases entry) (auto simp: constraint_entry_issues_def validate_parameter_value_nil split: js_property.splits)

lemma validate_parameter_constraints_nil:
  "validate_parameter_constraints parameters constraints path = [] \<longleftrightarrow> parameters_conform parameters constraints"
  by (auto simp: validate_parameter_constraints_def parameters_conform_def constraint_entry_issues_nil)

lemma validate_device_step_nil:
  "validate_device_step step path context = [] \<longleftrightarrow> device_step_acceptable step context"
  by (auto simp: validate_device_step_def device_step_acceptable_def split: option.splits)

lemma skill_issues_nil:
  "skill_issues step path context = [] \<longleftrightarrow>
     map_of (cx_skillStatuses context) (ps_skillRevisionId step) = Some Skill_ACTIVE
     \<and> (\<exists>constraints.
          map_of (cx_skillParameterConstraints context) (ps_skillRevisionId step) = Some constraints
          \<and> parameters_conform (ps_parameters step) constraints)"
  by (auto simp: skill_issues_def validate_executable_step_def Let_def
      validate_parameter_constraints_nil split: option.splits)

lemma parameter_entry_issues_nil:
  "parameter_entry_issues path entry = [] \<longleftrightarrow>
     (case entry of (name, p) \<Rightarrow> (\<forall>x. p \<noteq> P_number x)
        \<and> (\<forall>v. p = P_unit v \<longrightarrow> is_finite_number (uv_value v) \<and> js_trim (uv_unit v) \<noteq> []))"
  by (cases entry; cases "snd entry") (auto simp: parameter_entry_issues_def validate_unit_value_def split: sum.splits)

lemma validate_step_nil:
  "validate_step step path step_ids cits context = [] \<longleftrightarrow> step_acceptable step step_ids cits context"
  unfolding validate_step_def step_acceptable_def append_is_Nil_conv
  by (simp add: skill_issues_nil validate_device_step_nil parameter_entry_issues_nil subset_iff) blast

lemma distinct_find_index:
  "distinct xs \<longleftrightarrow> (\<forall>i < length xs. find_index (\<lambda>d. d = xs ! i) xs = Some i)"
proof
  assume d: "distinct xs"
  show "\<forall>i < length xs. find_index (\<lambda>d. d = xs ! i) xs = Some i"
  proof (intro allI impI)
    fix i assume i: "i < length xs"
    then obtain j where j: "find_index (\<lambda>d. d = xs ! i) xs = Some j"
      by (cases "find_index (\<lambda>d. d = xs ! i) xs") (auto simp: find_index_None)
    from find_index_Some [OF j] d i have "j = i" by (auto simp: nth_eq_iff_index_eq)
    with j show "find_index (\<lambda>d. d = xs ! i) xs = Some i" by simp
  qed
next
  assume f: "\<forall>i < length xs. find_index (\<lambda>d. d = xs ! i) xs = Some i"
  show "distinct xs"
    unfolding distinct_conv_nth
  proof (intro allI impI)
    fix i j assume "i < length xs" "j < length xs" "i \<noteq> j"
    with f show "xs ! i \<noteq> xs ! j" by (metis option.inject)
  qed
qed

lemma citation_issues_nil:
  "citation_issues plan context = [] \<longleftrightarrow>
     pl_citations plan \<noteq> [] \<and> distinct (pl_citations plan)
     \<and> set (pl_citations plan) \<subseteq> set (cx_availableCitations context)
     \<and> (\<forall>cs. cx_requiredCitations context = Some cs \<longrightarrow> set cs \<subseteq> set (pl_citations plan))"
proof -
  let ?cs = "pl_citations plan" and ?av = "set (cx_availableCitations context)"
  have "(\<forall>(i, c) \<in> set (enumerate 0 ?cs). c \<in> ?av \<and> find_index (\<lambda>d. d = c) ?cs = Some i) \<longleftrightarrow>
    distinct ?cs \<and> set ?cs \<subseteq> ?av"
    unfolding enumerate_ball distinct_find_index by (auto simp: all_set_conv_all_nth subset_code(1))
  moreover have "(\<forall>c \<in> set (case cx_requiredCitations context of None \<Rightarrow> [] | Some cs \<Rightarrow> cs). c \<in> set ?cs) \<longleftrightarrow>
    (\<forall>cs. cx_requiredCitations context = Some cs \<longrightarrow> set cs \<subseteq> set ?cs)"
    by (cases "cx_requiredCitations context") auto
  ultimately show ?thesis
    unfolding citation_issues_def append_is_Nil_conv concat_eq_Nil_conv
    by (simp add: case_prod_nil) blast
qed

lemma duplicate_step_issues_nil:
  "duplicate_step_issues seen xs = [] \<longleftrightarrow>
     distinct (map (ps_stepId \<circ> snd) xs) \<and> set seen \<inter> set (map (ps_stepId \<circ> snd) xs) = {}"
  by (induction seen xs rule: duplicate_step_issues.induct) auto

lemma validate_dependency_references_nil:
  "validate_dependency_references steps = [] \<longleftrightarrow>
     (\<forall>step \<in> set steps. ps_stepId step \<notin> set (ps_dependencies step))"
proof -
  have inner: "concat (map (\<lambda>d. check (d = ps_stepId step) (i d)) ds) = [] \<longleftrightarrow> ps_stepId step \<notin> set ds"
    for step :: plan_step and i ds
    by auto
  have "validate_dependency_references steps = [] \<longleftrightarrow>
    (\<forall>(i, step) \<in> set (enumerate 0 steps). ps_stepId step \<notin> set (ps_dependencies step))"
    unfolding validate_dependency_references_def concat_eq_Nil_conv
    by (simp only: set_map ball_simps case_prod_nil inner)
  then show ?thesis unfolding enumerate_ball_elem .
qed

lemma validate_steps_nil:
  "concat (map (\<lambda>(index, step). validate_step step (path index) ids cits context) (enumerate 0 steps)) = []
   \<longleftrightarrow> (\<forall>step \<in> set steps. step_acceptable step ids cits context)"
  using enumerate_ball_elem [of 0 steps "\<lambda>step. step_acceptable step ids cits context"]
  by (simp add: case_prod_nil validate_step_nil)

section \<open>Properties\<close>

text \<open>
  C10: The deterministic validator accepts a plan exactly when the plan satisfies the declarative
  specification \<open>plan_acceptable\<close>: draft status, positive integer revision, non-blank objective,
  known and distinct citations that cover the required ones, nothing unresolved, distinct steps
  that are each acceptable (Skill, parameters, operation, device, inputs, dependencies) and an
  acyclic dependency relation without self-dependencies.
\<close>

theorem validate_experiment_plan_exact:
  "pv_valid (validate_experiment_plan plan context) \<longleftrightarrow> plan_acceptable plan context"
proof -
  let ?ids = "map ps_stepId (pl_steps plan)"
  have dup: "duplicate_step_issues [] (enumerate 0 (pl_steps plan)) = [] \<longleftrightarrow> distinct ?ids"
    by (simp add: duplicate_step_issues_nil flip: map_map)
  show ?thesis
    unfolding validate_experiment_plan_def Let_def plan_validation_result.simps append_is_Nil_conv
      check_nil citation_issues_nil dup validate_steps_nil validate_dependency_references_nil
      validate_dependency_cycles_acyclic plan_acceptable_def
    by blast
qed

text \<open>
  C39: The recursive cycle search of the validator always finishes within the fuel its model gives
  it, and it reports a dependency cycle exactly when the dependency relation between the plan's
  steps has one.
\<close>

theorem validate_dependency_cycles_exact:
  "\<exists>st. cycle_search steps = Some st \<and> validate_dependency_cycles steps = cy_issues st
     \<and> (cy_issues st = [] \<longleftrightarrow> acyclic (dependency_edges steps))"
proof -
  obtain st where "cycle_search steps = Some st" using cycle_search_total by blast
  with cycle_search_reports [OF this] show ?thesis by (simp add: validate_dependency_cycles_def)
qed

lemma constraint_unit_known: "constraint_unit constr = Some u \<Longrightarrow> u \<in> set known_units"
  by (auto simp: constraint_unit_def find_Some_iff)

text \<open>
  C37: Micrometre constraints are never enforced: \<open>normalizeUnit\<close> turns \<open>um\<close> into a spelling with
  the micro sign, the table of known units only has the spelling with the Greek letter, so no
  constraint text yields the micrometre as its unit, and a value in millilitres passes the
  constraint \<open>um\<close> without an issue.
\<close>

theorem micrometre_constraint_never_enforced:
  "normalize_unit ''um'' = micro_sign @ ''m'' \<and> constraint_unit constr \<noteq> Some (micro_sign @ ''m'')
   \<and> validate_parameter_value (Some (P_unit \<lparr>uv_value = Finite 5, uv_unit = ''ml''\<rparr>)) ''um'' path = []"
proof (intro conjI)
  have trims: "js_trim ''um'' = ''um''" "js_trim ''ml'' = ''ml''"
    by (simp_all add: js_trim_printable printable_def)
  have lower: "js_lower ''um'' = ''um''" by (simp add: js_lower_def lower_char_def)
  have keep: "replace_first greek_mu micro_sign ''um'' = ''um''"
    by code_simp
  show um: "normalize_unit ''um'' = micro_sign @ ''m''"
    unfolding normalize_unit_def trims lower keep Let_def by simp
  have unknown: "micro_sign @ ''m'' \<notin> set known_units"
    by code_simp
  then show "constraint_unit constr \<noteq> Some (micro_sign @ ''m'')"
    using constraint_unit_known by blast
  have "unit_tokens [] ''um'' = [''um'']" by (simp add: unit_byte_def)
  then have "constraint_unit ''um'' = None"
    using um unknown by (simp add: constraint_unit_def)
  moreover have "numeric_condition_for ''um'' = None"
    by (simp add: numeric_condition_for_def bound_here_def is_word_char_def)
  ultimately show "validate_parameter_value (Some (P_unit \<lparr>uv_value = Finite 5, uv_unit = ''ml''\<rparr>)) ''um'' path = []"
    by (simp add: validate_parameter_value_nil parameter_conforms_def is_finite_number_def trims lower)
qed

end
