(* ===== verification/LabDevice.thy ===== *)
theory LabDevice
  imports LabDomain
begin

text \<open>
  The device seam of the laboratory packages: the request, receipt and view types and the provider
  slot of \<open>packages/experimental/lab-device/src/types.ts\<close> and \<open>index.ts\<close>, the interface the Runtime
  relies on as the locale \<open>device_gateway\<close>, and the in-memory provider of
  \<open>packages/experimental/lab-device-mock/src/index.ts\<close>, on which the interface is interpreted.
  An asynchronous method runs as one step: it returns its outcome and the provider state it leaves.
\<close>

section \<open>Requests, receipts and views\<close>

datatype receipt_status = Receipt_accepted | Receipt_completed | Receipt_failed | Receipt_stopped

record device_capability =
  dc_name :: string
  dc_parameters :: "(string \<times> string) list"

record device_view =
  dv_id :: string
  dv_name :: string
  dv_capabilities :: "device_capability list"
  dv_healthy :: bool
  dv_reserved :: bool

record device_request =
  dq_deviceId :: string
  dq_runId :: string
  dq_operationId :: string
  dq_idempotencyKey :: string
  dq_parameters :: "(string \<times> plan_parameter) list"

record device_receipt =
  dr_operationId :: string
  dr_idempotencyKey :: string
  dr_status :: receipt_status
  dr_evidence :: "string list"

text \<open>The five provider operations the Runtime calls, over a provider state.\<close>

record 'd gateway =
  gw_healthCheck :: "string \<Rightarrow> ('d, bool) io"
  gw_reserve :: "string \<Rightarrow> string \<Rightarrow> ('d, unit) io"
  gw_execute :: "device_request \<Rightarrow> ('d, device_receipt) io"
  gw_stop :: "string \<Rightarrow> string \<Rightarrow> string \<Rightarrow> ('d, device_receipt) io"
  gw_release :: "string \<Rightarrow> string \<Rightarrow> ('d, unit) io"

section \<open>The provider slot of the service\<close>

text \<open>
  The service holds at most one provider. The disposer returned by a registration empties the slot
  only when it still holds the registered provider.
\<close>

definition register_provider :: "string \<Rightarrow> 'p \<Rightarrow> ('p option, 'p) io" where
  "register_provider service provider slot =
     (case slot of
        Some _ \<Rightarrow> (Inl (''a provider is already registered for laboratory capability ''
                    @ quoted service), slot)
      | None \<Rightarrow> (Inr provider, Some provider))"

definition dispose_provider :: "'p \<Rightarrow> 'p option \<Rightarrow> 'p option" where
  "dispose_provider provider slot = (if slot = Some provider then None else slot)"

definition require_provider :: "string \<Rightarrow> 'p option \<Rightarrow> string + 'p" where
  "require_provider service slot = of_option (''no provider is registered for laboratory capability '' @ quoted service) slot"

lemma register_dispose:
  "register_provider service p slot = (Inr q, slot') \<Longrightarrow>
     slot = None \<and> q = p \<and> require_provider service slot' = Inr p \<and> dispose_provider p slot' = None"
  by (auto simp: register_provider_def dispose_provider_def require_provider_def split: option.splits)

section \<open>What the Runtime relies on\<close>

text \<open>
  \<open>holder d dev\<close> is the run that holds the lease of device \<open>dev\<close>. A lease is only taken when it is
  free or already held by the same run, operations need the lease and keep it, a holder can always
  release its own lease, and an operation that fails changes no lease.
\<close>

locale device_gateway =
  fixes health :: "string \<Rightarrow> ('d, bool) io"
    and reserve :: "string \<Rightarrow> string \<Rightarrow> ('d, unit) io"
    and execute :: "device_request \<Rightarrow> ('d, device_receipt) io"
    and stop :: "string \<Rightarrow> string \<Rightarrow> string \<Rightarrow> ('d, device_receipt) io"
    and release :: "string \<Rightarrow> string \<Rightarrow> ('d, unit) io"
    and holder :: "'d \<Rightarrow> string \<Rightarrow> string option"
  assumes health_keeps: "health dev d = (rh, d') \<Longrightarrow> holder d' = holder d"
    and reserve_takes: "reserve dev run d = (Inr u, d') \<Longrightarrow>
      holder d dev \<in> {None, Some run} \<and> holder d' = (holder d)(dev := Some run)"
    and reserve_fails: "reserve dev run d = (Inl e, d') \<Longrightarrow> holder d' = holder d"
    and execute_keeps: "execute q d = (r, d') \<Longrightarrow> holder d' = holder d"
    and execute_needs: "execute q d = (Inr rc, d') \<Longrightarrow> holder d (dq_deviceId q) = Some (dq_runId q)"
    and stop_keeps: "stop dev run opid d = (r, d') \<Longrightarrow> holder d' = holder d"
    and stop_needs: "stop dev run opid d = (Inr rc, d') \<Longrightarrow> holder d dev = Some run"
    and release_frees: "release dev run d = (Inr u, d') \<Longrightarrow>
      holder d dev \<in> {None, Some run} \<and> holder d' = (holder d)(dev := None)"
    and release_fails: "release dev run d = (Inl e, d') \<Longrightarrow> holder d' = holder d"
    and release_own: "holder d dev = Some run \<Longrightarrow> \<exists>d'. release dev run d = (Inr (), d')"
begin

abbreviation gw :: "'d gateway" where
  "gw \<equiv> \<lparr>gw_healthCheck = health, gw_reserve = reserve, gw_execute = execute, gw_stop = stop,
          gw_release = release\<rparr>"

lemma others_kept:
  "reserve dev run d = (r, d') \<Longrightarrow> dev' \<noteq> dev \<Longrightarrow> holder d' dev' = holder d dev'"
  "release dev run d = (r, d') \<Longrightarrow> dev' \<noteq> dev \<Longrightarrow> holder d' dev' = holder d dev'"
  by (cases r; use reserve_takes reserve_fails release_frees release_fails in fastforce)+

lemma foreign_lease_refused:
  assumes "holder d dev = Some other" "other \<noteq> run"
  shows "\<exists>e d'. reserve dev run d = (Inl e, d') \<and> holder d' = holder d"
proof -
  obtain r d' where r: "reserve dev run d = (r, d')" by fastforce
  with assms reserve_takes have "\<not> (\<exists>u. r = Inr u)" by fastforce
  then obtain e where "r = Inl e" by (cases r) auto
  with r reserve_fails show ?thesis by blast
qed

end

section \<open>The mock provider\<close>

record mock_device =
  md_name :: string
  md_capabilities :: "device_capability list"
  md_healthy :: bool
  md_communicationFailure :: bool
  md_reservedBy :: "string option"

record mock_state =
  mk_devices :: "(string \<times> mock_device) list"
  mk_receipts :: "(string \<times> device_receipt) list"

record mock_device_config =
  mc_id :: string
  mc_name :: string
  mc_capabilities :: "string list option"
  mc_healthy :: "bool option"
  mc_communicationFailure :: "bool option"

definition or_default :: "'a \<Rightarrow> 'a option \<Rightarrow> 'a" where
  "or_default d x = (case x of None \<Rightarrow> d | Some v \<Rightarrow> v)"

lemma or_default_simps [simp]: "or_default d None = d" "or_default d (Some v) = v"
  by (simp_all add: or_default_def)

definition mock_device_of :: "mock_device_config \<Rightarrow> mock_device" where
  "mock_device_of c =
     \<lparr>md_name = mc_name c,
      md_capabilities = map (\<lambda>n. \<lparr>dc_name = n, dc_parameters = []\<rparr>) (or_default [] (mc_capabilities c)),
      md_healthy = or_default True (mc_healthy c),
      md_communicationFailure = or_default False (mc_communicationFailure c),
      md_reservedBy = None\<rparr>"

fun mock_add_devices ::
  "(string \<times> mock_device) list \<Rightarrow> mock_device_config list \<Rightarrow> string + (string \<times> mock_device) list" where
  "mock_add_devices devices [] = Inr devices"
| "mock_add_devices devices (c # cs) =
     (if js_has devices (mc_id c)
      then Inl (''duplicate mock device id '' @ quoted (mc_id c))
      else mock_add_devices (js_set (mc_id c) (mock_device_of c) devices) cs)"

definition mock_provider :: "mock_device_config list option \<Rightarrow> string + mock_state" where
  "mock_provider config =
     and_then (mock_add_devices [] (or_default [] config))
       (\<lambda>devices. Inr \<lparr>mk_devices = devices, mk_receipts = []\<rparr>)"

definition mock_error :: "string \<Rightarrow> string \<Rightarrow> string" where
  "mock_error dev what = ''mock device '' @ quoted dev @ what"

definition mock_view :: "string \<Rightarrow> mock_device \<Rightarrow> device_view" where
  "mock_view dev device =
     \<lparr>dv_id = dev, dv_name = md_name device, dv_capabilities = md_capabilities device,
      dv_healthy = md_healthy device, dv_reserved = (md_reservedBy device \<noteq> None)\<rparr>"

definition mock_listDevices :: "mock_state \<Rightarrow> device_view list" where
  "mock_listDevices s = map (\<lambda>(dev, device). mock_view dev device) (mk_devices s)"

definition mock_status :: "string \<Rightarrow> mock_state \<Rightarrow> device_view option" where
  "mock_status dev s = map_option (mock_view dev) (js_get (mk_devices s) dev)"

definition mock_requireDevice :: "string \<Rightarrow> mock_state \<Rightarrow> string + mock_device" where
  "mock_requireDevice dev s =
     of_option (''unknown mock device '' @ quoted dev) (js_get (mk_devices s) dev)"

definition mock_set_reserved :: "string \<Rightarrow> mock_device \<Rightarrow> string option \<Rightarrow> mock_state \<Rightarrow> mock_state" where
  "mock_set_reserved dev device r s =
     s\<lparr>mk_devices := js_set dev (device\<lparr>md_reservedBy := r\<rparr>) (mk_devices s)\<rparr>"

definition mock_healthCheck :: "string \<Rightarrow> (mock_state, bool) io" where
  "mock_healthCheck dev s =
     (case mock_requireDevice dev s of
        Inl e \<Rightarrow> (Inl e, s)
      | Inr device \<Rightarrow> (Inr (md_healthy device), s))"

definition mock_reserve :: "string \<Rightarrow> string \<Rightarrow> (mock_state, unit) io" where
  "mock_reserve dev run s =
     (case mock_requireDevice dev s of
        Inl e \<Rightarrow> (Inl e, s)
      | Inr device \<Rightarrow>
          if \<not> md_healthy device then (Inl (mock_error dev '' is unhealthy''), s)
          else if md_reservedBy device \<noteq> None \<and> md_reservedBy device \<noteq> Some run
          then (Inl (mock_error dev '' is already reserved''), s)
          else (Inr (), mock_set_reserved dev device (Some run) s))"

definition mock_receipt :: "string \<Rightarrow> string \<Rightarrow> receipt_status \<Rightarrow> string \<Rightarrow> device_receipt" where
  "mock_receipt operationId idempotencyKey status evidence =
     \<lparr>dr_operationId = operationId, dr_idempotencyKey = idempotencyKey, dr_status = status,
      dr_evidence = [evidence]\<rparr>"

definition mock_receipt_key :: "device_request \<Rightarrow> string" where
  "mock_receipt_key q = dq_deviceId q @ '':'' @ dq_idempotencyKey q"

definition mock_execute :: "device_request \<Rightarrow> (mock_state, device_receipt) io" where
  "mock_execute q s =
     (case mock_requireDevice (dq_deviceId q) s of
        Inl e \<Rightarrow> (Inl e, s)
      | Inr device \<Rightarrow>
          if md_reservedBy device \<noteq> Some (dq_runId q)
          then (Inl (mock_error (dq_deviceId q) '' is not reserved by this run''), s)
          else case js_get (mk_receipts s) (mock_receipt_key q) of
            Some prior \<Rightarrow> (Inr prior, s)
          | None \<Rightarrow>
              if md_communicationFailure device
              then (Inl (mock_error (dq_deviceId q) '' communication failed''), s)
              else (let rc = mock_receipt (dq_operationId q) (dq_idempotencyKey q) Receipt_completed
                               (''mock-device:'' @ dq_deviceId q)
                    in (Inr rc, s\<lparr>mk_receipts := js_set (mock_receipt_key q) rc (mk_receipts s)\<rparr>)))"

definition mock_stop :: "string \<Rightarrow> string \<Rightarrow> string \<Rightarrow> (mock_state, device_receipt) io" where
  "mock_stop dev run operationId s =
     (case mock_requireDevice dev s of
        Inl e \<Rightarrow> (Inl e, s)
      | Inr device \<Rightarrow>
          if md_reservedBy device \<noteq> Some run
          then (Inl (mock_error dev '' is not reserved by this run''), s)
          else (Inr (mock_receipt operationId (''stop:'' @ operationId) Receipt_stopped
                       (''mock-device:'' @ dev)), s))"

definition mock_release :: "string \<Rightarrow> string \<Rightarrow> (mock_state, unit) io" where
  "mock_release dev run s =
     (case mock_requireDevice dev s of
        Inl e \<Rightarrow> (Inl e, s)
      | Inr device \<Rightarrow>
          if md_reservedBy device \<noteq> None \<and> md_reservedBy device \<noteq> Some run
          then (Inl (mock_error dev '' is reserved by another run''), s)
          else (Inr (), mock_set_reserved dev device None s))"

definition mock_gateway :: "mock_state gateway" where
  "mock_gateway = \<lparr>gw_healthCheck = mock_healthCheck, gw_reserve = mock_reserve,
     gw_execute = mock_execute, gw_stop = mock_stop, gw_release = mock_release\<rparr>"

text \<open>The lease of a device as an observer sees it.\<close>

definition mock_holder :: "mock_state \<Rightarrow> string \<Rightarrow> string option" where
  "mock_holder s dev = Option.bind (js_get (mk_devices s) dev) md_reservedBy"

lemmas mock_defs = mock_healthCheck_def mock_reserve_def mock_execute_def mock_stop_def
  mock_release_def mock_requireDevice_def

lemma mock_holder_set [simp]:
  "mock_holder (mock_set_reserved dev device r s) = (mock_holder s)(dev := r)"
  by (auto simp: mock_holder_def mock_set_reserved_def)

lemma mock_holder_receipts [simp]: "mock_holder (s\<lparr>mk_receipts := rs\<rparr>) = mock_holder s"
  by (auto simp: mock_holder_def)

lemma mock_requireDevice_iff [res_simps]:
  "mock_requireDevice dev s = Inr device \<longleftrightarrow> js_get (mk_devices s) dev = Some device"
  by (simp add: mock_requireDevice_def res_simps)

lemma mock_holder_known: "js_get (mk_devices s) dev = Some device \<Longrightarrow> mock_holder s dev = md_reservedBy device"
  by (simp add: mock_holder_def)

interpretation mock: device_gateway mock_healthCheck mock_reserve mock_execute mock_stop mock_release
  mock_holder
proof
  fix dev run and d :: mock_state assume "mock_holder d dev = Some run"
  then obtain device where "js_get (mk_devices d) dev = Some device" "md_reservedBy device = Some run"
    by (auto simp: mock_holder_def bind_eq_Some_conv)
  then show "\<exists>d'. mock_release dev run d = (Inr (), d')"
    by (simp add: mock_release_def mock_requireDevice_def)
qed (auto simp: mock_defs of_option_def mock_holder_known Let_def
    split: option.splits if_splits sum.splits)

lemma mock_gateway_interface: "mock_gateway = mock.gw"
  by (simp add: mock_gateway_def)

lemma mock_add_devices_distinct:
  "mock_add_devices ds cs = Inr ds' \<Longrightarrow> distinct (map fst ds) \<Longrightarrow>
     distinct (map fst ds') \<and> map fst ds' = map fst ds @ map mc_id cs"
proof (induction ds cs rule: mock_add_devices.induct)
  case (2 ds c cs)
  have new: "map_of ds (mc_id c) = None"
    using "2.prems"(1) by (cases "map_of ds (mc_id c)") simp_all
  then have "distinct (map fst (AList.update (mc_id c) (mock_device_of c) ds))"
    "map fst (AList.update (mc_id c) (mock_device_of c) ds) = map fst ds @ [mc_id c]"
    using "2.prems"(2) by (simp_all add: js_set_new map_of_eq_None_iff)
  moreover have "mock_add_devices (AList.update (mc_id c) (mock_device_of c) ds) cs = Inr ds'"
    using "2.prems"(1) new by simp
  moreover have "\<not> js_has ds (mc_id c)" using new by simp
  ultimately have "distinct (map fst ds') \<and> map fst ds' = (map fst ds @ [mc_id c]) @ map mc_id cs"
    using "2.IH" by metis
  then show ?case by (metis append_assoc append_Cons append_Nil list.map(2))
qed simp

lemma mock_execute_completed:
  "mock_execute q s = (Inr rc, s') \<Longrightarrow> list_all (\<lambda>(k, r). dr_status r = Receipt_completed) (mk_receipts s) \<Longrightarrow>
     dr_status rc = Receipt_completed"
  by (auto simp: mock_execute_def mock_receipt_def list_all_iff Let_def
      split: sum.splits option.splits if_splits dest!: map_of_SomeD)

section \<open>Properties\<close>

text \<open>
  A device operation is idempotent: once a request has been executed, submitting it again while
  its run holds the lease returns the same receipt and changes nothing, whatever has become of the
  devices meanwhile; in particular a device whose communication has failed still answers.
\<close>

theorem mock_execute_idempotent:
  assumes "mock_execute q s = (Inr rc, s')"
    "js_get devices (dq_deviceId q) = Some d" "md_reservedBy d = Some (dq_runId q)"
  shows "mock_execute q (s'\<lparr>mk_devices := devices\<rparr>) = (Inr rc, s'\<lparr>mk_devices := devices\<rparr>)"
  using assms
  by (auto simp: mock_execute_def mock_requireDevice_def of_option_def Let_def
      split: option.splits if_splits)

definition sample_mock :: mock_state where
  "sample_mock = \<lparr>mk_devices = [(''d'', \<lparr>md_name = ''D'', md_capabilities = [], md_healthy = True,
     md_communicationFailure = False, md_reservedBy = Some ''run-1''\<rparr>)], mk_receipts = []\<rparr>"

definition failed_devices :: "(string \<times> mock_device) list" where
  "failed_devices = [(''d'', \<lparr>md_name = ''D'', md_capabilities = [], md_healthy = False,
     md_communicationFailure = True, md_reservedBy = Some ''run-1''\<rparr>)]"

definition sample_request :: device_request where
  "sample_request = \<lparr>dq_deviceId = ''d'', dq_runId = ''run-1'', dq_operationId = ''op'',
     dq_idempotencyKey = ''k'', dq_parameters = []\<rparr>"

theorem mock_execute_idempotent_witness:
  "mock_execute sample_request ((snd (mock_execute sample_request sample_mock))\<lparr>mk_devices := failed_devices\<rparr>)
     = (Inr (mock_receipt ''op'' ''k'' Receipt_completed ''mock-device:d''),
        (snd (mock_execute sample_request sample_mock))\<lparr>mk_devices := failed_devices\<rparr>)"
proof (rule mock_execute_idempotent)
  show "mock_execute sample_request sample_mock
      = (Inr (mock_receipt ''op'' ''k'' Receipt_completed ''mock-device:d''),
         snd (mock_execute sample_request sample_mock))"
    by (simp add: mock_execute_def mock_requireDevice_def mock_receipt_def Let_def
        sample_mock_def sample_request_def)
qed (simp add: failed_devices_def sample_request_def, simp add: sample_request_def)

end
