(* ===== verification/LabRuntimeTypes.thy ===== *)
theory LabRuntimeTypes
  imports LabDevice
begin

text \<open>
  The data of the controlled Runtime (\<open>packages/experimental/lab-runtime/src/types.ts\<close>), the
  evidence check of \<open>validation.ts\<close>, the result assessment of \<open>assessment.ts\<close> and the pure helper
  functions at the end of \<open>packages/experimental/lab-runtime-local/src/index.ts\<close>: status
  predicates, operation ids, the copies a view is made of, and the feedback.
  Values are immutable here, so the copying functions are written field by field as in the source
  and shown to be the identity.
\<close>

section \<open>Types\<close>

datatype failure_policy = On_failure_block | On_failure_stop | On_failure_replan

datatype observation_status = Obs_WAITING | Obs_COMPLETED | Obs_FAILED | Obs_STOPPED

record experiment_request =
  er_experimentId :: string
  er_objective :: string
  er_expectedOutputs :: "string list"

record execution_step =
  es_stepId :: string
  es_skillRevisionId :: string
  es_operationKind :: operation_kind
  es_operationResource :: string
  es_deviceId :: "string option"
  es_parameters :: "(string \<times> plan_parameter) list"
  es_requiresApproval :: bool
  es_expectedEvidence :: "string list"
  es_failurePolicy :: failure_policy

record execution_graph =
  eg_planId :: string
  eg_skillSnapshots :: "skill_snapshot list"
  eg_steps :: "execution_step list"

record runtime_observation =
  ob_stepId :: string
  ob_operationId :: string
  ob_valid :: bool
  ob_evidence :: "string list"
  ob_artifactIds :: "string list"
  ob_status :: observation_status
  ob_error :: "string option"
  ob_replanRequested :: "bool option"

record runtime_feedback =
  fb_status :: run_status
  fb_valid :: bool
  fb_summary :: string
  fb_issues :: "string list"
  fb_replanRequested :: bool

record replan_request =
  rq_runId :: string
  rq_stepId :: string
  rq_reason :: string

record approve_plan_request =
  ap_experimentId :: string
  ap_planId :: string
  ap_approvedBy :: string
  ap_skillRevisionIds :: "string list"
  ap_executionSteps :: "execution_step list option"
  ap_skillSnapshots :: "skill_snapshot list option"

record approved_plan =
  an_request :: approve_plan_request
  an_executionGraph :: execution_graph

record run_view =
  rv_experimentId :: string
  rv_planId :: string
  rv_runId :: string
  rv_launchingSessionId :: "string option"
  rv_retryOfRunId :: "string option"
  rv_createdAt :: nat
  rv_updatedAt :: nat
  rv_planStatus :: plan_status
  rv_runStatus :: "run_status option"
  rv_executionGraph :: execution_graph
  rv_observations :: "runtime_observation list"
  rv_artifacts :: "artifact_manifest list"
  rv_currentStepId :: "string option"
  rv_cache :: experiment_cache_projection
  rv_feedback :: runtime_feedback
  rv_replanRequest :: "replan_request option"

record runtime_experiment =
  rx_request :: experiment_request
  rx_approvedPlan :: "approved_plan option"
  rx_runs :: "run_view list"

record start_run_request =
  sr_experimentId :: string
  sr_planId :: string
  sr_launchingSessionId :: "string option"
  sr_retryOfRunId :: "string option"

section \<open>Evidence\<close>

record runtime_validation_result =
  rr_valid :: bool
  rr_issues :: "string list"

definition validate_runtime_evidence :: "execution_step \<Rightarrow> string list \<Rightarrow> runtime_validation_result" where
  "validate_runtime_evidence step evidence =
     (let issues =
        (if evidence = [] then [''completed step must provide at least one evidence reference''] else [])
        @ map (\<lambda>expected. ''required evidence '' @ quoted expected @ '' was not provided'')
            (filter (\<lambda>expected. expected \<notin> set evidence) (es_expectedEvidence step))
      in \<lparr>rr_valid = (issues = []), rr_issues = issues\<rparr>)"

definition validated_observation ::
  "runtime_observation \<Rightarrow> runtime_validation_result \<Rightarrow> runtime_observation" where
  "validated_observation observation result =
     (let checked = observation\<lparr>ob_valid := rr_valid result\<rparr> in
      if rr_valid result then checked
      else checked\<lparr>ob_status := Obs_FAILED, ob_error := Some (js_join ''; '' (rr_issues result))\<rparr>)"

text \<open>Specification: what the evidence of a completed step has to contain.\<close>

definition evidence_suffices :: "execution_step \<Rightarrow> string list \<Rightarrow> bool" where
  "evidence_suffices step evidence \<longleftrightarrow> evidence \<noteq> [] \<and> set (es_expectedEvidence step) \<subseteq> set evidence"

lemma validate_runtime_evidence_valid [simp]:
  "rr_valid (validate_runtime_evidence step evidence) \<longleftrightarrow> evidence_suffices step evidence"
  by (auto simp: validate_runtime_evidence_def evidence_suffices_def Let_def filter_empty_conv)

section \<open>Helpers\<close>

definition is_controlled_operation :: "operation_kind \<Rightarrow> bool" where
  "is_controlled_operation kind \<longleftrightarrow> kind = Op_device \<or> kind = Op_human \<or> kind = Op_approval"

definition initial_status :: "execution_step \<Rightarrow> run_status" where
  "initial_status step =
     (if es_operationKind step = Op_human \<or> es_operationKind step = Op_approval
         \<or> es_requiresApproval step
      then Run_WAITING_CONFIRMATION else Run_RUNNING)"

definition is_terminal :: "run_status option \<Rightarrow> bool" where
  "is_terminal status \<longleftrightarrow>
     status = Some Run_COMPLETED \<or> status = Some Run_STOPPED \<or> status = Some Run_FAILED
     \<or> status = Some Run_BLOCKED"

datatype operation_tag = Tag_device | Tag_manual | Tag_approval

fun operation_tag_name :: "operation_tag \<Rightarrow> string" where
  "operation_tag_name Tag_device = ''device''"
| "operation_tag_name Tag_manual = ''manual''"
| "operation_tag_name Tag_approval = ''approval''"

definition operation_id_for :: "string \<Rightarrow> string \<Rightarrow> operation_tag \<Rightarrow> string" where
  "operation_id_for runId stepId tag =
     ''operation-'' @ operation_tag_name tag @ ''-'' @ runId @ ''-'' @ stepId"

definition run_number :: "string \<Rightarrow> nat" where
  "run_number runId =
     (if starts_with ''run-'' runId \<and> drop 4 runId \<noteq> [] \<and> list_all is_digit (drop 4 runId)
      then nat_of_digits (drop 4 runId) else 0)"

definition failed_observation :: "execution_step \<Rightarrow> string \<Rightarrow> string \<Rightarrow> runtime_observation" where
  "failed_observation step runId message =
     \<lparr>ob_stepId = es_stepId step, ob_operationId = operation_id_for runId (es_stepId step) Tag_device,
      ob_valid = False, ob_evidence = [], ob_artifactIds = [], ob_status = Obs_FAILED,
      ob_error = Some message, ob_replanRequested = None\<rparr>"

definition clone_step :: "execution_step \<Rightarrow> execution_step" where
  "clone_step step =
     \<lparr>es_stepId = es_stepId step, es_skillRevisionId = es_skillRevisionId step,
      es_operationKind = es_operationKind step, es_operationResource = es_operationResource step,
      es_deviceId = es_deviceId step, es_parameters = es_parameters step,
      es_requiresApproval = es_requiresApproval step,
      es_expectedEvidence = es_expectedEvidence step, es_failurePolicy = es_failurePolicy step\<rparr>"

definition clone_graph :: "execution_graph \<Rightarrow> execution_graph" where
  "clone_graph graph =
     \<lparr>eg_planId = eg_planId graph, eg_skillSnapshots = eg_skillSnapshots graph,
      eg_steps = map clone_step (eg_steps graph)\<rparr>"

definition clone_observation :: "runtime_observation \<Rightarrow> runtime_observation" where
  "clone_observation o1 =
     \<lparr>ob_stepId = ob_stepId o1, ob_operationId = ob_operationId o1, ob_valid = ob_valid o1,
      ob_evidence = ob_evidence o1, ob_artifactIds = ob_artifactIds o1, ob_status = ob_status o1,
      ob_error = ob_error o1, ob_replanRequested = ob_replanRequested o1\<rparr>"

definition clone_feedback :: "runtime_feedback \<Rightarrow> runtime_feedback" where
  "clone_feedback fb = fb\<lparr>fb_issues := fb_issues fb\<rparr>"

definition clone_run :: "run_view \<Rightarrow> run_view" where
  "clone_run run =
     run\<lparr>rv_executionGraph := clone_graph (rv_executionGraph run),
         rv_observations := map clone_observation (rv_observations run),
         rv_feedback := clone_feedback (rv_feedback run)\<rparr>"

lemma clone_id [simp]:
  "clone_step = (\<lambda>s. s)" "clone_graph g = g" "clone_observation = (\<lambda>o1. o1)"
  "clone_feedback fb = fb" "clone_run run = run"
proof -
  show s: "clone_step = (\<lambda>s. s)" by (rule ext) (simp add: clone_step_def)
  show g: "clone_graph g = g" for g by (simp add: clone_graph_def s)
  show o1: "clone_observation = (\<lambda>o1. o1)" by (rule ext) (simp add: clone_observation_def)
  show f: "clone_feedback fb = fb" for fb by (simp add: clone_feedback_def)
  show "clone_run run = run" by (simp add: clone_run_def g o1 f)
qed

definition observation_issue :: "runtime_observation \<Rightarrow> string" where
  "observation_issue o1 =
     (case ob_error o1 of
        Some e \<Rightarrow> e
      | None \<Rightarrow> ''step '' @ ob_stepId o1 @ '' did not produce valid evidence'')"

definition feedback_for :: "run_status \<Rightarrow> runtime_observation list \<Rightarrow> runtime_feedback" where
  "feedback_for status observations =
     (let issues = map observation_issue (filter (\<lambda>o1. \<not> ob_valid o1) observations);
          summary =
            (if status = Run_COMPLETED then ''run completed with validated evidence''
             else if status = Run_BLOCKED then ''run blocked and requires review''
             else if status = Run_STOPPED then ''run stopped safely''
             else if status = Run_FAILED then ''run failed''
             else ''run is awaiting the next controlled action'')
      in \<lparr>fb_status = status, fb_valid = (status = Run_COMPLETED \<and> issues = []),
          fb_summary = summary, fb_issues = issues,
          fb_replanRequested = list_ex (\<lambda>o1. ob_replanRequested o1 = Some True) observations\<rparr>)"

definition same_experiment_request :: "experiment_request \<Rightarrow> experiment_request \<Rightarrow> bool" where
  "same_experiment_request l r \<longleftrightarrow>
     er_experimentId l = er_experimentId r \<and> er_objective l = er_objective r
     \<and> er_expectedOutputs l = er_expectedOutputs r"

lemma same_experiment_request_eq: "same_experiment_request l r \<longleftrightarrow> l = r"
  by (cases l; cases r) (simp add: same_experiment_request_def)

section \<open>Assessment\<close>

datatype assessment_status = As_PENDING | As_PASSED | As_FAILED | As_HUMAN_QC
datatype assessment_verdict = Verdict_PASS | Verdict_FAIL | Verdict_INCONCLUSIVE

record result_assessment =
  ra_status :: assessment_status
  ra_verdict :: "assessment_verdict option"
  ra_method :: "string option"
  ra_evidenceIds :: "string list"
  ra_assessedBy :: "string option"
  ra_assessedAt :: "nat option"
  ra_humanQcRequired :: bool

definition assess_run :: "run_view \<Rightarrow> result_assessment" where
  "assess_run run =
     (let evidence_ids = concat (map ob_artifactIds (rv_observations run))
            @ map ob_operationId (rv_observations run);
          settled = (\<lambda>status verdict.
            \<lparr>ra_status = status, ra_verdict = Some verdict, ra_method = Some ''runtime-criteria'',
             ra_evidenceIds = evidence_ids, ra_assessedBy = Some ''lab-runtime'',
             ra_assessedAt = Some (rv_updatedAt run), ra_humanQcRequired = False\<rparr>)
      in if rv_runStatus run = Some Run_COMPLETED then settled As_PASSED Verdict_PASS
         else if rv_runStatus run = Some Run_FAILED \<or> rv_runStatus run = Some Run_BLOCKED
           then settled As_FAILED Verdict_FAIL
         else if rv_runStatus run = Some Run_WAITING_CONFIRMATION then
           \<lparr>ra_status = As_HUMAN_QC, ra_verdict = Some Verdict_INCONCLUSIVE, ra_method = None,
            ra_evidenceIds = evidence_ids, ra_assessedBy = None, ra_assessedAt = None,
            ra_humanQcRequired = True\<rparr>
         else
           \<lparr>ra_status = As_PENDING, ra_verdict = None, ra_method = None,
            ra_evidenceIds = evidence_ids, ra_assessedBy = None, ra_assessedAt = None,
            ra_humanQcRequired = False\<rparr>)"

lemma assess_run_passed:
  "ra_verdict (assess_run run) = Some Verdict_PASS \<longleftrightarrow> rv_runStatus run = Some Run_COMPLETED"
  by (auto simp: assess_run_def Let_def)

datatype evidence_mode = Evidence_MANUAL | Evidence_CONTROLLED

record run_report =
  rp_experimentId :: string
  rp_planId :: string
  rp_runId :: string
  rp_status :: run_status
  rp_executionGraph :: execution_graph
  rp_observations :: "runtime_observation list"
  rp_evidenceMode :: evidence_mode
  rp_feedback :: runtime_feedback
  rp_assessment :: result_assessment
  rp_replanRequest :: "replan_request option"

lemma str_of_nat_nonempty: "str_of_nat n \<noteq> []" "list_all is_digit (str_of_nat n)"
  "nat_of_digits (str_of_nat n) = n"
  using str_of_nat_digits by blast+

lemma run_number_run [simp]: "run_number (''run-'' @ str_of_nat n) = n"
  using str_of_nat_nonempty [of n] by (simp add: run_number_def)

lemma fb_valid_feedback [simp]:
  "fb_valid (feedback_for status obs) \<longleftrightarrow> status = Run_COMPLETED \<and> list_all ob_valid obs"
  by (auto simp: feedback_for_def Let_def filter_empty_conv list_all_iff)

end
