(* ===== verification/LabRuntime.thy ===== *)
theory LabRuntime
  imports LabRuntimeTypes
begin

text \<open>
  The local Runtime provider \<open>LocalLabRuntimeProvider\<close> of
  \<open>packages/experimental/lab-runtime-local/src/index.ts\<close> and the in-memory state store of
  \<open>sqlite-store.ts\<close>. The provider's fields are the record \<open>runtime\<close>: the experiment map, the run
  counter, and the states of its two collaborators. The collaborators' operations are parameters,
  the record \<open>runtime_env\<close>: the optional device gateway and \<open>save\<close> of the state store. The clock
  is read by the callers: \<open>now\<close> is the value of \<open>this.clock()\<close>.

  A handler runs as one step and returns its outcome with the state it leaves behind, also when it
  throws. The part of \<open>executeNextStep\<close> that waits for the device is a definition of its own,
  \<open>execute_view\<close>: it computes the new view from the run read before the wait, and \<open>replace_run\<close>
  stores it after the wait, so that interleavings with other handlers can be written down.
\<close>

section \<open>State and collaborators\<close>

record ('d, 's) runtime =
  rt_experiments :: "(string \<times> runtime_experiment) list"
  rt_runCounter :: nat
  rt_devices :: 'd
  rt_store :: 's

record ('d, 's) runtime_env =
  en_devices :: "'d gateway option"
  en_save :: "runtime_experiment \<Rightarrow> ('s, unit) io"

text \<open>\<open>InMemoryRuntimeStateStore\<close>: a map from experiment ids to the saved copies.\<close>

type_synonym memory_store = "(string \<times> runtime_experiment) list"

definition memory_load :: "(memory_store, runtime_experiment list) io" where
  "memory_load states = (Inr (js_values states), states)"

definition memory_save :: "runtime_experiment \<Rightarrow> (memory_store, unit) io" where
  "memory_save state states = (Inr (), js_set (er_experimentId (rx_request state)) state states)"

definition put_experiment :: "runtime_experiment \<Rightarrow> ('d, 's) runtime \<Rightarrow> ('d, 's) runtime" where
  "put_experiment experiment rt =
     rt\<lparr>rt_experiments := js_set (er_experimentId (rx_request experiment)) experiment (rt_experiments rt)\<rparr>"

definition persist :: "('d, 's) runtime_env \<Rightarrow> runtime_experiment \<Rightarrow> (('d, 's) runtime, unit) io" where
  "persist env experiment rt =
     (case en_save env experiment (rt_store rt) of (r, store) \<Rightarrow> (r, rt\<lparr>rt_store := store\<rparr>))"

fun restore_runs :: "nat \<Rightarrow> run_view list \<Rightarrow> nat" where
  "restore_runs counter [] = counter"
| "restore_runs counter (r # rs) = restore_runs (max counter (run_number (rv_runId r))) rs"

fun restore_states :: "runtime_experiment list \<Rightarrow> ('d, 's) runtime \<Rightarrow> ('d, 's) runtime" where
  "restore_states [] rt = rt"
| "restore_states (state # states) rt =
     restore_states states
       ((put_experiment state rt)\<lparr>rt_runCounter := restore_runs (rt_runCounter rt) (rx_runs state)\<rparr>)"

definition restore :: "('s, runtime_experiment list) io \<Rightarrow> (('d, 's) runtime, unit) io" where
  "restore load rt =
     (case load (rt_store rt) of
        (Inl e, store) \<Rightarrow> (Inl e, rt\<lparr>rt_store := store\<rparr>)
      | (Inr states, store) \<Rightarrow> (Inr (), restore_states states (rt\<lparr>rt_store := store\<rparr>)))"

section \<open>Lookups\<close>

definition require_experiment :: "string \<Rightarrow> ('d, 's) runtime \<Rightarrow> string + runtime_experiment" where
  "require_experiment experimentId rt =
     of_option (''unknown experiment '' @ quoted experimentId) (js_get (rt_experiments rt) experimentId)"

definition find_by_run :: "string \<Rightarrow> ('d, 's) runtime \<Rightarrow> string + runtime_experiment" where
  "find_by_run runId rt =
     of_option (''unknown run '' @ quoted runId)
       (find (\<lambda>e. list_ex (\<lambda>r. rv_runId r = runId) (rx_runs e)) (js_values (rt_experiments rt)))"

definition require_run :: "runtime_experiment \<Rightarrow> string \<Rightarrow> string + run_view" where
  "require_run experiment runId =
     of_option ''run has not started'' (find (\<lambda>r. rv_runId r = runId) (rx_runs experiment))"

definition current_step :: "run_view \<Rightarrow> execution_step option" where
  "current_step run =
     (case rv_currentStepId run of
        None \<Rightarrow> None
      | Some stepId \<Rightarrow> find (\<lambda>s. es_stepId s = stepId) (eg_steps (rv_executionGraph run)))"

definition with_run :: "runtime_experiment \<Rightarrow> string \<Rightarrow> run_view \<Rightarrow> runtime_experiment" where
  "with_run experiment runId next_run =
     experiment\<lparr>rx_runs := map (\<lambda>r. if rv_runId r = runId then next_run else r) (rx_runs experiment)\<rparr>"

definition replace_run ::
  "runtime_experiment \<Rightarrow> string \<Rightarrow> run_view \<Rightarrow> ('d, 's) runtime \<Rightarrow> ('d, 's) runtime" where
  "replace_run experiment runId next_run rt = put_experiment (with_run experiment runId next_run) rt"

section \<open>Views\<close>

text \<open>
  \<open>view\<close>: the status is always given by the callers. The two clock readings are arguments: the one
  for \<open>createdAt\<close> (the run's own creation time when the view replaces another) and the one for
  \<open>updatedAt\<close>.
\<close>

definition make_view ::
  "string \<Rightarrow> string \<Rightarrow> string \<Rightarrow> run_status \<Rightarrow> execution_graph \<Rightarrow> runtime_observation list
   \<Rightarrow> string option \<Rightarrow> string list \<Rightarrow> string option \<Rightarrow> string option \<Rightarrow> nat \<Rightarrow> nat \<Rightarrow> run_view"
where
  "make_view experimentId planId runId status graph observations currentStepId skillRevisionIds
     launchingSessionId retryOfRunId createdAt now =
     \<lparr>rv_experimentId = experimentId, rv_planId = planId, rv_runId = runId,
      rv_launchingSessionId = launchingSessionId, rv_retryOfRunId = retryOfRunId,
      rv_createdAt = createdAt, rv_updatedAt = now, rv_planStatus = Plan_LOCKED,
      rv_runStatus = Some status, rv_executionGraph = clone_graph graph,
      rv_observations = map clone_observation observations, rv_artifacts = [],
      rv_currentStepId = currentStepId,
      rv_cache = \<lparr>ec_experimentId = experimentId, ec_planId = Some planId, ec_runId = Some runId,
        ec_status = Cache_run status, ec_knowledgeCitations = [],
        ec_skillRevisionIds = skillRevisionIds, ec_updatedBy = ''lab-runtime-local:'' @ experimentId\<rparr>,
      rv_feedback = feedback_for status observations, rv_replanRequest = None\<rparr>"

text \<open>The call every update makes: the run's own identity with a new status, observations and step.\<close>

definition next_view ::
  "run_view \<Rightarrow> run_status \<Rightarrow> runtime_observation list \<Rightarrow> string option \<Rightarrow> nat \<Rightarrow> run_view" where
  "next_view run status observations currentStepId now =
     make_view (rv_experimentId run) (rv_planId run) (rv_runId run) status (rv_executionGraph run)
       observations currentStepId (ec_skillRevisionIds (rv_cache run)) (rv_launchingSessionId run)
       (rv_retryOfRunId run) (rv_createdAt run) now"

definition other_steps :: "string \<Rightarrow> runtime_observation list \<Rightarrow> runtime_observation list" where
  "other_steps stepId observations = filter (\<lambda>o1. ob_stepId o1 \<noteq> stepId) observations"

definition failed_view ::
  "run_view \<Rightarrow> execution_step \<Rightarrow> runtime_observation \<Rightarrow> nat \<Rightarrow> run_view" where
  "failed_view run step observation now =
     (let replan = es_failurePolicy step = On_failure_replan;
          failure = (if replan then observation\<lparr>ob_replanRequested := Some True\<rparr> else observation);
          status = (if es_failurePolicy step = On_failure_stop then Run_STOPPED else Run_BLOCKED);
          nxt = next_view run status (other_steps (es_stepId step) (rv_observations run) @ [failure])
                  (Some (es_stepId step)) now
      in if replan
         then nxt\<lparr>rv_replanRequest := Some
                \<lparr>rq_runId = rv_runId run, rq_stepId = es_stepId step,
                 rq_reason = (case ob_error failure of
                   Some e \<Rightarrow> e | None \<Rightarrow> ''step result did not satisfy its validation policy'')\<rparr>\<rparr>
         else nxt)"

definition step_after :: "execution_step list \<Rightarrow> string \<Rightarrow> execution_step option" where
  "step_after steps stepId =
     (let index = (case find_index (\<lambda>c. es_stepId c = stepId) steps of None \<Rightarrow> 0 | Some i \<Rightarrow> Suc i)
      in if index < length steps then Some (steps ! index) else None)"

definition advance_view ::
  "run_view \<Rightarrow> execution_step \<Rightarrow> runtime_observation list \<Rightarrow> nat \<Rightarrow> run_view" where
  "advance_view run step observations now =
     (let next_step = step_after (eg_steps (rv_executionGraph run)) (es_stepId step)
      in next_view run (case next_step of None \<Rightarrow> Run_COMPLETED | Some s \<Rightarrow> initial_status s)
           observations (map_option es_stepId next_step) now)"

section \<open>Creating an experiment and approving its plan\<close>

definition create_experiment ::
  "('d, 's) runtime_env \<Rightarrow> experiment_request \<Rightarrow> (('d, 's) runtime, unit) io" where
  "create_experiment env request rt =
     (if js_trim (er_objective request) = [] then (Inl ''experiment objective must be non-blank'', rt)
      else case js_get (rt_experiments rt) (er_experimentId request) of
        Some existing \<Rightarrow>
          if same_experiment_request (rx_request existing) request then (Inr (), rt)
          else (Inl (''experiment '' @ quoted (er_experimentId request)
                  @ '' already exists with different metadata''), rt)
      | None \<Rightarrow>
          (let experiment = \<lparr>rx_request = request, rx_approvedPlan = None, rx_runs = []\<rparr>
           in persist env experiment (put_experiment experiment rt)))"

fun validate_graph_steps :: "string list \<Rightarrow> string list \<Rightarrow> execution_step list \<Rightarrow> string + unit" where
  "validate_graph_steps skillIds stepIds [] = Inr ()"
| "validate_graph_steps skillIds stepIds (step # steps) =
     (if es_stepId step \<in> set stepIds
        then Inl (''duplicate execution step '' @ quoted (es_stepId step))
      else if es_skillRevisionId step \<notin> set skillIds
        then Inl (''execution step '' @ quoted (es_stepId step) @ '' references an unapproved Skill revision'')
      else if js_trim (es_operationResource step) = []
        then Inl (''execution step '' @ quoted (es_stepId step) @ '' requires an operation resource'')
      else if es_operationKind step = Op_device \<and> es_deviceId step = None
        then Inl (''device step '' @ quoted (es_stepId step) @ '' requires a device id'')
      else validate_graph_steps skillIds (es_stepId step # stepIds) steps)"

fun validate_graph_snapshots :: "string list \<Rightarrow> string list \<Rightarrow> skill_snapshot list \<Rightarrow> string + unit" where
  "validate_graph_snapshots skillIds snapshotIds [] = Inr ()"
| "validate_graph_snapshots skillIds snapshotIds (sn # sns) =
     (if sn_status sn \<noteq> ''ACTIVE''
        then Inl (''Skill snapshot '' @ quoted (sn_revisionId sn) @ '' is not ACTIVE'')
      else if sn_revisionId sn \<notin> set skillIds
        then Inl (''Skill snapshot '' @ quoted (sn_revisionId sn) @ '' is not approved'')
      else if sn_revisionId sn \<in> set snapshotIds
        then Inl (''duplicate Skill snapshot '' @ quoted (sn_revisionId sn))
      else validate_graph_snapshots skillIds (sn_revisionId sn # snapshotIds) sns)"

definition validate_graph_inputs ::
  "string list \<Rightarrow> execution_step list \<Rightarrow> skill_snapshot list \<Rightarrow> string + unit" where
  "validate_graph_inputs skillRevisionIds steps snapshots =
     and_then (validate_graph_steps skillRevisionIds [] steps)
       (\<lambda>_. validate_graph_snapshots skillRevisionIds [] snapshots)"

definition build_approved_plan ::
  "approve_plan_request \<Rightarrow> execution_step list \<Rightarrow> skill_snapshot list \<Rightarrow> approved_plan" where
  "build_approved_plan request steps snapshots =
     \<lparr>an_request =
        \<lparr>ap_experimentId = ap_experimentId request, ap_planId = ap_planId request,
         ap_approvedBy = ap_approvedBy request, ap_skillRevisionIds = ap_skillRevisionIds request,
         ap_executionSteps = (if steps = [] then None else Some (map clone_step steps)),
         ap_skillSnapshots = (if snapshots = [] then None else Some snapshots)\<rparr>,
      an_executionGraph =
        \<lparr>eg_planId = ap_planId request,
         eg_skillSnapshots = map (\<lambda>sn. sn\<lparr>sn_status := ''ACTIVE''\<rparr>) snapshots,
         eg_steps = map clone_step steps\<rparr>\<rparr>"

definition approve_plan ::
  "('d, 's) runtime_env \<Rightarrow> approve_plan_request \<Rightarrow> (('d, 's) runtime, unit) io" where
  "approve_plan env request rt =
     (case require_experiment (ap_experimentId request) rt of
        Inl e \<Rightarrow> (Inl e, rt)
      | Inr experiment \<Rightarrow>
          if js_trim (ap_planId request) = [] then (Inl ''plan id must be non-blank'', rt)
          else if js_trim (ap_approvedBy request) = []
            then (Inl ''plan approval requires an accountable reviewer'', rt)
          else if ap_skillRevisionIds request = []
            then (Inl ''plan approval requires at least one Skill revision'', rt)
          else if rx_runs experiment \<noteq> []
            then (Inl ''a plan cannot be changed after a run has started'', rt)
          else
            (let steps = or_default [] (ap_executionSteps request);
                 snapshots = or_default [] (ap_skillSnapshots request)
             in case validate_graph_inputs (ap_skillRevisionIds request) steps snapshots of
                  Inl e \<Rightarrow> (Inl e, rt)
                | Inr _ \<Rightarrow>
                    (let approved = experiment\<lparr>rx_approvedPlan :=
                           Some (build_approved_plan request steps snapshots)\<rparr>
                     in persist env approved (put_experiment approved rt))))"

section \<open>Starting and retrying a run\<close>

text \<open>The two clock readings of a new view come one after the other: \<open>createdAt\<close>, then \<open>updatedAt\<close>.\<close>

definition first_step :: "execution_graph \<Rightarrow> execution_step option" where
  "first_step g = (case eg_steps g of [] \<Rightarrow> None | s # _ \<Rightarrow> Some s)"

definition started_view :: "start_run_request \<Rightarrow> approved_plan \<Rightarrow> nat \<Rightarrow> nat \<Rightarrow> nat \<Rightarrow> run_view" where
  "started_view inp approved counter createdAt now =
     (let first = first_step (an_executionGraph approved) in
      make_view (sr_experimentId inp) (sr_planId inp) (''run-'' @ str_of_nat counter)
        (case first of None \<Rightarrow> Run_WAITING_CONFIRMATION | Some s \<Rightarrow> initial_status s)
        (an_executionGraph approved) [] (map_option es_stepId first)
        (ap_skillRevisionIds (an_request approved)) (sr_launchingSessionId inp)
        (sr_retryOfRunId inp) createdAt now)"

definition start_run ::
  "('d, 's) runtime_env \<Rightarrow> start_run_request \<Rightarrow> nat \<Rightarrow> nat \<Rightarrow> (('d, 's) runtime, run_view) io" where
  "start_run env inp createdAt now rt =
     (case require_experiment (sr_experimentId inp) rt of
        Inl e \<Rightarrow> (Inl e, rt)
      | Inr experiment \<Rightarrow>
          (case rx_approvedPlan experiment of
             None \<Rightarrow> (Inl ''only the approved plan revision can start a run'', rt)
           | Some approved \<Rightarrow>
               if ap_planId (an_request approved) \<noteq> sr_planId inp
                 then (Inl ''only the approved plan revision can start a run'', rt)
               else if list_ex (\<lambda>r. \<not> is_terminal (rv_runStatus r)) (rx_runs experiment)
                 then (Inl ''an experiment already has an active or non-terminal run'', rt)
               else
                 (let counter = Suc (rt_runCounter rt);
                      view = started_view inp approved counter createdAt now;
                      started = experiment\<lparr>rx_runs := rx_runs experiment @ [view]\<rparr>
                  in case persist env started (put_experiment started (rt\<lparr>rt_runCounter := counter\<rparr>)) of
                       (Inl e, rt') \<Rightarrow> (Inl e, rt')
                     | (Inr _, rt') \<Rightarrow> (Inr (clone_run view), rt'))))"

definition retry_run ::
  "('d, 's) runtime_env \<Rightarrow> string \<Rightarrow> string \<Rightarrow> nat \<Rightarrow> nat \<Rightarrow> (('d, 's) runtime, run_view) io" where
  "retry_run env runId actor createdAt now rt =
     (if js_trim actor = [] then (Inl ''run retry requires an accountable actor'', rt)
      else case and_then (find_by_run runId rt) (\<lambda>experiment. require_run experiment runId) of
        Inl e \<Rightarrow> (Inl e, rt)
      | Inr source \<Rightarrow>
          if \<not> is_terminal (rv_runStatus source)
          then (Inl ''only a terminal state can be retried'', rt)
          else start_run env
            \<lparr>sr_experimentId = rv_experimentId source, sr_planId = rv_planId source,
             sr_launchingSessionId = rv_launchingSessionId source, sr_retryOfRunId = Some runId\<rparr>
            createdAt now rt)"

section \<open>Device steps\<close>

text \<open>
  What the \<open>try\<close> block and the release after it leave behind: whether the lease was taken, the
  failure (already as its message) and the receipt.
\<close>

record device_attempt =
  at_reserved :: bool
  at_failure :: "string option"
  at_receipt :: "device_receipt option"

definition attempt_device ::
  "'d gateway \<Rightarrow> device_request \<Rightarrow> 'd \<Rightarrow> device_attempt \<times> 'd" where
  "attempt_device gw q d =
     (case gw_healthCheck gw (dq_deviceId q) d of
        (Inl e, d1) \<Rightarrow> (\<lparr>at_reserved = False, at_failure = Some e, at_receipt = None\<rparr>, d1)
      | (Inr False, d1) \<Rightarrow>
          (\<lparr>at_reserved = False,
            at_failure = Some (''device '' @ quoted (dq_deviceId q) @ '' failed health check''),
            at_receipt = None\<rparr>, d1)
      | (Inr True, d1) \<Rightarrow>
          (case gw_reserve gw (dq_deviceId q) (dq_runId q) d1 of
             (Inl e, d2) \<Rightarrow> (\<lparr>at_reserved = False, at_failure = Some e, at_receipt = None\<rparr>, d2)
           | (Inr _, d2) \<Rightarrow>
               (case gw_execute gw q d2 of
                  (Inl e, d3) \<Rightarrow> (\<lparr>at_reserved = True, at_failure = Some e, at_receipt = None\<rparr>, d3)
                | (Inr rc, d3) \<Rightarrow>
                    (\<lparr>at_reserved = True, at_failure = None, at_receipt = Some rc\<rparr>, d3))))"

definition keep_lease :: "device_attempt \<Rightarrow> bool" where
  "keep_lease a = (case at_receipt a of None \<Rightarrow> False | Some rc \<Rightarrow> dr_status rc = Receipt_accepted)"

definition settle_lease ::
  "'d gateway \<Rightarrow> device_request \<Rightarrow> device_attempt \<times> 'd \<Rightarrow> device_attempt \<times> 'd" where
  "settle_lease gw q ad =
     (case ad of (a, d) \<Rightarrow>
        if at_reserved a \<and> \<not> keep_lease a
        then (case gw_release gw (dq_deviceId q) (dq_runId q) d of
            (Inr _, d') \<Rightarrow> (a, d')
          | (Inl e, d') \<Rightarrow>
              (a\<lparr>at_failure := Some ((case at_failure a of None \<Rightarrow> ''undefined'' | Some m \<Rightarrow> m)
                   @ ''; device release failed: '' @ e)\<rparr>, d'))
        else (a, d))"

definition receipt_observation ::
  "execution_step \<Rightarrow> device_receipt \<Rightarrow> bool \<Rightarrow> observation_status \<Rightarrow> string option \<Rightarrow> runtime_observation" where
  "receipt_observation step rc valid status message =
     \<lparr>ob_stepId = es_stepId step, ob_operationId = dr_operationId rc, ob_valid = valid,
      ob_evidence = dr_evidence rc, ob_artifactIds = [], ob_status = status, ob_error = message,
      ob_replanRequested = None\<rparr>"

text \<open>The view after the attempt, from the run read before it.\<close>

definition settle_attempt :: "run_view \<Rightarrow> execution_step \<Rightarrow> device_attempt \<Rightarrow> nat \<Rightarrow> run_view" where
  "settle_attempt run step a now =
     (let others = other_steps (es_stepId step) (rv_observations run) in
      case at_failure a of
        Some message \<Rightarrow> failed_view run step (failed_observation step (rv_runId run) message) now
      | None \<Rightarrow>
         (case at_receipt a of
            None \<Rightarrow> failed_view run step
              (failed_observation step (rv_runId run) ''device did not return a receipt'') now
          | Some rc \<Rightarrow>
             (case dr_status rc of
                Receipt_completed \<Rightarrow>
                  (let validation = validate_runtime_evidence step (dr_evidence rc) in
                   if \<not> rr_valid validation
                   then failed_view run step (receipt_observation step rc False Obs_FAILED
                          (Some (js_join ''; '' (rr_issues validation)))) now
                   else advance_view run step
                          (others @ [receipt_observation step rc True Obs_COMPLETED None]) now)
              | Receipt_accepted \<Rightarrow>
                  next_view run Run_RUNNING
                    (others @ [receipt_observation step rc False Obs_WAITING None])
                    (Some (es_stepId step)) now
              | Receipt_stopped \<Rightarrow>
                  next_view run Run_STOPPED
                    (others @ [receipt_observation step rc False Obs_STOPPED None])
                    (Some (es_stepId step)) now
              | Receipt_failed \<Rightarrow>
                  failed_view run step
                    (receipt_observation step rc False Obs_FAILED (Some ''device operation failed'')) now)))"

definition execute_device_step ::
  "('d, 's) runtime_env \<Rightarrow> run_view \<Rightarrow> execution_step \<Rightarrow> nat \<Rightarrow> 'd \<Rightarrow> run_view \<times> 'd" where
  "execute_device_step env run step now d =
     (let fail = (\<lambda>message. failed_view run step (failed_observation step (rv_runId run) message) now) in
      case es_deviceId step of
        None \<Rightarrow> (fail ''device step requires a device id'', d)
      | Some dev \<Rightarrow>
         (case en_devices env of
            None \<Rightarrow> (fail ''Lab Device Service is unavailable'', d)
          | Some gw \<Rightarrow>
              (let q = \<lparr>dq_deviceId = dev, dq_runId = rv_runId run,
                        dq_operationId = operation_id_for (rv_runId run) (es_stepId step) Tag_device,
                        dq_idempotencyKey = rv_runId run @ '':'' @ es_stepId step,
                        dq_parameters = es_parameters step\<rparr>
               in case settle_lease gw q (attempt_device gw q d) of
                    (a, d') \<Rightarrow> (settle_attempt run step a now, d'))))"

section \<open>Executing the next step\<close>

definition approval_given :: "run_view \<Rightarrow> execution_step \<Rightarrow> bool" where
  "approval_given run step \<longleftrightarrow>
     list_ex (\<lambda>o1. ob_stepId o1 = es_stepId step
       \<and> (ob_status o1 = Obs_WAITING \<or> ob_status o1 = Obs_COMPLETED) \<and> ob_valid o1)
       (rv_observations run)"

definition waiting_observation :: "run_view \<Rightarrow> execution_step \<Rightarrow> runtime_observation" where
  "waiting_observation run step =
     \<lparr>ob_stepId = es_stepId step,
      ob_operationId = operation_id_for (rv_runId run) (es_stepId step) Tag_approval,
      ob_valid = True, ob_evidence = [], ob_artifactIds = [], ob_status = Obs_WAITING,
      ob_error = None, ob_replanRequested = None\<rparr>"

definition execute_view ::
  "('d, 's) runtime_env \<Rightarrow> run_view \<Rightarrow> nat \<Rightarrow> ('d, run_view) io" where
  "execute_view env run now d =
     (if is_terminal (rv_runStatus run) then (Inl ''run is already in a terminal state'', d)
      else case current_step run of
        None \<Rightarrow> (Inl ''run has no execution steps'', d)
      | Some step \<Rightarrow>
          if es_requiresApproval step \<and> \<not> approval_given run step
          then (Inr (next_view run Run_WAITING_CONFIRMATION
                  (rv_observations run @ [waiting_observation run step]) (Some (es_stepId step)) now), d)
          else if \<not> is_controlled_operation (es_operationKind step)
          then (Inr (failed_view run step (failed_observation step (rv_runId run)
                  (''operation kind '' @ quoted (operation_kind_name (es_operationKind step))
                   @ '' is not executable by Lab Runtime'')) now), d)
          else if es_operationKind step = Op_device
          then (case execute_device_step env run step now d of (v, d') \<Rightarrow> (Inr v, d'))
          else (Inr (next_view run Run_WAITING_CONFIRMATION (rv_observations run)
                  (Some (es_stepId step)) now), d))"

definition persist_run ::
  "('d, 's) runtime_env \<Rightarrow> string \<Rightarrow> run_view \<Rightarrow> (('d, 's) runtime, run_view) io" where
  "persist_run env runId result rt =
     (case find_by_run runId rt of
        Inl e \<Rightarrow> (Inl e, rt)
      | Inr experiment \<Rightarrow>
          (case persist env experiment rt of
             (Inl e, rt') \<Rightarrow> (Inl e, rt')
           | (Inr _, rt') \<Rightarrow> (Inr result, rt')))"

definition execute_next_step ::
  "('d, 's) runtime_env \<Rightarrow> string \<Rightarrow> nat \<Rightarrow> (('d, 's) runtime, run_view) io" where
  "execute_next_step env runId now rt =
     (case find_by_run runId rt of
        Inl e \<Rightarrow> (Inl e, rt)
      | Inr experiment \<Rightarrow>
         (case require_run experiment runId of
            Inl e \<Rightarrow> (Inl e, rt)
          | Inr run \<Rightarrow>
             (case execute_view env run now (rt_devices rt) of
                (Inl e, d) \<Rightarrow> (Inl e, rt\<lparr>rt_devices := d\<rparr>)
              | (Inr v, d) \<Rightarrow>
                  persist_run env runId (clone_run v)
                    (replace_run experiment runId v (rt\<lparr>rt_devices := d\<rparr>)))))"

section \<open>Confirming a step\<close>

definition confirmed_observation ::
  "execution_step \<Rightarrow> string \<Rightarrow> string list \<Rightarrow> bool \<Rightarrow> string option \<Rightarrow> runtime_observation" where
  "confirmed_observation step operationId evidence valid message =
     \<lparr>ob_stepId = es_stepId step, ob_operationId = operationId, ob_valid = valid,
      ob_evidence = evidence, ob_artifactIds = [],
      ob_status = (if valid then Obs_COMPLETED else Obs_FAILED), ob_error = message,
      ob_replanRequested = None\<rparr>"

definition waiting_approval_index :: "run_view \<Rightarrow> execution_step \<Rightarrow> nat option" where
  "waiting_approval_index run step =
     find_index (\<lambda>o1. ob_stepId o1 = es_stepId step \<and> ob_status o1 = Obs_WAITING \<and> ob_valid o1)
       (rv_observations run)"

definition confirm_view ::
  "run_view \<Rightarrow> string list \<Rightarrow> string option \<Rightarrow> string option \<Rightarrow> nat \<Rightarrow> string + run_view" where
  "confirm_view run evidence stepId operationId now =
     (if rv_runStatus run \<noteq> Some Run_WAITING_CONFIRMATION
        then Inl ''run is not waiting for confirmation''
      else case current_step run of
        None \<Rightarrow> Inr (next_view run Run_COMPLETED (rv_observations run) None now)
      | Some current \<Rightarrow>
          if stepId \<noteq> None \<and> stepId \<noteq> Some (es_stepId current)
            then Inl ''confirmation step does not match the current step''
          else if es_requiresApproval current \<and> es_operationKind current = Op_device
                  \<and> waiting_approval_index run current \<noteq> None
            then (let op = or_default (operation_id_for (rv_runId run) (es_stepId current) Tag_approval)
                         operationId;
                      observations = (case waiting_approval_index run current of
                          None \<Rightarrow> rv_observations run
                        | Some i \<Rightarrow> (rv_observations run)[i := confirmed_observation current op evidence True None])
                  in Inr (next_view run Run_RUNNING observations (Some (es_stepId current)) now))
          else
            (let op = or_default (operation_id_for (rv_runId run) (es_stepId current) Tag_manual) operationId;
                 validation = validate_runtime_evidence current evidence;
                 observation = confirmed_observation current op evidence (rr_valid validation)
                   (if rr_valid validation then None else Some (js_join ''; '' (rr_issues validation)))
             in if \<not> rr_valid validation then Inr (failed_view run current observation now)
                else Inr (advance_view run current
                       (other_steps (es_stepId current) (rv_observations run) @ [observation]) now)))"

definition confirm_step ::
  "('d, 's) runtime_env \<Rightarrow> string \<Rightarrow> string list \<Rightarrow> string \<Rightarrow> string option \<Rightarrow> string option \<Rightarrow> nat
   \<Rightarrow> (('d, 's) runtime, run_view) io"
where
  "confirm_step env runId evidence confirmedBy stepId operationId now rt =
     (if evidence = [] then (Inl ''step confirmation requires evidence'', rt)
      else if js_trim confirmedBy = []
        then (Inl ''step confirmation requires an accountable actor'', rt)
      else case find_by_run runId rt of
        Inl e \<Rightarrow> (Inl e, rt)
      | Inr experiment \<Rightarrow>
         (case and_then (require_run experiment runId)
                 (\<lambda>run. confirm_view run evidence stepId operationId now) of
            Inl e \<Rightarrow> (Inl e, rt)
          | Inr v \<Rightarrow>
              persist_run env runId (clone_run v) (replace_run experiment runId v rt)))"

section \<open>Stopping a run\<close>

definition waiting_execution_index :: "run_view \<Rightarrow> execution_step \<Rightarrow> nat option" where
  "waiting_execution_index run step =
     find_index (\<lambda>o1. ob_stepId o1 = es_stepId step \<and> ob_status o1 = Obs_WAITING \<and> \<not> ob_valid o1)
       (rv_observations run)"

text \<open>Stop and release the device of an accepted operation; the observations the stop leaves.\<close>

definition stop_device ::
  "('d, 's) runtime_env \<Rightarrow> run_view \<Rightarrow> string \<Rightarrow> ('d, runtime_observation list) io" where
  "stop_device env run runId d =
     (case current_step run of
        None \<Rightarrow> (Inr (rv_observations run), d)
      | Some current \<Rightarrow>
         (case (waiting_execution_index run current, es_deviceId current, en_devices env) of
            (Some i, Some dev, Some gw) \<Rightarrow>
              (let o1 = rv_observations run ! i in
               case gw_stop gw dev runId (ob_operationId o1) d of
                 (Inl e, d1) \<Rightarrow> (Inl e, d1)
               | (Inr _, d1) \<Rightarrow>
                   (case gw_release gw dev runId d1 of
                      (Inl e, d2) \<Rightarrow> (Inl e, d2)
                    | (Inr _, d2) \<Rightarrow>
                        (Inr ((rv_observations run)[i := o1\<lparr>ob_status := Obs_STOPPED, ob_valid := False\<rparr>]), d2)))
          | _ \<Rightarrow> (Inr (rv_observations run), d)))"

definition stop_view :: "run_view \<Rightarrow> runtime_observation list \<Rightarrow> nat \<Rightarrow> run_view" where
  "stop_view run observations now =
     next_view run Run_STOPPED observations (map_option es_stepId (current_step run)) now"

definition stop_run ::
  "('d, 's) runtime_env \<Rightarrow> string \<Rightarrow> string \<Rightarrow> nat \<Rightarrow> (('d, 's) runtime, run_view) io" where
  "stop_run env runId requestedBy now rt =
     (if js_trim requestedBy = [] then (Inl ''stop request requires an accountable actor'', rt)
      else case find_by_run runId rt of
        Inl e \<Rightarrow> (Inl e, rt)
      | Inr experiment \<Rightarrow>
         (case require_run experiment runId of
            Inl e \<Rightarrow> (Inl e, rt)
          | Inr run \<Rightarrow>
             (case stop_device env run runId (rt_devices rt) of
                (Inl e, d) \<Rightarrow> (Inl e, rt\<lparr>rt_devices := d\<rparr>)
              | (Inr observations, d) \<Rightarrow>
                  (let v = stop_view run observations now in
                   case persist env (with_run experiment runId v)
                          (replace_run experiment runId v (rt\<lparr>rt_devices := d\<rparr>)) of
                     (Inl e, rt') \<Rightarrow> (Inl e, rt')
                   | (Inr _, rt') \<Rightarrow> (Inr (clone_run v), rt')))))"

section \<open>Reading\<close>

definition get_run :: "string \<Rightarrow> ('d, 's) runtime \<Rightarrow> run_view option" where
  "get_run runId rt =
     map_option clone_run
       (find (\<lambda>r. rv_runId r = runId) (concat (map rx_runs (js_values (rt_experiments rt)))))"

definition list_runs :: "string \<Rightarrow> ('d, 's) runtime \<Rightarrow> run_view list" where
  "list_runs experimentId rt =
     (case js_get (rt_experiments rt) experimentId of
        None \<Rightarrow> []
      | Some experiment \<Rightarrow> map clone_run (rx_runs experiment))"

definition build_report :: "string \<Rightarrow> ('d, 's) runtime \<Rightarrow> string + run_report" where
  "build_report runId rt =
     and_then (find_by_run runId rt) (\<lambda>experiment.
     and_then (require_run experiment runId) (\<lambda>run.
     and_then (of_option ''runtime report requires a run status'' (rv_runStatus run)) (\<lambda>status.
       Inr \<lparr>rp_experimentId = rv_experimentId run, rp_planId = rv_planId run, rp_runId = runId,
            rp_status = status, rp_executionGraph = clone_graph (rv_executionGraph run),
            rp_observations = map clone_observation (rv_observations run),
            rp_evidenceMode = (if eg_steps (rv_executionGraph run) = []
              then Evidence_MANUAL else Evidence_CONTROLLED),
            rp_feedback = clone_feedback (rv_feedback run), rp_assessment = assess_run run,
            rp_replanRequest = rv_replanRequest run\<rparr>)))"

end
