(* ===== verification/LabRuntimeSafety.thy ===== *)
theory LabRuntimeSafety
  imports LabRuntime
begin

text \<open>
  The invariant of the local Runtime and the properties that follow from it: progress of a run
  along its locked graph, uniqueness of run ids, at most one active run per experiment, and the
  step relation whose reachable states satisfy it.
\<close>

section \<open>Progress of a run along its graph\<close>

definition step_done :: "execution_step \<Rightarrow> runtime_observation list \<Rightarrow> bool" where
  "step_done step obs \<longleftrightarrow>
     (\<exists>o1 \<in> set obs. ob_stepId o1 = es_stepId step \<and> ob_valid o1 \<and> ob_status o1 = Obs_COMPLETED
       \<and> evidence_suffices step (ob_evidence o1))"

text \<open>
  \<open>progress g k run\<close>: the run stands before step \<open>k\<close> of the graph, the steps before it are done and
  every observation belongs to one of the first \<open>k + 1\<close> steps.
\<close>

definition progress :: "execution_graph \<Rightarrow> nat \<Rightarrow> run_view \<Rightarrow> bool" where
  "progress g k run \<longleftrightarrow>
     k \<le> length (eg_steps g)
     \<and> rv_currentStepId run = (if k < length (eg_steps g) then Some (es_stepId (eg_steps g ! k)) else None)
     \<and> (\<forall>i < k. step_done (eg_steps g ! i) (rv_observations run))
     \<and> (\<forall>o1 \<in> set (rv_observations run). \<exists>i < length (eg_steps g). i \<le> k
          \<and> ob_stepId o1 = es_stepId (eg_steps g ! i) \<and> (i < k \<longrightarrow> ob_valid o1))
     \<and> (rv_runStatus run = Some Run_COMPLETED \<longrightarrow> k = length (eg_steps g))"

definition run_consistent :: "run_view \<Rightarrow> bool" where
  "run_consistent run \<longleftrightarrow>
     rv_planStatus run = Plan_LOCKED
     \<and> (\<exists>st. rv_runStatus run = Some st \<and> ec_status (rv_cache run) = Cache_run st
          \<and> rv_feedback run = feedback_for st (rv_observations run))"

definition run_ok :: "execution_graph \<Rightarrow> run_view \<Rightarrow> bool" where
  "run_ok g run \<longleftrightarrow>
     rv_executionGraph run = g \<and> distinct (map es_stepId (eg_steps g)) \<and> run_consistent run
     \<and> (\<exists>k. progress g k run)"

lemma step_done_subset: "step_done s obs \<Longrightarrow> set obs \<subseteq> set obs' \<Longrightarrow> step_done s obs'"
  by (auto simp: step_done_def)

lemma step_done_other:
  "step_done s obs \<Longrightarrow> es_stepId s \<noteq> cur \<Longrightarrow> other_steps cur obs' = other_steps cur obs \<Longrightarrow> step_done s obs'"
proof -
  assume s: "step_done s obs" "es_stepId s \<noteq> cur" and e: "other_steps cur obs' = other_steps cur obs"
  then have "step_done s (other_steps cur obs)"
    by (auto simp: step_done_def other_steps_def)
  with e have "step_done s (other_steps cur obs')" by simp
  then show ?thesis by (rule step_done_subset) (auto simp: other_steps_def)
qed

lemma other_steps_member:
  assumes "o1 \<in> set obs'" "ob_stepId o1 \<noteq> cur" "other_steps cur obs' = other_steps cur obs"
  shows "o1 \<in> set obs"
proof -
  from assms(1,2) have "o1 \<in> set (other_steps cur obs')" by (simp add: other_steps_def)
  then show ?thesis unfolding assms(3) by (simp add: other_steps_def)
qed

lemma other_steps_simps [simp]:
  "other_steps cur (other_steps cur obs) = other_steps cur obs"
  "other_steps cur (xs @ ys) = other_steps cur xs @ other_steps cur ys"
  "ob_stepId o1 = cur \<Longrightarrow> other_steps cur [o1] = []"
  by (simp_all add: other_steps_def)

lemma other_steps_update:
  "i < length obs \<Longrightarrow> ob_stepId (obs ! i) = cur \<Longrightarrow> ob_stepId x = cur \<Longrightarrow>
     other_steps cur (obs[i := x]) = other_steps cur obs"
proof (induction obs arbitrary: i)
  case (Cons o1 obs)
  then show ?case by (cases i) (simp_all add: other_steps_def)
qed simp

lemma next_view_fields [simp]:
  "rv_executionGraph (next_view run st obs cur now) = rv_executionGraph run"
  "rv_observations (next_view run st obs cur now) = obs"
  "rv_currentStepId (next_view run st obs cur now) = cur"
  "rv_runStatus (next_view run st obs cur now) = Some st"
  "rv_runId (next_view run st obs cur now) = rv_runId run"
  "rv_planId (next_view run st obs cur now) = rv_planId run"
  "rv_experimentId (next_view run st obs cur now) = rv_experimentId run"
  "rv_createdAt (next_view run st obs cur now) = rv_createdAt run"
  "rv_retryOfRunId (next_view run st obs cur now) = rv_retryOfRunId run"
  "rv_launchingSessionId (next_view run st obs cur now) = rv_launchingSessionId run"
  by (simp_all add: next_view_def make_view_def)

lemma make_view_consistent: "run_consistent (make_view e p r st g obs cur sk ls rt c now)"
  by (simp add: run_consistent_def make_view_def)

lemma next_view_consistent [simp]: "run_consistent (next_view run st obs cur now)"
  by (simp add: next_view_def make_view_consistent)

text \<open>What every update keeps of the run it replaces.\<close>

definition same_identity :: "run_view \<Rightarrow> run_view \<Rightarrow> bool" where
  "same_identity r r' \<longleftrightarrow>
     rv_runId r' = rv_runId r \<and> rv_planId r' = rv_planId r \<and> rv_experimentId r' = rv_experimentId r
     \<and> rv_executionGraph r' = rv_executionGraph r \<and> rv_createdAt r' = rv_createdAt r
     \<and> rv_retryOfRunId r' = rv_retryOfRunId r \<and> rv_launchingSessionId r' = rv_launchingSessionId r"

lemma next_view_identity [simp]: "same_identity run (next_view run st obs cur now)"
  by (simp add: same_identity_def)

lemma progress_current:
  "progress g k run \<Longrightarrow>
     rv_currentStepId run = (if k < length (eg_steps g) then Some (es_stepId (eg_steps g ! k)) else None)"
  unfolding progress_def by (elim conjE)

lemma progress_done: "progress g k run \<Longrightarrow> \<forall>i < k. step_done (eg_steps g ! i) (rv_observations run)"
  unfolding progress_def by (elim conjE)

lemma progress_observations:
  "progress g k run \<Longrightarrow> \<forall>o1 \<in> set (rv_observations run). \<exists>i < length (eg_steps g). i \<le> k
     \<and> ob_stepId o1 = es_stepId (eg_steps g ! i) \<and> (i < k \<longrightarrow> ob_valid o1)"
  unfolding progress_def by (elim conjE)

lemma current_step_progress:
  assumes "run_ok g run" "progress g k run"
  shows "current_step run = (if k < length (eg_steps g) then Some (eg_steps g ! k) else None)"
proof (cases "k < length (eg_steps g)")
  case True
  have g: "rv_executionGraph run = g" and d: "distinct (map es_stepId (eg_steps g))"
    using assms(1) by (auto simp: run_ok_def)
  have "find (\<lambda>s. es_stepId s = es_stepId (eg_steps g ! k)) (eg_steps g) = Some (eg_steps g ! k)"
    unfolding find_Some_iff
  proof (intro exI conjI allI impI)
    show "k < length (eg_steps g)" by fact
    fix j assume "j < k"
    then show "es_stepId (eg_steps g ! j) \<noteq> es_stepId (eg_steps g ! k)"
      using d True by (intro distinct_map_nth)
  qed simp_all
  with True progress_current [OF assms(2)] g show ?thesis by (simp add: current_step_def)
next
  case False
  with progress_current [OF assms(2)] show ?thesis by (simp add: current_step_def)
qed

lemma current_step_position:
  assumes "run_ok g run" "current_step run = Some step"
  obtains k where "progress g k run" "k < length (eg_steps g)" "step = eg_steps g ! k"
proof -
  from assms(1) obtain k where k: "progress g k run" by (auto simp: run_ok_def)
  with current_step_progress [OF assms(1) k] assms(2) show ?thesis
    using that by (auto split: if_splits)
qed

text \<open>An update that stays at the current step and touches only its observations.\<close>

lemma stay_ok:
  assumes "run_ok g run" "current_step run = Some step" "st \<noteq> Run_COMPLETED"
    "other_steps (es_stepId step) obs = other_steps (es_stepId step) (rv_observations run)"
  shows "run_ok g (next_view run st obs (Some (es_stepId step)) now)"
proof -
  obtain k where k: "progress g k run" "k < length (eg_steps g)" "step = eg_steps g ! k"
    using current_step_position [OF assms(1,2)] .
  have d: "distinct (map es_stepId (eg_steps g))" using assms(1) by (simp add: run_ok_def)
  have ne: "es_stepId (eg_steps g ! i) \<noteq> es_stepId step" if "i < k" for i
    using distinct_map_nth [OF d that k(2)] k(3) by simp
  have "progress g k (next_view run st obs (Some (es_stepId step)) now)"
    unfolding progress_def next_view_fields
  proof (intro conjI allI impI ballI)
    fix i assume "i < k"
    with k(1) have "step_done (eg_steps g ! i) (rv_observations run)" by (simp add: progress_def)
    then show "step_done (eg_steps g ! i) obs" by (rule step_done_other [OF _ ne [OF \<open>i < k\<close>] assms(4)])
  next
    fix o1 assume o1: "o1 \<in> set obs"
    show "\<exists>i < length (eg_steps g). i \<le> k \<and> ob_stepId o1 = es_stepId (eg_steps g ! i) \<and> (i < k \<longrightarrow> ob_valid o1)"
    proof (cases "ob_stepId o1 = es_stepId step")
      case False
      from other_steps_member [OF o1 False assms(4)] k(1) show ?thesis by (auto simp: progress_def)
    qed (use k in blast)
  qed (use k assms(3) in auto)
  with assms(1) show ?thesis by (auto simp: run_ok_def)
qed

lemma failed_view_fields:
  "failed_view run step o1 now =
     (next_view run (if es_failurePolicy step = On_failure_stop then Run_STOPPED else Run_BLOCKED)
        (other_steps (es_stepId step) (rv_observations run)
          @ [if es_failurePolicy step = On_failure_replan then o1\<lparr>ob_replanRequested := Some True\<rparr> else o1])
        (Some (es_stepId step)) now)
     \<lparr>rv_replanRequest := rv_replanRequest (failed_view run step o1 now)\<rparr>"
  by (simp add: failed_view_def Let_def next_view_def make_view_def)

lemma run_ok_replan [simp]: "run_ok g (run\<lparr>rv_replanRequest := x\<rparr>) = run_ok g run"
  by (simp add: run_ok_def run_consistent_def progress_def)

lemma failed_view_ok:
  assumes "run_ok g run" "current_step run = Some step" "ob_stepId o1 = es_stepId step"
  shows "run_ok g (failed_view run step o1 now)"
  by (subst failed_view_fields, subst run_ok_replan, rule stay_ok [OF assms(1,2)])
    (use assms(3) in auto)

lemma failed_view_identity [simp]: "same_identity run (failed_view run step o1 now)"
  by (subst failed_view_fields) (simp add: same_identity_def)

lemma step_after_distinct:
  assumes "distinct (map es_stepId steps)" "k < length steps"
  shows "step_after steps (es_stepId (steps ! k)) = (if Suc k < length steps then Some (steps ! Suc k) else None)"
proof -
  obtain j where j: "find_index (\<lambda>c. es_stepId c = es_stepId (steps ! k)) steps = Some j"
    using assms(2) by (cases "find_index (\<lambda>c. es_stepId c = es_stepId (steps ! k)) steps")
      (auto simp: find_index_None)
  from find_index_Some [OF j] have lt: "j < length steps" "es_stepId (steps ! j) = es_stepId (steps ! k)"
    by simp_all
  have "j = k"
    using distinct_map_nth [OF assms(1), of j k] distinct_map_nth [OF assms(1), of k j] lt assms(2)
    by (metis linorder_neqE_nat)
  with j show ?thesis by (simp add: step_after_def)
qed

lemma advance_view_ok:
  assumes "run_ok g run" "current_step run = Some step"
    "ob_stepId o1 = es_stepId step" "ob_valid o1" "ob_status o1 = Obs_COMPLETED"
    "evidence_suffices step (ob_evidence o1)"
  shows "run_ok g (advance_view run step (other_steps (es_stepId step) (rv_observations run) @ [o1]) now)"
proof -
  obtain k where k: "progress g k run" "k < length (eg_steps g)" "step = eg_steps g ! k"
    using current_step_position [OF assms(1,2)] .
  have d: "distinct (map es_stepId (eg_steps g))" and g: "rv_executionGraph run = g"
    using assms(1) by (simp_all add: run_ok_def)
  let ?steps = "eg_steps g"
  let ?obs = "other_steps (es_stepId step) (rv_observations run) @ [o1]"
  let ?nxt = "if Suc k < length ?steps then Some (?steps ! Suc k) else None"
  have nxt: "step_after (eg_steps (rv_executionGraph run)) (es_stepId step) = ?nxt"
    using step_after_distinct [OF d k(2)] k(3) g by simp
  have ne: "es_stepId (?steps ! i) \<noteq> es_stepId step" if "i < k" for i
    using distinct_map_nth [OF d that k(2)] k(3) by simp
  have done_k: "step_done (?steps ! i) ?obs" if "i < Suc k" for i
  proof (cases "i = k")
    case True
    with assms(3-6) k(3) show ?thesis by (auto simp: step_done_def)
  next
    case False
    with that have "i < k" by simp
    with k(1) have "step_done (?steps ! i) (rv_observations run)" by (simp add: progress_def)
    from step_done_other [OF this ne [OF \<open>i < k\<close>]] assms(3) show ?thesis by simp
  qed
  have obs: "\<exists>i < length ?steps. i \<le> Suc k \<and> ob_stepId p = es_stepId (?steps ! i) \<and> (i < Suc k \<longrightarrow> ob_valid p)"
    if "p \<in> set ?obs" for p
  proof (cases "p = o1")
    case True
    with assms(3,4) k show ?thesis by (intro exI [of _ k]) simp
  next
    case False
    with that have p: "p \<in> set (rv_observations run)" "ob_stepId p \<noteq> es_stepId step"
      by (auto simp: other_steps_def)
    with k(1) obtain i where "i < length ?steps" "i \<le> k" "ob_stepId p = es_stepId (?steps ! i)"
      "i < k \<longrightarrow> ob_valid p" by (auto simp: progress_def)
    with p(2) k(3) show ?thesis by (metis le_SucI le_neq_implies_less)
  qed
  have "progress g (Suc k) (next_view run (case ?nxt of None \<Rightarrow> Run_COMPLETED | Some s \<Rightarrow> initial_status s)
      ?obs (map_option es_stepId ?nxt) now)"
    unfolding progress_def next_view_fields
    using done_k obs k(2) by (auto simp: initial_status_def split: if_splits)
  with assms(1) show ?thesis unfolding advance_view_def nxt Let_def by (auto simp: run_ok_def)
qed

lemma advance_view_identity [simp]: "same_identity run (advance_view run step obs now)"
  by (simp add: advance_view_def Let_def)

lemma current_step_in: "current_step run = Some step \<Longrightarrow> step \<in> set (eg_steps (rv_executionGraph run))"
  by (auto simp: current_step_def find_Some_iff split: option.splits)

lemma settle_attempt_ok:
  assumes "run_ok g run" "current_step run = Some step"
  shows "run_ok g (settle_attempt run step a now)" "same_identity run (settle_attempt run step a now)"
proof -
  show "run_ok g (settle_attempt run step a now)"
    unfolding settle_attempt_def Let_def
    by (auto split: option.splits receipt_status.splits
        intro!: failed_view_ok [OF assms] advance_view_ok [OF assms] stay_ok [OF assms]
        simp: failed_observation_def receipt_observation_def)
  show "same_identity run (settle_attempt run step a now)"
    unfolding settle_attempt_def Let_def by (auto split: option.splits receipt_status.splits)
qed

lemma execute_device_step_ok:
  assumes "run_ok g run" "current_step run = Some step" "execute_device_step env run step now d = (v, d')"
  shows "run_ok g v \<and> same_identity run v"
  using assms(3) settle_attempt_ok [OF assms(1,2)] failed_view_ok [OF assms(1,2)]
  by (auto simp: execute_device_step_def Let_def failed_observation_def split: option.splits prod.splits)

lemma execute_view_ok:
  assumes "run_ok g run" "execute_view env run now d = (Inr v, d')"
  shows "run_ok g v \<and> same_identity run v \<and> \<not> is_terminal (rv_runStatus run)"
proof -
  from assms(2) obtain step where step: "current_step run = Some step"
    and nt: "\<not> is_terminal (rv_runStatus run)"
    by (auto simp: execute_view_def split: if_splits option.splits)
  have "run_ok g v \<and> same_identity run v"
    using assms(2) step nt
    by (auto simp: execute_view_def failed_observation_def waiting_observation_def
        split: if_splits prod.splits dest: execute_device_step_ok [OF assms(1) step]
        intro!: failed_view_ok [OF assms(1) step] stay_ok [OF assms(1) step])
  with nt show ?thesis by simp
qed

lemma waiting_index_props:
  "waiting_approval_index run step = Some i \<Longrightarrow>
     i < length (rv_observations run) \<and> ob_stepId (rv_observations run ! i) = es_stepId step"
  "waiting_execution_index run step = Some i \<Longrightarrow>
     i < length (rv_observations run) \<and> ob_stepId (rv_observations run ! i) = es_stepId step"
  unfolding waiting_approval_index_def waiting_execution_index_def
  by (blast dest: find_index_Some)+

lemma finish_ok:
  assumes "run_ok g run" "current_step run = None" "st \<in> {Run_COMPLETED, Run_STOPPED}"
  shows "run_ok g (next_view run st (rv_observations run) None now)"
proof -
  from assms(1) obtain k where k: "progress g k run" by (auto simp: run_ok_def)
  then have "k \<le> length (eg_steps g)" unfolding progress_def by (elim conjE)
  moreover have "\<not> k < length (eg_steps g)"
    using current_step_progress [OF assms(1) k] assms(2) by (auto split: if_splits)
  ultimately have "k = length (eg_steps g)" by simp
  moreover note progress_done [OF k] progress_observations [OF k]
  ultimately have "progress g k (next_view run st (rv_observations run) None now)"
    unfolding progress_def next_view_fields by (intro conjI; simp)
  with assms(1) show ?thesis by (auto simp: run_ok_def)
qed

lemma confirm_view_ok:
  assumes "run_ok g run" "confirm_view run evidence stepId opid now = Inr v"
  shows "run_ok g v \<and> same_identity run v \<and> rv_runStatus run = Some Run_WAITING_CONFIRMATION"
proof (cases "current_step run")
  case None
  with assms finish_ok [OF assms(1) None, of Run_COMPLETED] show ?thesis
    by (auto simp: confirm_view_def split: if_splits)
next
  case (Some step)
  from assms(2) have w: "rv_runStatus run = Some Run_WAITING_CONFIRMATION"
    by (auto simp: confirm_view_def split: if_splits)
  show ?thesis
  proof (cases "es_requiresApproval step \<and> es_operationKind step = Op_device
      \<and> waiting_approval_index run step \<noteq> None")
    case True
    then obtain i where i: "waiting_approval_index run step = Some i" by auto
    from waiting_index_props(1) [OF i] show ?thesis
      using assms(2) Some True w i
      by (auto simp: confirm_view_def Let_def confirmed_observation_def split: if_splits
          intro!: stay_ok [OF assms(1) Some] other_steps_update)
  next
    case False
    have "run_ok g v \<and> same_identity run v"
      using assms(2) Some False w
      by (auto simp: confirm_view_def Let_def confirmed_observation_def split: if_splits
          intro!: failed_view_ok [OF assms(1) Some] advance_view_ok [OF assms(1) Some])
    with w show ?thesis by simp
  qed
qed

lemma stop_view_ok:
  assumes "run_ok g run" "stop_device env run runId d = (Inr obs, d')"
  shows "run_ok g (stop_view run obs now) \<and> same_identity run (stop_view run obs now)"
proof (cases "current_step run")
  case None
  with assms(2) have "obs = rv_observations run" by (simp add: stop_device_def)
  with finish_ok [OF assms(1) None, of Run_STOPPED] None show ?thesis by (simp add: stop_view_def)
next
  case (Some step)
  have "other_steps (es_stepId step) obs = other_steps (es_stepId step) (rv_observations run)"
    using assms(2) Some
    by (auto simp: stop_device_def Let_def waiting_index_props(2) split: option.splits prod.splits sum.splits
        intro!: other_steps_update)
  with stay_ok [OF assms(1) Some, of Run_STOPPED] Some show ?thesis by (simp add: stop_view_def)
qed

lemma stop_view_status [simp]: "rv_runStatus (stop_view run obs now) = Some Run_STOPPED"
  by (simp add: stop_view_def)

lemma start_view_ok:
  assumes "distinct (map es_stepId (eg_steps g))"
  shows "run_ok g (make_view e p r
     (case (case eg_steps g of [] \<Rightarrow> None | s # _ \<Rightarrow> Some s) of None \<Rightarrow> Run_WAITING_CONFIRMATION | Some s \<Rightarrow> initial_status s)
     g [] (map_option es_stepId (case eg_steps g of [] \<Rightarrow> None | s # _ \<Rightarrow> Some s)) sk ls rt c now)"
    (is "run_ok g ?v")
proof -
  have "progress g 0 ?v"
    by (cases "eg_steps g") (auto simp: progress_def make_view_def initial_status_def)
  then show ?thesis using assms make_view_consistent unfolding run_ok_def by (fastforce simp: make_view_def)
qed

section \<open>Experiments\<close>

definition active_runs :: "runtime_experiment \<Rightarrow> run_view list" where
  "active_runs e = filter (\<lambda>r. \<not> is_terminal (rv_runStatus r)) (rx_runs e)"

definition experiment_ok :: "nat \<Rightarrow> runtime_experiment \<Rightarrow> bool" where
  "experiment_ok counter e \<longleftrightarrow>
     (\<forall>a. rx_approvedPlan e = Some a \<longrightarrow>
        distinct (map es_stepId (eg_steps (an_executionGraph a))))
     \<and> (\<forall>r \<in> set (rx_runs e).
          rv_experimentId r = er_experimentId (rx_request e)
          \<and> (\<exists>n \<le> counter. rv_runId r = ''run-'' @ str_of_nat n)
          \<and> (\<exists>a. rx_approvedPlan e = Some a \<and> rv_planId r = ap_planId (an_request a)
               \<and> run_ok (an_executionGraph a) r))
     \<and> distinct (map rv_runId (rx_runs e))
     \<and> length (active_runs e) \<le> 1"

definition run_ids :: "runtime_experiment \<Rightarrow> string set" where
  "run_ids e = rv_runId ` set (rx_runs e)"

definition runtime_ok :: "('d, 's) runtime \<Rightarrow> bool" where
  "runtime_ok rt \<longleftrightarrow>
     distinct (map fst (rt_experiments rt))
     \<and> (\<forall>k e. map_of (rt_experiments rt) k = Some e \<longrightarrow>
          k = er_experimentId (rx_request e) \<and> experiment_ok (rt_runCounter rt) e)
     \<and> (\<forall>k1 e1 k2 e2. map_of (rt_experiments rt) k1 = Some e1 \<longrightarrow> map_of (rt_experiments rt) k2 = Some e2 \<longrightarrow>
          run_ids e1 \<inter> run_ids e2 \<noteq> {} \<longrightarrow> k1 = k2)"

lemma experiment_ok_mono: "experiment_ok c e \<Longrightarrow> c \<le> c' \<Longrightarrow> experiment_ok c' e"
  unfolding experiment_ok_def by (meson le_trans)

lemma put_experiment_fields [simp]:
  "rt_experiments (put_experiment e rt) = AList.update (er_experimentId (rx_request e)) e (rt_experiments rt)"
  "rt_runCounter (put_experiment e rt) = rt_runCounter rt"
  "rt_devices (put_experiment e rt) = rt_devices rt"
  "rt_store (put_experiment e rt) = rt_store rt"
  by (simp_all add: put_experiment_def)

lemma runtime_ok_put:
  assumes "runtime_ok rt" "experiment_ok c e" "rt_runCounter rt \<le> c"
    "\<And>k e'. map_of (rt_experiments rt) k = Some e' \<Longrightarrow> run_ids e \<inter> run_ids e' \<noteq> {} \<Longrightarrow>
       k = er_experimentId (rx_request e)"
  shows "runtime_ok (put_experiment e (rt\<lparr>rt_runCounter := c\<rparr>))"
  unfolding runtime_ok_def put_experiment_fields
proof (intro conjI allI impI)
  show "distinct (map fst (AList.update (er_experimentId (rx_request e)) e (rt_experiments (rt\<lparr>rt_runCounter := c\<rparr>))))"
    using assms(1) by (simp add: runtime_ok_def distinct_update)
next
  fix k e' assume "map_of (AList.update (er_experimentId (rx_request e)) e (rt_experiments (rt\<lparr>rt_runCounter := c\<rparr>))) k = Some e'"
  then consider "k = er_experimentId (rx_request e)" "e' = e"
    | "map_of (rt_experiments rt) k = Some e'"
    by (cases "k = er_experimentId (rx_request e)") simp_all
  then have "k = er_experimentId (rx_request e') \<and> experiment_ok c e'"
  proof cases
    case 2
    with assms(1) have "k = er_experimentId (rx_request e')" "experiment_ok (rt_runCounter rt) e'"
      unfolding runtime_ok_def by blast+
    with experiment_ok_mono assms(3) show ?thesis by blast
  qed (use assms(2) in simp)
  then show "k = er_experimentId (rx_request e')" "experiment_ok (rt_runCounter (rt\<lparr>rt_runCounter := c\<rparr>)) e'"
    by simp_all
next
  fix k1 e1 k2 e2
  assume "map_of (AList.update (er_experimentId (rx_request e)) e (rt_experiments (rt\<lparr>rt_runCounter := c\<rparr>))) k1 = Some e1"
    "map_of (AList.update (er_experimentId (rx_request e)) e (rt_experiments (rt\<lparr>rt_runCounter := c\<rparr>))) k2 = Some e2"
    and i: "run_ids e1 \<inter> run_ids e2 \<noteq> {}"
  note m = this(1,2)
  from m consider "k1 = k2" | "e1 = e" "k1 = er_experimentId (rx_request e)" "map_of (rt_experiments rt) k2 = Some e2"
    | "e2 = e" "k2 = er_experimentId (rx_request e)" "map_of (rt_experiments rt) k1 = Some e1"
    | "map_of (rt_experiments rt) k1 = Some e1" "map_of (rt_experiments rt) k2 = Some e2"
    by (cases "k1 = er_experimentId (rx_request e)"; cases "k2 = er_experimentId (rx_request e)") simp_all
  then show "k1 = k2"
  proof cases
    case 2
    with assms(4) [OF 2(3)] i show ?thesis by simp
  next
    case 3
    with assms(4) [OF 3(3)] i show ?thesis by (simp add: Int_commute)
  next
    case 4
    with assms(1) i show ?thesis unfolding runtime_ok_def by blast
  qed
qed

section \<open>The handlers keep the invariant\<close>

lemma runtime_ok_collaborators [simp]:
  "runtime_ok (rt\<lparr>rt_devices := d\<rparr>) = runtime_ok rt"
  "runtime_ok (rt\<lparr>rt_store := s\<rparr>) = runtime_ok rt"
  by (simp_all add: runtime_ok_def)

lemma runtime_ok_cong:
  "rt_experiments rt' = rt_experiments rt \<Longrightarrow> rt_runCounter rt' = rt_runCounter rt \<Longrightarrow>
     runtime_ok rt' = runtime_ok rt"
  by (simp add: runtime_ok_def)

lemma persist_keeps:
  assumes "persist env e rt = (r, rt')"
  shows "rt_experiments rt' = rt_experiments rt" "rt_runCounter rt' = rt_runCounter rt"
    "rt_devices rt' = rt_devices rt"
  using assms by (auto simp: persist_def split: prod.splits)

lemma require_run_iff:
  assumes "require_run e runId = Inr run"
  shows "run \<in> set (rx_runs e)" "rv_runId run = runId"
  using assms by (auto simp: require_run_def res_simps find_Some_iff)

lemma runtime_ok_experiment:
  "runtime_ok rt \<Longrightarrow> map_of (rt_experiments rt) k = Some e \<Longrightarrow>
     k = er_experimentId (rx_request e) \<and> experiment_ok (rt_runCounter rt) e"
  by (simp add: runtime_ok_def)

lemma runtime_ok_unique:
  "runtime_ok rt \<Longrightarrow> map_of (rt_experiments rt) k1 = Some e1 \<Longrightarrow> map_of (rt_experiments rt) k2 = Some e2 \<Longrightarrow>
     run_ids e1 \<inter> run_ids e2 \<noteq> {} \<Longrightarrow> k1 = k2"
  unfolding runtime_ok_def by blast

lemma find_by_run_get:
  assumes "runtime_ok rt" "find_by_run runId rt = Inr e"
  shows "map_of (rt_experiments rt) (er_experimentId (rx_request e)) = Some e"
    "experiment_ok (rt_runCounter rt) e" "runId \<in> run_ids e"
proof -
  from assms(2) have "e \<in> set (map snd (rt_experiments rt))" "list_ex (\<lambda>r. rv_runId r = runId) (rx_runs e)"
    by (auto simp: find_by_run_def res_simps find_Some_iff)
  then obtain k where "(k, e) \<in> set (rt_experiments rt)" and ids: "runId \<in> run_ids e"
    by (auto simp: run_ids_def list_ex_iff)
  with assms(1) have "map_of (rt_experiments rt) k = Some e" by (simp add: runtime_ok_def)
  with runtime_ok_experiment [OF assms(1) this] ids
  show "map_of (rt_experiments rt) (er_experimentId (rx_request e)) = Some e"
    "experiment_ok (rt_runCounter rt) e" "runId \<in> run_ids e" by simp_all
qed

lemma with_run_fields [simp]:
  "rx_request (with_run e runId v) = rx_request e"
  "rx_approvedPlan (with_run e runId v) = rx_approvedPlan e"
  "rv_runId v = runId \<Longrightarrow> run_ids (with_run e runId v) = run_ids e"
  "rv_runId v = runId \<Longrightarrow> map rv_runId (rx_runs (with_run e runId v)) = map rv_runId (rx_runs e)"
proof -
  assume v: "rv_runId v = runId"
  show ids: "map rv_runId (rx_runs (with_run e runId v)) = map rv_runId (rx_runs e)"
    using v by (simp add: with_run_def)
  then show "run_ids (with_run e runId v) = run_ids e"
    unfolding run_ids_def by (metis list.set_map)
qed (simp_all add: with_run_def)

text \<open>The run an experiment's plan was approved for.\<close>

lemma experiment_run:
  assumes "experiment_ok c e" "run \<in> set (rx_runs e)"
  obtains a where "rx_approvedPlan e = Some a" "rv_planId run = ap_planId (an_request a)"
    "run_ok (an_executionGraph a) run"
  using assms unfolding experiment_ok_def by blast

lemma active_replaced:
  assumes "\<And>r. r \<in> set rs \<Longrightarrow> rv_runId r = runId \<Longrightarrow> is_terminal (rv_runStatus r) \<Longrightarrow> is_terminal (rv_runStatus v)"
  shows "length (filter (\<lambda>r. \<not> is_terminal (rv_runStatus r)) (map (\<lambda>r. if rv_runId r = runId then v else r) rs))
    \<le> length (filter (\<lambda>r. \<not> is_terminal (rv_runStatus r)) rs)"
  using assms by (induction rs) auto

lemma with_run_ok:
  assumes "experiment_ok c e" "run \<in> set (rx_runs e)" "rv_runId run = runId"
    "\<And>g. run_ok g run \<Longrightarrow> run_ok g v" "same_identity run v"
    "is_terminal (rv_runStatus run) \<Longrightarrow> is_terminal (rv_runStatus v)"
  shows "experiment_ok c (with_run e runId v)"
proof -
  have v: "rv_runId v = runId" using assms(3,5) by (simp add: same_identity_def)
  have d: "distinct (map rv_runId (rx_runs e))" using assms(1) by (simp add: experiment_ok_def)
  have only: "r = run" if "r \<in> set (rx_runs e)" "rv_runId r = runId" for r
    using d that assms(2,3) by (metis distinct_map inj_onD)
  have a1: "length (active_runs e) \<le> 1" using assms(1) unfolding experiment_ok_def by blast
  have "length (active_runs (with_run e runId v)) \<le> length (active_runs e)"
    unfolding active_runs_def with_run_def
    using active_replaced [of "rx_runs e" runId v] only assms(6) by simp
  then have active: "length (active_runs (with_run e runId v)) \<le> 1"
    using a1 by (rule le_trans)
  have member: "r = v \<or> r \<in> set (rx_runs e)" if "r \<in> set (rx_runs (with_run e runId v))" for r
    using that by (auto simp: with_run_def split: if_splits)
  show ?thesis
    unfolding experiment_ok_def with_run_fields
  proof (intro conjI ballI)
    fix r assume "r \<in> set (rx_runs (with_run e runId v))"
    from member [OF this] consider "r = v" | "r \<in> set (rx_runs e)" by blast
    then show "rv_experimentId r = er_experimentId (rx_request e)"
      "\<exists>n \<le> c. rv_runId r = ''run-'' @ str_of_nat n"
      "\<exists>a. rx_approvedPlan e = Some a \<and> rv_planId r = ap_planId (an_request a) \<and> run_ok (an_executionGraph a) r"
      using assms(1,2,4,5) unfolding experiment_ok_def same_identity_def by (cases; metis)+
  qed (use assms(1) active v d in \<open>simp_all add: experiment_ok_def\<close>)
qed

lemma runtime_ok_put_same:
  assumes "runtime_ok rt" "map_of (rt_experiments rt) (er_experimentId (rx_request e)) = Some e0"
    "experiment_ok (rt_runCounter rt) e" "run_ids e = run_ids e0"
  shows "runtime_ok (put_experiment e rt)"
proof -
  have "runtime_ok (put_experiment e (rt\<lparr>rt_runCounter := rt_runCounter rt\<rparr>))"
  proof (rule runtime_ok_put [OF assms(1,3)])
    fix k e' assume k: "map_of (rt_experiments rt) k = Some e'" "run_ids e \<inter> run_ids e' \<noteq> {}"
    with assms(1,2,4) show "k = er_experimentId (rx_request e)" unfolding runtime_ok_def by metis
  qed simp
  then show ?thesis by simp
qed

lemma replace_run_ok:
  assumes "runtime_ok rt" "find_by_run runId rt = Inr e" "require_run e runId = Inr run"
    "\<And>g. run_ok g run \<Longrightarrow> run_ok g v" "same_identity run v"
    "is_terminal (rv_runStatus run) \<Longrightarrow> is_terminal (rv_runStatus v)"
  shows "runtime_ok (replace_run e runId v (rt\<lparr>rt_devices := d\<rparr>))"
proof -
  note g = find_by_run_get [OF assms(1,2)] and r = require_run_iff [OF assms(3)]
  have v: "rv_runId v = runId" using r assms(5) by (simp add: same_identity_def)
  have "experiment_ok (rt_runCounter rt) (with_run e runId v)"
    by (rule with_run_ok [OF g(2) r assms(4-6)])
  then have "runtime_ok (put_experiment (with_run e runId v) rt)"
    using runtime_ok_put_same [OF assms(1), of "with_run e runId v" e] g(1) v by simp
  then show ?thesis
    by (subst runtime_ok_cong [where rt = "put_experiment (with_run e runId v) rt"])
      (simp_all add: replace_run_def)
qed

lemma persist_run_keeps:
  assumes "persist_run env runId v rt = (r, rt')"
  shows "rt_experiments rt' = rt_experiments rt" "rt_runCounter rt' = rt_runCounter rt"
    "rt_devices rt' = rt_devices rt"
  using assms persist_keeps unfolding persist_run_def
  by (auto split: sum.splits prod.splits) blast+

end
