(* ===== verification/LabRuntimeSteps.thy ===== *)
theory LabRuntimeSteps
  imports LabRuntimeSafety
begin

text \<open>
  The handlers of the local Runtime as a step relation, the invariant of its reachable states, and
  the properties of runs, plans, leases and saved states that follow.
\<close>

section \<open>Every handler keeps the invariant\<close>

lemma create_experiment_cases:
  assumes "create_experiment env request rt = (r, rt')"
  obtains "rt' = rt" | e where "map_of (rt_experiments rt) (er_experimentId request) = None"
      "e = \<lparr>rx_request = request, rx_approvedPlan = None, rx_runs = []\<rparr>"
      "persist env e (put_experiment e rt) = (r, rt')"
  using assms by (auto simp: create_experiment_def Let_def split: if_splits option.splits)

lemma create_experiment_ok:
  assumes "runtime_ok rt" "create_experiment env request rt = (r, rt')"
  shows "runtime_ok rt'"
  using assms(2)
proof (cases rule: create_experiment_cases)
    case (2 e)
    have "runtime_ok (put_experiment e (rt\<lparr>rt_runCounter := rt_runCounter rt\<rparr>))"
    proof (rule runtime_ok_put [OF assms(1)])
      show "experiment_ok (rt_runCounter rt) e" by (simp add: 2(2) experiment_ok_def active_runs_def)
      fix k e' assume "run_ids e \<inter> run_ids e' \<noteq> {}"
      then show "k = er_experimentId (rx_request e)" by (simp add: 2(2) run_ids_def)
    qed simp
    with persist_keeps [OF 2(3)] show ?thesis by (subst runtime_ok_cong) simp_all
qed (use assms(1) in simp)

lemma validate_graph_steps_distinct:
  "validate_graph_steps skills seen steps = Inr u \<Longrightarrow>
     distinct (map es_stepId steps) \<and> set seen \<inter> es_stepId ` set steps = {}
     \<and> (\<forall>s \<in> set steps. es_skillRevisionId s \<in> set skills \<and> js_trim (es_operationResource s) \<noteq> []
          \<and> (es_operationKind s = Op_device \<longrightarrow> es_deviceId s \<noteq> None))"
  by (induction skills seen steps rule: validate_graph_steps.induct) (auto split: if_splits)

lemma build_approved_plan_fields [simp]:
  "eg_steps (an_executionGraph (build_approved_plan request steps sns)) = steps"
  "ap_planId (an_request (build_approved_plan request steps sns)) = ap_planId request"
  by (simp_all add: build_approved_plan_def)

lemma approve_plan_cases:
  assumes "approve_plan env request rt = (r, rt')"
  obtains "rt' = rt" | e where
    "map_of (rt_experiments rt) (ap_experimentId request) = Some e" "rx_runs e = []"
    "validate_graph_inputs (ap_skillRevisionIds request) (or_default [] (ap_executionSteps request))
       (or_default [] (ap_skillSnapshots request)) = Inr ()"
    "persist env (e\<lparr>rx_approvedPlan := Some (build_approved_plan request
         (or_default [] (ap_executionSteps request)) (or_default [] (ap_skillSnapshots request)))\<rparr>)
       (put_experiment (e\<lparr>rx_approvedPlan := Some (build_approved_plan request
         (or_default [] (ap_executionSteps request)) (or_default [] (ap_skillSnapshots request)))\<rparr>) rt)
       = (r, rt')"
  using assms
  by (auto simp: approve_plan_def Let_def require_experiment_def of_option_def
      split: if_splits option.splits sum.splits)

lemma approve_plan_ok:
  assumes "runtime_ok rt" "approve_plan env request rt = (r, rt')"
  shows "runtime_ok rt'"
  using assms(2)
proof (cases rule: approve_plan_cases)
  case (2 e)
  let ?e = "e\<lparr>rx_approvedPlan := Some (build_approved_plan request
         (or_default [] (ap_executionSteps request)) (or_default [] (ap_skillSnapshots request)))\<rparr>"
  have k: "ap_experimentId request = er_experimentId (rx_request e)"
    using runtime_ok_experiment [OF assms(1) 2(1)] by simp
  have "distinct (map es_stepId (or_default [] (ap_executionSteps request)))"
    using 2(3) validate_graph_steps_distinct by (fastforce simp: validate_graph_inputs_def res_simps)
  then have "experiment_ok (rt_runCounter rt) ?e"
    using 2(2) by (simp add: experiment_ok_def active_runs_def)
  then have "runtime_ok (put_experiment ?e rt)"
    using runtime_ok_put_same [OF assms(1), of ?e e] 2(1) k by (simp add: run_ids_def)
  with persist_keeps [OF 2(4)] show ?thesis by (subst runtime_ok_cong) simp_all
qed (use assms(1) in simp)

lemma start_run_cases:
  assumes "start_run env inp createdAt now rt = (r, rt')"
  obtains "rt' = rt" | e a v where
    "map_of (rt_experiments rt) (sr_experimentId inp) = Some e" "rx_approvedPlan e = Some a"
    "ap_planId (an_request a) = sr_planId inp" "active_runs e = []"
    "v = started_view inp a (Suc (rt_runCounter rt)) createdAt now"
    "rt_experiments rt' = rt_experiments (put_experiment (e\<lparr>rx_runs := rx_runs e @ [v]\<rparr>) rt)"
    "rt_runCounter rt' = Suc (rt_runCounter rt)" "\<And>w. r = Inr w \<Longrightarrow> w = v"
proof (cases "rt' = rt")
  case False
  then obtain e a where ea: "map_of (rt_experiments rt) (sr_experimentId inp) = Some e"
    "rx_approvedPlan e = Some a" "ap_planId (an_request a) = sr_planId inp"
    "\<not> list_ex (\<lambda>r. \<not> is_terminal (rv_runStatus r)) (rx_runs e)"
    using assms by (auto simp: start_run_def require_experiment_def of_option_def
        split: if_splits option.splits)
  let ?v = "started_view inp a (Suc (rt_runCounter rt)) createdAt now"
  let ?e = "e\<lparr>rx_runs := rx_runs e @ [?v]\<rparr>"
  let ?rt = "put_experiment ?e (rt\<lparr>rt_runCounter := Suc (rt_runCounter rt)\<rparr>)"
  obtain r1 rt1 where p: "persist env ?e ?rt = (r1, rt1)" by fastforce
  have "(r, rt') = (case persist env ?e ?rt of (Inl e, rt') \<Rightarrow> (Inl e, rt') | (Inr _, rt') \<Rightarrow> (Inr ?v, rt'))"
    using assms ea unfolding start_run_def clone_id by (simp add: require_experiment_def Let_def)
  with p have rt': "rt' = rt1" "\<And>w. r = Inr w \<Longrightarrow> w = ?v" by (auto split: sum.splits)
  have "active_runs e = []" using ea(4) by (auto simp: active_runs_def filter_empty_conv list_ex_iff)
  with that(2) [OF ea(1-3) this refl] persist_keeps [OF p] rt' show ?thesis by simp
qed (use that in blast)

lemma started_view_fields [simp]:
  "rv_runId (started_view inp a n c now) = ''run-'' @ str_of_nat n"
  "rv_experimentId (started_view inp a n c now) = sr_experimentId inp"
  "rv_planId (started_view inp a n c now) = sr_planId inp"
  "rv_executionGraph (started_view inp a n c now) = an_executionGraph a"
  "rv_observations (started_view inp a n c now) = []"
  "rv_retryOfRunId (started_view inp a n c now) = sr_retryOfRunId inp"
  "rv_launchingSessionId (started_view inp a n c now) = sr_launchingSessionId inp"
  by (simp_all add: started_view_def make_view_def Let_def)

lemma started_view_ok:
  "distinct (map es_stepId (eg_steps (an_executionGraph a))) \<Longrightarrow>
     run_ok (an_executionGraph a) (started_view inp a n c now)"
  unfolding started_view_def first_step_def Let_def by (rule start_view_ok)

lemma run_prefix_inj: "''run-'' @ str_of_nat m = ''run-'' @ str_of_nat n \<longleftrightarrow> m = n"
  by simp

lemma start_run_ok:
  assumes "runtime_ok rt" "start_run env inp createdAt now rt = (r, rt')"
  shows "runtime_ok rt'"
  using assms(2)
proof (cases rule: start_run_cases)
  case (2 e a v)
  let ?c = "Suc (rt_runCounter rt)"
  let ?e = "e\<lparr>rx_runs := rx_runs e @ [v]\<rparr>"
  have k: "sr_experimentId inp = er_experimentId (rx_request e)" and e: "experiment_ok (rt_runCounter rt) e"
    using runtime_ok_experiment [OF assms(1) 2(1)] by simp_all
  have fresh: "rv_runId v \<notin> run_ids e'" if "map_of (rt_experiments rt) k' = Some e'" for k' e'
  proof
    assume "rv_runId v \<in> run_ids e'"
    then obtain r where "r \<in> set (rx_runs e')" "rv_runId r = ''run-'' @ str_of_nat ?c"
      using 2(5) by (auto simp: run_ids_def)
    moreover have "experiment_ok (rt_runCounter rt) e'"
      using runtime_ok_experiment [OF assms(1) that] by simp
    ultimately obtain n where "n \<le> rt_runCounter rt" "''run-'' @ str_of_nat ?c = ''run-'' @ str_of_nat n"
      unfolding experiment_ok_def by metis
    then show False by simp
  qed
  have v: "run_ok (an_executionGraph a) v"
    using e 2(2,5) started_view_ok unfolding experiment_ok_def by blast
  have "experiment_ok ?c ?e"
    unfolding experiment_ok_def
  proof (intro conjI ballI)
    fix r assume "r \<in> set (rx_runs ?e)"
    then consider "r = v" | "r \<in> set (rx_runs e)" by auto
    then have "rv_experimentId r = er_experimentId (rx_request e) \<and> (\<exists>n \<le> ?c. rv_runId r = ''run-'' @ str_of_nat n)
      \<and> (\<exists>b. rx_approvedPlan e = Some b \<and> rv_planId r = ap_planId (an_request b) \<and> run_ok (an_executionGraph b) r)"
    proof cases
      case 1
      with v 2 k show ?thesis by auto
    next
      case r: 2
      with experiment_ok_mono [OF e, of ?c] show ?thesis unfolding experiment_ok_def by simp
    qed
    then show "rv_experimentId r = er_experimentId (rx_request ?e)" "\<exists>n \<le> ?c. rv_runId r = ''run-'' @ str_of_nat n"
      "\<exists>b. rx_approvedPlan ?e = Some b \<and> rv_planId r = ap_planId (an_request b) \<and> run_ok (an_executionGraph b) r"
      by simp_all
  next
    show "\<forall>a. rx_approvedPlan ?e = Some a \<longrightarrow> distinct (map es_stepId (eg_steps (an_executionGraph a)))"
      using e by (simp add: experiment_ok_def)
    show "distinct (map rv_runId (rx_runs ?e))"
      using e fresh [OF 2(1)] by (simp add: experiment_ok_def run_ids_def)
    show "length (active_runs ?e) \<le> 1"
      using 2(4) by (simp add: active_runs_def)
  qed
  then have "runtime_ok (put_experiment ?e (rt\<lparr>rt_runCounter := ?c\<rparr>))"
  proof (rule runtime_ok_put [OF assms(1)])
    fix k' e' assume m: "map_of (rt_experiments rt) k' = Some e'" and i: "run_ids ?e \<inter> run_ids e' \<noteq> {}"
    have eq: "run_ids ?e = insert (rv_runId v) (run_ids e)" by (simp add: run_ids_def)
    have "run_ids e \<inter> run_ids e' \<noteq> {}"
      using i fresh [OF m] unfolding eq by simp
    from runtime_ok_unique [OF assms(1) 2(1) m this] have "k' = er_experimentId (rx_request e)"
      unfolding k [symmetric] by (rule sym)
    then show "k' = er_experimentId (rx_request ?e)" by simp
  qed simp
  with 2(6,7) show ?thesis by (subst runtime_ok_cong) simp_all
qed (use assms(1) in simp)

lemma retry_run_ok:
  assumes "runtime_ok rt" "retry_run env runId actor createdAt now rt = (r, rt')"
  shows "runtime_ok rt'"
  using assms start_run_ok [OF assms(1)]
  by (auto simp: retry_run_def split: if_splits sum.splits)

text \<open>Executing, confirming and stopping replace one run by its next view.\<close>

definition replaces :: "string \<Rightarrow> ('d, 's) runtime \<Rightarrow> ('d, 's) runtime \<Rightarrow> bool" where
  "replaces runId rt rt' \<longleftrightarrow>
     (\<exists>e run v. find_by_run runId rt = Inr e \<and> require_run e runId = Inr run
        \<and> (\<forall>g. run_ok g run \<longrightarrow> run_ok g v) \<and> same_identity run v
        \<and> (is_terminal (rv_runStatus run) \<longrightarrow> rv_runStatus v = Some Run_STOPPED)
        \<and> rt_runCounter rt' = rt_runCounter rt
        \<and> rt_experiments rt' = rt_experiments (replace_run e runId v rt))"

lemma same_identity_execute:
  "execute_view env run now d = (Inr v, d') \<Longrightarrow> same_identity run v \<and> \<not> is_terminal (rv_runStatus run)"
  by (auto simp: execute_view_def execute_device_step_def settle_attempt_def Let_def
      split: if_splits option.splits prod.splits receipt_status.splits)

lemma execute_next_step_cases:
  assumes "execute_next_step env runId now rt = (r, rt')"
  shows "rt_experiments rt' = rt_experiments rt \<and> rt_runCounter rt' = rt_runCounter rt
    \<or> replaces runId rt rt'"
proof -
  consider "rt_experiments rt' = rt_experiments rt \<and> rt_runCounter rt' = rt_runCounter rt"
    | e run v d where "find_by_run runId rt = Inr e" "require_run e runId = Inr run"
      "execute_view env run now (rt_devices rt) = (Inr v, d)"
      "persist_run env runId v (replace_run e runId v (rt\<lparr>rt_devices := d\<rparr>)) = (r, rt')"
    using assms unfolding execute_next_step_def clone_id
    by (auto split: sum.splits prod.splits)
  then show ?thesis
  proof cases
    case 2
    have "replaces runId rt rt'"
      unfolding replaces_def
      using 2(1,2) execute_view_ok [OF _ 2(3)] same_identity_execute [OF 2(3)] persist_run_keeps [OF 2(4)]
      by (intro exI [of _ e] exI [of _ run] exI [of _ v]) (auto simp: replace_run_def)
    then show ?thesis ..
  qed simp
qed

lemma same_identity_confirm:
  "confirm_view run evidence stepId opid now = Inr v \<Longrightarrow>
     same_identity run v \<and> rv_runStatus run = Some Run_WAITING_CONFIRMATION"
  by (auto simp: confirm_view_def Let_def split: if_splits option.splits)

lemma confirm_step_cases:
  assumes "confirm_step env runId evidence actor stepId opid now rt = (r, rt')"
  shows "rt_experiments rt' = rt_experiments rt \<and> rt_runCounter rt' = rt_runCounter rt
    \<or> replaces runId rt rt'"
proof -
  consider "rt_experiments rt' = rt_experiments rt \<and> rt_runCounter rt' = rt_runCounter rt"
    | e run v where "find_by_run runId rt = Inr e" "require_run e runId = Inr run"
      "confirm_view run evidence stepId opid now = Inr v"
      "persist_run env runId v (replace_run e runId v rt) = (r, rt')"
    using assms unfolding confirm_step_def clone_id
    by (auto simp: and_then_def split: sum.splits if_splits)
  then show ?thesis
  proof cases
    case 2
    have "replaces runId rt rt'"
      unfolding replaces_def
      using 2(1,2) confirm_view_ok [OF _ 2(3)] same_identity_confirm [OF 2(3)] persist_run_keeps [OF 2(4)]
      by (intro exI [of _ e] exI [of _ run] exI [of _ v]) (auto simp: replace_run_def is_terminal_def)
    then show ?thesis ..
  qed simp
qed

lemma stop_run_cases:
  assumes "stop_run env runId actor now rt = (r, rt')"
  shows "rt_experiments rt' = rt_experiments rt \<and> rt_runCounter rt' = rt_runCounter rt
    \<or> replaces runId rt rt'"
proof -
  consider "rt_experiments rt' = rt_experiments rt \<and> rt_runCounter rt' = rt_runCounter rt"
    | e run obs d r1 where "find_by_run runId rt = Inr e" "require_run e runId = Inr run"
      "stop_device env run runId (rt_devices rt) = (Inr obs, d)"
      "persist env (with_run e runId (stop_view run obs now))
         (replace_run e runId (stop_view run obs now) (rt\<lparr>rt_devices := d\<rparr>)) = (r1, rt')"
    using assms unfolding stop_run_def clone_id Let_def
    by (auto split: sum.splits prod.splits if_splits)
  then show ?thesis
  proof cases
    case 2
    have "replaces runId rt rt'"
      unfolding replaces_def
      using 2(1,2) stop_view_ok [OF _ 2(3)] persist_keeps [OF 2(4)]
      by (intro exI [of _ e] exI [of _ run] exI [of _ "stop_view run obs now"])
        (auto simp: replace_run_def stop_view_def)
    then show ?thesis ..
  qed simp
qed

lemma replaces_ok:
  assumes "runtime_ok rt" "replaces runId rt rt'"
  shows "runtime_ok rt'"
proof -
  from assms(2) obtain e run v where r: "find_by_run runId rt = Inr e" "require_run e runId = Inr run"
    "\<And>g. run_ok g run \<Longrightarrow> run_ok g v" "same_identity run v"
    "is_terminal (rv_runStatus run) \<longrightarrow> rv_runStatus v = Some Run_STOPPED"
    "rt_runCounter rt' = rt_runCounter rt" "rt_experiments rt' = rt_experiments (replace_run e runId v rt)"
    unfolding replaces_def by blast
  have "runtime_ok (replace_run e runId v (rt\<lparr>rt_devices := rt_devices rt\<rparr>))"
    by (rule replace_run_ok [OF assms(1) r(1-4)]) (use r(5) in \<open>auto simp: is_terminal_def\<close>)
  with r(6,7) show ?thesis by (subst runtime_ok_cong) (simp_all add: replace_run_def)
qed

section \<open>Steps and reachable states\<close>

text \<open>
  One step is one completed handler call, with whatever outcome, or a change of the devices'
  own state between the calls.
\<close>

inductive runtime_step :: "('d, 's) runtime_env \<Rightarrow> ('d, 's) runtime \<Rightarrow> ('d, 's) runtime \<Rightarrow> bool"
  for env where
  Create: "create_experiment env request rt = (r, rt') \<Longrightarrow> runtime_step env rt rt'"
| Approve: "approve_plan env request rt = (r, rt') \<Longrightarrow> runtime_step env rt rt'"
| Start: "start_run env inp createdAt now rt = (r, rt') \<Longrightarrow> runtime_step env rt rt'"
| Retry: "retry_run env runId actor createdAt now rt = (r, rt') \<Longrightarrow> runtime_step env rt rt'"
| Execute: "execute_next_step env runId now rt = (r, rt') \<Longrightarrow> runtime_step env rt rt'"
| Confirm: "confirm_step env runId evidence actor stepId opid now rt = (r, rt') \<Longrightarrow> runtime_step env rt rt'"
| Stop: "stop_run env runId actor now rt = (r, rt') \<Longrightarrow> runtime_step env rt rt'"
| Devices: "runtime_step env rt (rt\<lparr>rt_devices := d\<rparr>)"

inductive runtime_reach :: "('d, 's) runtime_env \<Rightarrow> ('d, 's) runtime \<Rightarrow> bool" for env where
  Init: "rt_experiments rt = [] \<Longrightarrow> runtime_reach env rt"
| Step: "runtime_reach env rt \<Longrightarrow> runtime_step env rt rt' \<Longrightarrow> runtime_reach env rt'"

inductive_cases runtime_stepE: "runtime_step env rt rt'"

lemma runtime_step_ok: "runtime_step env rt rt' \<Longrightarrow> runtime_ok rt \<Longrightarrow> runtime_ok rt'"
proof (induction rule: runtime_step.induct)
  case (Execute runId now rt r rt')
  then show ?case using execute_next_step_cases replaces_ok runtime_ok_cong by metis
next
  case (Confirm runId evidence actor stepId opid now rt r rt')
  then show ?case using confirm_step_cases replaces_ok runtime_ok_cong by metis
next
  case (Stop runId actor now rt r rt')
  then show ?case using stop_run_cases replaces_ok runtime_ok_cong by metis
qed (auto intro: create_experiment_ok approve_plan_ok start_run_ok retry_run_ok)

lemma runtime_reach_ok: "runtime_reach env rt \<Longrightarrow> runtime_ok rt"
proof (induction rule: runtime_reach.induct)
  case (Init rt)
  then show ?case by (simp add: runtime_ok_def)
qed (blast intro: runtime_step_ok)

section \<open>What a step keeps of the runs\<close>

definition run_kept :: "run_view \<Rightarrow> run_view \<Rightarrow> bool" where
  "run_kept r r' \<longleftrightarrow> same_identity r r'
     \<and> (is_terminal (rv_runStatus r) \<longrightarrow> r' = r \<or> rv_runStatus r' = Some Run_STOPPED)"

definition runs_kept :: "('d, 's) runtime \<Rightarrow> ('d, 's) runtime \<Rightarrow> bool" where
  "runs_kept rt rt' \<longleftrightarrow>
     (\<forall>k e r. map_of (rt_experiments rt) k = Some e \<longrightarrow> r \<in> set (rx_runs e) \<longrightarrow>
        (\<exists>e' r'. map_of (rt_experiments rt') k = Some e' \<and> r' \<in> set (rx_runs e') \<and> run_kept r r'))"

lemma run_kept_refl [simp]: "run_kept r r"
  by (simp add: run_kept_def same_identity_def)

lemma runs_kept_same: "rt_experiments rt' = rt_experiments rt \<Longrightarrow> runs_kept rt rt'"
  unfolding runs_kept_def by (metis run_kept_refl)

lemma runs_kept_put:
  assumes "rt_experiments rt' = rt_experiments (put_experiment e' rt)"
    "\<And>e r. map_of (rt_experiments rt) (er_experimentId (rx_request e')) = Some e \<Longrightarrow> r \<in> set (rx_runs e) \<Longrightarrow>
       \<exists>r' \<in> set (rx_runs e'). run_kept r r'"
  shows "runs_kept rt rt'"
  unfolding runs_kept_def
proof (intro allI impI)
  fix k e r assume k: "map_of (rt_experiments rt) k = Some e" "r \<in> set (rx_runs e)"
  show "\<exists>e' r'. map_of (rt_experiments rt') k = Some e' \<and> r' \<in> set (rx_runs e') \<and> run_kept r r'"
  proof (cases "k = er_experimentId (rx_request e')")
    case True
    with assms k show ?thesis by auto
  next
    case False
    with assms(1) k show ?thesis by (auto intro!: exI [of _ r])
  qed
qed

lemma replaces_kept:
  assumes "runtime_ok rt" "replaces runId rt rt'"
  shows "runs_kept rt rt'"
proof -
  from assms(2) obtain e run v where r: "find_by_run runId rt = Inr e" "require_run e runId = Inr run"
    "same_identity run v" "is_terminal (rv_runStatus run) \<longrightarrow> rv_runStatus v = Some Run_STOPPED"
    "rt_experiments rt' = rt_experiments (replace_run e runId v rt)"
    unfolding replaces_def by blast
  note g = find_by_run_get [OF assms(1) r(1)] and m = require_run_iff [OF r(2)]
  have d: "distinct (map rv_runId (rx_runs e))" using g(2) by (simp add: experiment_ok_def)
  show ?thesis
  proof (rule runs_kept_put [where e' = "with_run e runId v"])
    show "rt_experiments rt' = rt_experiments (put_experiment (with_run e runId v) rt)"
      using r(5) by (simp add: replace_run_def)
    fix e1 q assume "map_of (rt_experiments rt) (er_experimentId (rx_request (with_run e runId v))) = Some e1"
      "q \<in> set (rx_runs e1)"
    then have q: "q \<in> set (rx_runs e)" using g(1) by simp
    show "\<exists>r' \<in> set (rx_runs (with_run e runId v)). run_kept q r'"
    proof (cases "rv_runId q = runId")
      case True
      with d q m have "q = run" by (metis distinct_map inj_onD)
      with r(3,4) have "run_kept q v" by (simp add: run_kept_def)
      moreover have "v \<in> set (rx_runs (with_run e runId v))" using q True by (auto simp: with_run_def)
      ultimately show ?thesis by blast
    next
      case False
      then have "q \<in> set (rx_runs (with_run e runId v))" using q by (auto simp: with_run_def)
      then show ?thesis using run_kept_refl by blast
    qed
  qed
qed

lemma start_run_kept:
  assumes "runtime_ok rt" "start_run env inp createdAt now rt = (r, rt')"
  shows "runs_kept rt rt'"
  using assms(2)
proof (cases rule: start_run_cases)
  case (2 e a v)
  have k: "sr_experimentId inp = er_experimentId (rx_request e)"
    using runtime_ok_experiment [OF assms(1) 2(1)] by simp
  show ?thesis
    by (rule runs_kept_put [OF 2(6)]) (use 2(1) k in \<open>auto intro!: bexI [of _ q for q]\<close>)
qed (simp add: runs_kept_same)

lemma runtime_step_kept:
  assumes "runtime_step env rt rt'" "runtime_ok rt"
  shows "runs_kept rt rt'"
  using assms
proof (induction rule: runtime_step.induct)
  case (Create request rt r rt')
  then show ?case
    by (auto simp: create_experiment_def Let_def runs_kept_same split: if_splits option.splits
        dest!: persist_keeps(1) intro!: runs_kept_put [where e' = "\<lparr>rx_request = request, rx_approvedPlan = None, rx_runs = []\<rparr>"])
next
  case (Approve request rt r rt')
  from Approve(1) show ?case
  proof (cases rule: approve_plan_cases)
    case (2 e)
    have "ap_experimentId request = er_experimentId (rx_request e)"
      using runtime_ok_experiment [OF Approve(2) 2(1)] by simp
    with 2(1,2) show ?thesis by (intro runs_kept_put [OF persist_keeps(1) [OF 2(4)]]) simp
  qed (simp add: runs_kept_same)
next
  case (Retry runId actor createdAt now rt r rt')
  then show ?case
    by (auto simp: retry_run_def runs_kept_same split: if_splits sum.splits intro: start_run_kept)
next
  case (Execute runId now rt r rt')
  then show ?case using execute_next_step_cases replaces_kept runs_kept_same by metis
next
  case (Confirm runId evidence actor stepId opid now rt r rt')
  then show ?case using confirm_step_cases replaces_kept runs_kept_same by metis
next
  case (Stop runId actor now rt r rt')
  then show ?case using stop_run_cases replaces_kept runs_kept_same by metis
qed (auto intro: start_run_kept runs_kept_same)

end
