(* ===== verification/LabRuntimeInterfaces.thy ===== *)
theory LabRuntimeInterfaces
  imports LabRuntimeSteps
begin

text \<open>
  The Runtime over its two interfaces. Inside \<open>device_gateway\<close>: what a device step does to the
  leases, whatever the provider. The locale \<open>state_store\<close> is the contract of
  \<open>LabRuntimeStateStore\<close>; inside it: a handler that returns leaves memory and store in agreement,
  and a restart from the store recovers the experiments. Both are interpreted on the models of the
  providers in the repository.
\<close>

section \<open>Leases\<close>

context device_gateway
begin

text \<open>A run that took the lease gives it back unless the device accepted the operation.\<close>

lemma settled_lease:
  assumes "settle_lease gw q (attempt_device gw q d) = (a, d')"
  shows "\<forall>dev. dev \<noteq> dq_deviceId q \<longrightarrow> holder d' dev = holder d dev"
    and "at_reserved a \<Longrightarrow> holder d (dq_deviceId q) \<in> {None, Some (dq_runId q)}"
    and "\<not> at_reserved a \<Longrightarrow> holder d' = holder d \<and> at_failure a \<noteq> None"
    and "at_reserved a \<Longrightarrow> holder d' (dq_deviceId q) = (if keep_lease a then Some (dq_runId q) else None)"
    and "at_reserved a \<Longrightarrow> at_failure a = None \<longleftrightarrow> at_receipt a \<noteq> None"
proof -
  obtain b d1 where h: "health (dq_deviceId q) d = (b, d1)" by fastforce
  have h1: "holder d1 = holder d" by (rule health_keeps [OF h])
  consider (unhealthy) "\<not> at_reserved a" "holder d' = holder d" "at_failure a \<noteq> None"
    | (taken) u d2 rc d3 where "reserve (dq_deviceId q) (dq_runId q) d1 = (Inr u, d2)"
        "execute q d2 = (rc, d3)" "at_reserved a"
        "at_receipt a = (case rc of Inl _ \<Rightarrow> None | Inr x \<Rightarrow> Some x)"
        "keep_lease a \<Longrightarrow> d' = d3 \<and> at_failure a = None"
        "\<not> keep_lease a \<Longrightarrow> \<exists>w. release (dq_deviceId q) (dq_runId q) d3 = (w, d') \<and>
           (\<forall>x. w = Inr x \<longrightarrow> at_failure a = (case rc of Inl e \<Rightarrow> Some e | Inr _ \<Rightarrow> None))"
  proof (cases "\<exists>d2. b = Inr True \<and> reserve (dq_deviceId q) (dq_runId q) d1 = (Inr (), d2)")
    case True
    then obtain d2 where b: "b = Inr True" and r: "reserve (dq_deviceId q) (dq_runId q) d1 = (Inr (), d2)"
      by blast
    obtain rc d3 where x: "execute q d2 = (rc, d3)" by fastforce
    obtain w d4 where w: "release (dq_deviceId q) (dq_runId q) d3 = (w, d4)" by fastforce
    from assms h b r x w show ?thesis
      by (intro taken [OF r x])
        (auto simp: settle_lease_def attempt_device_def keep_lease_def split: sum.splits if_splits
          receipt_status.splits)
  next
    case False
    with assms h h1 reserve_fails show ?thesis
      by (intro unhealthy)
        (auto simp: settle_lease_def attempt_device_def split: sum.splits prod.splits bool.splits if_splits)
  qed
  note cases = this
  have all: "(\<forall>dev. dev \<noteq> dq_deviceId q \<longrightarrow> holder d' dev = holder d dev)
    \<and> (at_reserved a \<longrightarrow> holder d (dq_deviceId q) \<in> {None, Some (dq_runId q)})
    \<and> (\<not> at_reserved a \<longrightarrow> holder d' = holder d \<and> at_failure a \<noteq> None)
    \<and> (at_reserved a \<longrightarrow> holder d' (dq_deviceId q) = (if keep_lease a then Some (dq_runId q) else None))
    \<and> (at_reserved a \<longrightarrow> (at_failure a = None \<longleftrightarrow> at_receipt a \<noteq> None))"
    using cases
  proof cases
    case taken
    have t: "holder d1 (dq_deviceId q) \<in> {None, Some (dq_runId q)}"
      "holder d3 = (holder d)(dq_deviceId q := Some (dq_runId q))"
      using reserve_takes [OF taken(1)] execute_keeps [OF taken(2)] h1 by simp_all
    show ?thesis
    proof (cases "keep_lease a")
      case True
      with taken t h1 show ?thesis by (auto simp: keep_lease_def split: option.splits)
    next
      case False
      from taken(6) [OF False] obtain w where w: "release (dq_deviceId q) (dq_runId q) d3 = (w, d')"
        "\<And>x. w = Inr x \<Longrightarrow> at_failure a = (case rc of Inl e \<Rightarrow> Some e | Inr _ \<Rightarrow> None)" by blast
      have "holder d3 (dq_deviceId q) = Some (dq_runId q)" using t by simp
      from release_own [OF this] w(1) have wr: "w = Inr ()" by auto
      with release_frees [of "dq_deviceId q" "dq_runId q" d3 "()" d'] w(1)
      have "holder d' = (holder d3)(dq_deviceId q := None)" by simp
      with False taken(3,4) t h1 w(2) [OF wr] show ?thesis by (auto split: sum.splits)
    qed
  qed simp
  show "\<forall>dev. dev \<noteq> dq_deviceId q \<longrightarrow> holder d' dev = holder d dev"
    and "at_reserved a \<Longrightarrow> holder d (dq_deviceId q) \<in> {None, Some (dq_runId q)}"
    and "\<not> at_reserved a \<Longrightarrow> holder d' = holder d \<and> at_failure a \<noteq> None"
    and "at_reserved a \<Longrightarrow> holder d' (dq_deviceId q) = (if keep_lease a then Some (dq_runId q) else None)"
    and "at_reserved a \<Longrightarrow> at_failure a = None \<longleftrightarrow> at_receipt a \<noteq> None"
    using all by blast+
qed

lemma device_step_lease:
  assumes "en_devices env = Some gw" "es_deviceId step = Some dev"
    "execute_device_step env run step now d = (v, d')"
  shows "\<forall>x. x \<noteq> dev \<longrightarrow> holder d' x = holder d x"
    and "holder d dev \<notin> {None, Some (rv_runId run)} \<Longrightarrow>
      holder d' = holder d \<and> rv_runStatus v \<in> {Some Run_BLOCKED, Some Run_STOPPED}"
    and "holder d' dev \<noteq> holder d dev \<Longrightarrow> holder d' dev = None \<or>
      holder d' dev = Some (rv_runId run) \<and> waiting_execution_index v step \<noteq> None"
proof -
  define q where "q = \<lparr>dq_deviceId = dev, dq_runId = rv_runId run,
      dq_operationId = operation_id_for (rv_runId run) (es_stepId step) Tag_device,
      dq_idempotencyKey = rv_runId run @ '':'' @ es_stepId step, dq_parameters = es_parameters step\<rparr>"
  obtain a where a: "settle_lease gw q (attempt_device gw q d) = (a, d')" and v: "v = settle_attempt run step a now"
    using assms by (auto simp: execute_device_step_def q_def Let_def split: prod.splits)
  have q: "dq_deviceId q = dev" "dq_runId q = rv_runId run" by (simp_all add: q_def)
  note l = settled_lease [OF a, unfolded q]
  show "\<forall>x. x \<noteq> dev \<longrightarrow> holder d' x = holder d x" by (rule l(1))
  show "holder d' = holder d \<and> rv_runStatus v \<in> {Some Run_BLOCKED, Some Run_STOPPED}"
    if "holder d dev \<notin> {None, Some (rv_runId run)}"
  proof -
    from l(2) that have r: "\<not> at_reserved a" by blast
    then obtain m where "at_failure a = Some m" using l(3) by auto
    then have "rv_runStatus v \<in> {Some Run_BLOCKED, Some Run_STOPPED}"
      unfolding v settle_attempt_def by (simp add: failed_view_def Let_def)
    with l(3) [OF r] show ?thesis by simp
  qed
  show "holder d' dev = None \<or> holder d' dev = Some (rv_runId run) \<and> waiting_execution_index v step \<noteq> None"
    if "holder d' dev \<noteq> holder d dev"
  proof -
    from l(3) that have r: "at_reserved a" by metis
    show ?thesis
    proof (cases "keep_lease a")
      case True
      then obtain rc where rc: "at_receipt a = Some rc" "dr_status rc = Receipt_accepted"
        by (auto simp: keep_lease_def split: option.splits)
      with l(5) [OF r] have "waiting_execution_index v step \<noteq> None"
        unfolding v settle_attempt_def
        by (simp add: waiting_execution_index_def find_index_None receipt_observation_def)
      with l(4) [OF r] True show ?thesis by simp
    qed (use l(4) [OF r] in simp)
  qed
qed

end

section \<open>The state store\<close>

locale state_store =
  fixes load :: "('s, runtime_experiment list) io"
    and save :: "runtime_experiment \<Rightarrow> ('s, unit) io"
    and contents :: "'s \<Rightarrow> string \<Rightarrow> runtime_experiment option"
    and wf :: "'s \<Rightarrow> bool"
  assumes load_reads: "wf s \<Longrightarrow> load s = (Inr es, s') \<Longrightarrow> s' = s \<and>
      distinct (map (\<lambda>e. er_experimentId (rx_request e)) es) \<and>
      map_of (map (\<lambda>e. (er_experimentId (rx_request e), e)) es) = contents s"
    and save_writes: "wf s \<Longrightarrow> save e s = (Inr u, s') \<Longrightarrow>
      wf s' \<and> contents s' = (contents s)(er_experimentId (rx_request e) \<mapsto> e)"
    and save_fails: "wf s \<Longrightarrow> save e s = (Inl x, s') \<Longrightarrow> wf s' \<and> contents s' = contents s"
begin

abbreviation durable :: "('d, 's) runtime \<Rightarrow> bool" where
  "durable rt \<equiv> wf (rt_store rt) \<and> map_of (rt_experiments rt) = contents (rt_store rt)"

lemma persist_put_durable:
  assumes "en_save env = save" "durable rt"
    "rt_store rt1 = rt_store rt" "rt_experiments rt1 = rt_experiments (put_experiment e rt)"
    "persist env e rt1 = (Inr u, rt')"
  shows "durable rt'"
proof -
  from assms(1,3,5) obtain st where st: "save e (rt_store rt) = (Inr u, st)" and rt': "rt' = rt1\<lparr>rt_store := st\<rparr>"
    by (auto simp: persist_def split: prod.splits)
  from assms(2) have "wf (rt_store rt)" by simp
  from save_writes [OF this st] assms(2,4) show ?thesis by (simp add: rt' update_conv')
qed

lemma create_experiment_durable:
  assumes "en_save env = save" "durable rt" "create_experiment env request rt = (Inr u, rt')"
  shows "durable rt'"
  using assms(3)
proof (cases rule: create_experiment_cases)
  case (2 e)
  from persist_put_durable [OF assms(1,2) _ refl 2(3)] show ?thesis by simp
qed (use assms(2) in simp)

lemma approve_plan_durable:
  assumes "en_save env = save" "durable rt" "approve_plan env request rt = (Inr u, rt')"
  shows "durable rt'"
  using assms(3)
proof (cases rule: approve_plan_cases)
  case (2 e)
  from persist_put_durable [OF assms(1,2) _ refl 2(4)] show ?thesis by simp
qed (use assms(2) in simp)

lemma start_run_durable:
  assumes "en_save env = save" "durable rt" "start_run env inp createdAt now rt = (Inr v, rt')"
  shows "durable rt'"
proof -
  obtain e u rt1 where "persist env e rt1 = (Inr u, rt')" "rt_store rt1 = rt_store rt"
    "rt_experiments rt1 = rt_experiments (put_experiment e rt)"
    using assms(3) by (auto simp: start_run_def Let_def split: sum.splits option.splits if_splits prod.splits)
  then show ?thesis using persist_put_durable [OF assms(1,2)] by blast
qed

lemma retry_run_durable:
  assumes "en_save env = save" "durable rt" "retry_run env runId actor createdAt now rt = (Inr v, rt')"
  shows "durable rt'"
  using assms(3) start_run_durable [OF assms(1,2)]
  by (auto simp: retry_run_def split: if_splits sum.splits)

text \<open>After a replacement the handlers look the experiment up again and save what they find.\<close>

lemma persist_run_durable:
  assumes "en_save env = save" "durable rt" "runtime_ok rt" "find_by_run runId rt = Inr e"
    "rv_runId v = runId" "rt_store rt1 = rt_store rt"
    "rt_experiments rt1 = rt_experiments (replace_run e runId v rt)" "runtime_ok rt1"
    "persist_run env runId w rt1 = (Inr x, rt')"
  shows "durable rt'"
proof -
  let ?e = "with_run e runId v"
  obtain e1 u where e1: "find_by_run runId rt1 = Inr e1" "persist env e1 rt1 = (Inr u, rt')"
    using assms(9) by (auto simp: persist_run_def split: sum.splits prod.splits)
  note g = find_by_run_get [OF assms(3,4)] and g1 = find_by_run_get [OF assms(8) e1(1)]
  have m: "map_of (rt_experiments rt1) (er_experimentId (rx_request ?e)) = Some ?e"
    using assms(7) by (simp add: replace_run_def)
  have "runId \<in> run_ids ?e" using g(3) assms(5) by simp
  with runtime_ok_unique [OF assms(8) m g1(1)] g1 m have "e1 = ?e"
    by (metis IntI empty_iff option.inject)
  with persist_put_durable [OF assms(1,2,6), of ?e u rt'] assms(7) e1(2) show ?thesis
    by (simp add: replace_run_def)
qed

lemma execute_next_step_durable:
  assumes "en_save env = save" "durable rt" "runtime_ok rt"
    "execute_next_step env runId now rt = (Inr w, rt')"
  shows "durable rt'"
proof -
  obtain e run v d where h: "find_by_run runId rt = Inr e" "require_run e runId = Inr run"
    "execute_view env run now (rt_devices rt) = (Inr v, d)"
    "persist_run env runId v (replace_run e runId v (rt\<lparr>rt_devices := d\<rparr>)) = (Inr w, rt')"
    using assms(4) unfolding execute_next_step_def clone_id by (auto split: sum.splits prod.splits)
  have i: "same_identity run v" "\<not> is_terminal (rv_runStatus run)"
    using same_identity_execute [OF h(3)] by simp_all
  have "runtime_ok (replace_run e runId v (rt\<lparr>rt_devices := d\<rparr>))"
    using execute_view_ok [OF _ h(3)] i by (intro replace_run_ok [OF assms(3) h(1,2)]) auto
  moreover have "rv_runId v = runId" using i(1) require_run_iff [OF h(2)] by (simp add: same_identity_def)
  ultimately show ?thesis
    by (intro persist_run_durable [OF assms(1-3) h(1) _ _ _ _ h(4)]) (simp_all add: replace_run_def)
qed

lemma confirm_step_durable:
  assumes "en_save env = save" "durable rt" "runtime_ok rt"
    "confirm_step env runId evidence actor stepId opid now rt = (Inr w, rt')"
  shows "durable rt'"
proof -
  obtain e run v where h: "find_by_run runId rt = Inr e" "require_run e runId = Inr run"
    "confirm_view run evidence stepId opid now = Inr v"
    "persist_run env runId v (replace_run e runId v rt) = (Inr w, rt')"
    using assms(4) unfolding confirm_step_def clone_id
    by (auto simp: and_then_def split: sum.splits if_splits)
  have i: "same_identity run v" "\<not> is_terminal (rv_runStatus run)"
    using same_identity_confirm [OF h(3)] by (simp_all add: is_terminal_def)
  have "runtime_ok (replace_run e runId v (rt\<lparr>rt_devices := rt_devices rt\<rparr>))"
    using confirm_view_ok [OF _ h(3)] i by (intro replace_run_ok [OF assms(3) h(1,2)]) auto
  moreover have "rv_runId v = runId" using i(1) require_run_iff [OF h(2)] by (simp add: same_identity_def)
  ultimately show ?thesis
    by (intro persist_run_durable [OF assms(1-3) h(1) _ _ _ _ h(4)]) (simp_all add: replace_run_def)
qed

lemma stop_run_durable:
  assumes "en_save env = save" "durable rt" "stop_run env runId actor now rt = (Inr w, rt')"
  shows "durable rt'"
proof -
  obtain e run obs d u where h: "persist env (with_run e runId (stop_view run obs now))
         (replace_run e runId (stop_view run obs now) (rt\<lparr>rt_devices := d\<rparr>)) = (Inr u, rt')"
    using assms(3) unfolding stop_run_def clone_id Let_def
    by (auto split: sum.splits prod.splits if_splits)
  show ?thesis
    by (rule persist_put_durable [OF assms(1,2) _ _ h]) (simp_all add: replace_run_def)
qed

end

text \<open>What reading the saved states back does to the experiment map and the counter.\<close>

lemma restore_runs_bound:
  "counter \<le> restore_runs counter rs \<and> (\<forall>r \<in> set rs. run_number (rv_runId r) \<le> restore_runs counter rs)"
proof (induction counter rs rule: restore_runs.induct)
  case (2 counter r rs)
  then show ?case by auto
qed simp

lemma restore_states_map:
  "distinct (map (\<lambda>e. er_experimentId (rx_request e)) es) \<Longrightarrow>
     map_of (rt_experiments (restore_states es rt)) =
       map_of (rt_experiments rt) ++ map_of (map (\<lambda>e. (er_experimentId (rx_request e), e)) es)"
proof (induction es rt rule: restore_states.induct)
  case (2 e es rt)
  have "map_of (map (\<lambda>e. (er_experimentId (rx_request e), e)) es) (er_experimentId (rx_request e)) = None"
    using "2.prems" by (force simp: map_of_eq_None_iff)
  with 2 show ?case by (auto simp: fun_eq_iff map_add_def split: option.splits)
qed simp

lemma restore_states_store [simp]: "rt_store (restore_states es rt) = rt_store rt"
  by (induction es rt rule: restore_states.induct) simp_all

lemma restore_states_keys:
  "distinct (map fst (rt_experiments rt)) \<Longrightarrow> distinct (map fst (rt_experiments (restore_states es rt)))"
  by (induction es rt rule: restore_states.induct) (simp_all add: distinct_update)

lemma restore_states_counter:
  "rt_runCounter rt \<le> rt_runCounter (restore_states es rt) \<and>
     (\<forall>e \<in> set es. \<forall>r \<in> set (rx_runs e). run_number (rv_runId r) \<le> rt_runCounter (restore_states es rt))"
proof (induction es rt rule: restore_states.induct)
  case (2 e es rt)
  then show ?case using restore_runs_bound [of "rt_runCounter rt" "rx_runs e"] by (auto intro: le_trans)
qed simp

lemma experiment_ok_counter:
  assumes "experiment_ok c e" "\<forall>r \<in> set (rx_runs e). run_number (rv_runId r) \<le> c'"
  shows "experiment_ok c' e"
proof -
  have "\<exists>n \<le> c'. rv_runId r = ''run-'' @ str_of_nat n" if "r \<in> set (rx_runs e)" for r
  proof -
    from assms(1) that obtain n where "rv_runId r = ''run-'' @ str_of_nat n"
      unfolding experiment_ok_def by blast
    moreover from this have "run_number (rv_runId r) = n" by (simp only: run_number_run)
    ultimately show ?thesis using assms(2) that by blast
  qed
  with assms(1) show ?thesis unfolding experiment_ok_def by blast
qed

context state_store
begin

lemma restart_recovers:
  assumes "durable rt" "runtime_ok rt" "load (rt_store rt) = (Inr es, st)"
  shows "\<exists>rt'. restore load (rt\<lparr>rt_experiments := [], rt_runCounter := 0\<rparr>) = (Inr (), rt')
    \<and> map_of (rt_experiments rt') = map_of (rt_experiments rt) \<and> runtime_ok rt' \<and> durable rt'"
proof -
  let ?start = "rt\<lparr>rt_experiments := [], rt_runCounter := 0\<rparr>"
  let ?fin = "restore_states es ?start"
  from load_reads [OF _ assms(3)] assms(1)
  have l: "st = rt_store rt" "distinct (map (\<lambda>e. er_experimentId (rx_request e)) es)"
    "map_of (map (\<lambda>e. (er_experimentId (rx_request e), e)) es) = map_of (rt_experiments rt)" by simp_all
  have m: "map_of (rt_experiments ?fin) = map_of (rt_experiments rt)"
    using restore_states_map [OF l(2), of ?start] l(3) by simp
  have "runtime_ok ?fin"
    unfolding runtime_ok_def m
  proof (intro conjI allI impI)
    show "distinct (map fst (rt_experiments ?fin))" by (rule restore_states_keys) simp
  next
    fix k e assume k: "map_of (rt_experiments rt) k = Some e"
    then have "e \<in> set es" unfolding l(3) [symmetric] by (auto dest!: map_of_SomeD)
    then have "\<forall>r \<in> set (rx_runs e). run_number (rv_runId r) \<le> rt_runCounter ?fin"
      using restore_states_counter [of ?start es] by blast
    with runtime_ok_experiment [OF assms(2) k] experiment_ok_counter
    show "k = er_experimentId (rx_request e)" "experiment_ok (rt_runCounter ?fin) e" by blast+
  next
    fix k1 e1 k2 e2
    assume "map_of (rt_experiments rt) k1 = Some e1" "map_of (rt_experiments rt) k2 = Some e2"
      "run_ids e1 \<inter> run_ids e2 \<noteq> {}"
    then show "k1 = k2" by (rule runtime_ok_unique [OF assms(2)])
  qed
  moreover have "restore load ?start = (Inr (), ?fin)"
    using assms(3) l(1) by (simp add: restore_def)
  ultimately show ?thesis using m assms(1) by auto
qed

end

section \<open>The in-memory store\<close>

definition memory_wf :: "memory_store \<Rightarrow> bool" where
  "memory_wf s \<longleftrightarrow> distinct (map fst s) \<and> (\<forall>(k, e) \<in> set s. k = er_experimentId (rx_request e))"

lemma memory_entries:
  assumes "\<forall>(k, e) \<in> set s. k = er_experimentId (rx_request e)"
  shows "map (\<lambda>e. (er_experimentId (rx_request e), e)) (map snd s) = s"
    "map (\<lambda>e. er_experimentId (rx_request e)) (map snd s) = map fst s"
  using assms by (induction s) auto

lemma memory_wf_save:
  assumes "memory_wf s"
  shows "memory_wf (AList.update (er_experimentId (rx_request e)) e s)"
proof -
  have "set (AList.update k e s) \<subseteq> insert (k, e) (set s)" for k
    by (induction s) auto
  with assms show ?thesis unfolding memory_wf_def by (fastforce simp: distinct_update)
qed

interpretation memory: state_store memory_load memory_save map_of memory_wf
proof
  fix s es s' assume wf: "memory_wf s" and "memory_load s = (Inr es, s')"
  then have es: "es = map snd s" "s' = s" by (auto simp: memory_load_def)
  have "\<forall>(k, e) \<in> set s. k = er_experimentId (rx_request e)" "distinct (map fst s)"
    using wf by (simp_all add: memory_wf_def)
  then show "s' = s \<and> distinct (map (\<lambda>e. er_experimentId (rx_request e)) es)
      \<and> map_of (map (\<lambda>e. (er_experimentId (rx_request e), e)) es) = map_of s"
    unfolding es by (simp only: memory_entries simp_thms)
next
  fix s e u s' assume "memory_wf s" "memory_save e s = (Inr u, s')"
  then show "memory_wf s' \<and> map_of s' = (map_of s)(er_experimentId (rx_request e) \<mapsto> e)"
    by (auto simp: memory_save_def memory_wf_save update_conv')
qed (simp add: memory_save_def)

end
