(* ===== verification/LabRuntimeProperties.thy ===== *)
theory LabRuntimeProperties
  imports LabRuntimeInterfaces
begin

text \<open>
  The properties of the local Runtime, each with an application to a concrete session: one
  experiment whose plan has an approval-gated device step, run on the mock device provider and the
  in-memory store.
\<close>

section \<open>Reading runs\<close>

lemma find_unique:
  assumes "x \<in> set xs" "P x" "\<And>y. y \<in> set xs \<Longrightarrow> P y \<Longrightarrow> y = x"
  shows "find P xs = Some x"
proof -
  from assms(1,2) obtain y where y: "find P xs = Some y"
    by (cases "find P xs") (auto simp: find_None_iff)
  then have "y \<in> set xs" "P y" by (metis find_Some_iff nth_mem)+
  with assms(3) y show ?thesis by blast
qed

lemma get_run_Some:
  assumes "get_run runId rt = Some run"
  obtains k e where "(k, e) \<in> set (rt_experiments rt)" "run \<in> set (rx_runs e)" "rv_runId run = runId"
  using assms by (fastforce simp: get_run_def find_Some_iff dest: nth_mem)

lemma get_run_found:
  assumes "runtime_ok rt" "map_of (rt_experiments rt) k = Some e" "run \<in> set (rx_runs e)"
  shows "get_run (rv_runId run) rt = Some run"
proof -
  have "find (\<lambda>r. rv_runId r = rv_runId run) (concat (map rx_runs (map snd (rt_experiments rt)))) = Some run"
  proof (rule find_unique)
    show "run \<in> set (concat (map rx_runs (map snd (rt_experiments rt))))"
      using map_of_SomeD [OF assms(2)] assms(3) by force
    fix q assume q: "q \<in> set (concat (map rx_runs (map snd (rt_experiments rt))))" "rv_runId q = rv_runId run"
    then obtain k' e' where e': "(k', e') \<in> set (rt_experiments rt)" "q \<in> set (rx_runs e')" by auto
    then have m: "map_of (rt_experiments rt) k' = Some e'" using assms(1) by (simp add: runtime_ok_def)
    have "rv_runId run \<in> run_ids e" "rv_runId q \<in> run_ids e'"
      using assms(3) e'(2) by (simp_all add: run_ids_def)
    with q(2) have "rv_runId run \<in> run_ids e \<inter> run_ids e'" by simp
    then have "k = k'" using runtime_ok_unique [OF assms(1,2) m] by blast
    with m assms(2) have "q \<in> set (rx_runs e)" using e'(2) by simp
    moreover have "distinct (map rv_runId (rx_runs e))"
      using runtime_ok_experiment [OF assms(1,2)] by (simp add: experiment_ok_def)
    ultimately show "q = run" using assms(3) q(2) by (metis distinct_map inj_onD)
  qed simp
  then show ?thesis by (simp add: get_run_def)
qed

lemma get_run_ok:
  assumes "runtime_ok rt" "get_run runId rt = Some run"
  obtains k e a where "map_of (rt_experiments rt) k = Some e" "run \<in> set (rx_runs e)" "rv_runId run = runId"
    "rx_approvedPlan e = Some a" "run_ok (an_executionGraph a) run" "experiment_ok (rt_runCounter rt) e"
proof -
  obtain k e where e: "(k, e) \<in> set (rt_experiments rt)" "run \<in> set (rx_runs e)" "rv_runId run = runId"
    using get_run_Some [OF assms(2)] .
  then have m: "map_of (rt_experiments rt) k = Some e" using assms(1) by (simp add: runtime_ok_def)
  have ok: "experiment_ok (rt_runCounter rt) e" using runtime_ok_experiment [OF assms(1) m] by simp
  from experiment_run [OF ok e(2)] obtain a where "rx_approvedPlan e = Some a" "run_ok (an_executionGraph a) run"
    by blast
  with that m e(2,3) ok show ?thesis by blast
qed

lemma find_by_run_found:
  assumes "runtime_ok rt" "get_run runId rt = Some run"
  obtains e where "find_by_run runId rt = Inr e" "require_run e runId = Inr run"
    "map_of (rt_experiments rt) (er_experimentId (rx_request e)) = Some e"
proof -
  obtain k e where e: "(k, e) \<in> set (rt_experiments rt)" "run \<in> set (rx_runs e)" "rv_runId run = runId"
    using get_run_Some [OF assms(2)] .
  then have m: "map_of (rt_experiments rt) k = Some e" using assms(1) by (simp add: runtime_ok_def)
  have ok: "experiment_ok (rt_runCounter rt) e" using runtime_ok_experiment [OF assms(1) m] by simp
  have "\<exists>f. find_by_run runId rt = Inr f"
  proof (cases "find (\<lambda>e. list_ex (\<lambda>r. rv_runId r = runId) (rx_runs e)) (map snd (rt_experiments rt))")
    case None
    with e show ?thesis by (force simp: find_None_iff list_ex_iff)
  qed (simp add: find_by_run_def)
  then obtain f where f: "find_by_run runId rt = Inr f" by blast
  note g = find_by_run_get [OF assms(1) f]
  have "run_ids f \<inter> run_ids e \<noteq> {}" using g(3) e(2,3) by (auto simp: run_ids_def)
  with runtime_ok_unique [OF assms(1) g(1) m] g(1) m have "f = e" by simp
  moreover have "find (\<lambda>r. rv_runId r = runId) (rx_runs e) = Some run"
  proof (rule find_unique [OF e(2)])
    have d: "distinct (map rv_runId (rx_runs e))" using ok by (simp add: experiment_ok_def)
    fix q assume "q \<in> set (rx_runs e)" "rv_runId q = runId"
    with d e(2,3) show "q = run" by (metis distinct_map inj_onD)
  qed (use e(3) in simp)
  ultimately show ?thesis using that f g(1) by (simp add: require_run_def)
qed

lemma get_run_replaced:
  assumes "runtime_ok rt" "map_of (rt_experiments rt) (er_experimentId (rx_request e)) = Some e"
    "runId \<in> run_ids e" "rv_runId v = runId"
  shows "get_run runId (replace_run e runId v rt) = Some v"
proof -
  let ?m = "AList.update (er_experimentId (rx_request e)) (with_run e runId v) (rt_experiments rt)"
  have d: "distinct (map fst ?m)" using assms(1) by (simp add: runtime_ok_def distinct_update)
  have v: "v \<in> set (rx_runs (with_run e runId v))"
    using assms(3) by (auto simp: with_run_def run_ids_def)
  have "find (\<lambda>r. rv_runId r = runId) (concat (map rx_runs (map snd ?m))) = Some v"
  proof (rule find_unique)
    have "(er_experimentId (rx_request e), with_run e runId v) \<in> set ?m"
      by (rule map_of_SomeD) simp
    with v show "v \<in> set (concat (map rx_runs (map snd ?m)))" by force
    fix y assume y: "y \<in> set (concat (map rx_runs (map snd ?m)))" "rv_runId y = runId"
    then obtain k f where f: "(k, f) \<in> set ?m" "y \<in> set (rx_runs f)" by auto
    with d have m: "map_of ?m k = Some f" by (metis map_of_is_SomeI)
    show "y = v"
    proof (cases "k = er_experimentId (rx_request e)")
      case True
      with m f(2) have "y \<in> set (rx_runs (with_run e runId v))" by simp
      with y(2) assms(4) show ?thesis by (auto simp: with_run_def split: if_splits)
    next
      case False
      with m have "map_of (rt_experiments rt) k = Some f" by simp
      moreover have "run_ids e \<inter> run_ids f \<noteq> {}" using assms(3) f(2) y(2) by (auto simp: run_ids_def)
      ultimately show ?thesis using runtime_ok_unique [OF assms(1,2)] False by blast
    qed
  qed (use assms(4) in simp)
  then show ?thesis by (simp add: get_run_def replace_run_def)
qed

lemma get_run_cong: "rt_experiments rt' = rt_experiments rt \<Longrightarrow> get_run runId rt' = get_run runId rt"
  by (simp add: get_run_def)

section \<open>A concrete session\<close>

definition sample_env :: "(mock_state, memory_store) runtime_env" where
  "sample_env = \<lparr>en_devices = Some mock_gateway, en_save = memory_save\<rparr>"

definition sample_step :: execution_step where
  "sample_step = \<lparr>es_stepId = ''heat'', es_skillRevisionId = ''skill-1'', es_operationKind = Op_device,
     es_operationResource = ''heater'', es_deviceId = Some ''d'', es_parameters = [],
     es_requiresApproval = True, es_expectedEvidence = [''mock-device:d''],
     es_failurePolicy = On_failure_block\<rparr>"

definition sample_runtime :: "(mock_state, memory_store) runtime" where
  "sample_runtime = \<lparr>rt_experiments = [], rt_runCounter = 0,
     rt_devices = \<lparr>mk_devices = [(''d'', \<lparr>md_name = ''D'', md_capabilities = [], md_healthy = True,
       md_communicationFailure = False, md_reservedBy = None\<rparr>)], mk_receipts = []\<rparr>,
     rt_store = []\<rparr>"

definition sample_created :: "(mock_state, memory_store) runtime" where
  "sample_created = snd (create_experiment sample_env
     \<lparr>er_experimentId = ''exp'', er_objective = ''boil'', er_expectedOutputs = []\<rparr> sample_runtime)"

definition sample_approved :: "(mock_state, memory_store) runtime" where
  "sample_approved = snd (approve_plan sample_env
     \<lparr>ap_experimentId = ''exp'', ap_planId = ''plan'', ap_approvedBy = ''ann'',
      ap_skillRevisionIds = [''skill-1''], ap_executionSteps = Some [sample_step],
      ap_skillSnapshots = None\<rparr> sample_created)"

definition sample_inp :: start_run_request where
  "sample_inp = \<lparr>sr_experimentId = ''exp'', sr_planId = ''plan'', sr_launchingSessionId = None,
     sr_retryOfRunId = None\<rparr>"

definition sample_plan :: approved_plan where
  "sample_plan = \<lparr>an_request = \<lparr>ap_experimentId = ''exp'', ap_planId = ''plan'', ap_approvedBy = ''ann'',
      ap_skillRevisionIds = [''skill-1''], ap_executionSteps = Some [sample_step],
      ap_skillSnapshots = None\<rparr>,
     an_executionGraph = \<lparr>eg_planId = ''plan'', eg_skillSnapshots = [], eg_steps = [sample_step]\<rparr>\<rparr>"

definition sample_started :: "(mock_state, memory_store) runtime" where
  "sample_started = snd (start_run sample_env sample_inp 1 2 sample_approved)"

definition sample_confirmed :: "(mock_state, memory_store) runtime" where
  "sample_confirmed = snd (confirm_step sample_env ''run-1'' [''mock-device:d''] ''ann'' None None 3 sample_started)"

definition sample_view :: run_view where
  "sample_view = started_view sample_inp sample_plan 1 1 2"

definition sample_done :: run_view where
  "sample_done = advance_view sample_view sample_step [confirmed_observation sample_step
     ''operation-manual-run-1-heat'' [''mock-device:d''] True None] 3"

definition sample_experiment :: "run_view list \<Rightarrow> runtime_experiment" where
  "sample_experiment runs = \<lparr>rx_request = \<lparr>er_experimentId = ''exp'', er_objective = ''boil'',
     er_expectedOutputs = []\<rparr>, rx_approvedPlan = Some sample_plan, rx_runs = runs\<rparr>"

lemma sample_trims:
  "js_trim ''boil'' = ''boil''" "js_trim ''plan'' = ''plan''" "js_trim ''ann'' = ''ann''"
  "js_trim ''heater'' = ''heater''"
  by (simp_all add: js_trim_printable printable_def)

lemma sample_approved_eq:
  "sample_approved = sample_runtime\<lparr>rt_experiments := [(''exp'', sample_experiment [])],
     rt_store := [(''exp'', sample_experiment [])]\<rparr>"
  by (simp add: sample_approved_def sample_created_def sample_runtime_def sample_env_def
      create_experiment_def approve_plan_def sample_trims put_experiment_def persist_def memory_save_def
      require_experiment_def validate_graph_inputs_def sample_step_def build_approved_plan_def
      sample_experiment_def sample_plan_def Let_def)

lemma str_of_nat_1: "str_of_nat (Suc 0) = ''1''"
  by code_simp

lemma sample_started_eq:
  "sample_started = sample_runtime\<lparr>rt_experiments := [(''exp'', sample_experiment [sample_view])],
     rt_runCounter := 1, rt_store := [(''exp'', sample_experiment [sample_view])]\<rparr>"
  by (simp add: sample_started_def sample_approved_eq start_run_def require_experiment_def
      sample_inp_def sample_experiment_def sample_plan_def persist_def put_experiment_def
      sample_env_def memory_save_def sample_view_def sample_runtime_def Let_def)

lemma sample_view_fields:
  "rv_runId sample_view = ''run-1''" "rv_runStatus sample_view = Some Run_WAITING_CONFIRMATION"
  "current_step sample_view = Some sample_step" "rv_observations sample_view = []"
  "rv_executionGraph sample_view = an_executionGraph sample_plan"
  by (simp_all add: sample_view_def started_view_def make_view_def Let_def first_step_def sample_plan_def
      sample_step_def initial_status_def current_step_def str_of_nat_1)

lemma sample_confirm_view:
  "confirm_view sample_view [''mock-device:d''] None None 3 = Inr sample_done"
  by (simp add: confirm_view_def sample_view_fields Let_def waiting_approval_index_def other_steps_def
      sample_done_def evidence_suffices_def operation_id_for_def)
    (simp add: sample_step_def)

lemma sample_done_fields:
  "rv_runId sample_done = ''run-1''" "rv_runStatus sample_done = Some Run_COMPLETED"
  "current_step sample_done = None"
  by (simp_all add: sample_done_def advance_view_def sample_view_fields sample_plan_def step_after_def
      current_step_def)

lemma sample_done_graph: "eg_steps (rv_executionGraph sample_done) = [sample_step]"
  by (simp add: sample_done_def advance_view_def Let_def sample_view_fields sample_plan_def)

lemma sample_confirmed_eq:
  "sample_confirmed = sample_runtime\<lparr>rt_experiments := [(''exp'', sample_experiment [sample_done])],
     rt_runCounter := 1, rt_store := [(''exp'', sample_experiment [sample_done])]\<rparr>"
  by (simp add: sample_confirmed_def sample_started_eq confirm_step_def sample_trims find_by_run_def
      require_run_def sample_experiment_def sample_view_fields sample_confirm_view persist_run_def
      replace_run_def with_run_def put_experiment_def sample_done_fields persist_def sample_env_def
      memory_save_def)

lemma sample_reach:
  "runtime_reach sample_env sample_started" "runtime_reach sample_env sample_confirmed"
proof -
  have "runtime_reach sample_env sample_runtime" by (rule runtime_reach.Init) (simp add: sample_runtime_def)
  then have "runtime_reach sample_env sample_created"
    unfolding sample_created_def by (rule runtime_reach.Step) (rule runtime_step.Create, rule prod.collapse [symmetric])
  then have "runtime_reach sample_env sample_approved"
    unfolding sample_approved_def by (rule runtime_reach.Step) (rule runtime_step.Approve, rule prod.collapse [symmetric])
  then show s: "runtime_reach sample_env sample_started"
    unfolding sample_started_def by (rule runtime_reach.Step) (rule runtime_step.Start, rule prod.collapse [symmetric])
  then show "runtime_reach sample_env sample_confirmed"
    unfolding sample_confirmed_def by (rule runtime_reach.Step) (rule runtime_step.Confirm, rule prod.collapse [symmetric])
qed

lemma sample_get_run:
  "get_run ''run-1'' sample_started = Some sample_view"
  "get_run ''run-1'' sample_confirmed = Some sample_done"
  by (simp_all add: get_run_def sample_started_eq sample_confirmed_eq sample_experiment_def
      sample_view_fields sample_done_fields)

section \<open>Completed runs\<close>

lemma completed_steps:
  assumes "run_ok g run" "rv_runStatus run = Some Run_COMPLETED"
  shows "(\<forall>step \<in> set (eg_steps g). step_done step (rv_observations run)) \<and> fb_valid (rv_feedback run)"
proof -
  obtain k where k: "progress g k run" using assms(1) by (auto simp: run_ok_def)
  then have len: "k = length (eg_steps g)" using assms(2) unfolding progress_def by blast
  have "\<forall>o1 \<in> set (rv_observations run). ob_valid o1"
    using progress_observations [OF k] len by blast
  moreover have "rv_feedback run = feedback_for Run_COMPLETED (rv_observations run)"
    using assms by (auto simp: run_ok_def run_consistent_def)
  ultimately show ?thesis
    using progress_done [OF k] len by (auto simp: list_all_iff in_set_conv_nth)
qed

text \<open>
  C1: In every reachable state, a run whose status is \<open>COMPLETED\<close> has, for each step of its locked
  execution graph, a valid completed observation whose evidence is non-empty and contains all the
  evidence the step expects; its feedback is valid and its assessment is a pass.
\<close>

theorem completed_run_has_evidence:
  assumes "runtime_reach env rt" "get_run runId rt = Some run" "rv_runStatus run = Some Run_COMPLETED"
  shows "(\<forall>step \<in> set (eg_steps (rv_executionGraph run)).
      \<exists>o1 \<in> set (rv_observations run). ob_stepId o1 = es_stepId step \<and> ob_valid o1
        \<and> ob_status o1 = Obs_COMPLETED \<and> ob_evidence o1 \<noteq> []
        \<and> set (es_expectedEvidence step) \<subseteq> set (ob_evidence o1))
    \<and> fb_valid (rv_feedback run) \<and> ra_verdict (assess_run run) = Some Verdict_PASS"
proof -
  obtain a :: approved_plan where a: "run_ok (an_executionGraph a) run"
    by (rule get_run_ok [OF runtime_reach_ok [OF assms(1)] assms(2)])
  then have "rv_executionGraph run = an_executionGraph a" by (simp add: run_ok_def)
  with completed_steps [OF a assms(3)] assms(3) show ?thesis
    by (auto simp: step_done_def evidence_suffices_def assess_run_passed)
qed

theorem completed_run_has_evidence_witness:
  "(\<exists>o1 \<in> set (rv_observations sample_done). ob_stepId o1 = es_stepId sample_step \<and> ob_valid o1
        \<and> ob_status o1 = Obs_COMPLETED \<and> ob_evidence o1 \<noteq> []
        \<and> set (es_expectedEvidence sample_step) \<subseteq> set (ob_evidence o1))
    \<and> fb_valid (rv_feedback sample_done) \<and> ra_verdict (assess_run sample_done) = Some Verdict_PASS"
  using completed_run_has_evidence [OF sample_reach(2) sample_get_run(2) sample_done_fields(2)]
  unfolding sample_done_graph by simp

section \<open>Runs are locked to the approved plan\<close>





text \<open>
  A run in a terminal status can be neither executed nor confirmed: both handlers throw and
  leave the whole Runtime, devices and store included, as it was.
\<close>

theorem terminal_run_is_closed:
  assumes "runtime_reach env rt" "get_run runId rt = Some run" "is_terminal (rv_runStatus run)"
  shows "execute_next_step env runId now rt = (Inl ''run is already in a terminal state'', rt)
    \<and> (\<exists>e. confirm_step env runId evidence actor stepId opid now rt = (Inl e, rt))"
proof -
  obtain e where e: "find_by_run runId rt = Inr e" "require_run e runId = Inr run"
    by (rule find_by_run_found [OF runtime_reach_ok [OF assms(1)] assms(2)])
  have "rv_runStatus run \<noteq> Some Run_WAITING_CONFIRMATION" using assms(3) by (auto simp: is_terminal_def)
  with e assms(3) show ?thesis
    by (simp add: execute_next_step_def execute_view_def confirm_step_def confirm_view_def)
qed

theorem terminal_run_is_closed_witness:
  "execute_next_step sample_env ''run-1'' 4 sample_confirmed
      = (Inl ''run is already in a terminal state'', sample_confirmed)
    \<and> (\<exists>e. confirm_step sample_env ''run-1'' [''x''] ''ann'' None None 4 sample_confirmed = (Inl e, sample_confirmed))"
  by (rule terminal_run_is_closed [OF sample_reach(2) sample_get_run(2)])
    (simp add: sample_done_fields is_terminal_def)

section \<open>Leases and restarts\<close>

text \<open>
  C34: A device step on the mock provider leaves the leases of all other devices alone; when another
  run holds the device, no lease changes and the run is blocked or stopped; otherwise the lease
  after the step is the one before it, is free, or is the run's own with an accepted operation
  recorded as waiting.
\<close>

theorem mock_device_step_lease:
  assumes "en_devices env = Some mock_gateway" "es_deviceId step = Some dev"
    "execute_device_step env run step now d = (v, d')"
  shows "(\<forall>x. x \<noteq> dev \<longrightarrow> mock_holder d' x = mock_holder d x)
    \<and> (mock_holder d dev \<notin> {None, Some (rv_runId run)} \<longrightarrow>
         mock_holder d' = mock_holder d \<and> rv_runStatus v \<in> {Some Run_BLOCKED, Some Run_STOPPED})
    \<and> (mock_holder d' dev = mock_holder d dev \<or> mock_holder d' dev = None
       \<or> mock_holder d' dev = Some (rv_runId run) \<and> waiting_execution_index v step \<noteq> None)"
  using mock.device_step_lease [OF assms(1) [unfolded mock_gateway_interface] assms(2,3)] by blast

theorem mock_device_step_lease_witness:
  "let d = rt_devices sample_runtime;
       (v, d') = execute_device_step sample_env sample_view sample_step 3 d
   in (\<forall>x. x \<noteq> ''d'' \<longrightarrow> mock_holder d' x = mock_holder d x)
    \<and> (mock_holder d ''d'' \<notin> {None, Some (rv_runId sample_view)} \<longrightarrow>
         mock_holder d' = mock_holder d \<and> rv_runStatus v \<in> {Some Run_BLOCKED, Some Run_STOPPED})
    \<and> (mock_holder d' ''d'' = mock_holder d ''d'' \<or> mock_holder d' ''d'' = None
       \<or> mock_holder d' ''d'' = Some (rv_runId sample_view) \<and> waiting_execution_index v sample_step \<noteq> None)"
  unfolding Let_def case_prod_beta
  by (rule mock_device_step_lease [where env = sample_env and now = 3])
    (simp_all add: sample_env_def sample_step_def)

text \<open>
  C37: A handler that returns has saved what it changed: whenever the in-memory store agrees with
  the experiment map before a call that returns normally, it agrees afterwards.
\<close>

theorem returned_calls_are_durable:
  assumes "en_save env = memory_save" "runtime_reach env rt" "memory_wf (rt_store rt)"
    "map_of (rt_experiments rt) = map_of (rt_store rt)"
    "create_experiment env request rt = (Inr u, rt') \<or> approve_plan env plan rt = (Inr u, rt')
     \<or> start_run env inp createdAt now rt = (Inr w, rt') \<or> retry_run env runId actor createdAt now rt = (Inr w, rt')
     \<or> execute_next_step env runId now rt = (Inr w, rt')
     \<or> confirm_step env runId evidence actor stepId opid now rt = (Inr w, rt')
     \<or> stop_run env runId actor now rt = (Inr w, rt')"
  shows "memory_wf (rt_store rt') \<and> map_of (rt_experiments rt') = map_of (rt_store rt')"
proof -
  note d = assms(1) conjI [OF assms(3,4)] and ok = runtime_reach_ok [OF assms(2)]
  show ?thesis
    using assms(5) memory.create_experiment_durable [OF d] memory.approve_plan_durable [OF d]
      memory.start_run_durable [OF d] memory.retry_run_durable [OF d]
      memory.execute_next_step_durable [OF d ok] memory.confirm_step_durable [OF d ok]
      memory.stop_run_durable [OF d] by metis
qed

theorem returned_calls_are_durable_witness:
  "memory_wf (rt_store sample_confirmed) \<and> map_of (rt_experiments sample_confirmed) = map_of (rt_store sample_confirmed)"
proof (rule returned_calls_are_durable [where env = sample_env and rt = sample_started])
  show "en_save sample_env = memory_save" by (simp add: sample_env_def)
  show "runtime_reach sample_env sample_started" by (rule sample_reach)
  show "memory_wf (rt_store sample_started)" "map_of (rt_experiments sample_started) = map_of (rt_store sample_started)"
    by (simp_all add: sample_started_eq memory_wf_def sample_experiment_def)
  have "confirm_step sample_env ''run-1'' [''mock-device:d''] ''ann'' None None 3 sample_started
      = (Inr sample_done, sample_confirmed)"
    unfolding sample_confirmed_def
    by (simp add: sample_started_eq confirm_step_def sample_trims find_by_run_def
      require_run_def sample_experiment_def sample_view_fields sample_confirm_view persist_run_def
      replace_run_def with_run_def put_experiment_def sample_done_fields persist_def sample_env_def
      memory_save_def)
  then show "create_experiment sample_env request sample_started = (Inr (), sample_confirmed) \<or>
    approve_plan sample_env plan sample_started = (Inr (), sample_confirmed) \<or>
    start_run sample_env inp 0 3 sample_started = (Inr sample_done, sample_confirmed) \<or>
    retry_run sample_env ''run-1'' ''ann'' 0 3 sample_started = (Inr sample_done, sample_confirmed) \<or>
    execute_next_step sample_env ''run-1'' 3 sample_started = (Inr sample_done, sample_confirmed) \<or>
    confirm_step sample_env ''run-1'' [''mock-device:d''] ''ann'' None None 3 sample_started = (Inr sample_done, sample_confirmed) \<or>
    stop_run sample_env ''run-1'' ''ann'' 3 sample_started = (Inr sample_done, sample_confirmed)"
    for request plan inp by blast
qed

text \<open>
  C38: Restarting the Runtime from the in-memory store it agrees with recovers every experiment and
  a run counter that no stored run exceeds: the restored state satisfies the invariant again.
\<close>

theorem restart_recovers_experiments:
  assumes "runtime_reach env rt" "memory_wf (rt_store rt)"
    "map_of (rt_experiments rt) = map_of (rt_store rt)"
  shows "\<exists>rt'. restore memory_load (rt\<lparr>rt_experiments := [], rt_runCounter := 0\<rparr>) = (Inr (), rt')
    \<and> map_of (rt_experiments rt') = map_of (rt_experiments rt) \<and> runtime_ok rt'"
proof -
  have "memory_load (rt_store rt) = (Inr (map snd (rt_store rt)), rt_store rt)"
    by (simp add: memory_load_def)
  from memory.restart_recovers [OF conjI [OF assms(2,3)] runtime_reach_ok [OF assms(1)] this]
  show ?thesis by blast
qed

theorem restart_recovers_experiments_witness:
  "\<exists>rt'. restore memory_load (sample_confirmed\<lparr>rt_experiments := [], rt_runCounter := 0\<rparr>) = (Inr (), rt')
    \<and> map_of (rt_experiments rt') = map_of (rt_experiments sample_confirmed) \<and> runtime_ok rt'"
  by (rule restart_recovers_experiments [OF sample_reach(2)])
    (simp_all add: sample_confirmed_eq memory_wf_def sample_experiment_def)

section \<open>Approval\<close>

lemma validate_graph_steps_ok:
  "validate_graph_steps skills seen steps = Inr u \<longleftrightarrow>
     distinct (map es_stepId steps) \<and> set seen \<inter> es_stepId ` set steps = {}
     \<and> (\<forall>s \<in> set steps. es_skillRevisionId s \<in> set skills \<and> js_trim (es_operationResource s) \<noteq> []
          \<and> (es_operationKind s = Op_device \<longrightarrow> es_deviceId s \<noteq> None))"
  by (induction skills seen steps rule: validate_graph_steps.induct) auto

lemma validate_graph_snapshots_ok:
  "validate_graph_snapshots skills seen sns = Inr u \<longleftrightarrow>
     distinct (map sn_revisionId sns) \<and> set seen \<inter> sn_revisionId ` set sns = {}
     \<and> (\<forall>sn \<in> set sns. sn_status sn = ''ACTIVE'' \<and> sn_revisionId sn \<in> set skills)"
  by (induction skills seen sns rule: validate_graph_snapshots.induct) auto

text \<open>
  C37: The graph check of \<open>approvePlan\<close> accepts exactly the inputs whose steps have distinct ids,
  an approved Skill revision, a non-blank operation resource and, for device steps, a device id,
  and whose snapshots are \<open>ACTIVE\<close>, approved and distinct.
\<close>

theorem validate_graph_inputs_exact:
  "validate_graph_inputs skills steps snapshots = Inr () \<longleftrightarrow>
     distinct (map es_stepId steps)
     \<and> (\<forall>s \<in> set steps. es_skillRevisionId s \<in> set skills \<and> js_trim (es_operationResource s) \<noteq> []
          \<and> (es_operationKind s = Op_device \<longrightarrow> es_deviceId s \<noteq> None))
     \<and> distinct (map sn_revisionId snapshots)
     \<and> (\<forall>sn \<in> set snapshots. sn_status sn = ''ACTIVE'' \<and> sn_revisionId sn \<in> set skills)"
  by (auto simp: validate_graph_inputs_def res_simps validate_graph_steps_ok validate_graph_snapshots_ok)

theorem validate_graph_inputs_exact_witness:
  "validate_graph_inputs [''skill-1''] [sample_step] [] = Inr ()
    \<and> validate_graph_inputs [] [sample_step] [] \<noteq> Inr ()"
  using validate_graph_inputs_exact [of "[''skill-1'']" "[sample_step]" "[]"]
    validate_graph_inputs_exact [of "[]" "[sample_step]" "[]"]
  by (simp add: sample_step_def sample_trims)

section \<open>What the handlers let through\<close>

lemma started_view_current:
  assumes "eg_steps (an_executionGraph a) = step # rest"
  shows "current_step (started_view inp a n c now) = Some step"
    "rv_runStatus (started_view inp a n c now) = Some (initial_status step)"
  using assms by (simp_all add: started_view_def make_view_def Let_def first_step_def current_step_def)

text \<open>
  A run that starts with an approval-gated device step waits for confirmation before any
  approval was requested; confirming it then takes the path of a manual step: with sufficient
  evidence the device step is recorded as completed and the run advances, although the device was
  never asked to execute it.
\<close>

theorem gated_device_step_confirmed_without_device:
  assumes "eg_steps (an_executionGraph a) = step # rest"
    "es_operationKind step = Op_device" "es_requiresApproval step"
    "evidence_suffices step evidence"
  shows "\<exists>v. confirm_view (started_view inp a n c now) evidence None None later = Inr v
    \<and> step_done step (rv_observations v) \<and> rv_currentStepId v = map_option es_stepId (step_after (step # rest) (es_stepId step))
    \<and> (rest = [] \<longrightarrow> rv_runStatus v = Some Run_COMPLETED)"
proof -
  have "rv_runStatus (started_view inp a n c now) = Some Run_WAITING_CONFIRMATION"
    using started_view_current(2) [OF assms(1)] assms(3) by (simp add: initial_status_def)
  then show ?thesis
    using assms started_view_current(1) [OF assms(1), of inp n c now]
    by (simp add: confirm_view_def Let_def waiting_approval_index_def advance_view_def step_done_def
        confirmed_observation_def step_after_def)
qed

theorem gated_device_step_confirmed_without_device_witness:
  "\<exists>v. confirm_view (started_view sample_inp sample_plan 1 1 2) [''mock-device:d''] None None 3 = Inr v
    \<and> step_done sample_step (rv_observations v)
    \<and> rv_currentStepId v = map_option es_stepId (step_after [sample_step] (es_stepId sample_step))
    \<and> ([] = ([] :: execution_step list) \<longrightarrow> rv_runStatus v = Some Run_COMPLETED)"
  by (rule gated_device_step_confirmed_without_device)
    (simp_all add: sample_plan_def sample_step_def evidence_suffices_def)

lemma completed_no_current:
  assumes "run_ok g run" "rv_runStatus run = Some Run_COMPLETED"
  shows "current_step run = None"
proof -
  obtain k where k: "progress g k run" using assms(1) by (auto simp: run_ok_def)
  then have "k = length (eg_steps g)" using assms(2) unfolding progress_def by blast
  with current_step_progress [OF assms(1) k] show ?thesis by simp
qed

lemma stopped_run:
  assumes "runtime_ok rt" "find_by_run runId rt = Inr e" "require_run e runId = Inr run"
    "persist env (with_run e runId (stop_view run obs now))
       (replace_run e runId (stop_view run obs now) (rt\<lparr>rt_devices := d\<rparr>)) = (r1, rt')"
  shows "get_run runId rt' = Some (stop_view run obs now)"
proof -
  note g = find_by_run_get [OF assms(1,2)]
  have "rv_runId (stop_view run obs now) = runId"
    using require_run_iff [OF assms(3)] by (simp add: stop_view_def)
  then have "get_run runId (replace_run e runId (stop_view run obs now) rt) = Some (stop_view run obs now)"
    by (rule get_run_replaced [OF assms(1) g(1,3)])
  moreover have "rt_experiments rt' = rt_experiments (replace_run e runId (stop_view run obs now) rt)"
    using persist_keeps [OF assms(4)] by (simp add: replace_run_def)
  ultimately show ?thesis using get_run_cong by metis
qed

text \<open>
  C33: \<open>stopRun\<close> does not check for a terminal status: stopping a completed run whose save succeeds
  returns normally and turns the stored status from \<open>COMPLETED\<close> into \<open>STOPPED\<close>, so the recorded
  assessment of the run is no longer a pass.
\<close>

theorem stop_overwrites_completed:
  assumes "runtime_reach env rt" "get_run runId rt = Some run" "rv_runStatus run = Some Run_COMPLETED"
    "js_trim actor \<noteq> []" "\<And>e s. \<exists>s'. en_save env e s = (Inr (), s')"
  shows "\<exists>run' rt'. stop_run env runId actor now rt = (Inr run', rt') \<and> get_run runId rt' = Some run'
    \<and> rv_runStatus run' = Some Run_STOPPED \<and> ra_verdict (assess_run run') \<noteq> Some Verdict_PASS"
proof -
  note ok = runtime_reach_ok [OF assms(1)]
  obtain e where e: "find_by_run runId rt = Inr e" "require_run e runId = Inr run"
    by (rule find_by_run_found [OF ok assms(2)])
  obtain a :: approved_plan where a: "run_ok (an_executionGraph a) run"
    by (rule get_run_ok [OF ok assms(2)])
  have dev: "stop_device env run runId (rt_devices rt) = (Inr (rv_observations run), rt_devices rt)"
    using completed_no_current [OF a assms(3)] by (simp add: stop_device_def)
  let ?v = "stop_view run (rv_observations run) now"
  obtain st where "en_save env (with_run e runId ?v) (rt_store rt) = (Inr (), st)" using assms(5) by blast
  then have p: "persist env (with_run e runId ?v) (replace_run e runId ?v (rt\<lparr>rt_devices := rt_devices rt\<rparr>))
      = (Inr (), (replace_run e runId ?v rt)\<lparr>rt_store := st\<rparr>)"
    by (simp add: persist_def replace_run_def)
  have "stop_run env runId actor now rt = (Inr ?v, (replace_run e runId ?v rt)\<lparr>rt_store := st\<rparr>)"
    using e dev p assms(4) by (simp add: stop_run_def Let_def)
  with stopped_run [OF ok e p] show ?thesis by (auto simp: assess_run_passed)
qed

theorem stop_overwrites_completed_witness:
  "\<exists>run' rt'. stop_run sample_env ''run-1'' ''ann'' 9 sample_confirmed = (Inr run', rt')
    \<and> get_run ''run-1'' rt' = Some run' \<and> rv_runStatus run' = Some Run_STOPPED
    \<and> ra_verdict (assess_run run') \<noteq> Some Verdict_PASS"
  by (rule stop_overwrites_completed [OF sample_reach(2) sample_get_run(2) sample_done_fields(2)])
    (simp_all add: sample_trims sample_env_def memory_save_def)

text \<open>
  C34: A device step that is still waiting for its device when the run is stopped overwrites the
  stop: the view computed from the run read before the wait is stored unconditionally, so after the
  stop has returned \<open>STOPPED\<close> the run carries the result of the pending step again.
\<close>

theorem pending_execution_overwrites_stop:
  assumes "runtime_reach env rt" "get_run runId rt = Some run"
    "execute_view env run later d = (Inr v, d')"
    "stop_run env runId actor now rt = (Inr stopped, rt2)" "find_by_run runId rt2 = Inr e2"
  shows "get_run runId rt2 = Some stopped \<and> rv_runStatus stopped = Some Run_STOPPED
    \<and> get_run runId (replace_run e2 runId v rt2) = Some v"
proof -
  note ok = runtime_reach_ok [OF assms(1)]
  note ok2 = runtime_step_ok [OF runtime_step.Stop [OF assms(4)] ok]
  obtain e where e: "find_by_run runId rt = Inr e" "require_run e runId = Inr run"
    by (rule find_by_run_found [OF ok assms(2)])
  obtain obs d1 u where s: "stop_device env run runId (rt_devices rt) = (Inr obs, d1)"
    "persist env (with_run e runId (stop_view run obs now))
       (replace_run e runId (stop_view run obs now) (rt\<lparr>rt_devices := d1\<rparr>)) = (u, rt2)"
    "stopped = stop_view run obs now"
    using assms(4) e unfolding stop_run_def clone_id Let_def
    by (auto split: sum.splits prod.splits if_splits)
  have st: "get_run runId rt2 = Some stopped"
    using stopped_run [OF ok e s(2)] s(3) by simp
  have id: "same_identity run v" using same_identity_execute [OF assms(3)] by blast
  have v: "rv_runId v = runId" using id require_run_iff [OF e(2)] by (simp add: same_identity_def)
  note g2 = find_by_run_get [OF ok2 assms(5)]
  from get_run_replaced [OF ok2 g2(1,3) v]
  have "get_run runId (replace_run e2 runId v rt2) = Some v" .
  with st s(3) show ?thesis by simp
qed

definition sample_stopped :: "(mock_state, memory_store) runtime" where
  "sample_stopped = snd (stop_run sample_env ''run-1'' ''ann'' 4 sample_started)"

definition sample_pending :: run_view where
  "sample_pending = next_view sample_view Run_WAITING_CONFIRMATION
     [waiting_observation sample_view sample_step] (Some ''heat'') 5"

lemma sample_pending_eq:
  "execute_view sample_env sample_view 5 (rt_devices sample_started) = (Inr sample_pending, rt_devices sample_started)"
  by (simp add: execute_view_def sample_view_fields is_terminal_def approval_given_def sample_pending_def)
    (simp add: sample_step_def)

lemma sample_stop:
  "stop_run sample_env ''run-1'' ''ann'' 4 sample_started
     = (Inr (stop_view sample_view [] 4), sample_stopped)"
  "find_by_run ''run-1'' sample_stopped = Inr (sample_experiment [stop_view sample_view [] 4])"
proof -
  have eq: "stop_run sample_env ''run-1'' ''ann'' 4 sample_started
     = (Inr (stop_view sample_view [] 4), sample_runtime\<lparr>rt_experiments := [(''exp'', sample_experiment
          [stop_view sample_view [] 4])], rt_runCounter := 1,
          rt_store := [(''exp'', sample_experiment [stop_view sample_view [] 4])]\<rparr>)"
    by (simp add: sample_started_eq stop_run_def sample_trims find_by_run_def require_run_def
        sample_experiment_def sample_view_fields stop_device_def waiting_execution_index_def
        replace_run_def with_run_def put_experiment_def persist_def sample_env_def memory_save_def Let_def)
  then show "stop_run sample_env ''run-1'' ''ann'' 4 sample_started
     = (Inr (stop_view sample_view [] 4), sample_stopped)"
    by (simp add: sample_stopped_def)
  show "find_by_run ''run-1'' sample_stopped = Inr (sample_experiment [stop_view sample_view [] 4])"
    using eq by (simp add: sample_stopped_def find_by_run_def sample_experiment_def stop_view_def sample_view_fields)
qed

theorem pending_execution_overwrites_stop_witness:
  "get_run ''run-1'' sample_stopped = Some (stop_view sample_view [] 4)
    \<and> rv_runStatus (stop_view sample_view [] 4) = Some Run_STOPPED
    \<and> get_run ''run-1'' (replace_run (sample_experiment [stop_view sample_view [] 4]) ''run-1'' sample_pending
        sample_stopped) = Some sample_pending"
  by (rule pending_execution_overwrites_stop [OF sample_reach(1) sample_get_run(1) sample_pending_eq sample_stop])

end
