(* ===== verification/LabSkill.thy ===== *)
theory LabSkill
  imports LabDevice
begin

text \<open>
  Laboratory Skills: the types of \<open>packages/experimental/lab-skill/src/types.ts\<close> and the in-process
  provider \<open>LocalLabSkillProvider\<close> of \<open>packages/experimental/lab-skill-local/src/index.ts\<close>. The
  provider's maps of revisions and resources and its link to the Harness registry are the record
  \<open>skill_state\<close>; the registry's invalidation callback is the counter of its calls, \<open>None\<close> before
  the provider is registered. The SHA-256 digest of a definition is the parameter \<open>digest\<close>.
\<close>

section \<open>Types\<close>

datatype lab_failure_policy = Policy_BLOCK | Policy_STOP | Policy_REPLAN

datatype resource_status = Res_CANDIDATE | Res_INSTALLED

record operation_binding =
  bd_kind :: operation_kind
  bd_resourceRef :: string
  bd_installed :: bool

record resource_input =
  ri_kind :: operation_kind
  ri_resourceRef :: string
  ri_content :: string

record operation_resource =
  or_kind :: operation_kind
  or_resourceRef :: string
  or_content :: string
  or_status :: resource_status

text \<open>The declarative part shared by a draft and its revision; a draft's status is always \<open>DRAFT\<close>.\<close>

record lab_skill_draft =
  sk_skillId :: string
  sk_revisionId :: string
  sk_name :: string
  sk_purpose :: string
  sk_applicability :: "string list"
  sk_inputs :: "string list"
  sk_outputs :: "string list"
  sk_parameterConstraints :: "(string \<times> string) list"
  sk_completionConditions :: "string list"
  sk_failurePolicy :: lab_failure_policy
  sk_citations :: "string list"
  sk_operations :: "operation_binding list"

record lab_skill_revision =
  rev_definition :: lab_skill_draft
  rev_status :: lab_skill_status
  rev_definitionHash :: string
  rev_approvedBy :: "string option"

abbreviation rev_id :: "lab_skill_revision \<Rightarrow> string" where
  "rev_id r \<equiv> sk_revisionId (rev_definition r)"

record skill_state =
  st_revisions :: "(string \<times> lab_skill_revision) list"
  st_resources :: "(string \<times> operation_resource) list"
  st_invalidations :: "nat option"

section \<open>Deterministic validation\<close>

text \<open>\<open>isSkillName\<close>: the regular expression \<open>^[a-z0-9]+(?:-[a-z0-9]+)*$\<close>.\<close>

definition is_skill_name :: "string \<Rightarrow> bool" where
  "is_skill_name name = kebab False name"

definition string_list_issues :: "string list \<Rightarrow> string \<Rightarrow> bool \<Rightarrow> string list" where
  "string_list_issues vs field required =
     (if required \<and> vs = [] then [field @ '' must contain at least one completion condition''] else [])
     @ concat (map (\<lambda>(index, v). if js_trim v = []
         then [field @ ''['' @ str_of_nat index @ ''] must be non-blank''] else []) (enumerate 0 vs))"

definition is_resource_kind :: "operation_kind \<Rightarrow> bool" where
  "is_resource_kind kind \<longleftrightarrow> kind = Op_script \<or> kind = Op_api"

definition operation_issues :: "bool \<Rightarrow> (operation_binding \<Rightarrow> bool) \<Rightarrow> nat \<Rightarrow> operation_binding \<Rightarrow> string list" where
  "operation_issues require_installed resource_installed index op =
     (if js_trim (bd_resourceRef op) = []
      then [''operations['' @ str_of_nat index @ ''].resourceRef must be non-blank''] else [])
     @ (if require_installed \<and> \<not> bd_installed op
        then [''operation '' @ bd_resourceRef op @ '' is not installed''] else [])
     @ (if require_installed \<and> is_resource_kind (bd_kind op) \<and> \<not> resource_installed op
        then [''operation '' @ bd_resourceRef op @ '' has no installed resource''] else [])"

definition validate_draft_issues ::
  "lab_skill_draft \<Rightarrow> bool \<Rightarrow> (operation_binding \<Rightarrow> bool) \<Rightarrow> string list" where
  "validate_draft_issues d require_installed resource_installed =
     (if \<not> is_skill_name (sk_name d) then [''name '' @ quoted (sk_name d) @ '' must use kebab-case''] else [])
     @ (if js_trim (sk_purpose d) = [] then [''purpose must be non-blank''] else [])
     @ string_list_issues (sk_applicability d) ''applicability'' False
     @ string_list_issues (sk_inputs d) ''inputs'' False
     @ string_list_issues (sk_outputs d) ''outputs'' False
     @ string_list_issues (sk_completionConditions d) ''completionConditions'' True
     @ concat (map (\<lambda>(name, constr). if js_trim name = [] \<or> js_trim constr = []
         then [''parameterConstraints entries must have non-blank names and values''] else [])
         (sk_parameterConstraints d))
     @ (if sk_operations d = [] then [''at least one operation is required''] else [])
     @ concat (map (\<lambda>(index, op). operation_issues require_installed resource_installed index op)
         (enumerate 0 (sk_operations d)))"

definition validation_error :: "string list \<Rightarrow> string" where
  "validation_error issues = ''Lab Skill validation failed: '' @ js_join ''; '' issues"

section \<open>Resources\<close>

definition resource_key :: "operation_kind \<Rightarrow> string \<Rightarrow> string" where
  "resource_key kind ref = operation_kind_name kind @ '':'' @ js_trim ref"

definition register_candidate_resource :: "resource_input \<Rightarrow> (skill_state, operation_resource) io" where
  "register_candidate_resource r st =
     (if js_trim (ri_resourceRef r) = [] then (Inl ''candidate resource reference must be non-blank'', st)
      else if js_trim (ri_content r) = [] then (Inl ''candidate resource content must be non-blank'', st)
      else (let key = resource_key (ri_kind r) (ri_resourceRef r) in
        if js_has (st_resources st) key
        then (Inl (''candidate resource '' @ quoted (operation_kind_name (ri_kind r) @ '':'' @ ri_resourceRef r)
                @ '' already exists''), st)
        else (let stored = \<lparr>or_kind = ri_kind r, or_resourceRef = js_trim (ri_resourceRef r),
                            or_content = ri_content r, or_status = Res_CANDIDATE\<rparr>
              in (Inr stored, st\<lparr>st_resources := js_set key stored (st_resources st)\<rparr>))))"

definition install_resource :: "operation_kind \<Rightarrow> string \<Rightarrow> (skill_state, operation_resource) io" where
  "install_resource kind ref st =
     (let key = resource_key kind ref in
      case js_get (st_resources st) key of
        None \<Rightarrow> (Inl (''unknown candidate resource '' @ quoted (operation_kind_name kind @ '':'' @ ref)), st)
      | Some r \<Rightarrow>
          (let installed = r\<lparr>or_status := Res_INSTALLED\<rparr>
           in (Inr installed, st\<lparr>st_resources := js_set key installed (st_resources st)\<rparr>)))"

definition resolve_resource :: "operation_kind \<Rightarrow> string \<Rightarrow> skill_state \<Rightarrow> operation_resource option" where
  "resolve_resource kind ref st = js_get (st_resources st) (resource_key kind ref)"

definition resource_installed :: "skill_state \<Rightarrow> operation_binding \<Rightarrow> bool" where
  "resource_installed st op \<longleftrightarrow>
     \<not> is_resource_kind (bd_kind op)
     \<or> map_option or_status (resolve_resource (bd_kind op) (bd_resourceRef op) st) = Some Res_INSTALLED"

section \<open>Revisions\<close>

definition require_revision :: "string \<Rightarrow> skill_state \<Rightarrow> string + lab_skill_revision" where
  "require_revision revisionId st =
     of_option (''unknown Lab Skill revision '' @ quoted revisionId) (js_get (st_revisions st) revisionId)"

text \<open>\<open>replace\<close> stores the changed revision and tells the Harness registry.\<close>

definition replace_revision :: "lab_skill_revision \<Rightarrow> (skill_state, lab_skill_revision) io" where
  "replace_revision nxt st =
     (Inr nxt, st\<lparr>st_revisions := js_set (rev_id nxt) nxt (st_revisions st),
                  st_invalidations := map_option Suc (st_invalidations st)\<rparr>)"

definition create_draft ::
  "(lab_skill_draft \<Rightarrow> string) \<Rightarrow> lab_skill_draft \<Rightarrow> (skill_state, lab_skill_revision) io" where
  "create_draft digest draft st =
     (if js_has (st_revisions st) (sk_revisionId draft)
      then (Inl (''Lab Skill revision '' @ quoted (sk_revisionId draft) @ '' already exists''), st)
      else (let issues = validate_draft_issues draft False (\<lambda>_. True) in
        if issues \<noteq> [] then (Inl (validation_error issues), st)
        else (let revision = \<lparr>rev_definition = draft, rev_status = Skill_DRAFT,
                              rev_definitionHash = digest draft, rev_approvedBy = None\<rparr>
              in (Inr revision, st\<lparr>st_revisions := js_set (sk_revisionId draft) revision (st_revisions st)\<rparr>))))"

definition validate_draft :: "string \<Rightarrow> (skill_state, lab_skill_revision) io" where
  "validate_draft revisionId st =
     (case and_then (require_revision revisionId st) (\<lambda>revision.
        and_then (assert_skill_transition (rev_status revision) Skill_VALIDATED) (\<lambda>_.
          let issues = validate_draft_issues (rev_definition revision) True (resource_installed st) in
          if issues \<noteq> [] then Inl (validation_error issues)
          else Inr (revision\<lparr>rev_status := Skill_VALIDATED\<rparr>))) of
        Inl e \<Rightarrow> (Inl e, st)
      | Inr nxt \<Rightarrow> replace_revision nxt st)"

definition approve_draft :: "string \<Rightarrow> string \<Rightarrow> (skill_state, lab_skill_revision) io" where
  "approve_draft revisionId approvedBy st =
     (case and_then (require_revision revisionId st) (\<lambda>revision.
        and_then (assert_skill_transition (rev_status revision) Skill_HUMAN_APPROVED) (\<lambda>_.
          if js_trim approvedBy = [] then Inl ''Lab Skill approval requires an accountable reviewer''
          else Inr (revision\<lparr>rev_status := Skill_HUMAN_APPROVED, rev_approvedBy := Some (js_trim approvedBy)\<rparr>))) of
        Inl e \<Rightarrow> (Inl e, st)
      | Inr nxt \<Rightarrow> replace_revision nxt st)"

definition activate_revision :: "string \<Rightarrow> (skill_state, lab_skill_revision) io" where
  "activate_revision revisionId st =
     (case and_then (require_revision revisionId st) (\<lambda>revision.
        and_then (assert_skill_transition (rev_status revision) Skill_ACTIVE) (\<lambda>_.
          if list_ex (\<lambda>c. rev_status c = Skill_ACTIVE
                \<and> sk_name (rev_definition c) = sk_name (rev_definition revision)) (js_values (st_revisions st))
          then Inl (''Lab Skill '' @ quoted (sk_name (rev_definition revision)) @ '' already has an ACTIVE revision'')
          else Inr (revision\<lparr>rev_status := Skill_ACTIVE\<rparr>))) of
        Inl e \<Rightarrow> (Inl e, st)
      | Inr nxt \<Rightarrow> replace_revision nxt st)"

definition retire_revision :: "string \<Rightarrow> (skill_state, lab_skill_revision) io" where
  "retire_revision revisionId st =
     (case and_then (require_revision revisionId st) (\<lambda>revision.
        and_then (assert_skill_transition (rev_status revision) Skill_RETIRED) (\<lambda>_.
          Inr (revision\<lparr>rev_status := Skill_RETIRED\<rparr>))) of
        Inl e \<Rightarrow> (Inl e, st)
      | Inr nxt \<Rightarrow> replace_revision nxt st)"

definition resolve_revision :: "string \<Rightarrow> skill_state \<Rightarrow> lab_skill_revision option" where
  "resolve_revision revisionId st = js_get (st_revisions st) revisionId"

fun snapshot_for_run :: "string list \<Rightarrow> skill_state \<Rightarrow> string + skill_snapshot list" where
  "snapshot_for_run [] st = Inr []"
| "snapshot_for_run (revisionId # ids) st =
     and_then (require_revision revisionId st) (\<lambda>revision.
       if rev_status revision \<noteq> Skill_ACTIVE
       then Inl (''Lab Skill revision '' @ quoted revisionId @ '' is ''
              @ skill_status_name (rev_status revision) @ '', not ACTIVE'')
       else and_then (snapshot_for_run ids st) (\<lambda>rest.
         Inr (\<lparr>sn_skillId = sk_skillId (rev_definition revision), sn_revisionId = rev_id revision,
               sn_status = ''ACTIVE'', sn_definitionHash = rev_definitionHash revision\<rparr> # rest)))"

definition dispose_skills :: "skill_state \<Rightarrow> skill_state" where
  "dispose_skills st = \<lparr>st_revisions = [], st_resources = [], st_invalidations = None\<rparr>"

section \<open>The Harness view\<close>

record skill_candidate =
  ca_name :: string
  ca_description :: string
  ca_modelInvocable :: bool
  ca_userInvocable :: bool
  ca_provider :: string
  ca_source :: string
  ca_rank :: js_number
  ca_locator :: "string option"

record skill_definition =
  sd_name :: string
  sd_description :: string
  sd_modelInvocable :: bool
  sd_userInvocable :: bool
  sd_provider :: string
  sd_source :: string
  sd_content :: string

fun failure_policy_name :: "lab_failure_policy \<Rightarrow> string" where
  "failure_policy_name Policy_BLOCK = ''BLOCK''"
| "failure_policy_name Policy_STOP = ''STOP''"
| "failure_policy_name Policy_REPLAN = ''REPLAN''"

definition candidate_for :: "lab_skill_revision \<Rightarrow> string \<Rightarrow> js_number \<Rightarrow> skill_candidate" where
  "candidate_for revision provider rank =
     \<lparr>ca_name = sk_name (rev_definition revision), ca_description = sk_purpose (rev_definition revision),
      ca_modelInvocable = True, ca_userInvocable = False, ca_provider = provider, ca_source = ''custom'',
      ca_rank = rank, ca_locator = Some (rev_id revision)\<rparr>"

definition definition_for :: "lab_skill_revision \<Rightarrow> string \<Rightarrow> skill_definition" where
  "definition_for revision provider =
     (let d = rev_definition revision in
      \<lparr>sd_name = sk_name d, sd_description = sk_purpose d, sd_modelInvocable = True,
       sd_userInvocable = False, sd_provider = provider, sd_source = ''custom'',
       sd_content = js_join [CHR 0x0A]
         ([''# '' @ sk_name d, [], sk_purpose d,
           ''Applicability: '' @ js_join '', '' (sk_applicability d),
           ''Inputs: '' @ js_join '', '' (sk_inputs d),
           ''Outputs: '' @ js_join '', '' (sk_outputs d),
           ''Completion conditions: '' @ js_join ''; '' (sk_completionConditions d),
           ''Failure policy: '' @ failure_policy_name (sk_failurePolicy d), [],
           ''Approved operations:'']
          @ map (\<lambda>op. ''- '' @ operation_kind_name (bd_kind op) @ '': '' @ bd_resourceRef op)
              (sk_operations d))\<rparr>)"

definition as_harness_provider :: "skill_state \<Rightarrow> skill_state" where
  "as_harness_provider st = st\<lparr>st_invalidations := Some 0\<rparr>"

definition harness_list :: "string \<Rightarrow> js_number \<Rightarrow> skill_state \<Rightarrow> skill_candidate list" where
  "harness_list provider rank st =
     map (\<lambda>r. candidate_for r provider rank)
       (filter (\<lambda>r. rev_status r = Skill_ACTIVE) (js_values (st_revisions st)))"

text \<open>\<open>get\<close>: \<open>None\<close> as the locator stands for any value that is not a revision locator.\<close>

definition harness_get :: "string \<Rightarrow> skill_candidate \<Rightarrow> skill_state \<Rightarrow> skill_definition option" where
  "harness_get provider candidate st =
     (case ca_locator candidate of
        None \<Rightarrow> None
      | Some revisionId \<Rightarrow>
          (case js_get (st_revisions st) revisionId of
             None \<Rightarrow> None
           | Some revision \<Rightarrow>
               if rev_status revision \<noteq> Skill_ACTIVE then None else Some (definition_for revision provider)))"

end
