(* ===== verification/LabSkillProperties.thy ===== *)
theory LabSkillProperties
  imports LabSkill
begin

text \<open>
  The Skill provider's invariant as the reachable states of its operations: revisions move one
  lifecycle stage at a time and never change their definition, an approved revision names its
  reviewer, a validated one has all its resources installed, and at most one revision of a name is
  active.
\<close>

section \<open>What validation accepts\<close>

definition draft_wellformed :: "lab_skill_draft \<Rightarrow> bool" where
  "draft_wellformed d \<longleftrightarrow>
     is_skill_name (sk_name d) \<and> js_trim (sk_purpose d) \<noteq> []
     \<and> (\<forall>v \<in> set (sk_applicability d @ sk_inputs d @ sk_outputs d @ sk_completionConditions d). js_trim v \<noteq> [])
     \<and> sk_completionConditions d \<noteq> []
     \<and> (\<forall>(name, constr) \<in> set (sk_parameterConstraints d). js_trim name \<noteq> [] \<and> js_trim constr \<noteq> [])
     \<and> sk_operations d \<noteq> [] \<and> (\<forall>op \<in> set (sk_operations d). js_trim (bd_resourceRef op) \<noteq> [])"

definition draft_installed :: "skill_state \<Rightarrow> lab_skill_draft \<Rightarrow> bool" where
  "draft_installed st d \<longleftrightarrow> (\<forall>op \<in> set (sk_operations d). bd_installed op \<and> resource_installed st op)"

lemma string_list_issues_nil:
  "string_list_issues vs field required = [] \<longleftrightarrow>
     (required \<longrightarrow> vs \<noteq> []) \<and> (\<forall>v \<in> set vs. js_trim v \<noteq> [])"
  using enumerate_ball_elem [of 0 vs "\<lambda>v. js_trim v \<noteq> []"]
  by (auto simp: string_list_issues_def case_prod_nil)

lemma operation_issues_nil:
  "operation_issues req ri index op = [] \<longleftrightarrow>
     js_trim (bd_resourceRef op) \<noteq> [] \<and> (req \<longrightarrow> bd_installed op \<and> (is_resource_kind (bd_kind op) \<longrightarrow> ri op))"
  by (auto simp: operation_issues_def)

lemma validate_draft_issues_nil:
  "validate_draft_issues d req ri = [] \<longleftrightarrow> draft_wellformed d
     \<and> (req \<longrightarrow> (\<forall>op \<in> set (sk_operations d). bd_installed op \<and> (is_resource_kind (bd_kind op) \<longrightarrow> ri op)))"
  using enumerate_ball_elem [of 0 "sk_operations d" "\<lambda>op. js_trim (bd_resourceRef op) \<noteq> []
      \<and> (req \<longrightarrow> bd_installed op \<and> (is_resource_kind (bd_kind op) \<longrightarrow> ri op))"]
  unfolding validate_draft_issues_def draft_wellformed_def append_is_Nil_conv concat_eq_Nil_conv
  by (simp add: string_list_issues_nil case_prod_nil operation_issues_nil split: if_splits) fastforce

lemma validate_installed_nil:
  "validate_draft_issues d True (resource_installed st) = [] \<longleftrightarrow> draft_wellformed d \<and> draft_installed st d"
  by (auto simp: validate_draft_issues_nil draft_installed_def resource_installed_def)

section \<open>The invariant\<close>

definition revision_ok :: "(lab_skill_draft \<Rightarrow> string) \<Rightarrow> skill_state \<Rightarrow> lab_skill_revision \<Rightarrow> bool" where
  "revision_ok digest st r \<longleftrightarrow>
     rev_definitionHash r = digest (rev_definition r)
     \<and> draft_wellformed (rev_definition r)
     \<and> (Skill_VALIDATED \<le> rev_status r \<longrightarrow> draft_installed st (rev_definition r))
     \<and> (Skill_HUMAN_APPROVED \<le> rev_status r \<longrightarrow> (\<exists>reviewer. rev_approvedBy r = Some reviewer \<and> js_trim reviewer \<noteq> []))"

definition skills_ok :: "(lab_skill_draft \<Rightarrow> string) \<Rightarrow> skill_state \<Rightarrow> bool" where
  "skills_ok digest st \<longleftrightarrow>
     distinct (map fst (st_revisions st))
     \<and> (\<forall>k r. map_of (st_revisions st) k = Some r \<longrightarrow> k = rev_id r \<and> revision_ok digest st r)
     \<and> (\<forall>k1 r1 k2 r2. map_of (st_revisions st) k1 = Some r1 \<longrightarrow> map_of (st_revisions st) k2 = Some r2 \<longrightarrow>
          rev_status r1 = Skill_ACTIVE \<longrightarrow> rev_status r2 = Skill_ACTIVE \<longrightarrow>
          sk_name (rev_definition r1) = sk_name (rev_definition r2) \<longrightarrow> k1 = k2)"

text \<open>Resources are only added or installed, so what is installed stays installed.\<close>

definition keeps_installed :: "skill_state \<Rightarrow> skill_state \<Rightarrow> bool" where
  "keeps_installed st st' \<longleftrightarrow> (\<forall>op. resource_installed st op \<longrightarrow> resource_installed st' op)"

lemma keeps_installed_same: "st_resources st' = st_resources st \<Longrightarrow> keeps_installed st st'"
  by (simp add: keeps_installed_def resource_installed_def resolve_resource_def)

lemma register_candidate_keeps:
  "register_candidate_resource r st = (x, st') \<Longrightarrow> keeps_installed st st' \<and> st_revisions st' = st_revisions st"
  by (auto simp: register_candidate_resource_def Let_def keeps_installed_def resource_installed_def
      resolve_resource_def split: if_splits)

lemma install_resource_keeps:
  "install_resource kind ref st = (x, st') \<Longrightarrow> keeps_installed st st' \<and> st_revisions st' = st_revisions st"
  by (auto simp: install_resource_def Let_def keeps_installed_def resource_installed_def
      resolve_resource_def split: option.splits)

lemma revision_ok_mono: "revision_ok digest st r \<Longrightarrow> keeps_installed st st' \<Longrightarrow> revision_ok digest st' r"
  unfolding revision_ok_def draft_installed_def keeps_installed_def by blast

lemma skills_ok_resources:
  assumes "skills_ok digest st" "keeps_installed st st'" "st_revisions st' = st_revisions st"
  shows "skills_ok digest st'"
  using assms(1) revision_ok_mono [OF _ assms(2)] unfolding skills_ok_def assms(3) by blast

text \<open>
  Storing a revision keeps the invariant when it is well-formed itself and, being active, the only
  active one of its name.
\<close>

lemma skills_ok_store:
  assumes "skills_ok digest st" "revision_ok digest st r"
    "\<And>k r'. map_of (st_revisions st) k = Some r' \<Longrightarrow> rev_status r = Skill_ACTIVE \<Longrightarrow>
       rev_status r' = Skill_ACTIVE \<Longrightarrow> sk_name (rev_definition r') = sk_name (rev_definition r) \<Longrightarrow> k = rev_id r"
    "st_revisions st' = AList.update (rev_id r) r (st_revisions st)" "st_resources st' = st_resources st"
  shows "skills_ok digest st'"
proof -
  have m: "map_of (st_revisions st') k = (if k = rev_id r then Some r else map_of (st_revisions st) k)" for k
    using assms(4) by simp
  have mono: "revision_ok digest st q \<Longrightarrow> revision_ok digest st' q" for q
    using revision_ok_mono keeps_installed_same [OF assms(5)] by blast
  show ?thesis
    unfolding skills_ok_def
  proof (intro conjI allI impI)
    show "distinct (map fst (st_revisions st'))"
      using assms(1,4) by (simp add: skills_ok_def distinct_update)
  next
    fix k q assume "map_of (st_revisions st') k = Some q"
    then consider "k = rev_id r" "q = r" | "map_of (st_revisions st) k = Some q"
      unfolding m by (cases "k = rev_id r") simp_all
    then show "k = rev_id q" "revision_ok digest st' q"
      using assms(1,2) mono unfolding skills_ok_def by (cases; blast)+
  next
    fix k1 r1 k2 r2
    assume m1: "map_of (st_revisions st') k1 = Some r1" and m2: "map_of (st_revisions st') k2 = Some r2"
      and a: "rev_status r1 = Skill_ACTIVE" "rev_status r2 = Skill_ACTIVE"
        "sk_name (rev_definition r1) = sk_name (rev_definition r2)"
    show "k1 = k2"
    proof (cases "k1 = rev_id r"; cases "k2 = rev_id r")
      assume "k1 = rev_id r" "k2 \<noteq> rev_id r"
      with m1 m2 a assms(3) show ?thesis unfolding m by auto
    next
      assume "k1 \<noteq> rev_id r" "k2 = rev_id r"
      with m1 m2 a assms(3) show ?thesis unfolding m by auto
    next
      assume "k1 \<noteq> rev_id r" "k2 \<noteq> rev_id r"
      with m1 m2 have "map_of (st_revisions st) k1 = Some r1" "map_of (st_revisions st) k2 = Some r2"
        unfolding m by simp_all
      with a assms(1) show ?thesis unfolding skills_ok_def by blast
    qed simp
  qed
qed

section \<open>Lifecycle moves\<close>

text \<open>Every lifecycle operation either throws and changes nothing or moves one revision one stage on.\<close>

definition moves :: "string \<Rightarrow> skill_state \<Rightarrow> lab_skill_revision \<Rightarrow> lab_skill_revision \<Rightarrow> skill_state \<Rightarrow> bool" where
  "moves revisionId st r r' st' \<longleftrightarrow>
     map_of (st_revisions st) revisionId = Some r \<and> rev_definition r' = rev_definition r
     \<and> rev_definitionHash r' = rev_definitionHash r
     \<and> skill_stage (rev_status r') = Suc (skill_stage (rev_status r))
     \<and> st' = st\<lparr>st_revisions := AList.update (rev_id r) r' (st_revisions st),
                st_invalidations := map_option Suc (st_invalidations st)\<rparr>"

lemma lifecycle_cases:
  "validate_draft revisionId st = (x, st') \<Longrightarrow> (\<exists>e. x = Inl e) \<and> st' = st \<or>
     (\<exists>r r'. x = Inr r' \<and> moves revisionId st r r' st' \<and> rev_status r' = Skill_VALIDATED
        \<and> rev_approvedBy r' = rev_approvedBy r \<and> draft_installed st (rev_definition r))"
  "approve_draft revisionId actor st = (x, st') \<Longrightarrow> (\<exists>e. x = Inl e) \<and> st' = st \<or>
     (\<exists>r r'. x = Inr r' \<and> moves revisionId st r r' st' \<and> rev_status r' = Skill_HUMAN_APPROVED
        \<and> rev_approvedBy r' = Some (js_trim actor) \<and> js_trim actor \<noteq> [])"
  "activate_revision revisionId st = (x, st') \<Longrightarrow> (\<exists>e. x = Inl e) \<and> st' = st \<or>
     (\<exists>r r'. x = Inr r' \<and> moves revisionId st r r' st' \<and> rev_status r' = Skill_ACTIVE
        \<and> rev_approvedBy r' = rev_approvedBy r
        \<and> (\<forall>q \<in> set (map snd (st_revisions st)). rev_status q = Skill_ACTIVE \<longrightarrow>
             sk_name (rev_definition q) \<noteq> sk_name (rev_definition r)))"
  "retire_revision revisionId st = (x, st') \<Longrightarrow> (\<exists>e. x = Inl e) \<and> st' = st \<or>
     (\<exists>r r'. x = Inr r' \<and> moves revisionId st r r' st' \<and> rev_status r' = Skill_RETIRED
        \<and> rev_approvedBy r' = rev_approvedBy r)"
  unfolding validate_draft_def approve_draft_def activate_revision_def retire_revision_def
    replace_revision_def moves_def
  by (auto simp: res_simps require_revision_def Let_def next_skill_status_stage validate_installed_nil
      list_ex_iff split: sum.splits if_splits)

lemma create_draft_cases:
  assumes "create_draft digest draft st = (x, st')"
  shows "(\<exists>e. x = Inl e) \<and> st' = st \<or>
    map_of (st_revisions st) (sk_revisionId draft) = None \<and> draft_wellformed draft
    \<and> x = Inr \<lparr>rev_definition = draft, rev_status = Skill_DRAFT, rev_definitionHash = digest draft, rev_approvedBy = None\<rparr>
    \<and> st' = st\<lparr>st_revisions := AList.update (sk_revisionId draft)
         \<lparr>rev_definition = draft, rev_status = Skill_DRAFT, rev_definitionHash = digest draft, rev_approvedBy = None\<rparr>
         (st_revisions st)\<rparr>"
  using assms by (auto simp: create_draft_def Let_def validate_draft_issues_nil split: if_splits)

section \<open>Steps\<close>

inductive skill_step :: "(lab_skill_draft \<Rightarrow> string) \<Rightarrow> skill_state \<Rightarrow> skill_state \<Rightarrow> bool" for digest where
  Register: "register_candidate_resource r st = (x, st') \<Longrightarrow> skill_step digest st st'"
| Install: "install_resource kind ref st = (x, st') \<Longrightarrow> skill_step digest st st'"
| Draft: "create_draft digest draft st = (y, st') \<Longrightarrow> skill_step digest st st'"
| Validate: "validate_draft revisionId st = (y, st') \<Longrightarrow> skill_step digest st st'"
| Approve: "approve_draft revisionId actor st = (y, st') \<Longrightarrow> skill_step digest st st'"
| Activate: "activate_revision revisionId st = (y, st') \<Longrightarrow> skill_step digest st st'"
| Retire: "retire_revision revisionId st = (y, st') \<Longrightarrow> skill_step digest st st'"
| Attach: "skill_step digest st (as_harness_provider st)"

inductive skill_reach :: "(lab_skill_draft \<Rightarrow> string) \<Rightarrow> skill_state \<Rightarrow> bool" for digest where
  Init: "skill_reach digest (dispose_skills st)"
| Step: "skill_reach digest st \<Longrightarrow> skill_step digest st st' \<Longrightarrow> skill_reach digest st'"

inductive_cases skill_stepE: "skill_step digest st st'"

definition lawful_move :: "skill_state \<Rightarrow> lab_skill_revision \<Rightarrow> lab_skill_revision \<Rightarrow> bool" where
  "lawful_move st r r' \<longleftrightarrow>
     (rev_status r' = Skill_VALIDATED \<longrightarrow> draft_installed st (rev_definition r))
     \<and> (rev_status r' = Skill_HUMAN_APPROVED \<longrightarrow> (\<exists>a. rev_approvedBy r' = Some a \<and> js_trim a \<noteq> []))
     \<and> (rev_status r' \<noteq> Skill_HUMAN_APPROVED \<longrightarrow> rev_approvedBy r' = rev_approvedBy r)
     \<and> (rev_status r' = Skill_ACTIVE \<longrightarrow> (\<forall>q \<in> set (map snd (st_revisions st)). rev_status q = Skill_ACTIVE \<longrightarrow>
          sk_name (rev_definition q) \<noteq> sk_name (rev_definition r)))"

lemma lawful_moves:
  "rev_status r' = Skill_VALIDATED \<Longrightarrow> rev_approvedBy r' = rev_approvedBy r \<Longrightarrow>
     draft_installed st (rev_definition r) \<Longrightarrow> lawful_move st r r'"
  "rev_status r' = Skill_HUMAN_APPROVED \<Longrightarrow> rev_approvedBy r' = Some a \<Longrightarrow> js_trim a \<noteq> [] \<Longrightarrow> lawful_move st r r'"
  "rev_status r' = Skill_ACTIVE \<Longrightarrow> rev_approvedBy r' = rev_approvedBy r \<Longrightarrow>
     \<forall>q \<in> set (map snd (st_revisions st)). rev_status q = Skill_ACTIVE \<longrightarrow>
       sk_name (rev_definition q) \<noteq> sk_name (rev_definition r) \<Longrightarrow> lawful_move st r r'"
  "rev_status r' = Skill_RETIRED \<Longrightarrow> rev_approvedBy r' = rev_approvedBy r \<Longrightarrow> lawful_move st r r'"
  by (simp_all add: lawful_move_def)

lemma lifecycle_moves:
  "validate_draft revisionId st = (x, st') \<Longrightarrow> st' = st \<or> (\<exists>r r'. moves revisionId st r r' st' \<and> lawful_move st r r')"
  "approve_draft revisionId actor st = (x, st') \<Longrightarrow> st' = st \<or> (\<exists>r r'. moves revisionId st r r' st' \<and> lawful_move st r r')"
  "activate_revision revisionId st = (x, st') \<Longrightarrow> st' = st \<or> (\<exists>r r'. moves revisionId st r r' st' \<and> lawful_move st r r')"
  "retire_revision revisionId st = (x, st') \<Longrightarrow> st' = st \<or> (\<exists>r r'. moves revisionId st r r' st' \<and> lawful_move st r r')"
  subgoal by (drule lifecycle_cases(1)) (blast intro: lawful_moves(1))
  subgoal by (drule lifecycle_cases(2)) (metis js_trim_idem lawful_moves(2))
  subgoal by (drule lifecycle_cases(3)) (blast intro: lawful_moves(3))
  subgoal by (drule lifecycle_cases(4)) (blast intro: lawful_moves(4))
  done

text \<open>A step leaves the revisions alone, adds a draft, or moves one revision.\<close>

lemma skill_step_shape:
  assumes "skill_step digest st st'"
  shows "st_revisions st' = st_revisions st \<and> keeps_installed st st'
    \<or> (\<exists>draft. draft_wellformed draft \<and> map_of (st_revisions st) (sk_revisionId draft) = None
        \<and> st_resources st' = st_resources st \<and> st_invalidations st' = st_invalidations st
        \<and> st_revisions st' = AList.update (sk_revisionId draft)
            \<lparr>rev_definition = draft, rev_status = Skill_DRAFT, rev_definitionHash = digest draft, rev_approvedBy = None\<rparr>
            (st_revisions st))
    \<or> (\<exists>revisionId r r'. moves revisionId st r r' st' \<and> lawful_move st r r')"
  using assms
proof (cases rule: skill_step.cases)
  case (Draft draft y)
  from create_draft_cases [OF Draft] show ?thesis by (auto simp: keeps_installed_same)
next
  case (Validate revisionId y)
  from lifecycle_moves(1) [OF Validate] show ?thesis using keeps_installed_same by blast
next
  case (Approve revisionId actor y)
  from lifecycle_moves(2) [OF Approve] show ?thesis using keeps_installed_same by blast
next
  case (Activate revisionId y)
  from lifecycle_moves(3) [OF Activate] show ?thesis using keeps_installed_same by blast
next
  case (Retire revisionId y)
  from lifecycle_moves(4) [OF Retire] show ?thesis using keeps_installed_same by blast
qed (auto simp: register_candidate_keeps install_resource_keeps as_harness_provider_def keeps_installed_same)

section \<open>Reachable states\<close>

lemma skills_ok_get:
  "skills_ok digest st \<Longrightarrow> map_of (st_revisions st) k = Some r \<Longrightarrow> k = rev_id r \<and> revision_ok digest st r"
  unfolding skills_ok_def by blast

lemma skill_step_ok:
  assumes "skill_step digest st st'" "skills_ok digest st"
  shows "skills_ok digest st'"
  using skill_step_shape [OF assms(1)]
proof (elim disjE exE conjE)
  assume "st_revisions st' = st_revisions st" "keeps_installed st st'"
  then show ?thesis using skills_ok_resources [OF assms(2)] by blast
next
  fix draft
  let ?r = "\<lparr>rev_definition = draft, rev_status = Skill_DRAFT, rev_definitionHash = digest draft, rev_approvedBy = None\<rparr>"
  assume d: "draft_wellformed draft" "st_resources st' = st_resources st"
    "st_revisions st' = AList.update (sk_revisionId draft) ?r (st_revisions st)"
  have "revision_ok digest st ?r"
    using d(1) by (simp add: revision_ok_def less_eq_lab_skill_status_def)
  then show ?thesis
    by (rule skills_ok_store [OF assms(2)]) (use d in simp_all)
next
  fix revisionId r r' assume mv: "moves revisionId st r r' st'" and lawful: "lawful_move st r r'"
  from mv have m: "map_of (st_revisions st) revisionId = Some r" "rev_definition r' = rev_definition r"
    "rev_definitionHash r' = rev_definitionHash r" "skill_stage (rev_status r') = Suc (skill_stage (rev_status r))"
    "st_revisions st' = AList.update (rev_id r) r' (st_revisions st)" "st_resources st' = st_resources st"
    by (simp_all add: moves_def)
  from skills_ok_get [OF assms(2) m(1)] have r: "revisionId = rev_id r" "revision_ok digest st r" by simp_all
  have ok: "revision_ok digest st r'"
    using r(2) m(2-4) lawful
    by (cases "rev_status r"; cases "rev_status r'")
      (simp_all add: revision_ok_def lawful_move_def less_eq_lab_skill_status_def)
  show ?thesis
  proof (rule skills_ok_store [OF assms(2) ok])
    fix k q assume "map_of (st_revisions st) k = Some q" "rev_status r' = Skill_ACTIVE"
      "rev_status q = Skill_ACTIVE" "sk_name (rev_definition q) = sk_name (rev_definition r')"
    moreover from this(1) have "q \<in> set (map snd (st_revisions st))" by (force dest: map_of_SomeD)
    ultimately show "k = rev_id r'" using lawful m(2) unfolding lawful_move_def by metis
  qed (use m in simp_all)
qed

lemma skill_reach_ok: "skill_reach digest st \<Longrightarrow> skills_ok digest st"
proof (induction rule: skill_reach.induct)
  case (Init st)
  then show ?case by (simp add: skills_ok_def dispose_skills_def)
qed (blast intro: skill_step_ok)

section \<open>Properties\<close>

text \<open>A concrete life of one Skill, up to its activation.\<close>

definition sample_draft :: lab_skill_draft where
  "sample_draft = \<lparr>sk_skillId = ''s'', sk_revisionId = ''s-1'', sk_name = ''heat'', sk_purpose = ''heat'',
     sk_applicability = [], sk_inputs = [], sk_outputs = [], sk_parameterConstraints = [],
     sk_completionConditions = [''hot''], sk_failurePolicy = Policy_BLOCK, sk_citations = [],
     sk_operations = [\<lparr>bd_kind = Op_device, bd_resourceRef = ''heater'', bd_installed = True\<rparr>]\<rparr>"

definition sample_skills :: "nat \<Rightarrow> skill_state" where
  "sample_skills n = fold (\<lambda>f st. f st) (take n
     [\<lambda>st. snd (create_draft sk_name sample_draft st), \<lambda>st. snd (validate_draft ''s-1'' st),
      \<lambda>st. snd (approve_draft ''s-1'' ''ann'' st), \<lambda>st. snd (activate_revision ''s-1'' st)])
     (as_harness_provider (dispose_skills \<lparr>st_revisions = [], st_resources = [], st_invalidations = None\<rparr>))"

definition sample_revision :: "lab_skill_status \<Rightarrow> string option \<Rightarrow> lab_skill_revision" where
  "sample_revision status reviewer = \<lparr>rev_definition = sample_draft, rev_status = status,
     rev_definitionHash = ''heat'', rev_approvedBy = reviewer\<rparr>"

lemma sample_draft_ok: "draft_wellformed sample_draft"
proof -
  have "js_trim ''heat'' = ''heat''" "js_trim ''hot'' = ''hot''" "js_trim ''heater'' = ''heater''"
    by (simp_all add: js_trim_printable printable_def)
  then show ?thesis
    by (simp add: draft_wellformed_def sample_draft_def is_skill_name_def kebab_char_def)
qed

lemma sample_draft_installed: "draft_installed st sample_draft"
  by (simp add: draft_installed_def sample_draft_def resource_installed_def is_resource_kind_def)

lemma sample_skills_eq:
  "sample_skills 3 = \<lparr>st_revisions = [(''s-1'', sample_revision Skill_HUMAN_APPROVED (Some ''ann''))],
     st_resources = [], st_invalidations = Some 2\<rparr>"
  "sample_skills 4 = \<lparr>st_revisions = [(''s-1'', sample_revision Skill_ACTIVE (Some ''ann''))],
     st_resources = [], st_invalidations = Some 3\<rparr>"
proof -
  have ann: "js_trim ''ann'' = ''ann''" by (simp add: js_trim_printable printable_def)
  have issues: "validate_draft_issues sample_draft False ri = []"
    "validate_draft_issues sample_draft True (resource_installed st) = []" for ri st
    using sample_draft_ok sample_draft_installed [unfolded draft_installed_def resource_installed_def]
    by (auto simp: validate_draft_issues_nil resource_installed_def)
  have ids: "sk_revisionId sample_draft = ''s-1''" "sk_name sample_draft = ''heat''"
    by (simp_all add: sample_draft_def)
  show "sample_skills 3 = \<lparr>st_revisions = [(''s-1'', sample_revision Skill_HUMAN_APPROVED (Some ''ann''))],
     st_resources = [], st_invalidations = Some 2\<rparr>"
    "sample_skills 4 = \<lparr>st_revisions = [(''s-1'', sample_revision Skill_ACTIVE (Some ''ann''))],
     st_resources = [], st_invalidations = Some 3\<rparr>"
    by (simp_all add: sample_skills_def create_draft_def issues ids Let_def validate_draft_def
        require_revision_def assert_skill_transition_def replace_revision_def approve_draft_def ann
        activate_revision_def sample_revision_def as_harness_provider_def dispose_skills_def eval_nat_numeral)
qed

lemma sample_skills_reach: "skill_reach sk_name (sample_skills 3)" "skill_step sk_name (sample_skills 3) (sample_skills 4)"
proof -
  note pair = prod.collapse [symmetric]
  have "skill_step sk_name (sample_skills 0) (sample_skills 1)"
    using skill_step.Draft [where digest = sk_name and st = "sample_skills 0" and draft = sample_draft, OF pair] by (simp add: sample_skills_def)
  moreover have "skill_step sk_name (sample_skills 1) (sample_skills 2)"
    using skill_step.Validate [where digest = sk_name and st = "sample_skills 1" and revisionId = "''s-1''", OF pair] by (simp add: sample_skills_def eval_nat_numeral)
  moreover have "skill_step sk_name (sample_skills 2) (sample_skills 3)"
    using skill_step.Approve [where digest = sk_name and st = "sample_skills 2" and revisionId = "''s-1''" and actor = "''ann''", OF pair] by (simp add: sample_skills_def eval_nat_numeral)
  moreover have "skill_reach sk_name (sample_skills 0)"
    unfolding sample_skills_def by simp (rule skill_reach.Step [OF skill_reach.Init skill_step.Attach])
  ultimately show "skill_reach sk_name (sample_skills 3)" by (blast intro: skill_reach.Step)
  show "skill_step sk_name (sample_skills 3) (sample_skills 4)"
    using skill_step.Activate [where digest = sk_name and st = "sample_skills 3" and revisionId = "''s-1''", OF pair] by (simp add: sample_skills_def eval_nat_numeral)
qed

lemma sample_active: "skill_reach sk_name (sample_skills 4)"
    "resolve_revision ''s-1'' (sample_skills 4) = Some (sample_revision Skill_ACTIVE (Some ''ann''))"
    "resolve_revision ''s-1'' (sample_skills 3) = Some (sample_revision Skill_HUMAN_APPROVED (Some ''ann''))"
  by (rule skill_reach.Step [OF sample_skills_reach]) (simp_all add: resolve_revision_def sample_skills_eq)

text \<open>
  C3: In every reachable state, a revision that is \<open>ACTIVE\<close> has a well-formed definition whose
  digest is the stored hash, names a non-blank human reviewer, has all its operations flagged as
  installed and all its script and API operations backed by an installed resource, and is the only
  active revision of its name.
\<close>

theorem active_skill_is_vetted:
  assumes "skill_reach digest st" "resolve_revision revisionId st = Some r" "rev_status r = Skill_ACTIVE"
  shows "draft_wellformed (rev_definition r) \<and> rev_definitionHash r = digest (rev_definition r)
    \<and> (\<exists>reviewer. rev_approvedBy r = Some reviewer \<and> js_trim reviewer \<noteq> [])
    \<and> (\<forall>op \<in> set (sk_operations (rev_definition r)). bd_installed op
         \<and> (is_resource_kind (bd_kind op) \<longrightarrow>
              map_option or_status (resolve_resource (bd_kind op) (bd_resourceRef op) st) = Some Res_INSTALLED))
    \<and> (\<forall>k q. resolve_revision k st = Some q \<longrightarrow> rev_status q = Skill_ACTIVE \<longrightarrow>
         sk_name (rev_definition q) = sk_name (rev_definition r) \<longrightarrow> k = revisionId \<and> q = r)"
proof -
  note ok = skill_reach_ok [OF assms(1)]
  from assms(2) have m: "map_of (st_revisions st) revisionId = Some r" by (simp add: resolve_revision_def)
  from skills_ok_get [OF ok m] have r: "revision_ok digest st r" by simp
  have "k = revisionId \<and> q = r" if "resolve_revision k st = Some q" "rev_status q = Skill_ACTIVE"
    "sk_name (rev_definition q) = sk_name (rev_definition r)" for k q
  proof -
    from that(1) have "map_of (st_revisions st) k = Some q" by (simp add: resolve_revision_def)
    with ok m assms(3) that(2,3) have "k = revisionId" unfolding skills_ok_def by blast
    with \<open>map_of (st_revisions st) k = Some q\<close> m show ?thesis by simp
  qed
  with r assms(3) show ?thesis
    by (auto simp: revision_ok_def less_eq_lab_skill_status_def draft_installed_def resource_installed_def)
qed

theorem active_skill_is_vetted_witness:
  "draft_wellformed sample_draft \<and> bd_installed (hd (sk_operations sample_draft))
    \<and> (\<exists>reviewer. Some ''ann'' = Some reviewer \<and> js_trim reviewer \<noteq> [])"
  using active_skill_is_vetted [OF sample_active(1,2)]
  by (simp add: sample_revision_def) (simp add: sample_draft_def)

text \<open>
  Every operation of the provider keeps a stored revision's definition and definition hash and
  either leaves its status alone or moves it exactly one lifecycle stage forward.
\<close>

theorem skill_step_lifecycle:
  assumes "skill_reach digest st" "skill_step digest st st'" "resolve_revision revisionId st = Some r"
  shows "\<exists>r'. resolve_revision revisionId st' = Some r' \<and> rev_definition r' = rev_definition r
    \<and> rev_definitionHash r' = rev_definitionHash r
    \<and> (r' = r \<or> rev_status r' \<in> set (next_skill_status (rev_status r)))"
proof -
  note ok = skill_reach_ok [OF assms(1)]
  from assms(3) have m: "map_of (st_revisions st) revisionId = Some r" by (simp add: resolve_revision_def)
  show ?thesis
    using skill_step_shape [OF assms(2)]
  proof (elim disjE exE conjE)
    fix k q q' assume mv: "moves k st q q' st'"
    then have k: "map_of (st_revisions st) k = Some q" by (simp add: moves_def)
    from skills_ok_get [OF ok k] have "k = rev_id q" by simp
    with mv m k show ?thesis
      by (cases "revisionId = rev_id q") (auto simp: moves_def resolve_revision_def next_skill_status_stage)
  qed (use m in \<open>auto simp: resolve_revision_def\<close>)
qed

theorem skill_step_lifecycle_witness:
  "\<exists>r'. resolve_revision ''s-1'' (sample_skills 4) = Some r'
    \<and> rev_definition r' = sample_draft \<and> rev_definitionHash r' = ''heat''
    \<and> (r' = sample_revision Skill_HUMAN_APPROVED (Some ''ann'')
       \<or> rev_status r' \<in> set (next_skill_status Skill_HUMAN_APPROVED))"
  using skill_step_lifecycle [OF sample_skills_reach sample_active(3)] by (simp add: sample_revision_def)

text \<open>
  C31: A run snapshot is produced exactly when every requested revision exists and is \<open>ACTIVE\<close>; it
  then lists, in the requested order, the skill, revision and definition hash of each of them.
\<close>

theorem snapshot_for_run_exact:
  "snapshot_for_run ids st = Inr snapshots \<longleftrightarrow>
     (\<exists>rs. map (\<lambda>k. resolve_revision k st) ids = map Some rs
        \<and> (\<forall>r \<in> set rs. rev_status r = Skill_ACTIVE)
        \<and> snapshots = map (\<lambda>r. \<lparr>sn_skillId = sk_skillId (rev_definition r), sn_revisionId = rev_id r,
             sn_status = ''ACTIVE'', sn_definitionHash = rev_definitionHash r\<rparr>) rs)"
proof (induction ids arbitrary: snapshots)
  case (Cons k ids)
  show ?case
  proof (cases "resolve_revision k st")
    case None
    then show ?thesis by (auto simp: res_simps require_revision_def resolve_revision_def Cons_eq_map_conv)
  next
    case (Some r)
    then have "require_revision k st = Inr r" by (simp add: require_revision_def resolve_revision_def)
    with Some Cons.IH show ?thesis
      by (auto simp: res_simps Cons_eq_map_conv)
  qed
qed auto

theorem snapshot_for_run_exact_witness:
  "snapshot_for_run [''s-1''] (sample_skills 4) = Inr [\<lparr>sn_skillId = sk_skillId sample_draft,
     sn_revisionId = ''s-1'', sn_status = ''ACTIVE'', sn_definitionHash = ''heat''\<rparr>]"
  unfolding snapshot_for_run_exact
  by (rule exI [where x = "[sample_revision Skill_ACTIVE (Some ''ann'')]"])
    (simp add: sample_active(2) sample_revision_def, simp add: sample_draft_def)

text \<open>
  The catalogue the Harness registry caches never goes stale: a step that changes the list of
  active Skills offered to the registry has told the registry to invalidate its cache.
\<close>

theorem catalogue_invalidated:
  assumes "skill_reach digest st" "skill_step digest st st'" "st_invalidations st = Some n"
    "harness_list provider rank st' \<noteq> harness_list provider rank st"
  shows "st_invalidations st' = Some (Suc n)"
  using skill_step_shape [OF assms(2)]
proof (elim disjE exE conjE)
  fix draft assume d: "map_of (st_revisions st) (sk_revisionId draft) = None"
    "st_revisions st' = AList.update (sk_revisionId draft) \<lparr>rev_definition = draft, rev_status = Skill_DRAFT,
       rev_definitionHash = digest draft, rev_approvedBy = None\<rparr> (st_revisions st)"
  then have "harness_list provider rank st' = harness_list provider rank st"
    by (simp add: harness_list_def js_set_new)
  with assms(4) show ?thesis by simp
next
  fix k r r' assume "moves k st r r' st'"
  with assms(3) show ?thesis by (simp add: moves_def)
qed (use assms(4) in \<open>simp add: harness_list_def\<close>)

theorem catalogue_invalidated_witness: "st_invalidations (sample_skills 4) = Some (Suc 2)"
proof (rule catalogue_invalidated [OF sample_skills_reach, where provider = "''lab''" and rank = "Finite 300"])
  show "st_invalidations (sample_skills 3) = Some 2" by (simp add: sample_skills_eq)
  show "harness_list ''lab'' (Finite 300) (sample_skills 4) \<noteq> harness_list ''lab'' (Finite 300) (sample_skills 3)"
    by (simp add: sample_skills_eq harness_list_def sample_revision_def)
qed

end
