(* ===== verification/LabPlanning.thy ===== *)
theory LabPlanning
  imports LabValidation LabSkillProperties
begin

text \<open>
  The local planner \<open>LocalLabPlanningProvider\<close> of
  \<open>packages/experimental/lab-planning-local/src/index.ts\<close> with the types of
  \<open>lab-planning/src/types.ts\<close>. Its state is the two maps of proposals and requests and the state of
  the Skill provider it creates drafts in. The knowledge service and the device list it reads are the
  parameters \<open>planning_services\<close>.
\<close>

section \<open>Types\<close>

record experiment_sample =
  sm_name :: string
  sm_attributes :: "(string \<times> string) list"

record experiment_constraint =
  co_name :: string
  co_value :: string
  co_citations :: "string list"

record planning_request =
  rq_experimentId :: string
  rq_objective :: string
  rq_samples :: "experiment_sample list"
  rq_constraints :: "experiment_constraint list"
  rq_expectedOutputs :: "string list"
  rq_unresolved :: "string list"

record knowledge_citation =
  kc_citationId :: string
  kc_documentId :: string
  kc_versionId :: string
  kc_location :: string
  kc_excerpt :: string
  kc_confirmed :: bool
  kc_conflicted :: bool
  kc_score :: js_number

record knowledge_conflict =
  kf_conflictId :: string
  kf_experimentId :: "string option"
  kf_citationIds :: "string list"
  kf_summary :: string
  kf_open :: bool

record knowledge_scope =
  sc_documentIds :: "string list"
  sc_versionIds :: "string list"

record search_request =
  se_query :: string
  se_experimentId :: string
  se_limit :: nat
  se_scope :: "knowledge_scope option"

record planning_context =
  pc_experimentId :: string
  pc_objective :: string
  pc_queries :: "string list"
  pc_citations :: "knowledge_citation list"
  pc_conflicts :: "knowledge_conflict list"
  pc_devices :: "device_view list"
  pc_assumptions :: "string list"
  pc_unresolved :: "string list"

record plan_proposal_input =
  pi_request :: planning_request
  pi_plan :: experiment_plan
  pi_skillDrafts :: "lab_skill_draft list"
  pi_knowledgeScope :: "knowledge_scope option"

record plan_proposal =
  pp_context :: planning_context
  pp_plan :: experiment_plan
  pp_skillRevisions :: "lab_skill_revision list"
  pp_validation :: plan_validation_result

record planning_services =
  sv_search :: "search_request \<Rightarrow> string + knowledge_citation list"
  sv_conflicts :: "string \<Rightarrow> string + knowledge_conflict list"
  sv_devices :: "string + device_view list"
  sv_digest :: "lab_skill_draft \<Rightarrow> string"
  sv_contextLimit :: nat

record planning_state =
  pn_proposals :: "(string \<times> plan_proposal) list"
  pn_requests :: "(string \<times> planning_request) list"
  pn_skills :: skill_state

section \<open>Context\<close>

definition js_unique :: "string list \<Rightarrow> string list" where
  "js_unique vs = dedup (filter (\<lambda>v. v \<noteq> []) (map js_trim vs))"

definition search_request_for :: "planning_services \<Rightarrow> planning_request \<Rightarrow> knowledge_scope option \<Rightarrow> string \<Rightarrow> search_request" where
  "search_request_for sv request scope query =
     \<lparr>se_query = query, se_experimentId = rq_experimentId request, se_limit = sv_contextLimit sv,
      se_scope = scope\<rparr>"

fun collect_citations ::
  "(string \<Rightarrow> string + knowledge_citation list) \<Rightarrow> (string \<times> knowledge_citation) list \<Rightarrow> string list
   \<Rightarrow> string + (string \<times> knowledge_citation) list"
where
  "collect_citations search citations [] = Inr citations"
| "collect_citations search citations (query # queries) =
     and_then (search query) (\<lambda>found.
       collect_citations search (foldl (\<lambda>m c. js_set (kc_citationId c) c m) citations found) queries)"

definition build_context ::
  "planning_services \<Rightarrow> planning_request \<Rightarrow> knowledge_scope option \<Rightarrow> string + planning_context" where
  "build_context sv request scope =
     (let queries = js_unique (rq_objective request # map co_value (rq_constraints request)) in
      and_then (collect_citations (\<lambda>q. sv_search sv (search_request_for sv request scope q)) [] queries) (\<lambda>citations.
      and_then (sv_conflicts sv (rq_experimentId request)) (\<lambda>conflicts.
      and_then (sv_devices sv) (\<lambda>devices.
        let unresolved = rq_unresolved request
              @ (if citations = [] then [''no knowledge citation matched the planning request''] else [])
              @ map (\<lambda>c. ''knowledge conflict '' @ kf_conflictId c @ '': '' @ kf_summary c) (filter kf_open conflicts)
        in Inr \<lparr>pc_experimentId = rq_experimentId request, pc_objective = rq_objective request,
                pc_queries = queries, pc_citations = js_values citations, pc_conflicts = conflicts,
                pc_devices = devices, pc_assumptions = [], pc_unresolved = js_unique unresolved\<rparr>))))"

definition validation_context ::
  "planning_request \<Rightarrow> planning_context \<Rightarrow> lab_skill_revision list \<Rightarrow> plan_validation_context" where
  "validation_context request context revisions =
     \<lparr>cx_availableInputs = map sm_name (rq_samples request),
      cx_availableCitations = map kc_citationId (pc_citations context),
      cx_requiredCitations = Some (concat (map co_citations (rq_constraints request))),
      cx_skillStatuses = js_map (map (\<lambda>r. (rev_id r, rev_status r)) revisions),
      cx_skillParameterConstraints =
        js_map (map (\<lambda>r. (rev_id r, sk_parameterConstraints (rev_definition r))) revisions),
      cx_installedOperations = concat (map (\<lambda>r.
        map (\<lambda>op. operation_kind_name (bd_kind op) @ '':'' @ bd_resourceRef op)
          (filter bd_installed (sk_operations (rev_definition r)))) revisions),
      cx_deviceCapabilities =
        js_map (map (\<lambda>d. (dv_id d, map dc_name (dv_capabilities d))) (pc_devices context))\<rparr>"

section \<open>Proposals\<close>

definition require_proposal :: "string \<Rightarrow> planning_state \<Rightarrow> string + plan_proposal" where
  "require_proposal planId st =
     of_option (''plan '' @ planId @ '' does not exist'') (js_get (pn_proposals st) planId)"

text \<open>JavaScript \<open>===\<close> and \<open>+ 1\<close> on numbers.\<close>

definition js_same_number :: "js_number \<Rightarrow> js_number \<Rightarrow> bool" where
  "js_same_number x y \<longleftrightarrow> x = y \<and> x \<noteq> NaN"

definition js_succ :: "js_number \<Rightarrow> js_number" where
  "js_succ x = (case x of Finite r \<Rightarrow> Finite (r + 1) | other \<Rightarrow> other)"

definition check_replacement :: "experiment_plan \<Rightarrow> planning_state \<Rightarrow> string + unit" where
  "check_replacement plan st =
     (case pl_supersedesPlanId plan of
        None \<Rightarrow> Inr ()
      | Some previousId \<Rightarrow>
          and_then (require_proposal previousId st) (\<lambda>previous.
            if pl_experimentId (pp_plan previous) \<noteq> pl_experimentId plan
              then Inl ''replacement plan must stay within the same experiment''
            else if pl_status (pp_plan previous) \<noteq> Plan_REJECTED
              then Inl ''replacement plan must supersede a REJECTED plan''
            else if \<not> js_same_number (pl_revision plan) (js_succ (pl_revision (pp_plan previous)))
              then Inl ''replacement plan revision must increment the rejected plan revision''
            else Inr ()))"

fun create_drafts ::
  "(lab_skill_draft \<Rightarrow> string) \<Rightarrow> lab_skill_draft list \<Rightarrow> (skill_state, lab_skill_revision list) io" where
  "create_drafts digest [] st = (Inr [], st)"
| "create_drafts digest (d # ds) st =
     (case create_draft digest d st of
        (Inl e, st') \<Rightarrow> (Inl e, st')
      | (Inr r, st') \<Rightarrow>
         (case create_drafts digest ds st' of
            (Inl e, st'') \<Rightarrow> (Inl e, st'')
          | (Inr rs, st'') \<Rightarrow> (Inr (r # rs), st'')))"

definition proposed_plan :: "experiment_plan \<Rightarrow> planning_context \<Rightarrow> experiment_plan" where
  "proposed_plan plan context =
     (let ids = map kc_citationId (pc_citations context) in
      plan\<lparr>pl_unresolved := js_unique (pc_unresolved context @ pl_unresolved plan
             @ map (\<lambda>c. ''plan citation '' @ c @ '' was not returned by the current retrieval context'')
                 (filter (\<lambda>c. c \<notin> set ids) (pl_citations plan))),
           pl_status := Plan_DRAFT\<rparr>)"

definition validated_plan :: "experiment_plan \<Rightarrow> plan_validation_result \<Rightarrow> experiment_plan" where
  "validated_plan plan validation = (if pv_valid validation then plan\<lparr>pl_status := Plan_VALIDATED\<rparr> else plan)"

definition propose :: "planning_services \<Rightarrow> plan_proposal_input \<Rightarrow> (planning_state, plan_proposal) io" where
  "propose sv inp st =
     (if pl_experimentId (pi_plan inp) \<noteq> rq_experimentId (pi_request inp)
        then (Inl ''plan experimentId does not match request'', st)
      else if pl_status (pi_plan inp) \<noteq> Plan_DRAFT then (Inl ''only a DRAFT plan can be proposed'', st)
      else if js_has (pn_proposals st) (pl_planId (pi_plan inp))
        then (Inl (''plan '' @ pl_planId (pi_plan inp) @ '' already exists''), st)
      else case and_then (check_replacement (pi_plan inp) st)
                  (\<lambda>_. build_context sv (pi_request inp) (pi_knowledgeScope inp)) of
        Inl e \<Rightarrow> (Inl e, st)
      | Inr context \<Rightarrow>
         (let plan = proposed_plan (pi_plan inp) context in
          case create_drafts (sv_digest sv) (pi_skillDrafts inp) (pn_skills st) of
            (Inl e, skills) \<Rightarrow> (Inl e, st\<lparr>pn_skills := skills\<rparr>)
          | (Inr revisions, skills) \<Rightarrow>
             (let validation = validate_experiment_plan plan (validation_context (pi_request inp) context revisions);
                  result = \<lparr>pp_context = context, pp_plan = validated_plan plan validation,
                            pp_skillRevisions = revisions, pp_validation = validation\<rparr>;
                  planId = pl_planId (pp_plan result)
              in (Inr result, st\<lparr>pn_proposals := js_set planId result (pn_proposals st),
                                 pn_requests := js_set planId (pi_request inp) (pn_requests st),
                                 pn_skills := skills\<rparr>))))"

definition get_proposal :: "string \<Rightarrow> planning_state \<Rightarrow> plan_proposal option" where
  "get_proposal planId st = js_get (pn_proposals st) planId"

definition list_proposals :: "string option \<Rightarrow> planning_state \<Rightarrow> plan_proposal list" where
  "list_proposals experimentId st =
     filter (\<lambda>p. experimentId = None \<or> Some (pl_experimentId (pp_plan p)) = experimentId)
       (js_values (pn_proposals st))"

section \<open>Review\<close>

definition current_revisions :: "skill_state \<Rightarrow> lab_skill_revision list \<Rightarrow> lab_skill_revision list" where
  "current_revisions skills revisions =
     map (\<lambda>r. case resolve_revision (rev_id r) skills of None \<Rightarrow> r | Some q \<Rightarrow> q) revisions"

definition revalidated :: "plan_proposal \<Rightarrow> planning_request \<Rightarrow> skill_state \<Rightarrow> plan_proposal" where
  "revalidated proposal request skills =
     (let revisions = current_revisions skills (pp_skillRevisions proposal);
          plan = (pp_plan proposal)\<lparr>pl_status := Plan_DRAFT\<rparr>;
          validation = validate_experiment_plan plan (validation_context request (pp_context proposal) revisions)
      in proposal\<lparr>pp_plan := validated_plan plan validation, pp_skillRevisions := revisions,
                  pp_validation := validation\<rparr>)"

definition validate_plan :: "string \<Rightarrow> (planning_state, plan_proposal) io" where
  "validate_plan planId st =
     (case require_proposal planId st of
        Inl e \<Rightarrow> (Inl e, st)
      | Inr proposal \<Rightarrow>
         (case js_get (pn_requests st) planId of
            None \<Rightarrow> (Inl (''request for plan '' @ planId @ '' does not exist''), st)
          | Some request \<Rightarrow>
              if pl_status (pp_plan proposal) = Plan_HUMAN_APPROVED \<or> pl_status (pp_plan proposal) = Plan_LOCKED
              then (Inl ''approved or locked plan cannot be revalidated'', st)
              else (let updated = revalidated proposal request (pn_skills st)
                    in (Inr updated, st\<lparr>pn_proposals := js_set planId updated (pn_proposals st)\<rparr>))))"

fun inactive_revision :: "skill_state \<Rightarrow> lab_skill_revision list \<Rightarrow> string option" where
  "inactive_revision skills [] = None"
| "inactive_revision skills (r # rs) =
     (if map_option rev_status (resolve_revision (rev_id r) skills) \<noteq> Some Skill_ACTIVE
      then Some (rev_id r) else inactive_revision skills rs)"

definition approve_proposal :: "string \<Rightarrow> string \<Rightarrow> (planning_state, plan_proposal) io" where
  "approve_proposal planId approvedBy st =
     (case validate_plan planId st of
        (Inl e, st') \<Rightarrow> (Inl e, st')
      | (Inr proposal, st') \<Rightarrow>
          if js_trim approvedBy = [] then (Inl ''approvedBy must not be empty'', st')
          else if \<not> pv_valid (pp_validation proposal) \<or> pl_status (pp_plan proposal) \<noteq> Plan_VALIDATED
            then (Inl ''only a validated plan can be approved'', st')
          else case inactive_revision (pn_skills st') (pp_skillRevisions proposal) of
            Some revisionId \<Rightarrow> (Inl (''Skill revision '' @ revisionId @ '' must be ACTIVE before plan approval''), st')
          | None \<Rightarrow>
              (let updated = proposal\<lparr>pp_plan := (pp_plan proposal)\<lparr>pl_status := Plan_HUMAN_APPROVED\<rparr>\<rparr>
               in (Inr updated, st'\<lparr>pn_proposals := js_set planId updated (pn_proposals st')\<rparr>)))"

definition reject_plan :: "string \<Rightarrow> string \<Rightarrow> (planning_state, plan_proposal) io" where
  "reject_plan planId reason st =
     (case require_proposal planId st of
        Inl e \<Rightarrow> (Inl e, st)
      | Inr proposal \<Rightarrow>
          if js_trim reason = [] then (Inl ''rejection reason must not be empty'', st)
          else if pl_status (pp_plan proposal) = Plan_HUMAN_APPROVED \<or> pl_status (pp_plan proposal) = Plan_LOCKED
            then (Inl ''approved or locked plan cannot be rejected'', st)
          else (let plan = pp_plan proposal;
                    updated = proposal\<lparr>pp_plan := plan\<lparr>pl_status := Plan_REJECTED,
                      pl_unresolved := js_unique (pl_unresolved plan
                        @ [''human review rejected plan: '' @ js_trim reason])\<rparr>\<rparr>
                in (Inr updated, st\<lparr>pn_proposals := js_set planId updated (pn_proposals st)\<rparr>)))"

section \<open>What happens to a plan\<close>

lemma js_unique_nonempty: "x \<in> set vs \<Longrightarrow> js_trim x \<noteq> [] \<Longrightarrow> js_unique vs \<noteq> []"
proof -
  assume "x \<in> set vs" "js_trim x \<noteq> []"
  then have "js_trim x \<in> set (js_unique vs)" by (simp add: js_unique_def)
  then show ?thesis by auto
qed

lemma js_unique_idem: "js_unique (js_unique vs) = js_unique vs"
proof -
  have "map js_trim (js_unique vs) = js_unique vs"
    by (rule map_idI) (auto simp: js_unique_def)
  moreover have "filter (\<lambda>v. v \<noteq> []) (js_unique vs) = js_unique vs"
    by (simp add: filter_id_conv) (simp add: js_unique_def)
  ultimately show ?thesis
    unfolding js_unique_def [of "js_unique vs"] by (simp add: js_unique_def)
qed

text \<open>A proposal with something unresolved is never validated again and never approved.\<close>

lemma unresolved_never_valid:
  "pl_unresolved plan \<noteq> [] \<Longrightarrow> \<not> pv_valid (validate_experiment_plan plan context)"
  by (simp add: validate_experiment_plan_exact plan_acceptable_def)

lemma revalidated_unresolved:
  "pl_unresolved (pp_plan proposal) \<noteq> [] \<Longrightarrow>
     pl_unresolved (pp_plan (revalidated proposal request skills)) = pl_unresolved (pp_plan proposal)
     \<and> pl_status (pp_plan (revalidated proposal request skills)) = Plan_DRAFT"
  by (simp add: revalidated_def Let_def validated_plan_def unresolved_never_valid)

definition stuck :: "string \<Rightarrow> planning_state \<Rightarrow> bool" where
  "stuck planId st \<longleftrightarrow>
     (\<exists>p. js_get (pn_proposals st) planId = Some p \<and> pl_unresolved (pp_plan p) \<noteq> []
        \<and> pl_status (pp_plan p) \<noteq> Plan_HUMAN_APPROVED)"

inductive planning_step :: "planning_services \<Rightarrow> planning_state \<Rightarrow> planning_state \<Rightarrow> bool" for sv where
  Propose: "propose sv inp st = (r, st') \<Longrightarrow> planning_step sv st st'"
| Revalidate: "validate_plan planId st = (r, st') \<Longrightarrow> planning_step sv st st'"
| Approve: "approve_proposal planId approvedBy st = (r, st') \<Longrightarrow> planning_step sv st st'"
| Reject: "reject_plan planId reason st = (r, st') \<Longrightarrow> planning_step sv st st'"
| Skills: "skill_step (sv_digest sv) (pn_skills st) skills \<Longrightarrow> planning_step sv st (st\<lparr>pn_skills := skills\<rparr>)"

inductive_cases planning_stepE: "planning_step sv st st'"

lemma validate_plan_stuck: "stuck planId st \<Longrightarrow> validate_plan k st = (r, st') \<Longrightarrow> stuck planId st'"
  using revalidated_unresolved
  by (fastforce simp: stuck_def validate_plan_def require_proposal_def of_option_def Let_def
      split: option.splits if_splits)

lemma approve_proposal_cases:
  assumes "approve_proposal planId approvedBy st = (r, st')"
  obtains v where "validate_plan planId st = (v, st')" "\<And>x. r \<noteq> Inr x"
  | p st1 where "validate_plan planId st = (Inr p, st1)" "pv_valid (pp_validation p)"
    "pl_status (pp_plan p) = Plan_VALIDATED" "js_trim approvedBy \<noteq> []"
    "inactive_revision (pn_skills st1) (pp_skillRevisions p) = None"
    "r = Inr (p\<lparr>pp_plan := (pp_plan p)\<lparr>pl_status := Plan_HUMAN_APPROVED\<rparr>\<rparr>)"
    "st' = st1\<lparr>pn_proposals := js_set planId (p\<lparr>pp_plan := (pp_plan p)\<lparr>pl_status := Plan_HUMAN_APPROVED\<rparr>\<rparr>)
       (pn_proposals st1)\<rparr>"
proof (cases "\<exists>x. r = Inr x")
  case True
  with assms that(2) show ?thesis
    unfolding approve_proposal_def Let_def
    by (auto split: prod.splits sum.splits if_splits option.splits)
next
  case False
  with assms have "\<exists>v. validate_plan planId st = (v, st')"
    unfolding approve_proposal_def Let_def
    by (auto split: prod.splits sum.splits if_splits option.splits)
  with that(1) False show ?thesis by blast
qed

lemma validate_plan_returns:
  assumes "validate_plan planId st = (Inr p, st')"
  obtains p0 request where "js_get (pn_proposals st) planId = Some p0" "js_get (pn_requests st) planId = Some request"
    "pl_status (pp_plan p0) \<noteq> Plan_HUMAN_APPROVED" "pl_status (pp_plan p0) \<noteq> Plan_LOCKED"
    "p = revalidated p0 request (pn_skills st)"
    "st' = st\<lparr>pn_proposals := js_set planId p (pn_proposals st)\<rparr>"
  using assms by (auto simp: validate_plan_def require_proposal_def of_option_def Let_def
      split: option.splits if_splits)

lemma stuck_not_approved:
  assumes "stuck planId st" "approve_proposal planId approvedBy st = (r, st')"
  shows "\<exists>e. r = Inl e"
  using assms(2)
proof (cases rule: approve_proposal_cases)
  case (1 v)
  then show ?thesis by (cases r) auto
next
  case (2 p st1)
  from assms(1) obtain q where q: "js_get (pn_proposals st) planId = Some q" "pl_unresolved (pp_plan q) \<noteq> []"
    by (auto simp: stuck_def)
  from 2(1) obtain p0 request where "js_get (pn_proposals st) planId = Some p0" "p = revalidated p0 request (pn_skills st)"
    by (rule validate_plan_returns)
  with q revalidated_unresolved [of q request "pn_skills st"] 2(3) show ?thesis by simp
qed

lemma planning_step_stuck:
  assumes "planning_step sv st st'" "stuck planId st"
  shows "stuck planId st'"
  using assms(1)
proof (cases rule: planning_step.cases)
  case (Propose inp r)
  from assms(2) obtain q where q: "js_get (pn_proposals st) planId = Some q" "pl_unresolved (pp_plan q) \<noteq> []"
    "pl_status (pp_plan q) \<noteq> Plan_HUMAN_APPROVED" by (auto simp: stuck_def)
  have "js_get (pn_proposals st') planId = Some q"
  proof (cases "pl_planId (pi_plan inp) = planId")
    case True
    with Propose q(1) show ?thesis by (auto simp: propose_def split: if_splits)
  next
    case False
    moreover have "pl_planId (validated_plan (proposed_plan plan cx) v) = pl_planId plan" for plan cx v
      by (simp add: validated_plan_def proposed_plan_def Let_def)
    ultimately show ?thesis using Propose q(1)
      by (auto simp: propose_def Let_def split: if_splits sum.splits prod.splits)
  qed
  with q show ?thesis by (auto simp: stuck_def)
next
  case (Revalidate k r)
  from validate_plan_stuck [OF assms(2) this] show ?thesis .
next
  case (Approve k approvedBy r)
  from this show ?thesis
  proof (cases rule: approve_proposal_cases)
    case (1 v)
    from validate_plan_stuck [OF assms(2) 1(1)] show ?thesis .
  next
    case (2 p st1)
    have "k \<noteq> planId" using stuck_not_approved [OF assms(2), of approvedBy r st'] Approve 2(6) by auto
    with validate_plan_stuck [OF assms(2) 2(1)] 2(7) show ?thesis by (auto simp: stuck_def)
  qed
next
  case (Reject k reason r)
  have msg: "js_unique (vs @ [''human review rejected plan: '' @ x]) \<noteq> []" for vs x
    by (rule js_unique_nonempty [of "''human review rejected plan: '' @ x"])
      (simp_all add: js_trim_nonempty printable_def)
  from Reject assms(2) msg show ?thesis
    by (auto simp: reject_plan_def stuck_def Let_def split: sum.splits if_splits)
next
  case (Skills skills)
  with assms(2) show ?thesis by (simp add: stuck_def)
qed

section \<open>Properties\<close>

lemma create_draft_status: "create_draft digest d st = (Inr r, st') \<Longrightarrow> rev_status r = Skill_DRAFT"
  by (auto simp: create_draft_def Let_def split: if_splits)

lemma create_drafts_status:
  "create_drafts digest ds st = (Inr rs, st') \<Longrightarrow> \<forall>r \<in> set rs. rev_status r = Skill_DRAFT"
proof (induction ds arbitrary: st rs)
  case (Cons d ds)
  obtain x st1 where d: "create_draft digest d st = (x, st1)" by fastforce
  obtain y st2 where ds: "create_drafts digest ds st1 = (y, st2)" by fastforce
  from Cons.prems d ds obtain r rs' where "x = Inr r" "y = Inr rs'" "rs = r # rs'" "st2 = st'"
    by (cases x; cases y) simp_all
  with d ds create_draft_status [of digest d st r st1] Cons.IH [of st1 rs'] show ?case by simp
qed simp

lemma plan_needs_active_skill:
  assumes "plan_acceptable plan (validation_context request cx revisions)"
  shows "\<exists>r \<in> set revisions. rev_status r = Skill_ACTIVE"
proof -
  obtain step where "step \<in> set (pl_steps plan)" using assms by (cases "pl_steps plan") (auto simp: plan_acceptable_def)
  with assms have "map_of (js_map (map (\<lambda>r. (rev_id r, rev_status r)) revisions)) (ps_skillRevisionId step) = Some Skill_ACTIVE"
    by (auto simp: plan_acceptable_def step_acceptable_def validation_context_def)
  from js_map_in [OF this] show ?thesis by force
qed

text \<open>
  C30: A proposal never comes out of \<open>propose\<close> as validated: its Skills have just been created as
  drafts, so the deterministic validation fails and the stored plan stays a \<open>DRAFT\<close> until its Skills
  have been activated and it is validated again.
\<close>

theorem proposed_plan_awaits_review:
  assumes "propose sv inp st = (Inr p, st')"
  shows "pl_status (pp_plan p) = Plan_DRAFT \<and> \<not> pv_valid (pp_validation p)
    \<and> get_proposal (pl_planId (pi_plan inp)) st' = Some p
    \<and> get_proposal (pl_planId (pi_plan inp)) st = None"
proof -
  from assms obtain cx revisions skills where d: "create_drafts (sv_digest sv) (pi_skillDrafts inp) (pn_skills st) = (Inr revisions, skills)"
    and p: "p = \<lparr>pp_context = cx,
        pp_plan = validated_plan (proposed_plan (pi_plan inp) cx) (validate_experiment_plan (proposed_plan (pi_plan inp) cx)
          (validation_context (pi_request inp) cx revisions)),
        pp_skillRevisions = revisions,
        pp_validation = validate_experiment_plan (proposed_plan (pi_plan inp) cx)
          (validation_context (pi_request inp) cx revisions)\<rparr>"
    and st': "pn_proposals st' = js_set (pl_planId (pp_plan p)) p (pn_proposals st)"
    and new: "js_get (pn_proposals st) (pl_planId (pi_plan inp)) = None"
    by (auto simp: propose_def Let_def split: if_splits sum.splits prod.splits)
  have "\<not> pv_valid (pp_validation p)"
    using create_drafts_status [OF d] plan_needs_active_skill
    by (fastforce simp: p validate_experiment_plan_exact)
  moreover from this have "pp_plan p = proposed_plan (pi_plan inp) cx" by (simp add: p validated_plan_def)
  ultimately show ?thesis using st' new by (simp add: get_proposal_def proposed_plan_def Let_def)
qed

text \<open>
  C2: An approval that returns has established everything it promises: an accountable approver, a
  plan that is acceptable to the deterministic validator in the context of the stored request and
  the current revisions, and every Skill revision of the plan \<open>ACTIVE\<close> at that moment.
\<close>

theorem approved_plan_is_acceptable:
  assumes "approve_proposal planId approvedBy st = (Inr p, st')"
  shows "js_trim approvedBy \<noteq> [] \<and> pl_status (pp_plan p) = Plan_HUMAN_APPROVED
    \<and> get_proposal planId st' = Some p
    \<and> (\<exists>request. js_get (pn_requests st) planId = Some request
         \<and> plan_acceptable ((pp_plan p)\<lparr>pl_status := Plan_DRAFT\<rparr>)
              (validation_context request (pp_context p) (pp_skillRevisions p)))
    \<and> (\<forall>r \<in> set (pp_skillRevisions p). \<exists>q. resolve_revision (rev_id r) (pn_skills st') = Some q
         \<and> rev_status q = Skill_ACTIVE)"
  using assms
proof (cases rule: approve_proposal_cases)
  case (2 p1 st1)
  from 2(1) obtain p0 request where v: "js_get (pn_requests st) planId = Some request"
    "p1 = revalidated p0 request (pn_skills st)" "st1 = st\<lparr>pn_proposals := js_set planId p1 (pn_proposals st)\<rparr>"
    by (rule validate_plan_returns)
  have p: "p = p1\<lparr>pp_plan := (pp_plan p1)\<lparr>pl_status := Plan_HUMAN_APPROVED\<rparr>\<rparr>" using 2(6) by simp
  let ?revs = "current_revisions (pn_skills st) (pp_skillRevisions p0)"
  let ?cx = "validation_context request (pp_context p0) ?revs"
  have "pv_valid (validate_experiment_plan ((pp_plan p0)\<lparr>pl_status := Plan_DRAFT\<rparr>) ?cx)"
    using 2(2) by (simp add: v(2) revalidated_def Let_def)
  then have acc: "plan_acceptable ((pp_plan p0)\<lparr>pl_status := Plan_DRAFT\<rparr>) ?cx"
    by (simp only: validate_experiment_plan_exact)
  have fields: "(pp_plan p)\<lparr>pl_status := Plan_DRAFT\<rparr> = (pp_plan p0)\<lparr>pl_status := Plan_DRAFT\<rparr>"
    "pp_context p = pp_context p0" "pp_skillRevisions p = ?revs"
    by (simp_all add: p v(2) revalidated_def Let_def validated_plan_def)
  have inactive: "inactive_revision skills rs = None \<longleftrightarrow>
      (\<forall>r \<in> set rs. \<exists>q. resolve_revision (rev_id r) skills = Some q \<and> rev_status q = Skill_ACTIVE)" for skills rs
    by (induction skills rs rule: inactive_revision.induct) auto
  have "\<forall>r \<in> set (pp_skillRevisions p). \<exists>q. resolve_revision (rev_id r) (pn_skills st') = Some q
         \<and> rev_status q = Skill_ACTIVE"
    using 2(5,7) by (simp add: inactive p)
  moreover have "get_proposal planId st' = Some p" "pl_status (pp_plan p) = Plan_HUMAN_APPROVED"
    by (simp_all add: get_proposal_def 2(7) p)
  ultimately show ?thesis using 2(4) v(1) acc unfolding fields by blast
qed blast

text \<open>
  Once a reviewer has rejected a plan, no sequence of planner operations and Skill changes can
  get it approved.
\<close>

theorem rejected_plan_never_approved:
  assumes "reject_plan planId reason st0 = (Inr p, st)" "(planning_step sv)\<^sup>*\<^sup>* st st'"
  shows "\<exists>e. fst (approve_proposal planId approvedBy st') = Inl e"
proof -
  have "js_unique (vs @ [''human review rejected plan: '' @ x]) \<noteq> []" for vs x
    by (rule js_unique_nonempty [of "''human review rejected plan: '' @ x"])
      (simp_all add: js_trim_nonempty printable_def)
  with assms(1) have "stuck planId st"
    by (auto simp: reject_plan_def stuck_def Let_def split: sum.splits if_splits)
  with assms(2) have "stuck planId st'"
    by (induction rule: rtranclp_induct) (auto intro: planning_step_stuck)
  then show ?thesis using stuck_not_approved prod.collapse by metis
qed

text \<open>
  C35: Revalidating a rejected plan erases the rejection: the stored status becomes \<open>DRAFT\<close>, and a
  replacement plan that names the rejected one as its predecessor is then refused.
\<close>

theorem revalidation_erases_rejection:
  assumes "reject_plan planId reason st = (Inr p, st1)" "js_get (pn_requests st) planId = Some request"
  shows "pl_status (pp_plan p) = Plan_REJECTED \<and>
    (\<exists>q st2. validate_plan planId st1 = (Inr q, st2) \<and> get_proposal planId st2 = Some q
       \<and> pl_status (pp_plan q) = Plan_DRAFT
       \<and> (\<forall>plan. pl_supersedesPlanId plan = Some planId \<longrightarrow> \<not> is_ok (check_replacement plan st2)))"
proof -
  have msg: "js_unique (vs @ [''human review rejected plan: '' @ x]) \<noteq> []" for vs x
    by (rule js_unique_nonempty [of "''human review rejected plan: '' @ x"])
      (simp_all add: js_trim_nonempty printable_def)
  from assms(1) msg have p: "pl_status (pp_plan p) = Plan_REJECTED" "pl_unresolved (pp_plan p) \<noteq> []"
    "pn_proposals st1 = js_set planId p (pn_proposals st)" "pn_requests st1 = pn_requests st"
    by (auto simp: reject_plan_def Let_def split: sum.splits if_splits)
  let ?q = "revalidated p request (pn_skills st1)"
  let ?st = "st1\<lparr>pn_proposals := js_set planId ?q (pn_proposals st1)\<rparr>"
  have "validate_plan planId st1 = (Inr ?q, ?st)"
    using p assms(2) by (simp add: validate_plan_def require_proposal_def Let_def)
  moreover have "pl_status (pp_plan ?q) = Plan_DRAFT"
    using revalidated_unresolved [OF p(2)] by blast
  moreover from this have "\<not> is_ok (check_replacement plan ?st)" if "pl_supersedesPlanId plan = Some planId" for plan
    using that by (simp add: check_replacement_def require_proposal_def)
  ultimately show ?thesis using p(1) by (auto simp: get_proposal_def)
qed

section \<open>The properties on a concrete plan\<close>

definition sample_plan_step :: plan_step where
  "sample_plan_step = \<lparr>ps_stepId = ''a'', ps_title = ''heat'', ps_dependencies = [], ps_skillRevisionId = ''s-1'',
     ps_operationKind = Op_device, ps_operationResource = ''heater'', ps_deviceId = Some ''d'',
     ps_deviceCapability = Some ''heat'', ps_requiresApproval = True, ps_requiredInputs = [],
     ps_parameters = [], ps_citations = [''c''], ps_expectedOutputs = []\<rparr>"

definition sample_draft_plan :: experiment_plan where
  "sample_draft_plan = \<lparr>pl_planId = ''p'', pl_experimentId = ''exp'', pl_revision = Finite 1,
     pl_supersedesPlanId = None, pl_status = Plan_DRAFT, pl_objective = ''heat'', pl_citations = [''c''],
     pl_assumptions = [], pl_unresolved = [], pl_steps = [sample_plan_step]\<rparr>"

definition sample_experiment_request :: planning_request where
  "sample_experiment_request = \<lparr>rq_experimentId = ''exp'', rq_objective = ''heat'', rq_samples = [], rq_constraints = [],
     rq_expectedOutputs = [], rq_unresolved = []\<rparr>"

definition sample_citation :: knowledge_citation where
  "sample_citation = \<lparr>kc_citationId = ''c'', kc_documentId = ''doc'', kc_versionId = ''v'', kc_location = ''1'',
     kc_excerpt = ''heat'', kc_confirmed = True, kc_conflicted = False, kc_score = Finite 1\<rparr>"

definition sample_device :: device_view where
  "sample_device = \<lparr>dv_id = ''d'', dv_name = ''D'', dv_capabilities = [\<lparr>dc_name = ''heat'', dc_parameters = []\<rparr>],
     dv_healthy = True, dv_reserved = False\<rparr>"

definition sample_services :: planning_services where
  "sample_services = \<lparr>sv_search = (\<lambda>_. Inr [sample_citation]), sv_conflicts = (\<lambda>_. Inr []),
     sv_devices = Inr [sample_device], sv_digest = sk_name, sv_contextLimit = 8\<rparr>"

definition sample_context :: planning_context where
  "sample_context = \<lparr>pc_experimentId = ''exp'', pc_objective = ''heat'', pc_queries = [''heat''],
     pc_citations = [sample_citation], pc_conflicts = [], pc_devices = [sample_device],
     pc_assumptions = [], pc_unresolved = []\<rparr>"

definition sample_planning :: "experiment_plan \<Rightarrow> planning_state" where
  "sample_planning plan = \<lparr>pn_proposals = [(''p'', \<lparr>pp_context = sample_context, pp_plan = plan,
       pp_skillRevisions = [sample_revision Skill_DRAFT None],
       pp_validation = validate_experiment_plan plan (validation_context sample_experiment_request sample_context
         [sample_revision Skill_DRAFT None])\<rparr>)],
     pn_requests = [(''p'', sample_experiment_request)], pn_skills = sample_skills 4\<rparr>"

definition empty_planning :: planning_state where
  "empty_planning = \<lparr>pn_proposals = [], pn_requests = [],
     pn_skills = \<lparr>st_revisions = [], st_resources = [], st_invalidations = None\<rparr>\<rparr>"

definition sample_proposal_input :: plan_proposal_input where
  "sample_proposal_input = \<lparr>pi_request = sample_experiment_request, pi_plan = sample_draft_plan,
     pi_skillDrafts = [sample_draft], pi_knowledgeScope = None\<rparr>"

lemma sample_words: "js_trim ''heat'' = ''heat''" "js_trim ''heater'' = ''heater''" "js_trim ''ann'' = ''ann''"
  "js_trim ''no'' = ''no''"
  by (simp_all add: js_trim_printable printable_def)

lemma sample_active_revision:
  "sample_revision Skill_ACTIVE (Some ''ann'') = \<lparr>rev_definition = sample_draft, rev_status = Skill_ACTIVE,
     rev_definitionHash = ''heat'', rev_approvedBy = Some ''ann''\<rparr>"
  by (simp add: sample_revision_def)

lemma sample_plan_acceptable:
  "plan_acceptable sample_draft_plan (validation_context sample_experiment_request sample_context
     [sample_revision Skill_ACTIVE (Some ''ann'')])"
proof -
  have "dependency_edges [sample_plan_step] = {}"
    by (simp add: dependency_edges_def edges_def step_graph_def graph_succs_def sample_plan_step_def)
  then have "acyclic (dependency_edges [sample_plan_step])" by (simp add: acyclic_def)
  moreover have "positive_integer_number (Finite 1)"
    by (simp add: positive_integer_number_def is_integer_number_def js_less_eq_def)
  moreover have "step_acceptable sample_plan_step [''a''] [''c''] (validation_context sample_experiment_request sample_context
     [sample_revision Skill_ACTIVE (Some ''ann'')])"
    by (simp add: step_acceptable_def validation_context_def sample_plan_step_def sample_words sample_context_def
        sample_citation_def sample_active_revision sample_draft_def js_map_def parameters_conform_def
        operation_key_def device_step_acceptable_def sample_device_def)
  ultimately show ?thesis
    by (simp add: plan_acceptable_def sample_draft_plan_def sample_words)
      (simp add: validation_context_def sample_context_def sample_citation_def sample_experiment_request_def sample_plan_step_def)
qed

lemma sample_resolve: "current_revisions (sample_skills 4) [sample_revision Skill_DRAFT None]
    = [sample_revision Skill_ACTIVE (Some ''ann'')]"
  by (simp add: current_revisions_def sample_revision_def resolve_revision_def sample_skills_eq sample_draft_def)

theorem proposed_plan_awaits_review_witness:
  "let (r, st') = propose sample_services sample_proposal_input empty_planning
   in \<exists>p. r = Inr p \<and> pl_status (pp_plan p) = Plan_DRAFT \<and> \<not> pv_valid (pp_validation p)
        \<and> get_proposal ''p'' st' = Some p"
proof -
  have "\<exists>p st'. propose sample_services sample_proposal_input empty_planning = (Inr p, st')"
    using sample_draft_ok
    by (simp add: propose_def sample_services_def sample_proposal_input_def empty_planning_def sample_experiment_request_def
        check_replacement_def build_context_def js_unique_def sample_words create_draft_def Let_def
        validate_draft_issues_nil sample_draft_plan_def sample_draft_ok)
  then obtain p st' where p: "propose sample_services sample_proposal_input empty_planning = (Inr p, st')" by blast
  have "pl_planId (pi_plan sample_proposal_input) = ''p''"
    by (simp add: sample_proposal_input_def sample_draft_plan_def)
  with proposed_plan_awaits_review [OF p] show ?thesis by (simp add: p)
qed

lemma sample_approval:
  "approve_proposal ''p'' ''ann'' (sample_planning sample_draft_plan)
     = (Inr ((revalidated (the (get_proposal ''p'' (sample_planning sample_draft_plan))) sample_experiment_request (sample_skills 4))
          \<lparr>pp_plan := sample_draft_plan\<lparr>pl_status := Plan_HUMAN_APPROVED\<rparr>\<rparr>),
        snd (approve_proposal ''p'' ''ann'' (sample_planning sample_draft_plan)))"
proof -
  have draft: "sample_draft_plan\<lparr>pl_status := Plan_DRAFT\<rparr> = sample_draft_plan"
    "pl_status sample_draft_plan = Plan_DRAFT"
    by (simp_all add: sample_draft_plan_def)
  have valid: "pv_valid (validate_experiment_plan sample_draft_plan (validation_context sample_experiment_request sample_context
     [sample_revision Skill_ACTIVE (Some ''ann'')]))"
    by (simp add: validate_experiment_plan_exact sample_plan_acceptable)
  have resolved: "resolve_revision (rev_id (sample_revision Skill_ACTIVE (Some ''ann''))) (sample_skills 4)
      = Some (sample_revision Skill_ACTIVE (Some ''ann''))"
    "rev_status (sample_revision Skill_ACTIVE (Some ''ann'')) = Skill_ACTIVE"
    by (simp_all add: sample_revision_def sample_draft_def resolve_revision_def sample_skills_eq)
  have ready: "inactive_revision (sample_skills 4) [sample_revision Skill_ACTIVE (Some ''ann'')] = None"
    using resolved by simp
  show ?thesis
    by (simp add: approve_proposal_def validate_plan_def require_proposal_def sample_planning_def draft
        revalidated_def sample_resolve validated_plan_def valid Let_def sample_words ready get_proposal_def
        del: inactive_revision.simps)
qed

theorem approved_plan_is_acceptable_witness:
  "\<exists>p. get_proposal ''p'' (snd (approve_proposal ''p'' ''ann'' (sample_planning sample_draft_plan))) = Some p
     \<and> pl_status (pp_plan p) = Plan_HUMAN_APPROVED"
  using approved_plan_is_acceptable [OF sample_approval] by blast

lemma sample_rejection:
  "\<exists>p. reject_plan ''p'' ''no'' (sample_planning sample_draft_plan)
     = (Inr p, snd (reject_plan ''p'' ''no'' (sample_planning sample_draft_plan)))"
  by (simp add: reject_plan_def require_proposal_def sample_planning_def sample_words sample_draft_plan_def Let_def)

theorem rejected_plan_never_approved_witness:
  "\<exists>e. fst (approve_proposal ''p'' ''ann''
     (snd (reject_plan ''p'' ''no'' (sample_planning sample_draft_plan)))) = Inl e"
  using sample_rejection rejected_plan_never_approved [where sv = sample_services, OF _ rtranclp.rtrancl_refl] by blast

theorem revalidation_erases_rejection_witness:
  "\<exists>q st2. validate_plan ''p'' (snd (reject_plan ''p'' ''no'' (sample_planning sample_draft_plan))) = (Inr q, st2)
     \<and> pl_status (pp_plan q) = Plan_DRAFT"
proof -
  obtain p where "reject_plan ''p'' ''no'' (sample_planning sample_draft_plan)
     = (Inr p, snd (reject_plan ''p'' ''no'' (sample_planning sample_draft_plan)))" using sample_rejection by blast
  from revalidation_erases_rejection [OF this, of sample_experiment_request] show ?thesis
    by (auto simp: sample_planning_def)
qed

end
