(* ===== verification/Json.thy ===== *)
theory Json
  imports Prelude
begin

text \<open>
  The JSON values a session event may carry (\<open>core/session/src/json.ts\<close>, \<open>JsonValue\<close>): \<open>null\<close>,
  booleans, finite numbers, strings, arrays and plain objects. An object is the list of its own
  properties in insertion order; a well-formed object has each key once. A TypeScript field that
  may be absent (\<open>undefined\<close>) is a \<open>json option\<close>.

  \<open>is_deep_equal_json\<close> is the structural equality the surface fold uses to decide whether a
  rewritten tool result changed anything but its content.
\<close>

datatype json =
    JNull
  | JBool bool
  | JNum rat
  | JStr string
  | JArr "json list"
  | JObj "(string \<times> json) list"

fun json_ok :: "json \<Rightarrow> bool" where
  "json_ok (JArr xs) = (\<forall>x \<in> set xs. json_ok x)"
| "json_ok (JObj fs) = (distinct (map fst fs) \<and> (\<forall>f \<in> set fs. json_ok (snd f)))"
| "json_ok _ = True"

lemma json_ok_field: "json_ok (JObj fs) \<Longrightarrow> map_of fs k = Some x \<Longrightarrow> json_ok x"
  by (auto dest: map_of_SomeD)

text \<open>Reading a property: \<open>undefined\<close> when the value is not an object or lacks the key.\<close>

fun json_field :: "string \<Rightarrow> json \<Rightarrow> json option" where
  "json_field k (JObj fs) = map_of fs k"
| "json_field k _ = None"

definition field_of :: "string \<Rightarrow> json option \<Rightarrow> json option" where
  "field_of k v = (case v of None \<Rightarrow> None | Some j \<Rightarrow> json_field k j)"

text \<open>Building an object: an optional property is absent rather than \<open>undefined\<close>.\<close>

definition optional :: "string \<Rightarrow> json option \<Rightarrow> (string \<times> json) list" where
  "optional k v = (case v of None \<Rightarrow> [] | Some j \<Rightarrow> [(k, j)])"

lemma map_of_optional [simp]: "map_of (optional k v) k' = (if k' = k then v else None)"
  by (auto simp: optional_def split: option.splits)

lemma fst_optional: "f \<in> set (optional k v) \<Longrightarrow> fst f = k"
  by (auto simp: optional_def split: option.splits)

lemma ball_optional: "(\<forall>f \<in> set (optional k v). P f) \<longleftrightarrow> (\<forall>j. v = Some j \<longrightarrow> P (k, j))"
  by (auto simp: optional_def split: option.splits)

definition is_record :: "json option \<Rightarrow> bool" where
  "is_record v = (case v of Some (JObj fs) \<Rightarrow> True | _ \<Rightarrow> False)"

definition is_array :: "json option \<Rightarrow> bool" where
  "is_array v = (case v of Some (JArr xs) \<Rightarrow> True | _ \<Rightarrow> False)"

definition is_string :: "json option \<Rightarrow> bool" where
  "is_string v = (case v of Some (JStr s) \<Rightarrow> True | _ \<Rightarrow> False)"

text \<open>A non-empty string: the check \<open>typeof v === 'string' && v !== ''\<close>.\<close>

definition is_text :: "json option \<Rightarrow> bool" where
  "is_text v = (case v of Some (JStr s) \<Rightarrow> s \<noteq> [] | _ \<Rightarrow> False)"

lemma field_of_simps [simp]:
  "field_of k None = None"
  "field_of k (Some (JObj fs)) = map_of fs k"
  by (simp_all add: field_of_def)

lemma is_text_string: "is_text v \<Longrightarrow> is_string v"
  by (auto simp: is_text_def is_string_def split: option.splits json.splits)

lemma is_text_iff: "is_text v \<longleftrightarrow> (\<exists>s. v = Some (JStr s) \<and> s \<noteq> [])"
  by (auto simp: is_text_def split: option.splits json.splits)

lemma is_array_iff: "is_array v \<longleftrightarrow> (\<exists>xs. v = Some (JArr xs))"
  by (auto simp: is_array_def split: option.splits json.splits)

lemma is_record_iff: "is_record v \<longleftrightarrow> (\<exists>fs. v = Some (JObj fs))"
  by (auto simp: is_record_def split: option.splits json.splits)

text \<open>\<open>Number.isSafeInteger\<close> of a value.\<close>

definition json_integer :: "json option \<Rightarrow> int option" where
  "json_integer v = (case v of Some (JNum r) \<Rightarrow> safe_integer_of (Finite r) | _ \<Rightarrow> None)"

definition json_int :: "int \<Rightarrow> json" where
  "json_int k = JNum (of_int k)"

lemma json_integer_iff: "json_integer v = Some k \<longleftrightarrow> v = Some (json_int k) \<and> \<bar>k\<bar> \<le> max_safe"
proof
  assume "json_integer v = Some k"
  then obtain r where r: "v = Some (JNum r)" "safe_integer_of (Finite r) = Some k"
    by (auto simp: json_integer_def split: option.splits json.splits)
  from r(2) have q: "snd (quotient_of r) = 1" "fst (quotient_of r) = k" "\<bar>k\<bar> \<le> max_safe"
    by (auto simp: safe_integer_of_def split: if_splits)
  have "quotient_of r = (k, 1)" using q(1,2) by (metis prod.collapse)
  then have "r = of_int k" using quotient_of_div by fastforce
  with r q show "v = Some (json_int k) \<and> \<bar>k\<bar> \<le> max_safe" by (simp add: json_int_def)
qed (simp add: json_integer_def json_int_def)

text \<open>\<open>Object.keys\<close> are exactly these.\<close>

definition has_exact_keys :: "(string \<times> json) list \<Rightarrow> string list \<Rightarrow> bool" where
  "has_exact_keys fs ks \<longleftrightarrow> length fs = length ks \<and> (\<forall>k \<in> set ks. k \<in> set (map fst fs))"

lemma exact_keys_set:
  assumes "has_exact_keys fs ks" "distinct ks"
  shows "set (map fst fs) = set ks" "distinct (map fst fs)"
proof -
  have sub: "set ks \<subseteq> set (map fst fs)" using assms(1) unfolding has_exact_keys_def by blast
  have len: "length (map fst fs) = length ks" using assms(1) by (simp add: has_exact_keys_def)
  have "card (set ks) = length ks" using assms(2) by (rule distinct_card)
  with card_length [of "map fst fs"] card_mono [OF _ sub] len
  have c: "card (set (map fst fs)) = length ks" by simp
  with sub \<open>card (set ks) = length ks\<close> show "set (map fst fs) = set ks"
    using card_subset_eq [OF _ sub] by simp
  from c len show "distinct (map fst fs)" using card_distinct [of "map fst fs"] by simp
qed

lemma json_size_arr [termination_simp]: "x \<in> set xs \<Longrightarrow> size x < Suc (size_list size xs)"
  by (induction xs) auto

lemma json_size_obj [termination_simp]:
  "(k, x) \<in> set fs \<Longrightarrow> size x < Suc (size_list (size_prod (\<lambda>_. 0) size) fs)"
  by (induction fs) auto

text \<open>\<open>isDeepEqualJson\<close>: arrays pointwise, objects by key regardless of the order of the keys.\<close>

function (sequential) is_deep_equal_json :: "json \<Rightarrow> json \<Rightarrow> bool" where
  "is_deep_equal_json (JArr xs) (JArr ys) =
     (length xs = length ys \<and> (\<forall>(x, y) \<in> set (zip xs ys). is_deep_equal_json x y))"
| "is_deep_equal_json (JObj fs) (JObj gs) =
     (length fs = length gs
      \<and> (\<forall>(k, x) \<in> set fs. case map_of gs k of None \<Rightarrow> False | Some y \<Rightarrow> is_deep_equal_json x y))"
| "is_deep_equal_json a b = (a = b)"
  by pat_completeness auto
termination
  by (relation "measure (\<lambda>(a, b). size a)")
    (auto simp: json_size_arr json_size_obj dest: set_zip_leftD)

lemma ball_zip_nth:
  "length xs = length ys \<Longrightarrow>
    (\<forall>(x, y) \<in> set (zip xs ys). P x y) \<longleftrightarrow> (\<forall>i < length xs. P (xs ! i) (ys ! i))"
  by (fastforce simp: set_zip)

lemma deep_equal_arr_iff:
  "is_deep_equal_json (JArr xs) b \<longleftrightarrow>
    (\<exists>ys. b = JArr ys \<and> length xs = length ys
      \<and> (\<forall>i < length xs. is_deep_equal_json (xs ! i) (ys ! i)))"
  by (cases b) (simp_all add: ball_zip_nth cong: conj_cong)

lemma deep_equal_obj_obj: "is_deep_equal_json (JObj fs) b \<Longrightarrow> \<exists>gs. b = JObj gs"
  by (cases b) auto

text \<open>On well-formed objects: the same keys, and equal values under each of them.\<close>

lemma deep_equal_obj_iff:
  assumes "distinct (map fst fs)" "distinct (map fst gs)"
  shows "is_deep_equal_json (JObj fs) (JObj gs) \<longleftrightarrow>
    set (map fst fs) = set (map fst gs)
    \<and> (\<forall>k x y. map_of fs k = Some x \<longrightarrow> map_of gs k = Some y \<longrightarrow> is_deep_equal_json x y)"
    (is "?L \<longleftrightarrow> ?keys \<and> ?vals")
proof
  assume L: ?L
  have sub: "set (map fst fs) \<subseteq> set (map fst gs)"
    using L by (force split: option.splits dest: map_of_SomeD)
  have "card (set (map fst fs)) = card (set (map fst gs))"
    using L assms by (simp add: distinct_card del: set_map)
  with sub have ?keys using card_subset_eq by blast
  moreover have ?vals using L assms(1) by (fastforce dest: map_of_SomeD split: option.splits)
  ultimately show "?keys \<and> ?vals" ..
next
  assume R: "?keys \<and> ?vals"
  then have "length fs = length gs"
    using assms by (metis distinct_card length_map)
  moreover have "case map_of gs k of None \<Rightarrow> False | Some y \<Rightarrow> is_deep_equal_json x y"
    if "(k, x) \<in> set fs" for k x
  proof -
    have "map_of fs k = Some x" using that assms(1) by simp
    moreover have "k \<in> set (map fst gs)" using that R by force
    then obtain y where "map_of gs k = Some y" by (metis image_set map_of_eq_None_iff not_None_eq)
    ultimately show ?thesis using R by simp
  qed
  ultimately show ?L by auto
qed

declare is_deep_equal_json.simps(1,2) [simp del]

lemma deep_equal_refl: "json_ok a \<Longrightarrow> is_deep_equal_json a a"
proof (induction a)
  case (JArr xs)
  then show ?case by (simp add: deep_equal_arr_iff)
next
  case (JObj fs)
  have "is_deep_equal_json x x" if "map_of fs k = Some x" for k x
    using JObj.IH [OF map_of_SomeD [OF that]] JObj.prems map_of_SomeD [OF that] by force
  with JObj.prems show ?case by (simp add: deep_equal_obj_iff)
qed auto

lemma deep_equal_sym: "json_ok a \<Longrightarrow> json_ok b \<Longrightarrow> is_deep_equal_json a b \<Longrightarrow> is_deep_equal_json b a"
proof (induction a arbitrary: b)
  case (JArr xs)
  then obtain ys where b: "b = JArr ys" "length xs = length ys"
    and e: "\<And>i. i < length xs \<Longrightarrow> is_deep_equal_json (xs ! i) (ys ! i)"
    unfolding deep_equal_arr_iff by blast
  have "is_deep_equal_json (ys ! i) (xs ! i)" if i: "i < length xs" for i
  proof (rule JArr.IH [OF nth_mem [OF i] _ _ e [OF i]])
    show "json_ok (xs ! i)" "json_ok (ys ! i)" using JArr.prems(1,2) b i by simp_all
  qed
  with b show ?case by (simp add: deep_equal_arr_iff)
next
  case (JObj fs)
  from deep_equal_obj_obj [OF JObj.prems(3)] obtain gs where b: "b = JObj gs" ..
  have d: "distinct (map fst fs)" "distinct (map fst gs)" using JObj.prems b by auto
  note eq = JObj.prems(3) [unfolded b deep_equal_obj_iff [OF d]]
  have "is_deep_equal_json y x" if "map_of gs k = Some y" "map_of fs k = Some x" for k x y
  proof -
    have ok: "json_ok x" "json_ok y"
      using json_ok_field [OF JObj.prems(1) that(2)] json_ok_field [OF JObj.prems(2) [unfolded b] that(1)]
      by simp_all
    have "is_deep_equal_json x y" using eq that by blast
    from JObj.IH [OF map_of_SomeD [OF that(2)] _ ok this] show ?thesis by simp
  qed
  with eq show ?case unfolding b deep_equal_obj_iff [OF d(2,1)] by simp
qed auto

lemma deep_equal_trans:
  "json_ok a \<Longrightarrow> json_ok b \<Longrightarrow> json_ok c \<Longrightarrow> is_deep_equal_json a b \<Longrightarrow> is_deep_equal_json b c
    \<Longrightarrow> is_deep_equal_json a c"
proof (induction a arbitrary: b c)
  case (JArr xs)
  from JArr.prems(4) obtain ys where b: "b = JArr ys" "length xs = length ys"
    and e: "\<And>i. i < length xs \<Longrightarrow> is_deep_equal_json (xs ! i) (ys ! i)"
    unfolding deep_equal_arr_iff by blast
  from JArr.prems(5) b obtain zs where c: "c = JArr zs" "length ys = length zs"
    and f: "\<And>i. i < length ys \<Longrightarrow> is_deep_equal_json (ys ! i) (zs ! i)"
    unfolding b deep_equal_arr_iff by blast
  have "is_deep_equal_json (xs ! i) (zs ! i)" if i: "i < length xs" for i
  proof (rule JArr.IH [OF nth_mem [OF i] _ _ _ e [OF i] f])
    show "json_ok (xs ! i)" "json_ok (ys ! i)" "json_ok (zs ! i)" "i < length ys"
      using JArr.prems(1-3) b c i by simp_all
  qed
  with b c show ?case by (simp add: deep_equal_arr_iff)
next
  case (JObj fs)
  from deep_equal_obj_obj [OF JObj.prems(4)] obtain gs where b: "b = JObj gs" ..
  from deep_equal_obj_obj [OF JObj.prems(5) [unfolded b]] obtain hs where c: "c = JObj hs" ..
  note bc = b c
  have d: "distinct (map fst fs)" "distinct (map fst gs)" "distinct (map fst hs)"
    using JObj.prems bc by auto
  note e1 = JObj.prems(4) [unfolded bc deep_equal_obj_iff [OF d(1,2)]]
  note e2 = JObj.prems(5) [unfolded bc deep_equal_obj_iff [OF d(2,3)]]
  have "is_deep_equal_json x z" if x: "map_of fs k = Some x" and z: "map_of hs k = Some z" for k x z
  proof -
    have "k \<in> set (map fst gs)" using e1 map_of_SomeD [OF x] by force
    then obtain y where y: "map_of gs k = Some y" by (metis image_set map_of_eq_None_iff not_None_eq)
    have ok: "json_ok x" "json_ok y" "json_ok z"
      using json_ok_field [OF JObj.prems(1) x] json_ok_field [OF JObj.prems(2) [unfolded b] y]
        json_ok_field [OF JObj.prems(3) [unfolded c] z] by simp_all
    have "is_deep_equal_json x y" "is_deep_equal_json y z" using e1 e2 x y z by blast+
    from JObj.IH [OF map_of_SomeD [OF x] _ ok this] show ?thesis by simp
  qed
  with e1 e2 show ?case unfolding bc deep_equal_obj_iff [OF d(1,3)] by simp
qed auto

lemma deep_equal_exact:
  assumes "has_exact_keys fs ks" "distinct ks" "set (map fst gs) = set ks" "distinct (map fst gs)"
    "\<And>k x y. map_of gs k = Some x \<Longrightarrow> map_of fs k = Some y \<Longrightarrow> is_deep_equal_json x y"
  shows "is_deep_equal_json (JObj gs) (JObj fs)"
  using deep_equal_obj_iff [OF assms(4) exact_keys_set(2) [OF assms(1,2)]] exact_keys_set(1) [OF assms(1,2)] assms(3,5)
  by simp

lemma deep_equal_atoms [simp]:
  "is_deep_equal_json (JStr s) y \<longleftrightarrow> y = JStr s"
  "is_deep_equal_json (JNum r) y \<longleftrightarrow> y = JNum r"
  by (cases y; auto)+

section \<open>The text of a value\<close>

definition hex_digit :: "nat \<Rightarrow> char" where
  "hex_digit n = (if n < 10 then char_of (n + 48) else char_of (n + 87))"

text \<open>The escape of one byte of a string in \<open>JSON.stringify\<close>.\<close>

definition json_escape :: "char \<Rightarrow> string" where
  "json_escape c =
     (let b = (of_char c :: nat); bs = CHR 0x5C in
      if b = 34 then [bs, CHR 0x22]
      else if b = 92 then [bs, bs]
      else if b = 8 then bs # ''b''
      else if b = 12 then bs # ''f''
      else if b = 10 then bs # ''n''
      else if b = 13 then bs # ''r''
      else if b = 9 then bs # ''t''
      else if b < 32 then bs # ''u00'' @ [hex_digit (b div 16), hex_digit (b mod 16)]
      else [c])"

definition json_quote :: "string \<Rightarrow> string" where
  "json_quote s = CHR 0x22 # concat (map json_escape s) @ [CHR 0x22]"

fun json_stringify :: "(rat \<Rightarrow> string) \<Rightarrow> json \<Rightarrow> string" where
  "json_stringify num_text JNull = ''null''"
| "json_stringify num_text (JBool b) = (if b then ''true'' else ''false'')"
| "json_stringify num_text (JNum r) = num_text r"
| "json_stringify num_text (JStr s) = json_quote s"
| "json_stringify num_text (JArr xs) = ''['' @ js_join '','' (map (json_stringify num_text) xs) @ '']''"
| "json_stringify num_text (JObj fs) =
     CHR 0x7B # js_join '','' (map (\<lambda>f. json_quote (fst f) @ '':'' @ json_stringify num_text (snd f)) fs) @ [CHR 0x7D]"

end
