(* ===== verification/SessionEvents.thy ===== *)
theory SessionEvents
  imports Json
begin

text \<open>
  The entries of a session log (\<open>core/session/src/types.ts\<close>) and the message types they carry
  (\<open>llm/llm/src/message.ts\<close>, \<open>types.ts\<close>, \<open>call-config.ts\<close>).

  An event is a record of its sequence number, time and payload; the payload is the discriminated
  union over \<open>type\<close>, one constructor per core event type and \<open>PluginEvent\<close> for the types plugins
  merge in. The two surface fields are read from untrusted logs, so they are arbitrary JSON values
  that may be absent. A message source is the union over \<open>kind\<close>; \<open>MergedSource\<close> carries the kind and the other
  properties of the sources that packages merge in. Brands (\<open>SessionId\<close>, \<open>MessageId\<close>, \<open>CallId\<close>) are strings at run time.
\<close>

section \<open>Messages\<close>

datatype content_block =
    TextBlock string
  | ReasoningBlock string
  | ImageBlock json
  | ToolCallBlock string string string
  | ToolResultBlock string "content_block list" "bool option"

datatype message_source =
    UserSource
  | PluginSource string json
  | ModelSource string string "json option"
  | ToolSource string
  | MergedSource string "(string \<times> json) list"

datatype message_role = Role_system | Role_user | Role_assistant

record message =
  msg_id :: string
  msg_role :: message_role
  msg_content :: "content_block list"
  msg_source :: message_source

text \<open>
  The payload of a \<open>tool/result\<close>: the identified user-role message with its tool source and its one
  tool-result block, the optional internal failure (name and code) and the tool-private metadata.
\<close>

record tool_result =
  tr_turn :: nat
  tr_step :: nat
  tr_id :: string
  tr_callId :: string
  tr_toolCallId :: string
  tr_content :: "content_block list"
  tr_isError :: "bool option"
  tr_error :: "(string \<times> string) option"
  tr_meta :: "json option"

definition tool_message :: "tool_result \<Rightarrow> message" where
  "tool_message t =
     \<lparr>msg_id = tr_id t, msg_role = Role_user,
      msg_content = [ToolResultBlock (tr_toolCallId t) (tr_content t) (tr_isError t)],
      msg_source = ToolSource (tr_callId t)\<rparr>"

section \<open>Request headers\<close>

record call_config =
  cc_provider :: string
  cc_model :: string
  cc_reasoningEffort :: "string option"
  cc_temperature :: "rat option"
  cc_maxTokens :: "rat option"
  cc_stop :: "string list option"

record adapter_defaults =
  ad_reasoningEffort :: bool
  ad_maxTokens :: bool

record epoch_header =
  eh_config :: call_config
  eh_adapterDefaults :: "adapter_defaults option"
  eh_system :: "string option"
  eh_tools :: "json list option"

datatype header_reason = Reason_initial | Reason_resume | Reason_change

record request_context =
  rq_provider :: string
  rq_model :: string
  rq_contextWindow :: "rat option"

section \<open>Events\<close>

datatype turn_end_reason =
    End_completed
  | End_aborted json
  | End_blocked
  | End_error json
  | End_max_tokens
  | End_interrupted

text \<open>The splice of one pending list of the agent inbox (\<open>core/agent/src/types.ts\<close>).\<close>

datatype inbox_target = Next_turn | Next_step

record inbox_splice =
  sp_target :: inbox_target
  sp_start :: nat
  sp_removedCount :: "nat option"
  sp_inserted :: "message list"
  sp_canceled :: bool

datatype event_data =
    TurnStart nat
  | TurnEnd nat turn_end_reason
  | StepStart nat nat
  | StepEnd nat nat
  | UserMessage message
  | AssistantChunk nat nat json
  | AssistantMessage nat nat message "json option" bool
  | ToolCall nat nat string string string
  | ToolResult tool_result
  | TodoWrite json
  | RequestHeader epoch_header header_reason
  | RequestContext request_context
  | EndSeed
  | InboxSpliced inbox_splice
  | PluginEvent string json

fun event_type_of :: "event_data \<Rightarrow> string" where
  "event_type_of (TurnStart _) = ''turn/start''"
| "event_type_of (TurnEnd _ _) = ''turn/end''"
| "event_type_of (StepStart _ _) = ''step/start''"
| "event_type_of (StepEnd _ _) = ''step/end''"
| "event_type_of (UserMessage _) = ''user/message''"
| "event_type_of (AssistantChunk _ _ _) = ''assistant/chunk''"
| "event_type_of (AssistantMessage _ _ _ _ _) = ''assistant/message''"
| "event_type_of (ToolCall _ _ _ _ _) = ''tool/call''"
| "event_type_of (ToolResult _) = ''tool/result''"
| "event_type_of (TodoWrite _) = ''todo/write''"
| "event_type_of (RequestHeader _ _) = ''request/header''"
| "event_type_of (RequestContext _) = ''request/context''"
| "event_type_of EndSeed = ''session/end-seed''"
| "event_type_of (InboxSpliced _) = ''agent/inbox/spliced''"
| "event_type_of (PluginEvent t _) = t"

record session_event =
  ev_seq :: nat
  ev_time :: int
  ev_data :: event_data
  ev_ignorable :: bool
  ev_surfaceOp :: "json option"
  ev_sources :: "json option"

definition ev_type :: "session_event \<Rightarrow> string" where
  "ev_type e = event_type_of (ev_data e)"

text \<open>
  The event types a \<open>PluginEvent\<close> carries are none of those with a constructor of their own, and likewise for the source kinds: the
  declaration merging of \<open>SessionEventMap\<close> and \<open>MessageSourceMap\<close> forbids two properties of one
  name.
\<close>

definition core_event_types :: "string list" where
  "core_event_types =
     [''turn/start'', ''turn/end'', ''step/start'', ''step/end'', ''user/message'',
      ''assistant/chunk'', ''assistant/message'', ''tool/call'', ''tool/result'', ''todo/write'',
      ''request/header'', ''request/context'', ''session/end-seed'', ''agent/inbox/spliced'']"

fun source_typed :: "message_source \<Rightarrow> bool" where
  "source_typed (MergedSource k _) = (k \<notin> {[], ''user'', ''plugin'', ''model'', ''tool''})"
| "source_typed _ = True"

fun data_typed :: "event_data \<Rightarrow> bool" where
  "data_typed (PluginEvent t _) = (t \<notin> set core_event_types)"
| "data_typed (UserMessage m) = source_typed (msg_source m)"
| "data_typed (AssistantMessage _ _ m _ _) = source_typed (msg_source m)"
| "data_typed _ = True"

definition event_typed :: "session_event \<Rightarrow> bool" where
  "event_typed e = data_typed (ev_data e)"

section \<open>Surface eligibility and the projection of one event\<close>

definition surface_event_types :: "string list" where
  "surface_event_types = [''user/message'', ''assistant/message'', ''tool/result'']"

definition is_surface_eligible_type :: "string \<Rightarrow> bool" where
  "is_surface_eligible_type t \<longleftrightarrow> t \<in> set surface_event_types"

definition is_surface_event :: "session_event \<Rightarrow> bool" where
  "is_surface_event e = (if \<not> is_surface_eligible_type (ev_type e) then False else ev_surfaceOp e \<noteq> None)"

definition is_append_surface_event :: "session_event \<Rightarrow> bool" where
  "is_append_surface_event e \<longleftrightarrow> is_surface_event e \<and> ev_surfaceOp e = Some (JStr ''append'')"

definition is_replacement_surface_event :: "session_event \<Rightarrow> bool" where
  "is_replacement_surface_event e \<longleftrightarrow> is_surface_event e \<and> ev_surfaceOp e \<noteq> Some (JStr ''append'')"

text \<open>\<open>deriveEventMessage\<close>: an assistant message without content only carries usage.\<close>

definition derive_event_message :: "session_event \<Rightarrow> message option" where
  "derive_event_message e =
     (case ev_data e of
        UserMessage m \<Rightarrow> Some m
      | AssistantMessage _ _ m _ _ \<Rightarrow> if msg_content m = [] then None else Some m
      | ToolResult t \<Rightarrow> Some (tool_message t)
      | _ \<Rightarrow> None)"

end
