(* ===== verification/Surface.thy ===== *)
theory Surface
  imports SessionEvents
begin

text \<open>
  The surface of a session log (\<open>core/session/src/surface.ts\<close>): the ordered list of the events
  that produce the messages a model sees. An event enters it at the tail or replaces a contiguous
  range of it, and the fold rejects an event whose surface fields are malformed, whose cited
  sources are not earlier events, or whose replacement does not cite every node it shadows.

  Definitions: validation of one event (\<open>surface_op_of\<close>, \<open>assert_provenance\<close>,
  \<open>replacement_range\<close>, \<open>assert_tool_result_rewrite\<close>, \<open>plan_surface_event\<close>), its commit
  (\<open>apply_surface_plan\<close>), the complete replay (\<open>fold_surface\<close>) and the incremental
  \<open>SurfaceManager\<close>, whose log and base sequence are arguments of its operations and whose
  \<open>sm_next\<close> is \<open>_lastProcessedSeq + 1\<close>.
\<close>

section \<open>Fold state and plans\<close>

datatype surface_op = Op_append | Op_replace nat nat

record fold_replacement =
  sr_seq :: nat
  sr_start :: nat
  sr_end :: nat
  sr_shadowed :: "nat list"

record fold_result =
  sf_nodes :: "nat list"
  sf_replacements :: "fold_replacement list"

record fold_state =
  fs_nodes :: "nat list"
  fs_generation :: nat

datatype surface_plan =
    AppendPlan nat
  | ReplacePlan fold_replacement nat nat

definition create_fold_state :: fold_state where
  "create_fold_state = \<lparr>fs_nodes = [], fs_generation = 0\<rparr>"

section \<open>Validation of one event\<close>

text \<open>\<open>isEventSeq\<close>: a non-negative safe integer, here with its value.\<close>

fun event_seq_of :: "json \<Rightarrow> nat option" where
  "event_seq_of (JNum r) =
     (case safe_integer_of (Finite r) of
        None \<Rightarrow> None
      | Some k \<Rightarrow> if 0 \<le> k then Some (nat k) else None)"
| "event_seq_of _ = None"

text \<open>\<open>isReplaceOp\<close> on the properties of an object, with the two bounds when it holds.\<close>

definition replace_op :: "(string \<times> json) list \<Rightarrow> (nat \<times> nat) option" where
  "replace_op fs =
     (if length fs = 3 \<and> map_of fs ''op'' = Some (JStr ''replace'')
      then (case (Option.bind (map_of fs ''start'') event_seq_of, Option.bind (map_of fs ''end'') event_seq_of) of
              (Some s, Some e) \<Rightarrow> Some (s, e)
            | _ \<Rightarrow> None)
      else None)"

definition surface_error :: "session_event \<Rightarrow> string \<Rightarrow> string" where
  "surface_error e text = ''session event '' @ quoted (ev_type e) @ '' '' @ text"

definition surface_op_of :: "session_event \<Rightarrow> string + surface_op option" where
  "surface_op_of e =
     (if \<not> is_surface_eligible_type (ev_type e)
      then (if ev_surfaceOp e \<noteq> None
            then Inl (surface_error e ''is not surface-eligible and cannot carry surfaceOp'')
            else if ev_sources e \<noteq> None
            then Inl (surface_error e ''is not surface-eligible and cannot carry sourceEventSeqs'')
            else Inr None)
      else (case ev_surfaceOp e of
              None \<Rightarrow> Inl (surface_error e ''is surface-eligible and requires a surfaceOp marker'')
            | Some op \<Rightarrow>
                if op = JStr ''append'' then Inr (Some Op_append)
                else (case op of
                        JObj fs \<Rightarrow>
                          (case replace_op fs of
                             None \<Rightarrow> Inl (surface_error e ''carries an invalid replace surfaceOp'')
                           | Some (s, t) \<Rightarrow> Inr (Some (Op_replace s t)))
                      | _ \<Rightarrow> Inl (surface_error e ''carries an invalid surfaceOp''))))"

text \<open>The cited sources of an event: the loop over \<open>sourceEventSeqs\<close> and the checks after it.\<close>

fun event_seqs :: "json list \<Rightarrow> nat list option" where
  "event_seqs [] = Some []"
| "event_seqs (v # vs) =
     (case event_seq_of v of
        None \<Rightarrow> None
      | Some n \<Rightarrow> map_option ((#) n) (event_seqs vs))"

definition cited_sources :: "session_event \<Rightarrow> string + nat list" where
  "cited_sources e =
     (case ev_sources e of
        None \<Rightarrow> Inr []
      | Some (JArr raw) \<Rightarrow>
          if raw = [] \<and> ev_type e \<noteq> ''assistant/message''
          then Inl ''sourceEventSeqs must not be empty except on assistant/message''
          else (case event_seqs raw of
                  None \<Rightarrow> Inl (surface_error e ''sourceEventSeqs must densely contain non-negative safe integers'')
                | Some ns \<Rightarrow>
                    if length (dedup ns) \<noteq> length raw then Inl ''sourceEventSeqs must not contain duplicates''
                    else (case find (\<lambda>n. ev_seq e \<le> n) ns of
                            Some n \<Rightarrow> Inl (''sourceEventSeqs must reference earlier events: '' @ str_of_nat n
                              @ '' >= current seq '' @ str_of_nat (ev_seq e))
                          | None \<Rightarrow> Inr ns))
      | Some _ \<Rightarrow> Inl (''sourceEventSeqs on event at seq '' @ str_of_nat (ev_seq e) @ '' must be an array when present''))"

definition assert_provenance :: "session_event \<Rightarrow> nat list \<Rightarrow> string + unit" where
  "assert_provenance e shadowed =
     and_then (cited_sources e) (\<lambda>sources.
       let missing = filter (\<lambda>n. n \<notin> set sources) shadowed
       in throw_if (missing \<noteq> [])
            (''surface replace: sourceEventSeqs must include every shadowed surface node; missing ''
             @ js_join '', '' (map str_of_nat missing)))"

definition replacement_range :: "fold_state \<Rightarrow> nat \<Rightarrow> nat \<Rightarrow> string + (nat \<times> nat \<times> nat list)" where
  "replacement_range st start end' =
     and_then (of_option (''surface replace: start seq '' @ str_of_nat start @ '' not found in surface'')
                (find_index (\<lambda>n. n = start) (fs_nodes st))) (\<lambda>i.
     and_then (of_option (''surface replace: end seq '' @ str_of_nat end' @ '' not found in surface'')
                (find_index (\<lambda>n. n = end') (fs_nodes st))) (\<lambda>j.
     if j < i
     then Inl (''surface replace: start seq '' @ str_of_nat start @ '' (index '' @ str_of_nat i
               @ '') is after end seq '' @ str_of_nat end' @ '' (index '' @ str_of_nat j @ '')'')
     else Inr (i, j, take (j + 1 - i) (drop i (fs_nodes st)))))"

text \<open>
  The data of a tool result with the content of its block replaced by \<open>null\<close>: what a rewrite may
  not change.
\<close>

definition tool_result_rest :: "tool_result \<Rightarrow> json" where
  "tool_result_rest t =
     JObj ([(''turn'', JNum (of_nat (tr_turn t))), (''step'', JNum (of_nat (tr_step t))),
            (''message'',
             JObj [(''id'', JStr (tr_id t)), (''role'', JStr ''user''),
                   (''source'', JObj [(''kind'', JStr ''tool''), (''callId'', JStr (tr_callId t))]),
                   (''content'',
                    JArr [JObj ([(''type'', JStr ''tool-result''), (''toolCallId'', JStr (tr_toolCallId t)),
                                 (''content'', JNull)]
                                @ optional ''isError'' (map_option JBool (tr_isError t)))])])]
           @ optional ''error''
               (map_option (\<lambda>(n, c). JObj [(''name'', JStr n), (''code'', JStr c)]) (tr_error t))
           @ optional ''meta'' (tr_meta t))"

definition event_at :: "session_event list \<Rightarrow> nat \<Rightarrow> nat \<Rightarrow> session_event option" where
  "event_at events base n =
     (if base \<le> n \<and> n - base < length events then Some (events ! (n - base)) else None)"

definition tool_result_of :: "session_event option \<Rightarrow> tool_result option" where
  "tool_result_of e = (case e of Some ev \<Rightarrow> (case ev_data ev of ToolResult t \<Rightarrow> Some t | _ \<Rightarrow> None) | None \<Rightarrow> None)"

definition assert_tool_result_rewrite ::
    "session_event \<Rightarrow> nat list \<Rightarrow> session_event list \<Rightarrow> nat \<Rightarrow> string + unit" where
  "assert_tool_result_rewrite e shadowed events base =
     (case ev_data e of
        ToolResult t \<Rightarrow>
          (case shadowed of
             [n] \<Rightarrow>
               (case tool_result_of (event_at events base n) of
                  None \<Rightarrow> Inl ''tool/result surface replacement must target a current tool/result''
                | Some original \<Rightarrow>
                    throw_if (\<not> is_deep_equal_json (tool_result_rest original) (tool_result_rest t))
                      ''tool/result surface replacement may change only content'')
           | _ \<Rightarrow> Inl ''tool/result surface replacement must rewrite exactly one current node'')
      | _ \<Rightarrow> Inr ())"

definition plan_surface_event ::
    "fold_state \<Rightarrow> session_event \<Rightarrow> nat \<Rightarrow> session_event list \<Rightarrow> nat \<Rightarrow> string + surface_plan option" where
  "plan_surface_event st e expected events base =
     (if ev_seq e \<noteq> expected
      then Inl (''session event seq '' @ str_of_nat (ev_seq e) @ '' is not contiguous; expected '' @ str_of_nat expected)
      else and_then (surface_op_of e) (\<lambda>op.
        case op of
          None \<Rightarrow> Inr None
        | Some Op_append \<Rightarrow> and_then (assert_provenance e []) (\<lambda>_. Inr (Some (AppendPlan (ev_seq e))))
        | Some (Op_replace s t) \<Rightarrow>
            and_then (replacement_range st s t) (\<lambda>(i, j, shadowed).
            and_then (assert_provenance e shadowed) (\<lambda>_.
            and_then (assert_tool_result_rewrite e shadowed events base) (\<lambda>_.
              Inr (Some (ReplacePlan
                \<lparr>sr_seq = ev_seq e, sr_start = s, sr_end = t, sr_shadowed = shadowed\<rparr> i j)))))))"

section \<open>Commit and complete replay\<close>

fun apply_surface_plan :: "fold_state \<Rightarrow> surface_plan option \<Rightarrow> fold_state \<times> fold_replacement option" where
  "apply_surface_plan st None = (st, None)"
| "apply_surface_plan st (Some (AppendPlan n)) = (st\<lparr>fs_nodes := fs_nodes st @ [n]\<rparr>, None)"
| "apply_surface_plan st (Some (ReplacePlan r i j)) =
     (st\<lparr>fs_nodes := take i (fs_nodes st) @ [sr_seq r] @ drop (i + (j - i + 1)) (fs_nodes st),
         fs_generation := fs_generation st + 1\<rparr>, Some r)"

definition apply_surface_event ::
    "fold_state \<Rightarrow> session_event \<Rightarrow> nat \<Rightarrow> session_event list \<Rightarrow> nat
      \<Rightarrow> string + (fold_state \<times> fold_replacement option)" where
  "apply_surface_event st e expected events base =
     and_then (plan_surface_event st e expected events base) (\<lambda>p. Inr (apply_surface_plan st p))"

fun fold_surface_from ::
    "session_event list \<Rightarrow> nat \<Rightarrow> fold_state \<Rightarrow> fold_replacement list \<Rightarrow> session_event list
      \<Rightarrow> string + (fold_state \<times> fold_replacement list)" where
  "fold_surface_from events k st reps [] = Inr (st, reps)"
| "fold_surface_from events k st reps (e # es) =
     and_then (apply_surface_event st e k events 0) (\<lambda>(st', r).
       fold_surface_from events (Suc k) st' (case r of None \<Rightarrow> reps | Some x \<Rightarrow> reps @ [x]) es)"

definition fold_surface :: "session_event list \<Rightarrow> string + fold_result" where
  "fold_surface events =
     and_then (fold_surface_from events 0 create_fold_state [] events) (\<lambda>(st, reps).
       Inr \<lparr>sf_nodes = fs_nodes st, sf_replacements = reps\<rparr>)"

section \<open>The incremental manager\<close>

record surface_manager =
  sm_fold :: fold_state
  sm_next :: nat
  sm_pending :: "(session_event \<times> nat \<times> surface_plan option) option"

definition new_surface_manager :: "nat \<Rightarrow> surface_manager" where
  "new_surface_manager base = \<lparr>sm_fold = create_fold_state, sm_next = base, sm_pending = None\<rparr>"

text \<open>
  One event of \<open>_processDelta\<close>: the pending plan is used when it was made for this event at this
  position, otherwise the event is planned now.
\<close>

definition pending_plan :: "surface_manager \<Rightarrow> session_event \<Rightarrow> surface_plan option option" where
  "pending_plan m e =
     (case sm_pending m of
        Some (e', k, p) \<Rightarrow> if e' = e \<and> k = sm_next m then Some p else None
      | None \<Rightarrow> None)"

definition expire_pending :: "surface_manager \<Rightarrow> (session_event \<times> nat \<times> surface_plan option) option" where
  "expire_pending m =
     (case sm_pending m of
        Some (e', k, p) \<Rightarrow> if k \<le> sm_next m then None else Some (e', k, p)
      | None \<Rightarrow> None)"

fun process_events ::
    "session_event list \<Rightarrow> nat \<Rightarrow> surface_manager \<Rightarrow> session_event list \<Rightarrow> (string + unit) \<times> surface_manager" where
  "process_events evs base m [] = (Inr (), m)"
| "process_events evs base m (e # es) =
     (case (case pending_plan m e of
              Some p \<Rightarrow> Inr p
            | None \<Rightarrow> plan_surface_event (sm_fold m) e (sm_next m) evs base) of
        Inl err \<Rightarrow> (Inl err, m)
      | Inr p \<Rightarrow>
          process_events evs base
            \<lparr>sm_fold = fst (apply_surface_plan (sm_fold m) p), sm_next = sm_next m + 1,
             sm_pending = expire_pending m\<rparr> es)"

definition process_delta :: "session_event list \<Rightarrow> nat \<Rightarrow> surface_manager \<Rightarrow> (string + unit) \<times> surface_manager" where
  "process_delta evs base m = process_events evs base m (drop (sm_next m - base) evs)"

definition validate_next ::
    "session_event list \<Rightarrow> nat \<Rightarrow> session_event \<Rightarrow> surface_manager \<Rightarrow> (string + unit) \<times> surface_manager" where
  "validate_next evs base e m =
     (case process_delta evs base m of
        (Inl err, m') \<Rightarrow> (Inl err, m')
      | (Inr _, m') \<Rightarrow>
          (case plan_surface_event (sm_fold m') e (base + length evs) evs base of
             Inl err \<Rightarrow> (Inl err, m')
           | Inr p \<Rightarrow> (Inr (), m'\<lparr>sm_pending := Some (e, base + length evs, p)\<rparr>)))"

definition manager_nodes ::
    "session_event list \<Rightarrow> nat \<Rightarrow> surface_manager \<Rightarrow> (string + nat list) \<times> surface_manager" where
  "manager_nodes evs base m =
     (case process_delta evs base m of
        (Inl err, m') \<Rightarrow> (Inl err, m')
      | (Inr _, m') \<Rightarrow> (Inr (fs_nodes (sm_fold m')), m'))"

definition manager_generation ::
    "session_event list \<Rightarrow> nat \<Rightarrow> surface_manager \<Rightarrow> (string + nat) \<times> surface_manager" where
  "manager_generation evs base m =
     (case process_delta evs base m of
        (Inl err, m') \<Rightarrow> (Inl err, m')
      | (Inr _, m') \<Rightarrow> (Inr (fs_generation (sm_fold m')), m'))"

end
