(* ===== verification/SurfaceManager.thy ===== *)
theory SurfaceManager
  imports SurfaceFacts
begin

text \<open>
  The append boundary of the surface and the incremental manager. \<open>accept_event\<close> plans an event
  against the log and pushes it; the strict-log contract is interpreted on it, its replay agrees
  with the complete fold, and the manager agrees with both whatever the interleaving of pushes,
  validations and reads.
\<close>

section \<open>Accepting one event\<close>

fun accept_event ::
    "session_event list \<times> fold_state \<Rightarrow> session_event \<Rightarrow> string + (session_event list \<times> fold_state)" where
  "accept_event (evs, st) e =
     and_then (plan_surface_event st e (length evs) evs 0) (\<lambda>p.
       Inr (evs @ [e], fst (apply_surface_plan st p)))"

fun surface_inv :: "session_event list \<times> fold_state \<Rightarrow> bool" where
  "surface_inv (evs, st) \<longleftrightarrow>
     (\<exists>reps. surface_partition evs (length evs) (fs_nodes st) reps \<and> (\<forall>r \<in> set reps. replacement_sound evs r)
        \<and> fs_generation st = length reps)
     \<and> (\<forall>n < length evs. ev_seq (evs ! n) = n)"

lemma partition_extend:
  assumes "surface_partition evs (length evs) nodes reps"
  shows "surface_partition (evs @ xs) (length evs) nodes reps"
  using assms unfolding surface_partition_def by (simp add: nth_append cong: conj_cong)

lemma sound_extend: "replacement_sound evs r \<Longrightarrow> replacement_sound (evs @ xs) r"
  by (auto simp: replacement_sound_def nth_append)

lemma accept_event_inv: "surface_inv s \<Longrightarrow> accept_event s e = Inr s' \<Longrightarrow> surface_inv s'"
proof (cases s)
  case (Pair evs st)
  assume inv: "surface_inv s" and acc: "accept_event s e = Inr s'"
  then obtain reps where r: "surface_partition evs (length evs) (fs_nodes st) reps"
      "\<forall>r \<in> set reps. replacement_sound evs r" "fs_generation st = length reps"
      "\<forall>n < length evs. ev_seq (evs ! n) = n"
    using Pair by auto
  obtain p where p: "plan_surface_event st e (length evs) evs 0 = Inr p"
    "s' = (evs @ [e], fst (apply_surface_plan st p))"
    using acc Pair by (auto simp: res_simps)
  obtain st' r' where st': "apply_surface_plan st p = (st', r')" by fastforce
  then have "apply_surface_event st ((evs @ [e]) ! length evs) (length evs) evs 0 = Inr (st', r')"
    using p(1) by (simp add: apply_surface_event_def)
  from apply_event_partition [OF partition_extend [OF r(1)] _ _ r(3) this] r(2,4) p(2) st'
  show "surface_inv s'" by (auto intro: sound_extend simp: nth_append less_Suc_eq)
qed

interpretation surface_log: strict_log accept_event surface_inv
  by unfold_locales (rule accept_event_inv)

abbreviation init_surface :: "session_event list \<times> fold_state" where
  "init_surface \<equiv> ([], create_fold_state)"

lemma surface_inv_init [simp]: "surface_inv init_surface"
  by (auto simp: create_fold_state_def surface_partition_def intro!: exI [of _ "[]"])

lemma replay_accept_log: "replay accept_event (evs, st) es = Inr (evs', st') \<Longrightarrow> evs' = evs @ es"
  by (induction es arbitrary: evs st) (fastforce simp: res_simps)+

section \<open>Agreement with the complete fold\<close>

text \<open>A plan only looks at events that are on the surface already.\<close>

lemma plan_prefix:
  assumes "\<forall>n \<in> set (fs_nodes st). n < length evs"
  shows "plan_surface_event st e k (evs @ xs) 0 = plan_surface_event st e k evs 0"
proof -
  have "assert_tool_result_rewrite e sh (evs @ xs) 0 = assert_tool_result_rewrite e sh evs 0"
    if "replacement_range st s t = Inr (i, j, sh)" for i j sh s t
  proof -
    have "set sh \<subseteq> set (fs_nodes st)"
      using replacement_range_Inr [OF that] by (auto dest: in_set_takeD in_set_dropD)
    with assms have "\<forall>n \<in> set sh. n < length evs" by blast
    then show ?thesis
      by (auto simp: assert_tool_result_rewrite_def event_at_def nth_append split: event_data.splits list.splits)
  qed
  then have key: "and_then (replacement_range st s t) (\<lambda>(i, j, sh).
      and_then (assert_provenance e sh) (\<lambda>_. and_then (assert_tool_result_rewrite e sh (evs @ xs) 0) (\<lambda>_. f i j sh)))
    = and_then (replacement_range st s t) (\<lambda>(i, j, sh).
      and_then (assert_provenance e sh) (\<lambda>_. and_then (assert_tool_result_rewrite e sh evs 0) (\<lambda>_. f i j sh)))"
    for s t and f :: "nat \<Rightarrow> nat \<Rightarrow> nat list \<Rightarrow> string + surface_plan option"
    by (cases "replacement_range st s t") auto
  show ?thesis by (simp only: plan_surface_event_def key)
qed

lemma surface_inv_nodes: "surface_inv (evs, st) \<Longrightarrow> n \<in> set (fs_nodes st) \<Longrightarrow> n < length evs"
  by (auto dest: partition_nodes_less)

lemma fold_replay:
  assumes "surface_inv (evs, st)"
  shows "case replay accept_event (evs, st) es of
      Inl err \<Rightarrow> fold_surface_from (evs @ es) (length evs) st reps es = Inl err
    | Inr s \<Rightarrow> \<exists>reps'. fold_surface_from (evs @ es) (length evs) st reps es = Inr (snd s, reps')"
  using assms
proof (induction es arbitrary: evs st reps)
  case (Cons e es)
  have plan: "plan_surface_event st e (length evs) (evs @ e # es) 0 = plan_surface_event st e (length evs) evs 0"
    using surface_inv_nodes [OF Cons.prems] by (intro plan_prefix) blast
  show ?case
  proof (cases "plan_surface_event st e (length evs) evs 0")
    case (Inl err)
    with plan show ?thesis by (simp add: apply_surface_event_def)
  next
    case (Inr p)
    obtain st' r where st': "apply_surface_plan st p = (st', r)" by fastforce
    from Inr st' have "accept_event (evs, st) e = Inr (evs @ [e], st')" by simp
    from Cons.IH [OF accept_event_inv [OF Cons.prems this],
        of "case r of None \<Rightarrow> reps | Some x \<Rightarrow> reps @ [x]"]
    show ?thesis using plan Inr st'
      by (cases "replay accept_event (evs @ [e], st') es") (simp_all add: apply_surface_event_def)
  qed
qed simp

definition surface_run :: "session_event list \<Rightarrow> string + (session_event list \<times> fold_state)" where
  "surface_run evs = replay accept_event init_surface evs"

lemma surface_run_Inr:
  assumes "surface_run evs = Inr s"
  shows "fst s = evs" "surface_inv s"
  using assms replay_accept_log [of "[]" create_fold_state evs "fst s" "snd s"]
    surface_log.replay_inv [OF surface_inv_init]
  by (auto simp: surface_run_def)

lemma surface_run_snoc:
  "surface_run xs = Inr (xs, st) \<Longrightarrow> surface_run (xs @ [e]) = accept_event (xs, st) e"
  by (simp add: surface_run_def replay_snoc)

lemma surface_run_prefix_error: "surface_run xs = Inl err \<Longrightarrow> surface_run (xs @ ys) = Inl err"
  by (simp add: surface_run_def replay_append)

lemma fold_surface_run:
  "fold_surface evs = (case surface_run evs of Inl err \<Rightarrow> Inl err
     | Inr s \<Rightarrow> fold_surface evs) \<and> (\<forall>s. surface_run evs = Inr s \<longrightarrow>
       (\<exists>res. fold_surface evs = Inr res \<and> sf_nodes res = fs_nodes (snd s)
          \<and> length (sf_replacements res) = fs_generation (snd s)))"
proof -
  note f = fold_replay [OF surface_inv_init, of evs "[]"]
  show ?thesis
  proof (cases "surface_run evs")
    case (Inl err)
    with f show ?thesis by (simp add: surface_run_def fold_surface_def)
  next
    case (Inr s)
    with f obtain reps where "fold_surface_from evs 0 create_fold_state [] evs = Inr (snd s, reps)"
      by (auto simp: surface_run_def)
    with fold_from_init [OF this] Inr show ?thesis by (simp add: fold_surface_def)
  qed
qed

lemma fold_surface_iff_run: "is_ok (fold_surface evs) \<longleftrightarrow> is_ok (surface_run evs)"
  using fold_surface_run [of evs] by (cases "surface_run evs") auto

section \<open>The manager\<close>

definition pending_ok :: "session_event list \<Rightarrow> nat \<Rightarrow> session_event \<times> nat \<times> surface_plan option \<Rightarrow> bool" where
  "pending_ok evs next' = (\<lambda>(e, k, p). next' \<le> k \<and> k \<le> length evs
     \<and> (\<exists>st. surface_run (take k evs) = Inr (take k evs, st)
          \<and> plan_surface_event st e k (take k evs) 0 = Inr p))"

definition manager_ok :: "session_event list \<Rightarrow> surface_manager \<Rightarrow> bool" where
  "manager_ok evs m \<longleftrightarrow>
     sm_next m \<le> length evs
     \<and> surface_run (take (sm_next m) evs) = Inr (take (sm_next m) evs, sm_fold m)
     \<and> (\<forall>x. sm_pending m = Some x \<longrightarrow> pending_ok evs (sm_next m) x)"

lemma manager_ok_new: "manager_ok evs (new_surface_manager 0)"
  by (simp add: manager_ok_def new_surface_manager_def surface_run_def)

lemma manager_ok_push: "manager_ok evs m \<Longrightarrow> manager_ok (evs @ [e]) m"
  by (auto simp: manager_ok_def pending_ok_def)

text \<open>The plan the manager commits at the next position is the one the current log gives.\<close>

lemma manager_plan:
  assumes ok: "manager_ok evs m" and n: "sm_next m < length evs" and e: "e = evs ! sm_next m"
  shows "(case pending_plan m e of Some p \<Rightarrow> Inr p
      | None \<Rightarrow> plan_surface_event (sm_fold m) e (sm_next m) evs 0)
    = plan_surface_event (sm_fold m) e (sm_next m) (take (sm_next m) evs) 0"
proof (cases "pending_plan m e")
  case None
  have run: "surface_run (take (sm_next m) evs) = Inr (take (sm_next m) evs, sm_fold m)"
    using ok by (simp add: manager_ok_def)
  have "plan_surface_event (sm_fold m) e (sm_next m) (take (sm_next m) evs @ drop (sm_next m) evs) 0
    = plan_surface_event (sm_fold m) e (sm_next m) (take (sm_next m) evs) 0"
    using surface_inv_nodes [OF surface_run_Inr(2) [OF run]] by (intro plan_prefix) blast
  with None show ?thesis by simp
next
  case (Some p)
  then have "sm_pending m = Some (e, sm_next m, p)"
    by (auto simp: pending_plan_def split: option.splits if_splits)
  with ok have "pending_ok evs (sm_next m) (e, sm_next m, p)"
    "surface_run (take (sm_next m) evs) = Inr (take (sm_next m) evs, sm_fold m)"
    by (auto simp: manager_ok_def)
  with Some show ?thesis by (auto simp: pending_ok_def)
qed

lemma manager_ok_step:
  assumes ok: "manager_ok evs m" and n: "sm_next m < length evs"
    and p: "plan_surface_event (sm_fold m) (evs ! sm_next m) (sm_next m) (take (sm_next m) evs) 0 = Inr p"
  shows "manager_ok evs \<lparr>sm_fold = fst (apply_surface_plan (sm_fold m) p), sm_next = sm_next m + 1,
    sm_pending = expire_pending m\<rparr>"
proof -
  have "surface_run (take (sm_next m) evs) = Inr (take (sm_next m) evs, sm_fold m)"
    using ok by (simp add: manager_ok_def)
  from surface_run_snoc [OF this, of "evs ! sm_next m"] p n
  have "surface_run (take (sm_next m + 1) evs) =
    Inr (take (sm_next m + 1) evs, fst (apply_surface_plan (sm_fold m) p))"
    by (simp add: take_Suc_conv_app_nth)
  moreover have "pending_ok evs (sm_next m + 1) x" if "expire_pending m = Some x" for x
    using that ok by (cases x) (auto simp: manager_ok_def pending_ok_def expire_pending_def
      split: option.splits prod.splits if_splits)
  ultimately show ?thesis using n by (simp add: manager_ok_def)
qed

lemma process_events_run:
  assumes "manager_ok evs m" "es = drop (sm_next m) evs"
  shows "manager_ok evs (snd (process_events evs 0 m es))
    \<and> (case surface_run evs of
         Inl err \<Rightarrow> fst (process_events evs 0 m es) = Inl err
       | Inr s \<Rightarrow> fst (process_events evs 0 m es) = Inr ()
           \<and> sm_fold (snd (process_events evs 0 m es)) = snd s
           \<and> sm_next (snd (process_events evs 0 m es)) = length evs)"
  using assms
proof (induction es arbitrary: m)
  case Nil
  then have "sm_next m = length evs" by (simp add: manager_ok_def)
  with Nil show ?case by (simp add: manager_ok_def)
next
  case (Cons e es)
  from Cons_eq_drop [OF Cons.prems(2)] have n: "sm_next m < length evs" and e: "e = evs ! sm_next m"
    and es: "es = drop (Suc (sm_next m)) evs" by simp_all
  have run: "surface_run (take (sm_next m) evs) = Inr (take (sm_next m) evs, sm_fold m)"
    using Cons.prems(1) by (simp add: manager_ok_def)
  note plan = manager_plan [OF Cons.prems(1) n e]
  show ?case
  proof (cases "plan_surface_event (sm_fold m) e (sm_next m) (take (sm_next m) evs) 0")
    case (Inl err)
    with surface_run_snoc [OF run, of e] n e have "surface_run (take (Suc (sm_next m)) evs) = Inl err"
      by (simp add: take_Suc_conv_app_nth)
    from surface_run_prefix_error [OF this, of "drop (Suc (sm_next m)) evs"]
    have "surface_run evs = Inl err" by simp
    with plan Inl Cons.prems(1) show ?thesis by simp
  next
    case (Inr p)
    let ?m = "\<lparr>sm_fold = fst (apply_surface_plan (sm_fold m) p), sm_next = sm_next m + 1,
      sm_pending = expire_pending m\<rparr>"
    have step: "process_events evs 0 m (e # es) = process_events evs 0 ?m es"
      using plan Inr by simp
    show ?thesis
      unfolding step by (rule Cons.IH [OF manager_ok_step [OF Cons.prems(1) n Inr [unfolded e]]]) (simp add: es)
  qed
qed

lemma process_delta_run:
  assumes "manager_ok evs m"
  shows "manager_ok evs (snd (process_delta evs 0 m))"
    and "surface_run evs = Inl err \<Longrightarrow> fst (process_delta evs 0 m) = Inl err"
    and "surface_run evs = Inr s \<Longrightarrow> fst (process_delta evs 0 m) = Inr ()
      \<and> sm_fold (snd (process_delta evs 0 m)) = snd s \<and> sm_next (snd (process_delta evs 0 m)) = length evs"
  using process_events_run [OF assms refl] by (simp_all add: process_delta_def)

lemma manager_ok_read:
  assumes "manager_ok evs m"
  shows "manager_ok evs (snd (manager_nodes evs 0 m))" "manager_ok evs (snd (manager_generation evs 0 m))"
  using process_delta_run(1) [OF assms]
  by (auto simp: manager_nodes_def manager_generation_def split: prod.splits sum.splits)

lemma validate_next_cases:
  assumes "manager_ok evs m"
  shows "manager_ok evs (snd (validate_next evs 0 e m))"
    and "fst (validate_next evs 0 e m) = and_then (surface_run evs) (\<lambda>s. and_then (accept_event s e) (\<lambda>_. Inr ()))"
proof -
  obtain r m' where d: "process_delta evs 0 m = (r, m')" by fastforce
  note run = process_delta_run [OF assms, unfolded d, simplified]
  show "manager_ok evs (snd (validate_next evs 0 e m))"
  proof (cases "surface_run evs")
    case (Inl err)
    with run d show ?thesis by (simp add: validate_next_def)
  next
    case (Inr s)
    with surface_run_Inr(1) [OF Inr] have s: "surface_run evs = Inr (evs, snd s)" by (cases s) simp
    with run d show ?thesis
      by (auto simp: validate_next_def manager_ok_def pending_ok_def split: sum.splits)
  qed
  show "fst (validate_next evs 0 e m) = and_then (surface_run evs) (\<lambda>s. and_then (accept_event s e) (\<lambda>_. Inr ()))"
  proof (cases "surface_run evs")
    case (Inl err)
    with run d show ?thesis by (simp add: validate_next_def)
  next
    case (Inr s)
    with surface_run_Inr(1) [OF Inr] have s: "s = (evs, snd s)" by (cases s) simp
    show ?thesis
      using run(3) [OF Inr] d
      by (subst Inr, subst s) (auto simp: validate_next_def and_then_def split: sum.splits)
  qed
qed

text \<open>Any interleaving of pushes on the log, validations and reads of the manager.\<close>

inductive manager_reach :: "session_event list \<Rightarrow> surface_manager \<Rightarrow> bool" where
  mr_new: "manager_reach evs (new_surface_manager 0)"
| mr_push: "manager_reach evs m \<Longrightarrow> manager_reach (evs @ [e]) m"
| mr_validate: "manager_reach evs m \<Longrightarrow> manager_reach evs (snd (validate_next evs 0 e m))"
| mr_nodes: "manager_reach evs m \<Longrightarrow> manager_reach evs (snd (manager_nodes evs 0 m))"
| mr_generation: "manager_reach evs m \<Longrightarrow> manager_reach evs (snd (manager_generation evs 0 m))"

lemma manager_reach_ok: "manager_reach evs m \<Longrightarrow> manager_ok evs m"
  by (induction rule: manager_reach.induct)
    (auto intro: manager_ok_new manager_ok_push manager_ok_read validate_next_cases(1))

end
