(* ===== verification/SessionSeed.thy ===== *)
theory SessionSeed
  imports SessionEvents
begin

text \<open>
  What a session checks of stored data before it replays it (\<open>core/session/src/index.ts\<close>): the
  creation header, the event envelope, the shape of the identified messages and of request headers.
  The checks read JSON values; \<open>encode_event\<close> is the JSON object of an event, the form in which
  the constructor sees a typed seed event. The errors carry what their messages interpolate.
\<close>

datatype shape_error =
    No_identified_message | Wrong_role string | Invalid_source | Invalid_content | No_model_source
  | No_tool_source | Not_one_tool_result | Mismatched_call_ids

datatype header_error =
    Header_not_record | Header_version "json option" | Header_id "json option" | Header_createdAt
  | Header_cwd_type | Header_cwd_relative string | Header_parentSession | Header_seedLength
  | Header_origin | Header_delegationDepth | Header_agentPreset

datatype seed_error =
    Legacy_header_delta | Legacy_fallback_reason | Invalid_envelope | No_provider_model
  | Invalid_reasoningEffort | Invalid_adapterDefaults | Bad_shape shape_error
  | Seq_mismatch nat | Bad_surface string

section \<open>Creation headers\<close>

definition is_event_count :: "json option \<Rightarrow> bool" where
  "is_event_count v =
     (case v of
        Some (JNum r) \<Rightarrow> (case safe_integer_of (Finite r) of Some k \<Rightarrow> 0 \<le> k | None \<Rightarrow> False)
      | _ \<Rightarrow> False)"

text \<open>\<open>node:path\<close>'s \<open>isAbsolute\<close> on a POSIX host.\<close>

definition is_absolute :: "string \<Rightarrow> bool" where
  "is_absolute p = starts_with ''/'' p"

definition session_format_version :: rat where
  "session_format_version = 0"

definition validate_session_header :: "string \<Rightarrow> json option \<Rightarrow> header_error + json" where
  "validate_session_header sid input =
     (case input of
        Some (JObj r) \<Rightarrow>
          and_then (throw_if (map_of r ''version'' \<noteq> Some (JNum session_format_version))
            (Header_version (map_of r ''version''))) (\<lambda>_.
          and_then (throw_if (map_of r ''id'' \<noteq> Some (JStr sid)) (Header_id (map_of r ''id''))) (\<lambda>_.
          and_then (throw_if (\<not> is_event_count (map_of r ''createdAt'')) Header_createdAt) (\<lambda>_.
          and_then (case map_of r ''cwd'' of
                      None \<Rightarrow> Inr ()
                    | Some (JStr p) \<Rightarrow> throw_if (\<not> is_absolute p) (Header_cwd_relative p)
                    | Some _ \<Rightarrow> Inl Header_cwd_type) (\<lambda>_.
          and_then (throw_if (map_of r ''parentSession'' \<noteq> None \<and> \<not> is_string (map_of r ''parentSession''))
            Header_parentSession) (\<lambda>_.
          and_then (throw_if (map_of r ''seedLength'' \<noteq> None \<and> \<not> is_event_count (map_of r ''seedLength''))
            Header_seedLength) (\<lambda>_.
          and_then (throw_if (map_of r ''origin'' \<noteq> None \<and> map_of r ''origin'' \<noteq> Some (JStr ''subagent''))
            Header_origin) (\<lambda>_.
          and_then (throw_if (map_of r ''delegationDepth'' \<noteq> None
              \<and> \<not> is_event_count (map_of r ''delegationDepth'')) Header_delegationDepth) (\<lambda>_.
          and_then (throw_if (map_of r ''agentPreset'' \<noteq> None \<and> \<not> is_string (map_of r ''agentPreset''))
            Header_agentPreset) (\<lambda>_. Inr (JObj r))))))))))
      | _ \<Rightarrow> Inl Header_not_record)"

section \<open>Event shapes\<close>

definition has_provider_model :: "json option \<Rightarrow> bool" where
  "has_provider_model v \<longleftrightarrow>
     (is_record v \<or> is_array v) \<and> is_text (field_of ''provider'' v) \<and> is_text (field_of ''model'' v)"

definition message_event_types :: "string list" where
  "message_event_types = [''user/message'', ''assistant/message'', ''tool/result'']"

text \<open>\<open>typeof v === 'object' && v !== null\<close>.\<close>

definition is_object :: "json option \<Rightarrow> bool" where
  "is_object v \<longleftrightarrow> is_record v \<or> is_array v"

definition array_items :: "json option \<Rightarrow> json list" where
  "array_items v = (case v of Some (JArr xs) \<Rightarrow> xs | _ \<Rightarrow> [])"

definition first_item :: "json list \<Rightarrow> json option" where
  "first_item xs = (case xs of [] \<Rightarrow> None | x # _ \<Rightarrow> Some x)"

definition assert_message_event_shape :: "string \<Rightarrow> json option \<Rightarrow> shape_error + unit" where
  "assert_message_event_shape type data =
     (if type \<notin> set message_event_types then Inr ()
      else
        let record = (if is_object data then data else None);
            message = (if type = ''user/message'' then record else field_of ''message'' record);
            role = (if type = ''assistant/message'' then ''assistant'' else ''user'');
            source = field_of ''source'' message;
            items = array_items (field_of ''content'' message)
        in
        and_then (throw_if (\<not> is_object message \<or> \<not> is_text (field_of ''id'' message)) No_identified_message) (\<lambda>_.
        and_then (throw_if (field_of ''role'' message \<noteq> Some (JStr role)) (Wrong_role role)) (\<lambda>_.
        and_then (throw_if (\<not> is_object source \<or> \<not> is_text (field_of ''kind'' source)) Invalid_source) (\<lambda>_.
        and_then (throw_if (\<not> is_array (field_of ''content'' message)) Invalid_content) (\<lambda>_.
        if type = ''assistant/message''
        then throw_if (field_of ''kind'' source \<noteq> Some (JStr ''model'') \<or> \<not> has_provider_model source) No_model_source
        else if type \<noteq> ''tool/result'' then Inr ()
        else
          and_then (throw_if (field_of ''kind'' source \<noteq> Some (JStr ''tool'') \<or> \<not> is_text (field_of ''callId'' source))
            No_tool_source) (\<lambda>_.
          and_then (throw_if (length items \<noteq> 1 \<or> \<not> is_object (first_item items)
              \<or> field_of ''type'' (first_item items) \<noteq> Some (JStr ''tool-result'')
              \<or> \<not> is_array (field_of ''content'' (first_item items))) Not_one_tool_result) (\<lambda>_.
          throw_if (field_of ''toolCallId'' (first_item items) \<noteq> field_of ''callId'' source)
            Mismatched_call_ids)))))))"

definition allowed_adapter_keys :: "string list" where
  "allowed_adapter_keys = [''reasoningEffort'', ''maxTokens'']"

definition assert_adapter_defaults :: "json option \<Rightarrow> json option \<Rightarrow> seed_error + unit" where
  "assert_adapter_defaults v config =
     (case v of
        None \<Rightarrow> Inr ()
      | Some (JObj defaults) \<Rightarrow>
          throw_if ((\<exists>f \<in> set defaults. fst f \<notin> set allowed_adapter_keys)
              \<or> (\<exists>f \<in> set defaults. snd f \<noteq> JBool True)
              \<or> map_of defaults ''reasoningEffort'' = Some (JBool True) \<and> field_of ''reasoningEffort'' config = None
              \<or> map_of defaults ''maxTokens'' = Some (JBool True) \<and> field_of ''maxTokens'' config = None)
            Invalid_adapterDefaults
      | Some _ \<Rightarrow> Inl Invalid_adapterDefaults)"

definition map_error :: "('a \<Rightarrow> 'b) \<Rightarrow> 'a + 'c \<Rightarrow> 'b + 'c" where
  "map_error f r = (case r of Inl e \<Rightarrow> Inl (f e) | Inr x \<Rightarrow> Inr x)"

definition assert_current_llm_shape :: "string \<Rightarrow> json option \<Rightarrow> seed_error + unit" where
  "assert_current_llm_shape type data =
     (let record = (if is_object data then data else None);
          header = field_of ''header'' record;
          headerRecord = (if is_record header then header else None);
          config = field_of ''config'' headerRecord;
          effort = field_of ''reasoningEffort'' config
      in and_then (if type = ''request/header''
           then and_then (throw_if (\<not> has_provider_model config) No_provider_model) (\<lambda>_.
                and_then (throw_if (effort \<noteq> None \<and> \<not> is_text effort) Invalid_reasoningEffort) (\<lambda>_.
                assert_adapter_defaults (field_of ''adapterDefaults'' headerRecord) config))
           else Inr ()) (\<lambda>_.
         map_error Bad_shape (assert_message_event_shape type data)))"

definition envelope_keys :: "string list" where
  "envelope_keys = [''type'', ''seq'', ''time'', ''data'', ''surfaceOp'', ''sourceEventSeqs'', ''ignorable'']"

definition is_safe_integer :: "json option \<Rightarrow> bool" where
  "is_safe_integer v = (case v of Some (JNum r) \<Rightarrow> safe_integer_of (Finite r) \<noteq> None | _ \<Rightarrow> False)"

definition assert_session_event_envelope :: "(string \<times> json) list \<Rightarrow> seed_error + unit" where
  "assert_session_event_envelope event =
     (if map_of event ''type'' = Some (JStr ''request/header-delta'') then Inl Legacy_header_delta
      else if \<exists>f \<in> set event. fst f \<notin> set envelope_keys then Inl Invalid_envelope
      else
        (case map_of event ''type'' of
           Some (JStr type) \<Rightarrow>
             if \<not> is_event_count (map_of event ''seq'') \<or> \<not> is_safe_integer (map_of event ''time'')
                \<or> map_of event ''data'' = None
                \<or> map_of event ''ignorable'' \<noteq> None \<and> map_of event ''ignorable'' \<noteq> Some (JBool True)
             then Inl Invalid_envelope
             else if type = ''request/header'' \<or> type \<in> set message_event_types
             then assert_current_llm_shape type (map_of event ''data'')
             else Inr ()
         | _ \<Rightarrow> Inl Invalid_envelope))"

definition assert_supported_request_header :: "string \<Rightarrow> json option \<Rightarrow> seed_error + unit" where
  "assert_supported_request_header type data =
     (if type = ''request/header-delta'' then Inl Legacy_header_delta
      else throw_if (type = ''request/header'' \<and> is_record data
                     \<and> field_of ''reason'' data = Some (JStr ''fallback'')) Legacy_fallback_reason)"

section \<open>The JSON object of an event\<close>

definition json_nat :: "nat \<Rightarrow> json" where
  "json_nat n = JNum (of_nat n)"

definition marker :: "bool \<Rightarrow> json option" where
  "marker b = (if b then Some (JBool True) else None)"

fun encode_block :: "content_block \<Rightarrow> json" where
  "encode_block (TextBlock t) = JObj [(''type'', JStr ''text''), (''text'', JStr t)]"
| "encode_block (ReasoningBlock t) = JObj [(''type'', JStr ''reasoning''), (''text'', JStr t)]"
| "encode_block (ImageBlock a) = JObj [(''type'', JStr ''image''), (''attachment'', a)]"
| "encode_block (ToolCallBlock i n a) =
     JObj [(''type'', JStr ''tool-call''), (''id'', JStr i), (''name'', JStr n), (''arguments'', JStr a)]"
| "encode_block (ToolResultBlock i content err) =
     JObj ([(''type'', JStr ''tool-result''), (''toolCallId'', JStr i),
            (''content'', JArr (map encode_block content))] @ optional ''isError'' (map_option JBool err))"

fun encode_source :: "message_source \<Rightarrow> json" where
  "encode_source UserSource = JObj [(''kind'', JStr ''user'')]"
| "encode_source (PluginSource p formed) =
     JObj ([(''kind'', JStr ''plugin''), (''plugin'', JStr p)] @ (case formed of JObj fs \<Rightarrow> fs | _ \<Rightarrow> []))"
| "encode_source (ModelSource p m replay') =
     JObj ([(''kind'', JStr ''model''), (''provider'', JStr p), (''model'', JStr m)]
           @ optional ''replayState'' replay')"
| "encode_source (ToolSource c) = JObj [(''kind'', JStr ''tool''), (''callId'', JStr c)]"
| "encode_source (MergedSource k fs) = JObj ((''kind'', JStr k) # fs)"

fun encode_role :: "message_role \<Rightarrow> json" where
  "encode_role Role_system = JStr ''system''"
| "encode_role Role_user = JStr ''user''"
| "encode_role Role_assistant = JStr ''assistant''"

definition encode_message :: "message \<Rightarrow> json" where
  "encode_message m =
     JObj [(''id'', JStr (msg_id m)), (''role'', encode_role (msg_role m)),
           (''content'', JArr (map encode_block (msg_content m))), (''source'', encode_source (msg_source m))]"

definition encode_header :: "epoch_header \<Rightarrow> json" where
  "encode_header h =
     JObj ([(''config'',
             JObj ([(''provider'', JStr (cc_provider (eh_config h))), (''model'', JStr (cc_model (eh_config h)))]
               @ optional ''reasoningEffort'' (map_option JStr (cc_reasoningEffort (eh_config h)))
               @ optional ''temperature'' (map_option JNum (cc_temperature (eh_config h)))
               @ optional ''maxTokens'' (map_option JNum (cc_maxTokens (eh_config h)))
               @ optional ''stop'' (map_option (JArr \<circ> map JStr) (cc_stop (eh_config h)))))]
           @ optional ''adapterDefaults''
               (map_option (\<lambda>d. JObj (optional ''reasoningEffort'' (marker (ad_reasoningEffort d))
                                  @ optional ''maxTokens'' (marker (ad_maxTokens d)))) (eh_adapterDefaults h))
           @ optional ''system'' (map_option JStr (eh_system h))
           @ optional ''tools'' (map_option JArr (eh_tools h)))"

fun encode_end_reason :: "turn_end_reason \<Rightarrow> json" where
  "encode_end_reason End_completed = JObj [(''kind'', JStr ''completed'')]"
| "encode_end_reason (End_aborted r) = JObj [(''kind'', JStr ''aborted''), (''reason'', r)]"
| "encode_end_reason End_blocked = JObj [(''kind'', JStr ''blocked'')]"
| "encode_end_reason (End_error f) = JObj [(''kind'', JStr ''error''), (''error'', f)]"
| "encode_end_reason End_max_tokens = JObj [(''kind'', JStr ''max-tokens'')]"
| "encode_end_reason End_interrupted = JObj [(''kind'', JStr ''interrupted'')]"

fun encode_reason :: "header_reason \<Rightarrow> json" where
  "encode_reason Reason_initial = JStr ''initial''"
| "encode_reason Reason_resume = JStr ''resume''"
| "encode_reason Reason_change = JStr ''change''"

definition turn_step :: "nat \<Rightarrow> nat \<Rightarrow> (string \<times> json) list" where
  "turn_step t s = [(''turn'', json_nat t), (''step'', json_nat s)]"

fun encode_data :: "event_data \<Rightarrow> json" where
  "encode_data (TurnStart t) = JObj [(''turn'', json_nat t)]"
| "encode_data (TurnEnd t r) = JObj [(''turn'', json_nat t), (''reason'', encode_end_reason r)]"
| "encode_data (StepStart t s) = JObj (turn_step t s)"
| "encode_data (StepEnd t s) = JObj (turn_step t s)"
| "encode_data (UserMessage m) = encode_message m"
| "encode_data (AssistantChunk t s c) = JObj (turn_step t s @ [(''chunk'', c)])"
| "encode_data (AssistantMessage t s m usage interrupted) =
     JObj (turn_step t s @ [(''message'', encode_message m)] @ optional ''usage'' usage
           @ optional ''interrupted'' (marker interrupted))"
| "encode_data (ToolCall t s c n a) =
     JObj (turn_step t s @ [(''callId'', JStr c), (''name'', JStr n), (''arguments'', JStr a)])"
| "encode_data (ToolResult r) =
     JObj (turn_step (tr_turn r) (tr_step r) @ [(''message'', encode_message (tool_message r))]
           @ optional ''error''
               (map_option (\<lambda>(n, c). JObj [(''name'', JStr n), (''code'', JStr c)]) (tr_error r))
           @ optional ''meta'' (tr_meta r))"
| "encode_data (TodoWrite todos) = JObj [(''todos'', todos)]"
| "encode_data (RequestHeader h r) = JObj [(''header'', encode_header h), (''reason'', encode_reason r)]"
| "encode_data (RequestContext c) =
     JObj ([(''provider'', JStr (rq_provider c)), (''model'', JStr (rq_model c))]
           @ optional ''contextWindow'' (map_option JNum (rq_contextWindow c)))"
| "encode_data EndSeed = JObj []"
| "encode_data (InboxSpliced s) =
     JObj ([(''target'', JStr (case sp_target s of Next_turn \<Rightarrow> ''next-turn'' | Next_step \<Rightarrow> ''next-step'')),
            (''start'', json_nat (sp_start s))]
           @ optional ''removedCount'' (map_option json_nat (sp_removedCount s))
           @ [(''inserted'', JArr (map encode_message (sp_inserted s)))]
           @ (if sp_canceled s then [(''outcome'', JStr ''canceled'')] else []))"
| "encode_data (PluginEvent t d) = d"

definition encode_event :: "session_event \<Rightarrow> (string \<times> json) list" where
  "encode_event e =
     [(''type'', JStr (ev_type e)), (''seq'', json_nat (ev_seq e)), (''time'', JNum (of_int (ev_time e))),
      (''data'', encode_data (ev_data e))]
     @ optional ''ignorable'' (marker (ev_ignorable e)) @ optional ''surfaceOp'' (ev_surfaceOp e)
     @ optional ''sourceEventSeqs'' (ev_sources e)"

end
