(* ===== verification/SessionLog.thy ===== *)
theory SessionLog
  imports SurfaceManager SessionSeed
begin

text \<open>
  One session (\<open>core/session/src/index.ts\<close>, class \<open>Session\<close>) and its request headers
  (\<open>request-header.ts\<close>): the append-only log, its surface manager, the header, the caches of the
  folded request header, request context and derived messages, and the operations on them:
  construction from a seed, \<open>append\<close>, \<open>requestHeader\<close>, \<open>requestContext\<close>, \<open>deriveMessages\<close>; and
  the fork of a session at a turn boundary (\<open>SessionStore._forkSeed\<close>, \<open>fork\<close>).

  \<open>snapshotJsonValue\<close> and the freezing are the identity here: the payloads of the model are JSON
  values already and values do not change. \<open>sn_appending\<close> is the \<open>appending\<close> flag of the store
  entry of an attached session, \<open>None\<close> for a detached one. The dispatch checks that may veto an
  append of an attached session (Cordis listeners) are the parameter \<open>veto\<close>; the observers that
  run after the push are contained and change nothing here.
\<close>

section \<open>Request headers\<close>

definition call_config_equals :: "call_config \<Rightarrow> call_config \<Rightarrow> bool" where
  "call_config_equals a b \<longleftrightarrow>
     cc_provider a = cc_provider b \<and> cc_model a = cc_model b
     \<and> cc_reasoningEffort a = cc_reasoningEffort b \<and> cc_temperature a = cc_temperature b
     \<and> cc_maxTokens a = cc_maxTokens b
     \<and> (case (cc_stop a, cc_stop b) of
          (Some xs, Some ys) \<Rightarrow> length xs = length ys \<and> list_all2 (=) xs ys
        | (x, y) \<Rightarrow> x = None \<and> y = None)"

definition canonical_header :: "epoch_header \<Rightarrow> epoch_header" where
  "canonical_header h =
     \<lparr>eh_config = eh_config h,
      eh_adapterDefaults =
        (case eh_adapterDefaults h of
           Some d \<Rightarrow> if ad_reasoningEffort d \<or> ad_maxTokens d then Some d else None
         | None \<Rightarrow> None),
      eh_system = (case eh_system h of Some s \<Rightarrow> if js_length s > 0 then Some s else None | None \<Rightarrow> None),
      eh_tools = (case eh_tools h of Some ts \<Rightarrow> if length ts > 0 then Some ts else None | None \<Rightarrow> None)\<rparr>"

text \<open>\<open>JSON.stringify\<close> is injective on JSON values with ordered properties.\<close>

definition same_schema :: "json \<Rightarrow> json \<Rightarrow> bool" where
  "same_schema a b \<longleftrightarrow> a = b"

definition header_equals :: "epoch_header \<Rightarrow> epoch_header \<Rightarrow> bool" where
  "header_equals a b \<longleftrightarrow>
     call_config_equals (eh_config a) (eh_config b)
     \<and> (map_option ad_reasoningEffort (eh_adapterDefaults a) = Some True
         \<longleftrightarrow> map_option ad_reasoningEffort (eh_adapterDefaults b) = Some True)
     \<and> (map_option ad_maxTokens (eh_adapterDefaults a) = Some True
         \<longleftrightarrow> map_option ad_maxTokens (eh_adapterDefaults b) = Some True)
     \<and> eh_system a = eh_system b
     \<and> list_all2 same_schema (case eh_tools a of Some ts \<Rightarrow> ts | None \<Rightarrow> [])
         (case eh_tools b of Some ts \<Rightarrow> ts | None \<Rightarrow> [])"

fun fold_request_header :: "session_event list \<Rightarrow> epoch_header option \<Rightarrow> epoch_header option" where
  "fold_request_header [] state = state"
| "fold_request_header (e # es) state =
     fold_request_header es
       (case ev_data e of RequestHeader h _ \<Rightarrow> Some (canonical_header h) | _ \<Rightarrow> state)"

fun fold_request_context :: "session_event list \<Rightarrow> request_context option \<Rightarrow> request_context option" where
  "fold_request_context [] state = state"
| "fold_request_context (e # es) state =
     fold_request_context es (case ev_data e of RequestContext c \<Rightarrow> Some c | _ \<Rightarrow> state)"

section \<open>The session\<close>

datatype session_error =
    Unsupported seed_error
  | Reentrant_append
  | Surface_rejected string
  | Vetoed string
  | Bad_seed nat seed_error
  | Bad_header header_error

record session =
  sn_log :: "session_event list"
  sn_manager :: surface_manager
  sn_header :: json
  sn_firstLiveSeq :: nat
  sn_appending :: "bool option"
  sn_headerFold :: "epoch_header option"
  sn_headerFoldSeq :: nat
  sn_contextFold :: "request_context option"
  sn_contextFoldSeq :: nat
  sn_derived :: "message list"
  sn_derivedNodes :: nat
  sn_derivedGeneration :: nat

definition empty_session :: session where
  "empty_session =
     \<lparr>sn_log = [], sn_manager = new_surface_manager 0, sn_header = JNull, sn_firstLiveSeq = 0,
      sn_appending = None, sn_headerFold = None, sn_headerFoldSeq = 0, sn_contextFold = None,
      sn_contextFoldSeq = 0, sn_derived = [], sn_derivedNodes = 0, sn_derivedGeneration = 0\<rparr>"

definition session_append ::
    "(session_event \<Rightarrow> string + unit) \<Rightarrow> int \<Rightarrow> event_data \<Rightarrow> json option \<Rightarrow> json option \<Rightarrow> session
      \<Rightarrow> (session_error + session_event) \<times> session" where
  "session_append veto now d op sources s =
     (case assert_supported_request_header (event_type_of d) (Some (encode_data d)) of
        Inl err \<Rightarrow> (Inl (Unsupported err), s)
      | Inr _ \<Rightarrow>
          if sn_appending s = Some True then (Inl Reentrant_append, s)
          else
            let e = \<lparr>ev_seq = length (sn_log s), ev_time = now, ev_data = d, ev_ignorable = False,
                     ev_surfaceOp = op, ev_sources = sources\<rparr>
            in (case validate_next (sn_log s) 0 e (sn_manager s) of
                  (Inl msg, m) \<Rightarrow> (Inl (Surface_rejected msg), s\<lparr>sn_manager := m\<rparr>)
                | (Inr _, m) \<Rightarrow>
                    (case (if sn_appending s = None then Inr () else veto e) of
                       Inl msg \<Rightarrow> (Inl (Vetoed msg), s\<lparr>sn_manager := m\<rparr>)
                     | Inr _ \<Rightarrow> (Inr e, s\<lparr>sn_manager := m, sn_log := sn_log s @ [e]\<rparr>))))"

text \<open>The seed loop of the constructor.\<close>

fun import_events :: "nat \<Rightarrow> session \<Rightarrow> session_event list \<Rightarrow> session_error + session" where
  "import_events i s [] = Inr s"
| "import_events i s (e # es) =
     and_then (map_error (Bad_seed i) (assert_session_event_envelope (encode_event e))) (\<lambda>_.
     and_then (map_error (Bad_seed i)
       (assert_supported_request_header (ev_type e) (Some (encode_data (ev_data e))))) (\<lambda>_.
     and_then (throw_if (ev_seq e \<noteq> i) (Bad_seed i (Seq_mismatch (ev_seq e)))) (\<lambda>_.
     (case validate_next (sn_log s) 0 e (sn_manager s) of
        (Inl msg, _) \<Rightarrow> Inl (Bad_seed i (Bad_surface msg))
      | (Inr _, m) \<Rightarrow> import_events (Suc i) (s\<lparr>sn_manager := m, sn_log := sn_log s @ [e]\<rparr>) es))))"

definition last_event_type :: "session_event list \<Rightarrow> string option" where
  "last_event_type es = (if es = [] then None else Some (ev_type (last es)))"

definition default_header :: "string \<Rightarrow> int \<Rightarrow> json" where
  "default_header sid now =
     JObj [(''version'', JNum session_format_version), (''id'', JStr sid), (''createdAt'', JNum (of_int now))]"

definition session_new ::
    "bool \<Rightarrow> string \<Rightarrow> session_event list option \<Rightarrow> json option \<Rightarrow> int \<Rightarrow> session_error + session" where
  "session_new restore' sid seed header now =
     and_then (if restore' then map_error Bad_header (map_sum id Some (validate_session_header sid header))
               else Inr None) (\<lambda>restored.
     and_then (case seed of None \<Rightarrow> Inr empty_session | Some es \<Rightarrow> import_events 0 empty_session es) (\<lambda>s.
     and_then (case restored of
                 Some h \<Rightarrow> Inr h
               | None \<Rightarrow> map_error Bad_header (validate_session_header sid
                   (case header of None \<Rightarrow> Some (default_header sid now) | Some h \<Rightarrow> Some h))) (\<lambda>h.
     let s1 = s\<lparr>sn_firstLiveSeq := length (sn_log s), sn_header := h\<rparr>
     in if seed \<noteq> None \<and> last_event_type (sn_log s1) \<noteq> Some ''session/end-seed''
        then (case session_append (\<lambda>_. Inr ()) now EndSeed None None s1 of
                (Inl err, _) \<Rightarrow> Inl err
              | (Inr _, s2) \<Rightarrow> Inr s2)
        else Inr s1)))"

definition request_header :: "session \<Rightarrow> epoch_header option \<times> session" where
  "request_header s =
     (if sn_headerFoldSeq s < length (sn_log s)
      then let h = fold_request_header (drop (sn_headerFoldSeq s) (sn_log s)) (sn_headerFold s)
           in (h, s\<lparr>sn_headerFold := h, sn_headerFoldSeq := length (sn_log s)\<rparr>)
      else (sn_headerFold s, s))"

definition request_context :: "session \<Rightarrow> request_context option \<times> session" where
  "request_context s =
     (if sn_contextFoldSeq s < length (sn_log s)
      then let c = fold_request_context (drop (sn_contextFoldSeq s) (sn_log s)) (sn_contextFold s)
           in (c, s\<lparr>sn_contextFold := c, sn_contextFoldSeq := length (sn_log s)\<rparr>)
      else (sn_contextFold s, s))"

definition derive_nodes :: "session_event list \<Rightarrow> nat list \<Rightarrow> message list" where
  "derive_nodes evs ns = List.map_filter (\<lambda>n. derive_event_message (evs ! n)) ns"

definition derive_messages :: "session \<Rightarrow> (string + message list) \<times> session" where
  "derive_messages s =
     (case manager_nodes (sn_log s) 0 (sn_manager s) of
        (Inl err, m) \<Rightarrow> (Inl err, s\<lparr>sn_manager := m\<rparr>)
      | (Inr nodes, m) \<Rightarrow>
          (case manager_generation (sn_log s) 0 m of
             (Inl err, m') \<Rightarrow> (Inl err, s\<lparr>sn_manager := m'\<rparr>)
           | (Inr generation, m') \<Rightarrow>
               let fresh = (generation \<noteq> sn_derivedGeneration s);
                   done' = (if fresh then [] else sn_derived s);
                   k = (if fresh then 0 else sn_derivedNodes s);
                   derived = done' @ derive_nodes (sn_log s) (drop k nodes)
               in (Inr derived,
                   s\<lparr>sn_manager := m', sn_derived := derived, sn_derivedNodes := length nodes,
                     sn_derivedGeneration := generation\<rparr>)))"

section \<open>Forks\<close>

datatype fork_error =
    Unsafe_boundary js_number
  | No_such_boundary int "nat option"
  | Boundary_mismatch int
  | Open_turn int nat

text \<open>The number of the turn that the last turn boundary of a log opens, if it opens one.\<close>

fun turn_boundary :: "session_event \<Rightarrow> bool" where
  "turn_boundary e = (case ev_data e of TurnStart _ \<Rightarrow> True | TurnEnd _ _ \<Rightarrow> True | _ \<Rightarrow> False)"

definition open_turn_of :: "session_event list \<Rightarrow> nat option" where
  "open_turn_of es =
     (case find turn_boundary (rev es) of
        Some e \<Rightarrow> (case ev_data e of TurnStart t \<Rightarrow> Some t | _ \<Rightarrow> None)
      | None \<Rightarrow> None)"

definition fork_prefix :: "session_event list \<Rightarrow> js_number \<Rightarrow> fork_error + session_event list" where
  "fork_prefix evs boundary =
     (case safe_integer_of boundary of
        None \<Rightarrow> Inl (Unsafe_boundary boundary)
      | Some b \<Rightarrow>
          if b < 0 then Inl (Unsafe_boundary boundary)
          else if int (length evs) \<le> b
          then Inl (No_such_boundary b (if evs = [] then None else Some (ev_seq (last evs))))
          else if int (ev_seq (evs ! nat b)) \<noteq> b then Inl (Boundary_mismatch b)
          else (case open_turn_of (take (nat b + 1) evs) of
                  Some t \<Rightarrow> Inl (Open_turn b t)
                | None \<Rightarrow> Inr (take (nat b + 1) evs)))"

definition fork_seed :: "session_event list \<Rightarrow> js_number option \<Rightarrow> fork_error + session_event list" where
  "fork_seed evs requested =
     (case requested of
        Some b \<Rightarrow> fork_prefix evs b
      | None \<Rightarrow> if evs = [] then Inr [] else fork_prefix evs (Finite (of_nat (ev_seq (last evs)))))"

definition fork_header :: "json \<Rightarrow> string \<Rightarrow> session_event list \<Rightarrow> int \<Rightarrow> json" where
  "fork_header parent sid seed now =
     JObj ([(''version'', JNum session_format_version), (''id'', JStr sid), (''createdAt'', JNum (of_int now))]
       @ optional ''cwd'' (json_field ''cwd'' parent)
       @ optional ''parentSession'' (json_field ''id'' parent)
       @ [(''seedLength'', json_nat (length seed))])"

definition session_fork :: "session \<Rightarrow> js_number option \<Rightarrow> string \<Rightarrow> int \<Rightarrow> (fork_error + session_error) + session" where
  "session_fork source boundary sid now =
     and_then (map_error Inl (fork_seed (sn_log source) boundary)) (\<lambda>seed.
       map_error Inr (session_new False sid (Some seed) (Some (fork_header (sn_header source) sid seed now)) now))"

end
