(* ===== verification/SessionTrace.thy ===== *)
theory SessionTrace
  imports SessionLog
begin

text \<open>
  The bracket structure of a session log: the relational checks of the session's invariant
  companion (\<open>core/session/src/invariant.ts\<close>) and the repair of an interrupted log
  (\<open>repair.ts\<close>). \<open>validate_event\<close> checks one candidate against the trace of the committed events,
  \<open>apply_transition\<close> commits it, \<open>seed_trace\<close> replays a log; a failing check throws, so the first
  one is the error. \<open>interrupted_turn_closers\<close> scans a log and returns the events that close its open
  tail.
\<close>

section \<open>The trace of a session\<close>

record session_trace =
  tc_lastSeq :: int
  tc_openTurn :: "nat option"
  tc_openStep :: "nat option"
  tc_nextTurn :: nat
  tc_nextStep :: nat
  tc_pendingCalls :: "string set"

datatype pending_change = Pending_none | Pending_add string | Pending_delete string | Pending_clear

record trace_transition =
  tt_lastSeq :: int
  tt_openTurn :: "nat option"
  tt_openStep :: "nat option"
  tt_nextTurn :: nat
  tt_nextStep :: nat
  tt_pendingCalls :: pending_change

definition fresh_trace :: session_trace where
  "fresh_trace =
     \<lparr>tc_lastSeq = - 1, tc_openTurn = None, tc_openStep = None, tc_nextTurn = 1, tc_nextStep = 1,
      tc_pendingCalls = {}\<rparr>"

definition str_of_opt :: "nat option \<Rightarrow> string" where
  "str_of_opt v = (case v of None \<Rightarrow> ''null'' | Some n \<Rightarrow> str_of_nat n)"

definition require_open_step :: "session_trace \<Rightarrow> string \<Rightarrow> nat \<Rightarrow> nat \<Rightarrow> string + unit" where
  "require_open_step t kind turn step =
     throw_if (tc_openTurn t \<noteq> Some turn \<or> tc_openStep t \<noteq> Some step)
       (kind @ '' names turn '' @ str_of_nat turn @ ''/step '' @ str_of_nat step @ '' but open is turn ''
        @ str_of_opt (tc_openTurn t) @ ''/step '' @ str_of_opt (tc_openStep t))"

definition TOOL_NOT_STARTED :: string where
  "TOOL_NOT_STARTED = ''TOOL_NOT_STARTED''"

definition TOOL_OUTCOME_UNKNOWN :: string where
  "TOOL_OUTCOME_UNKNOWN = ''TOOL_OUTCOME_UNKNOWN''"

definition synthetic_not_started :: "tool_result \<Rightarrow> bool" where
  "synthetic_not_started r \<longleftrightarrow>
     tr_isError r = Some True \<and> map_option snd (tr_error r) = Some TOOL_NOT_STARTED"

definition keep_trace :: "session_trace \<Rightarrow> session_event \<Rightarrow> trace_transition" where
  "keep_trace t e =
     \<lparr>tt_lastSeq = int (ev_seq e), tt_openTurn = tc_openTurn t, tt_openStep = tc_openStep t,
      tt_nextTurn = tc_nextTurn t, tt_nextStep = tc_nextStep t, tt_pendingCalls = Pending_none\<rparr>"

definition outside_turn :: "session_trace \<Rightarrow> session_event \<Rightarrow> string + trace_transition" where
  "outside_turn t e =
     (if tc_openTurn t = None
      then Inl (ev_type e @ '' appended outside any open turn (core execution events must be turn-enclosed)'')
      else Inr (keep_trace t e))"

text \<open>The switch of \<open>validateEvent\<close>, after the check of the sequence number.\<close>

definition validate_relation :: "session_trace \<Rightarrow> session_event \<Rightarrow> string + trace_transition" where
  "validate_relation t e =
     (case ev_data e of
        TurnStart turn \<Rightarrow>
          if tc_openTurn t \<noteq> None
          then Inl (''turn/start '' @ str_of_nat turn @ '' while turn '' @ str_of_opt (tc_openTurn t) @ '' is still open'')
          else if turn \<noteq> tc_nextTurn t
          then Inl (''turn/start expected turn '' @ str_of_nat (tc_nextTurn t) @ '', got '' @ str_of_nat turn)
          else Inr ((keep_trace t e)\<lparr>tt_openTurn := Some turn, tt_nextStep := 1\<rparr>)
      | TurnEnd turn _ \<Rightarrow>
          if tc_openTurn t \<noteq> Some turn
          then Inl (''turn/end '' @ str_of_nat turn @ '' does not match open turn '' @ str_of_opt (tc_openTurn t))
          else if tc_openStep t \<noteq> None
          then Inl (''turn/end '' @ str_of_nat turn @ '' while step '' @ str_of_opt (tc_openStep t) @ '' is still open'')
          else Inr ((keep_trace t e)\<lparr>tt_openTurn := None, tt_nextTurn := tc_nextTurn t + 1\<rparr>)
      | StepStart turn step \<Rightarrow>
          if tc_openTurn t \<noteq> Some turn
          then Inl (''step/start in turn '' @ str_of_nat turn @ '' but open turn is '' @ str_of_opt (tc_openTurn t))
          else if tc_openStep t \<noteq> None
          then Inl (''step/start '' @ str_of_nat step @ '' while step '' @ str_of_opt (tc_openStep t) @ '' is still open'')
          else if step \<noteq> tc_nextStep t
          then Inl (''step/start expected step '' @ str_of_nat (tc_nextStep t) @ '' in turn '' @ str_of_nat turn
                    @ '', got '' @ str_of_nat step)
          else Inr ((keep_trace t e)\<lparr>tt_openStep := Some step\<rparr>)
      | StepEnd turn step \<Rightarrow>
          and_then (require_open_step t ''step/end'' turn step) (\<lambda>_.
            Inr ((keep_trace t e)\<lparr>tt_openStep := None, tt_nextStep := tc_nextStep t + 1,
                 tt_pendingCalls := Pending_clear\<rparr>))
      | AssistantChunk turn step _ \<Rightarrow>
          and_then (require_open_step t ''assistant/chunk'' turn step) (\<lambda>_. Inr (keep_trace t e))
      | AssistantMessage turn step _ _ _ \<Rightarrow>
          and_then (require_open_step t ''assistant/message'' turn step) (\<lambda>_. Inr (keep_trace t e))
      | ToolCall turn step c _ _ \<Rightarrow>
          and_then (require_open_step t ''tool/call'' turn step) (\<lambda>_.
            Inr ((keep_trace t e)\<lparr>tt_pendingCalls := Pending_add c\<rparr>))
      | ToolResult r \<Rightarrow>
          if ev_surfaceOp e \<noteq> Some (JStr ''append'')
          then (if tc_openTurn t = None
                then Inl ''tool/result surface replacement appended outside any open turn''
                else Inr (keep_trace t e))
          else
            and_then (require_open_step t ''tool/result'' (tr_turn r) (tr_step r)) (\<lambda>_.
              if tr_callId r \<notin> tc_pendingCalls t \<and> \<not> synthetic_not_started r
              then Inl (''tool/result for '' @ tr_callId r @ '' with no prior tool/call in this step'')
              else Inr ((keep_trace t e)\<lparr>tt_pendingCalls := Pending_delete (tr_callId r)\<rparr>))
      | TodoWrite _ \<Rightarrow> outside_turn t e
      | RequestHeader _ _ \<Rightarrow> outside_turn t e
      | RequestContext _ \<Rightarrow> outside_turn t e
      | _ \<Rightarrow> Inr (keep_trace t e))"

definition validate_event :: "session_trace \<Rightarrow> session_event \<Rightarrow> string + trace_transition" where
  "validate_event t e =
     (if int (ev_seq e) \<le> tc_lastSeq t
      then Inl (''seq must strictly increase: saw '' @ str_of_nat (ev_seq e) @ '' after ''
                @ str_of_nat (nat (tc_lastSeq t)))
      else validate_relation t e)"

definition apply_transition :: "session_trace \<Rightarrow> trace_transition \<Rightarrow> session_trace" where
  "apply_transition t x =
     \<lparr>tc_lastSeq = tt_lastSeq x, tc_openTurn = tt_openTurn x, tc_openStep = tt_openStep x,
      tc_nextTurn = tt_nextTurn x, tc_nextStep = tt_nextStep x,
      tc_pendingCalls =
        (case tt_pendingCalls x of
           Pending_none \<Rightarrow> tc_pendingCalls t
         | Pending_add c \<Rightarrow> insert c (tc_pendingCalls t)
         | Pending_delete c \<Rightarrow> tc_pendingCalls t - {c}
         | Pending_clear \<Rightarrow> {})\<rparr>"

definition trace_step :: "session_trace \<Rightarrow> session_event \<Rightarrow> string + session_trace" where
  "trace_step t e = and_then (validate_event t e) (\<lambda>x. Inr (apply_transition t x))"

definition seed_trace :: "session_event list \<Rightarrow> string + session_trace" where
  "seed_trace es = replay trace_step fresh_trace es"

text \<open>The companion's dispatch listener: it throws, and so vetoes the append, when validation fails.\<close>

definition companion_veto :: "session_trace \<Rightarrow> session_event \<Rightarrow> string + unit" where
  "companion_veto t e = and_then (validate_event t e) (\<lambda>_. Inr ())"

section \<open>Repair of an interrupted log\<close>

record repair_scan =
  rp_openTurn :: "nat option"
  rp_openStep :: "nat option"
  rp_pendingCalls :: "(string \<times> (nat \<times> nat option)) list"

definition init_scan :: repair_scan where
  "init_scan = \<lparr>rp_openTurn = None, rp_openStep = None, rp_pendingCalls = []\<rparr>"

text \<open>The tool-call blocks of an assistant message, each pending from now on.\<close>

fun register_calls :: "nat \<Rightarrow> content_block list \<Rightarrow> (string \<times> (nat \<times> nat option)) list
    \<Rightarrow> (string \<times> (nat \<times> nat option)) list" where
  "register_calls step [] m = m"
| "register_calls step (b # bs) m =
     register_calls step bs (case b of ToolCallBlock c _ _ \<Rightarrow> js_set c (step, None) m | _ \<Rightarrow> m)"

definition scan_event :: "repair_scan \<Rightarrow> session_event \<Rightarrow> repair_scan" where
  "scan_event s e =
     (case ev_data e of
        TurnStart turn \<Rightarrow> \<lparr>rp_openTurn = Some turn, rp_openStep = None, rp_pendingCalls = []\<rparr>
      | TurnEnd _ _ \<Rightarrow> \<lparr>rp_openTurn = None, rp_openStep = None, rp_pendingCalls = []\<rparr>
      | StepStart _ step \<Rightarrow> s\<lparr>rp_openStep := Some step\<rparr>
      | StepEnd _ _ \<Rightarrow> s\<lparr>rp_pendingCalls := [], rp_openStep := None\<rparr>
      | AssistantMessage _ step m _ _ \<Rightarrow>
          s\<lparr>rp_pendingCalls := register_calls step (msg_content m) (rp_pendingCalls s)\<rparr>
      | ToolCall _ _ c _ _ \<Rightarrow>
          (case js_get (rp_pendingCalls s) c of
             None \<Rightarrow> s
           | Some (step, _) \<Rightarrow> s\<lparr>rp_pendingCalls := js_set c (step, Some (ev_seq e)) (rp_pendingCalls s)\<rparr>)
      | ToolResult r \<Rightarrow> s\<lparr>rp_pendingCalls := js_delete (tr_callId r) (rp_pendingCalls s)\<rparr>
      | _ \<Rightarrow> s)"

definition scan_log :: "session_event list \<Rightarrow> repair_scan" where
  "scan_log es = foldl scan_event init_scan es"

definition unknown_outcome_text :: string where
  "unknown_outcome_text = ''The tool call was interrupted after it was recorded, but no result was durably recorded. Its outcome is unknown. Decide whether to retry from the tool semantics: retry only if the operation is read-only or idempotent; if it may have side effects, first verify external state or ask the user. Do not retry blindly.''"

definition not_started_text :: string where
  "not_started_text = ''The tool call was interrupted before the Harness recorded it as started. Retry it if it is still needed.''"

definition closer_event :: "nat \<Rightarrow> int \<Rightarrow> event_data \<Rightarrow> json option \<Rightarrow> json option \<Rightarrow> session_event" where
  "closer_event seq time d op sources =
     \<lparr>ev_seq = seq, ev_time = time, ev_data = d, ev_ignorable = False, ev_surfaceOp = op, ev_sources = sources\<rparr>"

definition call_closer :: "nat \<Rightarrow> int \<Rightarrow> nat \<Rightarrow> string \<Rightarrow> nat \<Rightarrow> nat option \<Rightarrow> session_event" where
  "call_closer seq time turn c step callSeq =
     closer_event seq time
       (ToolResult
          \<lparr>tr_turn = turn, tr_step = step,
           tr_id = ''interrupted-tool-result-'' @ c @ ''-'' @ str_of_nat seq,
           tr_callId = c, tr_toolCallId = c,
           tr_content = [TextBlock (if callSeq \<noteq> None then unknown_outcome_text else not_started_text)],
           tr_isError = Some True,
           tr_error = Some (if callSeq \<noteq> None then (''ToolOutcomeUnknownError'', TOOL_OUTCOME_UNKNOWN)
                            else (''ToolNotStartedError'', TOOL_NOT_STARTED)),
           tr_meta = None\<rparr>)
       (Some (JStr ''append''))
       (case callSeq of None \<Rightarrow> None | Some n \<Rightarrow> Some (JArr [JNum (of_nat n)]))"

fun call_closers :: "nat \<Rightarrow> int \<Rightarrow> nat \<Rightarrow> (string \<times> (nat \<times> nat option)) list \<Rightarrow> session_event list" where
  "call_closers seq time turn [] = []"
| "call_closers seq time turn ((c, (step, callSeq)) # ps) =
     call_closer seq time turn c step callSeq # call_closers (Suc seq) time turn ps"

definition interrupted_turn_closers :: "session_event list \<Rightarrow> session_event list" where
  "interrupted_turn_closers events =
     (let s = scan_log events in
      case rp_openTurn s of
        None \<Rightarrow> []
      | Some turn \<Rightarrow>
          if events = [] then []
          else
            let seq = ev_seq (last events) + 1;
                time = ev_time (last events);
                calls = call_closers seq time turn (rp_pendingCalls s);
                seq1 = seq + length calls;
                step = (case rp_openStep s of
                          None \<Rightarrow> []
                        | Some k \<Rightarrow> [closer_event seq1 time (StepEnd turn k) None None])
            in calls @ step
               @ [closer_event (seq1 + length step) time (TurnEnd turn End_interrupted) None None])"

end
