(* ===== verification/SessionLogProperties.thy ===== *)
theory SessionLogProperties
  imports SessionLog
begin

text \<open>
  The invariant of a session and what it gives: the caches of a session agree with a complete
  replay of its log, a rejected append is invisible, the surface partitions the message-producing
  events, and a fork is a closed prefix.
\<close>

section \<open>Folds in two parts\<close>

lemma fold_request_header_append:
  "fold_request_header (xs @ ys) h = fold_request_header ys (fold_request_header xs h)"
  by (induction xs arbitrary: h) simp_all

lemma fold_request_context_append:
  "fold_request_context (xs @ ys) c = fold_request_context ys (fold_request_context xs c)"
  by (induction xs arbitrary: c) simp_all

lemma derive_nodes_append: "derive_nodes evs (ns @ ms) = derive_nodes evs ns @ derive_nodes evs ms"
  by (simp add: derive_nodes_def List.map_filter_def)

lemma derive_nodes_log:
  "\<forall>n \<in> set ns. n < length evs \<Longrightarrow> derive_nodes (evs @ xs) ns = derive_nodes evs ns"
  by (induction ns) (auto simp: derive_nodes_def List.map_filter_def nth_append)

section \<open>The surface between two moments\<close>

text \<open>The generation never decreases, and while it stands the surface only grows at the tail.\<close>

lemma apply_plan_growth:
  "fs_generation st \<le> fs_generation (fst (apply_surface_plan st p))
   \<and> (fs_generation (fst (apply_surface_plan st p)) = fs_generation st
      \<longrightarrow> (\<exists>ns. fs_nodes (fst (apply_surface_plan st p)) = fs_nodes st @ ns))"
  by (cases "(st, p)" rule: apply_surface_plan.cases) auto

lemma replay_growth:
  "replay accept_event (evs, st) es = Inr (evs', st') \<Longrightarrow>
     fs_generation st \<le> fs_generation st'
     \<and> (fs_generation st' = fs_generation st \<longrightarrow> (\<exists>ns. fs_nodes st' = fs_nodes st @ ns))"
proof (induction es arbitrary: evs st)
  case (Cons e es)
  then obtain p where p: "replay accept_event (evs @ [e], fst (apply_surface_plan st p)) es = Inr (evs', st')"
    by (auto simp: res_simps)
  from Cons.IH [OF p] apply_plan_growth [of st p] show ?case by auto
qed simp

lemma surface_run_growth:
  assumes "c \<le> length evs" "surface_run (take c evs) = Inr (take c evs, st)" "surface_run evs = Inr (evs, st')"
    "fs_generation st' = fs_generation st"
  shows "\<exists>ns. fs_nodes st' = fs_nodes st @ ns"
proof -
  have "surface_run (take c evs @ drop c evs) = Inr (evs, st')" using assms(3) by simp
  with assms(2) have "replay accept_event (take c evs, st) (drop c evs) = Inr (evs, st')"
    unfolding surface_run_def by (simp only: replay_append and_then_simps)
  with replay_growth assms(4) show ?thesis by blast
qed

section \<open>The session invariant\<close>

definition derived_ok :: "session \<Rightarrow> bool" where
  "derived_ok s \<longleftrightarrow>
     (\<exists>c st. c \<le> length (sn_log s) \<and> surface_run (take c (sn_log s)) = Inr (take c (sn_log s), st)
        \<and> sn_derivedGeneration s = fs_generation st \<and> sn_derivedNodes s = length (fs_nodes st)
        \<and> sn_derived s = derive_nodes (sn_log s) (fs_nodes st))"

definition session_ok :: "session \<Rightarrow> bool" where
  "session_ok s \<longleftrightarrow>
     manager_ok (sn_log s) (sn_manager s) \<and> (\<exists>st. surface_run (sn_log s) = Inr (sn_log s, st))
     \<and> derived_ok s
     \<and> sn_headerFoldSeq s \<le> length (sn_log s)
     \<and> sn_headerFold s = fold_request_header (take (sn_headerFoldSeq s) (sn_log s)) None
     \<and> sn_contextFoldSeq s \<le> length (sn_log s)
     \<and> sn_contextFold s = fold_request_context (take (sn_contextFoldSeq s) (sn_log s)) None"

lemma session_okD:
  assumes "session_ok s"
  obtains st where "manager_ok (sn_log s) (sn_manager s)" "surface_run (sn_log s) = Inr (sn_log s, st)"
    "surface_inv (sn_log s, st)" "derived_ok s"
  using assms surface_run_Inr(2) unfolding session_ok_def by blast

lemma session_ok_manager:
  "session_ok s \<Longrightarrow> manager_ok (sn_log s) m \<Longrightarrow> session_ok (s\<lparr>sn_manager := m\<rparr>)"
  by (simp add: session_ok_def derived_ok_def)

lemma session_ok_empty: "session_ok empty_session"
proof -
  have "derived_ok empty_session"
    unfolding derived_ok_def
    by (rule exI [of _ 0], rule exI [of _ create_fold_state])
      (simp add: empty_session_def surface_run_def create_fold_state_def derive_nodes_def List.map_filter_def)
  then show ?thesis
    by (simp add: session_ok_def empty_session_def manager_ok_new) (simp add: surface_run_def)
qed

text \<open>Committing an event the manager has just validated.\<close>

lemma session_ok_push:
  assumes ok: "session_ok s" and v: "validate_next (sn_log s) 0 e (sn_manager s) = (Inr u, m)"
  shows "session_ok (s\<lparr>sn_manager := m, sn_log := sn_log s @ [e]\<rparr>)"
    and "ev_seq e = length (sn_log s)"
proof -
  from ok obtain st where st: "manager_ok (sn_log s) (sn_manager s)"
    "surface_run (sn_log s) = Inr (sn_log s, st)" "surface_inv (sn_log s, st)" "derived_ok s"
    by (rule session_okD)
  from validate_next_cases [OF st(1), of e] v
  have m: "manager_ok (sn_log s) m"
    and "and_then (surface_run (sn_log s)) (\<lambda>s. and_then (accept_event s e) (\<lambda>_. Inr ())) = Inr ()"
    by (simp_all add: unit_eq)
  with st(2) obtain st' where acc: "accept_event (sn_log s, st) e = Inr (sn_log s @ [e], st')"
    by (auto simp: res_simps)
  then have run: "surface_run (sn_log s @ [e]) = Inr (sn_log s @ [e], st')"
    using surface_run_snoc [OF st(2)] by simp
  from st(4) obtain c stc where c: "c \<le> length (sn_log s)"
      "surface_run (take c (sn_log s)) = Inr (take c (sn_log s), stc)"
      "sn_derivedGeneration s = fs_generation stc" "sn_derivedNodes s = length (fs_nodes stc)"
      "sn_derived s = derive_nodes (sn_log s) (fs_nodes stc)"
    unfolding derived_ok_def by blast
  have "\<forall>n \<in> set (fs_nodes stc). n < length (sn_log s)"
    using surface_inv_nodes [OF surface_run_Inr(2) [OF c(2)]] c(1) by fastforce
  then have "derived_ok (s\<lparr>sn_manager := m, sn_log := sn_log s @ [e]\<rparr>)"
    unfolding derived_ok_def using c derive_nodes_log
    by (intro exI [of _ c] exI [of _ stc]) simp
  then show "session_ok (s\<lparr>sn_manager := m, sn_log := sn_log s @ [e]\<rparr>)"
    using ok m run by (auto simp: session_ok_def intro: manager_ok_push)
  from acc show "ev_seq e = length (sn_log s)"
    by (auto simp: res_simps plan_surface_event_def split: if_splits)
qed

definition candidate :: "session \<Rightarrow> int \<Rightarrow> event_data \<Rightarrow> json option \<Rightarrow> json option \<Rightarrow> session_event" where
  "candidate s now d op sources =
     \<lparr>ev_seq = length (sn_log s), ev_time = now, ev_data = d, ev_ignorable = False,
      ev_surfaceOp = op, ev_sources = sources\<rparr>"

lemma append_cases:
  assumes a: "session_append veto now d op sources s = (r, s')"
  defines "e \<equiv> candidate s now d op sources"
  obtains (reject) err where "r = Inl err" "s' = s"
  | (late) err m where "r = Inl err" "s' = s\<lparr>sn_manager := m\<rparr>"
      "m = snd (validate_next (sn_log s) 0 e (sn_manager s))"
  | (commit) m where "r = Inr e" "s' = s\<lparr>sn_manager := m, sn_log := sn_log s @ [e]\<rparr>"
      "validate_next (sn_log s) 0 e (sn_manager s) = (Inr (), m)"
      "sn_appending s = None \<or> veto e = Inr ()"
proof (cases "assert_supported_request_header (event_type_of d) (Some (encode_data d))")
  case (Inl err)
  show thesis by (rule reject [of "Unsupported err"]) (use a Inl in \<open>simp_all add: session_append_def\<close>)
next
  case supported: (Inr u)
  show thesis
  proof (cases "sn_appending s = Some True")
    case True
    show thesis by (rule reject [of Reentrant_append]) (use a supported True in \<open>simp_all add: session_append_def\<close>)
  next
    case False
    obtain v m where v: "validate_next (sn_log s) 0 e (sn_manager s) = (v, m)" by fastforce
    note step = a [unfolded session_append_def supported sum.case if_not_P [OF False] Let_def
        candidate_def [symmetric] e_def [symmetric] v prod.case]
    show thesis
    proof (cases v)
      case (Inl msg)
      show thesis by (rule late [of "Surface_rejected msg" m]) (use step v Inl in simp_all)
    next
      case (Inr w)
      show thesis
      proof (cases "if sn_appending s = None then Inr () else veto e")
        case (Inl msg)
        show thesis by (rule late [of "Vetoed msg" m]) (use step v Inr Inl in simp_all)
      next
        case ok: (Inr x)
        show thesis by (rule commit [of m]) (use step v Inr ok in \<open>auto split: if_splits\<close>)
      qed
    qed
  qed
qed

lemma session_append_log:
  assumes "session_append veto now d op sources s = (r, s')"
  shows "(\<exists>err. r = Inl err \<and> sn_log s' = sn_log s)
    \<or> r = Inr (candidate s now d op sources) \<and> sn_log s' = sn_log s @ [candidate s now d op sources]"
  using assms by (cases rule: append_cases) auto

lemma session_append_header:
  assumes "session_append veto now d op sources s = (r, s')"
  shows "sn_header s' = sn_header s"
  using assms by (cases rule: append_cases) auto

lemma session_append_ok: "session_ok s \<Longrightarrow> session_ok (snd (session_append veto now d op sources s))"
proof -
  assume ok: "session_ok s"
  then obtain st where m: "manager_ok (sn_log s) (sn_manager s)" by (rule session_okD)
  obtain r s' where a: "session_append veto now d op sources s = (r, s')" by fastforce
  then show ?thesis
    by (cases rule: append_cases)
      (use a ok m in \<open>auto intro: session_ok_manager validate_next_cases(1) session_ok_push(1)\<close>)
qed

lemma import_events_ok: "session_ok s \<Longrightarrow> import_events i s es = Inr s' \<Longrightarrow> session_ok s'"
proof (induction es arbitrary: i s)
  case (Cons e es)
  from Cons.prems(2) obtain m where "validate_next (sn_log s) 0 e (sn_manager s) = (Inr (), m)"
    "import_events (Suc i) (s\<lparr>sn_manager := m, sn_log := sn_log s @ [e]\<rparr>) es = Inr s'"
    by (auto simp: res_simps split: sum.splits prod.splits)
  with Cons.IH session_ok_push(1) [OF Cons.prems(1)] show ?case by blast
qed simp

lemma session_new_cases:
  assumes "session_new restore' sid seed header now = Inr s"
  obtains s0 s1 where "(case seed of None \<Rightarrow> Inr empty_session | Some es \<Rightarrow> import_events 0 empty_session es) = Inr s0"
    "\<exists>h. s1 = s0\<lparr>sn_firstLiveSeq := length (sn_log s0), sn_header := h\<rparr>"
    "(if seed \<noteq> None \<and> last_event_type (sn_log s1) \<noteq> Some ''session/end-seed''
      then session_append (\<lambda>_. Inr ()) now EndSeed None None s1 = (Inr (candidate s1 now EndSeed None None), s)
      else s = s1)"
proof -
  from assms obtain s0 h where
    s0: "(case seed of None \<Rightarrow> Inr empty_session | Some es \<Rightarrow> import_events 0 empty_session es) = Inr s0"
    and fin: "(let s1 = s0\<lparr>sn_firstLiveSeq := length (sn_log s0), sn_header := h\<rparr>
      in if seed \<noteq> None \<and> last_event_type (sn_log s1) \<noteq> Some ''session/end-seed''
         then (case session_append (\<lambda>_. Inr ()) now EndSeed None None s1 of
                 (Inl err, _) \<Rightarrow> Inl err | (Inr _, s2) \<Rightarrow> Inr s2)
         else Inr s1) = Inr s"
    unfolding session_new_def and_then_Inr_iff by blast
  let ?s1 = "s0\<lparr>sn_firstLiveSeq := length (sn_log s0), sn_header := h\<rparr>"
  obtain r s' where a: "session_append (\<lambda>_. Inr ()) now EndSeed None None ?s1 = (r, s')" by fastforce
  have "r = Inr (candidate ?s1 now EndSeed None None)" if "r = Inr e" for e
    using a that by (cases rule: append_cases) auto
  with fin a have "if seed \<noteq> None \<and> last_event_type (sn_log ?s1) \<noteq> Some ''session/end-seed''
      then session_append (\<lambda>_. Inr ()) now EndSeed None None ?s1 = (Inr (candidate ?s1 now EndSeed None None), s)
      else s = ?s1"
    by (cases r) (auto simp: Let_def split: if_splits)
  with s0 show thesis by (intro that) blast+
qed

lemma session_new_ok: "session_new restore' sid seed header now = Inr s \<Longrightarrow> session_ok s"
proof (elim session_new_cases)
  fix s0 s1
  assume s0: "(case seed of None \<Rightarrow> Inr empty_session | Some es \<Rightarrow> import_events 0 empty_session es) = Inr s0"
    and s1: "\<exists>h. s1 = s0\<lparr>sn_firstLiveSeq := length (sn_log s0), sn_header := h\<rparr>"
    and fin: "if seed \<noteq> None \<and> last_event_type (sn_log s1) \<noteq> Some ''session/end-seed''
      then session_append (\<lambda>_. Inr ()) now EndSeed None None s1 = (Inr (candidate s1 now EndSeed None None), s)
      else s = s1"
  have "session_ok s0"
    using s0 session_ok_empty import_events_ok by (cases seed) auto
  with s1 have "session_ok s1" by (auto simp: session_ok_def derived_ok_def)
  with fin session_append_ok [of s1 "\<lambda>_. Inr ()" now EndSeed None None]
  show "session_ok s" by (auto split: if_splits)
qed

section \<open>Reading a session\<close>

lemma manager_reads:
  assumes "session_ok s"
  obtains st m m' where "surface_run (sn_log s) = Inr (sn_log s, st)"
    "manager_nodes (sn_log s) 0 (sn_manager s) = (Inr (fs_nodes st), m)"
    "manager_generation (sn_log s) 0 m = (Inr (fs_generation st), m')" "manager_ok (sn_log s) m'"
proof -
  from assms obtain st where ok: "manager_ok (sn_log s) (sn_manager s)"
    and run: "surface_run (sn_log s) = Inr (sn_log s, st)" by (rule session_okD)
  obtain r m where d: "process_delta (sn_log s) 0 (sn_manager s) = (r, m)" by fastforce
  note p = process_delta_run [OF ok, unfolded d, simplified]
  from p(2,3) run have n: "manager_nodes (sn_log s) 0 (sn_manager s) = (Inr (fs_nodes st), m)"
    using d by (simp add: manager_nodes_def)
  obtain r' m' where d': "process_delta (sn_log s) 0 m = (r', m')" by fastforce
  note p' = process_delta_run [OF p(1), unfolded d', simplified]
  from p'(2,3) run have g: "manager_generation (sn_log s) 0 m = (Inr (fs_generation st), m')"
    using d' by (simp add: manager_generation_def)
  from that run n g p'(1) show thesis by blast
qed

lemma derive_messages_run:
  assumes ok: "session_ok s" and run: "surface_run (sn_log s) = Inr (sn_log s, st)"
  shows "fst (derive_messages s) = Inr (derive_nodes (sn_log s) (fs_nodes st))"
    and "session_ok (snd (derive_messages s))"
proof -
  obtain m m' where n: "manager_nodes (sn_log s) 0 (sn_manager s) = (Inr (fs_nodes st), m)"
    and g: "manager_generation (sn_log s) 0 m = (Inr (fs_generation st), m')" and m': "manager_ok (sn_log s) m'"
    by (rule manager_reads [OF ok]) (use run in auto)
  from ok have dok: "derived_ok s" by (rule session_okD)
  then obtain c stc where c: "c \<le> length (sn_log s)"
      "surface_run (take c (sn_log s)) = Inr (take c (sn_log s), stc)"
      "sn_derivedGeneration s = fs_generation stc" "sn_derivedNodes s = length (fs_nodes stc)"
      "sn_derived s = derive_nodes (sn_log s) (fs_nodes stc)"
    unfolding derived_ok_def by blast
  let ?fresh = "fs_generation st \<noteq> sn_derivedGeneration s"
  let ?d = "(if ?fresh then [] else sn_derived s)
    @ derive_nodes (sn_log s) (drop (if ?fresh then 0 else sn_derivedNodes s) (fs_nodes st))"
  have d: "?d = derive_nodes (sn_log s) (fs_nodes st)"
  proof (cases ?fresh)
    case True
    then show ?thesis by simp
  next
    case False
    then obtain ns where "fs_nodes st = fs_nodes stc @ ns"
      using surface_run_growth [OF c(1,2) run] c(3) by auto
    with False c(4,5) show ?thesis by (simp add: derive_nodes_append)
  qed
  have eq: "derive_messages s = (Inr ?d, s\<lparr>sn_manager := m', sn_derived := ?d,
      sn_derivedNodes := length (fs_nodes st), sn_derivedGeneration := fs_generation st\<rparr>)"
    using n g by (simp add: derive_messages_def Let_def)
  then show "fst (derive_messages s) = Inr (derive_nodes (sn_log s) (fs_nodes st))" using d by simp
  have "derived_ok (snd (derive_messages s))"
    unfolding derived_ok_def eq d using run
    by (intro exI [of _ "length (sn_log s)"] exI [of _ st]) simp
  with ok m' run show "session_ok (snd (derive_messages s))" unfolding eq by (simp add: session_ok_def)
qed

lemma request_header_run:
  assumes "session_ok s"
  shows "fst (request_header s) = fold_request_header (sn_log s) None"
    and "session_ok (snd (request_header s))"
proof -
  have h: "sn_headerFoldSeq s \<le> length (sn_log s)"
    "sn_headerFold s = fold_request_header (take (sn_headerFoldSeq s) (sn_log s)) None"
    using assms by (simp_all add: session_ok_def)
  then have f: "fold_request_header (drop (sn_headerFoldSeq s) (sn_log s)) (sn_headerFold s)
    = fold_request_header (sn_log s) None"
    by (metis append_take_drop_id fold_request_header_append)
  then show "fst (request_header s) = fold_request_header (sn_log s) None"
    using h by (auto simp: request_header_def Let_def)
  show "session_ok (snd (request_header s))"
    using assms f by (auto simp: request_header_def Let_def session_ok_def derived_ok_def)
qed

lemma request_context_run:
  assumes "session_ok s"
  shows "fst (request_context s) = fold_request_context (sn_log s) None"
    and "session_ok (snd (request_context s))"
proof -
  have h: "sn_contextFoldSeq s \<le> length (sn_log s)"
    "sn_contextFold s = fold_request_context (take (sn_contextFoldSeq s) (sn_log s)) None"
    using assms by (simp_all add: session_ok_def)
  then have f: "fold_request_context (drop (sn_contextFoldSeq s) (sn_log s)) (sn_contextFold s)
    = fold_request_context (sn_log s) None"
    by (metis append_take_drop_id fold_request_context_append)
  then show "fst (request_context s) = fold_request_context (sn_log s) None"
    using h by (auto simp: request_context_def Let_def)
  show "session_ok (snd (request_context s))"
    using assms f by (auto simp: request_context_def Let_def session_ok_def derived_ok_def)
qed

section \<open>Reachable sessions\<close>

inductive session_reach :: "session \<Rightarrow> bool" where
  sr_new: "session_new restore' sid seed header now = Inr s \<Longrightarrow> session_reach s"
| sr_append: "session_reach s \<Longrightarrow> session_reach (snd (session_append veto now d op sources s))"
| sr_attach: "session_reach s \<Longrightarrow> session_reach (s\<lparr>sn_appending := a\<rparr>)"
| sr_derive: "session_reach s \<Longrightarrow> session_reach (snd (derive_messages s))"
| sr_header: "session_reach s \<Longrightarrow> session_reach (snd (request_header s))"
| sr_context: "session_reach s \<Longrightarrow> session_reach (snd (request_context s))"

lemma session_reach_ok: "session_reach s \<Longrightarrow> session_ok s"
proof (induction rule: session_reach.induct)
  case (sr_attach s a)
  then show ?case by (simp add: session_ok_def derived_ok_def)
next
  case (sr_derive s)
  then show ?case using derive_messages_run(2) session_okD by metis
qed (auto intro: session_new_ok session_append_ok request_header_run(2) request_context_run(2))

end
