(* ===== verification/SessionSeedProperties.thy ===== *)
theory SessionSeedProperties
  imports SessionSeed
begin

text \<open>
  What the import checks of a stored event amount to on the events the session itself writes:
  an exact characterisation of the accepted ones.
\<close>

definition message_importable :: "event_data \<Rightarrow> bool" where
  "message_importable d =
     (case d of
        UserMessage m \<Rightarrow> msg_id m \<noteq> [] \<and> msg_role m = Role_user
      | AssistantMessage _ _ m _ _ \<Rightarrow>
          msg_id m \<noteq> [] \<and> msg_role m = Role_assistant
          \<and> (\<exists>p n r. msg_source m = ModelSource p n r \<and> p \<noteq> [] \<and> n \<noteq> [])
      | ToolResult t \<Rightarrow> tr_id t \<noteq> [] \<and> tr_callId t \<noteq> [] \<and> tr_toolCallId t = tr_callId t
      | _ \<Rightarrow> True)"

definition header_importable :: "epoch_header \<Rightarrow> bool" where
  "header_importable h \<longleftrightarrow>
     cc_provider (eh_config h) \<noteq> [] \<and> cc_model (eh_config h) \<noteq> []
     \<and> cc_reasoningEffort (eh_config h) \<noteq> Some []
     \<and> (\<forall>d. eh_adapterDefaults h = Some d \<longrightarrow>
          (ad_reasoningEffort d \<longrightarrow> cc_reasoningEffort (eh_config h) \<noteq> None)
          \<and> (ad_maxTokens d \<longrightarrow> cc_maxTokens (eh_config h) \<noteq> None))"

definition event_importable :: "session_event \<Rightarrow> bool" where
  "event_importable e \<longleftrightarrow>
     int (ev_seq e) \<le> max_safe \<and> \<bar>ev_time e\<bar> \<le> max_safe \<and> ev_type e \<noteq> ''request/header-delta''
     \<and> message_importable (ev_data e)
     \<and> (\<forall>h r. ev_data e = RequestHeader h r \<longrightarrow> header_importable h)"

lemma is_object_simps [simp]:
  "is_object (Some (JObj fs))" "\<not> is_object None" "\<not> is_object (Some (JStr s))"
  by (simp_all add: is_object_def is_record_def is_array_def)

lemma is_array_simps [simp]: "is_array (Some (JArr xs))" "\<not> is_array None"
  by (simp_all add: is_array_def)

lemma is_record_simps [simp]: "is_record (Some (JObj fs))" "\<not> is_record None"
  by (simp_all add: is_record_def)

lemma is_text_simps [simp]: "is_text (Some (JStr s)) \<longleftrightarrow> s \<noteq> []" "\<not> is_text None"
  by (simp_all add: is_text_def)

lemma field_of_object_simps [simp]: "field_of k (Some (JArr xs)) = None" "field_of k (Some (JStr s)) = None"
  by (simp_all add: field_of_def)

lemma message_fields:
  "field_of ''id'' (Some (encode_message m)) = Some (JStr (msg_id m))"
  "field_of ''role'' (Some (encode_message m)) = Some (encode_role (msg_role m))"
  "field_of ''content'' (Some (encode_message m)) = Some (JArr (map encode_block (msg_content m)))"
  "field_of ''source'' (Some (encode_message m)) = Some (encode_source (msg_source m))"
  "is_object (Some (encode_message m))"
  by (simp_all add: encode_message_def)

lemma source_kind:
  "is_object (Some (encode_source s))"
  "field_of ''kind'' (Some (encode_source s)) =
     Some (JStr (case s of UserSource \<Rightarrow> ''user'' | PluginSource _ _ \<Rightarrow> ''plugin''
       | ModelSource _ _ _ \<Rightarrow> ''model'' | ToolSource _ \<Rightarrow> ''tool''
       | MergedSource k _ \<Rightarrow> k))"
  by (cases s; simp)+

lemma encode_role_iff [simp]:
  "encode_role r = JStr ''user'' \<longleftrightarrow> r = Role_user"
  "encode_role r = JStr ''assistant'' \<longleftrightarrow> r = Role_assistant"
  by (cases r; simp)+

lemma shape_user:
  "source_typed (msg_source m) \<Longrightarrow> assert_message_event_shape ''user/message'' (Some (encode_message m)) = Inr u
    \<longleftrightarrow> msg_id m \<noteq> [] \<and> msg_role m = Role_user"
  by (auto simp: assert_message_event_shape_def message_event_types_def message_fields source_kind
      Let_def res_simps split: message_source.splits)

lemma shape_unidentified:
  "msg_id m = [] \<Longrightarrow> assert_message_event_shape ''user/message'' (Some (encode_message m)) \<noteq> Inr u"
  by (simp add: assert_message_event_shape_def message_event_types_def message_fields Let_def res_simps)

lemma data_message:
  "field_of ''message'' (Some (encode_data (AssistantMessage t s m usage i))) = Some (encode_message m)"
  "field_of ''message'' (Some (encode_data (ToolResult r))) = Some (encode_message (tool_message r))"
  "is_object (Some (encode_data (AssistantMessage t s m usage i)))"
  "is_object (Some (encode_data (ToolResult r)))"
  by (simp_all add: turn_step_def)

lemma shape_assistant:
  "source_typed (msg_source m) \<Longrightarrow> assert_message_event_shape ''assistant/message'' (Some (encode_data (AssistantMessage t s m usage i))) = Inr u
    \<longleftrightarrow> message_importable (AssistantMessage t s m usage i)"
  by (cases "msg_source m")
    (auto simp: assert_message_event_shape_def message_event_types_def message_fields source_kind data_message
      message_importable_def has_provider_model_def Let_def res_simps simp del: encode_data.simps)

lemma shape_tool:
  "assert_message_event_shape ''tool/result'' (Some (encode_data (ToolResult r))) = Inr u
    \<longleftrightarrow> message_importable (ToolResult r)"
  by (auto simp: assert_message_event_shape_def message_event_types_def message_fields data_message
      message_importable_def tool_message_def array_items_def first_item_def Let_def res_simps
      simp del: encode_data.simps)

lemma header_fields:
  "field_of ''header'' (Some (encode_data (RequestHeader h r))) = Some (encode_header h)"
  "is_record (Some (encode_header h))"
  "is_object (Some (encode_data (RequestHeader h r)))"
  by (simp_all add: encode_header_def)

lemma config_fields:
  "field_of ''provider'' (field_of ''config'' (Some (encode_header h))) = Some (JStr (cc_provider (eh_config h)))"
  "field_of ''model'' (field_of ''config'' (Some (encode_header h))) = Some (JStr (cc_model (eh_config h)))"
  "field_of ''reasoningEffort'' (field_of ''config'' (Some (encode_header h))) =
     map_option JStr (cc_reasoningEffort (eh_config h))"
  "field_of ''maxTokens'' (field_of ''config'' (Some (encode_header h))) =
     map_option JNum (cc_maxTokens (eh_config h))"
  "field_of ''adapterDefaults'' (Some (encode_header h)) =
     map_option (\<lambda>d. JObj (optional ''reasoningEffort'' (marker (ad_reasoningEffort d))
       @ optional ''maxTokens'' (marker (ad_maxTokens d)))) (eh_adapterDefaults h)"
  "is_record (field_of ''config'' (Some (encode_header h)))"
  by (simp_all add: encode_header_def map_add_def split: option.splits)

lemma adapter_defaults_accepted:
  "assert_adapter_defaults (field_of ''adapterDefaults'' (Some (encode_header h)))
      (field_of ''config'' (Some (encode_header h))) = Inr u
    \<longleftrightarrow> (\<forall>d. eh_adapterDefaults h = Some d \<longrightarrow>
          (ad_reasoningEffort d \<longrightarrow> cc_reasoningEffort (eh_config h) \<noteq> None)
          \<and> (ad_maxTokens d \<longrightarrow> cc_maxTokens (eh_config h) \<noteq> None))"
  by (cases "eh_adapterDefaults h")
    (auto simp: assert_adapter_defaults_def config_fields allowed_adapter_keys_def res_simps marker_def
      map_add_def optional_def)

lemma header_shape:
  "assert_current_llm_shape ''request/header'' (Some (encode_data (RequestHeader h r))) = Inr u
    \<longleftrightarrow> header_importable h"
proof -
  have "has_provider_model (field_of ''config'' (Some (encode_header h)))
    \<longleftrightarrow> cc_provider (eh_config h) \<noteq> [] \<and> cc_model (eh_config h) \<noteq> []"
    by (simp add: has_provider_model_def config_fields)
  moreover have "(\<not> (effort \<noteq> None \<and> \<not> is_text effort)) \<longleftrightarrow> cc_reasoningEffort (eh_config h) \<noteq> Some []"
    if "effort = field_of ''reasoningEffort'' (field_of ''config'' (Some (encode_header h)))" for effort
    using that by (cases "cc_reasoningEffort (eh_config h)") (simp_all add: config_fields(3))
  moreover have "assert_message_event_shape ''request/header'' v = Inr ()" for v
    by (simp add: assert_message_event_shape_def message_event_types_def)
  ultimately show ?thesis
    by (simp add: assert_current_llm_shape_def header_fields header_importable_def map_error_def
        adapter_defaults_accepted res_simps Let_def del: encode_data.simps)
qed

lemma message_shape:
  assumes "type \<in> set message_event_types"
  shows "assert_current_llm_shape type v = Inr u \<longleftrightarrow> assert_message_event_shape type v = Inr u"
  using assms
  by (auto simp: assert_current_llm_shape_def map_error_def message_event_types_def Let_def split: sum.splits)

lemma event_count_nat [simp]: "is_event_count (Some (json_nat n)) \<longleftrightarrow> int n \<le> max_safe"
  using safe_integer_of_int [of "int n"] by (auto simp: is_event_count_def json_nat_def)

lemma safe_integer_int [simp]: "is_safe_integer (Some (JNum (of_int k))) \<longleftrightarrow> \<bar>k\<bar> \<le> max_safe"
  by (simp add: is_safe_integer_def)

lemma encoded_fields:
  "map_of (encode_event e) ''type'' = Some (JStr (ev_type e))"
  "map_of (encode_event e) ''seq'' = Some (json_nat (ev_seq e))"
  "map_of (encode_event e) ''time'' = Some (JNum (of_int (ev_time e)))"
  "map_of (encode_event e) ''data'' = Some (encode_data (ev_data e))"
  "map_of (encode_event e) ''ignorable'' = marker (ev_ignorable e)"
  "\<not> (\<exists>f \<in> set (encode_event e). fst f \<notin> set envelope_keys)"
  by (auto simp: encode_event_def map_add_def envelope_keys_def dest: fst_optional split: option.splits)

lemma envelope_accepted:
  "assert_session_event_envelope (encode_event e) = Inr u \<longleftrightarrow>
     ev_type e \<noteq> ''request/header-delta'' \<and> int (ev_seq e) \<le> max_safe \<and> \<bar>ev_time e\<bar> \<le> max_safe
     \<and> (ev_type e = ''request/header'' \<or> ev_type e \<in> set message_event_types \<longrightarrow>
          assert_current_llm_shape (ev_type e) (Some (encode_data (ev_data e))) = Inr u)"
  by (auto simp: assert_session_event_envelope_def encoded_fields marker_def)

lemma shape_of_data:
  assumes "event_typed e"
  shows "(ev_type e = ''request/header'' \<or> ev_type e \<in> set message_event_types \<longrightarrow>
      assert_current_llm_shape (ev_type e) (Some (encode_data (ev_data e))) = Inr u)
    \<longleftrightarrow> message_importable (ev_data e) \<and> (\<forall>h r. ev_data e = RequestHeader h r \<longrightarrow> header_importable h)"
proof (cases "ev_data e")
  case (UserMessage m)
  then show ?thesis
    using assms shape_user [of m u] by (simp add: event_typed_def ev_type_def message_shape message_event_types_def message_importable_def)
next
  case (AssistantMessage t s m usage i)
  then show ?thesis
    using assms shape_assistant [of m t s usage i u]
    by (simp add: event_typed_def ev_type_def message_shape message_event_types_def del: encode_data.simps)
next
  case (ToolResult r)
  then show ?thesis
    using shape_tool by (simp add: ev_type_def message_shape message_event_types_def del: encode_data.simps)
next
  case (RequestHeader h r)
  then show ?thesis
    using header_shape
    by (simp add: ev_type_def message_event_types_def message_importable_def del: encode_data.simps)
next
  case (PluginEvent t d)
  with assms show ?thesis
    by (auto simp: event_typed_def ev_type_def message_event_types_def core_event_types_def message_importable_def)
qed (auto simp: ev_type_def message_event_types_def message_importable_def)

text \<open>
  C40: The import check of a stored event accepts a well-typed event of the session exactly when its
  sequence number and time are safe integers, its type is not the removed delta format, its
  message is identified with the role, source and call id its type demands, and a request header
  names a provider and a model and marks as adapter defaults only fields it has.
\<close>

theorem seed_envelope_exact:
  assumes "event_typed e"
  shows "assert_session_event_envelope (encode_event e) = Inr () \<longleftrightarrow> event_importable e"
  using shape_of_data [OF assms, of "()"] by (auto simp: envelope_accepted event_importable_def)

definition seed_sample :: session_event where
  "seed_sample =
     \<lparr>ev_seq = 4, ev_time = 1000,
      ev_data = ToolResult
        \<lparr>tr_turn = 1, tr_step = 1, tr_id = ''m1'', tr_callId = ''call-1'', tr_toolCallId = ''call-2'',
         tr_content = [TextBlock ''done''], tr_isError = Some False, tr_error = None, tr_meta = None\<rparr>,
      ev_ignorable = False, ev_surfaceOp = Some (JStr ''append''), ev_sources = None\<rparr>"

theorem seed_envelope_exact_witness:
  "assert_session_event_envelope (encode_event seed_sample) \<noteq> Inr ()"
proof -
  have "event_typed seed_sample" "\<not> event_importable seed_sample"
    by (simp_all add: event_typed_def seed_sample_def event_importable_def message_importable_def)
  with seed_envelope_exact show ?thesis by blast
qed

end
