(* ===== verification/SessionProperties.thy ===== *)
theory SessionProperties
  imports SessionLogProperties SessionSeedProperties
begin

text \<open>
  The properties of the session log: the surface fold and its incremental manager, the append
  boundary, the derived history and headers, and the fork.
\<close>

section \<open>A sample log\<close>

definition sample_message :: "string \<Rightarrow> message" where
  "sample_message i =
     \<lparr>msg_id = i, msg_role = Role_user, msg_content = [TextBlock ''hello''], msg_source = UserSource\<rparr>"

definition sample_event :: "nat \<Rightarrow> event_data \<Rightarrow> json option \<Rightarrow> json option \<Rightarrow> session_event" where
  "sample_event n d op sources =
     \<lparr>ev_seq = n, ev_time = 0, ev_data = d, ev_ignorable = False, ev_surfaceOp = op, ev_sources = sources\<rparr>"

definition sample_replace :: "nat \<Rightarrow> nat \<Rightarrow> json" where
  "sample_replace s e =
     JObj [(''op'', JStr ''replace''), (''start'', JNum (of_nat s)), (''end'', JNum (of_nat e))]"

definition sample_log :: "session_event list" where
  "sample_log =
     [sample_event 0 (TurnStart 1) None None,
      sample_event 1 (UserMessage (sample_message ''m1'')) (Some (JStr ''append'')) None,
      sample_event 2 (UserMessage (sample_message ''m2'')) (Some (JStr ''append'')) None,
      sample_event 3 (UserMessage (sample_message ''summary'')) (Some (sample_replace 1 2))
        (Some (JArr [JNum 1, JNum 2])),
      sample_event 4 (TurnEnd 1 End_completed) None None]"

lemma safe_integer_numeral [simp]:
  "safe_integer_of (Finite 0) = Some 0" "safe_integer_of (Finite 1) = Some 1"
  "numeral w \<le> max_safe \<Longrightarrow> safe_integer_of (Finite (numeral w)) = Some (numeral w)"
  using safe_integer_of_int [of 0] safe_integer_of_int [of 1] safe_integer_of_int [of "numeral w"]
  by (simp_all add: max_safe_def)

lemma sample_fold:
  "fold_surface sample_log = Inr \<lparr>sf_nodes = [3],
     sf_replacements = [\<lparr>sr_seq = 3, sr_start = 1, sr_end = 2, sr_shadowed = [1, 2]\<rparr>]\<rparr>"
  by (simp add: fold_surface_def sample_log_def create_fold_state_def apply_surface_event_def
      plan_surface_event_def surface_op_of_def ev_type_def sample_event_def is_surface_eligible_type_def
      surface_event_types_def assert_provenance_def cited_sources_def replacement_range_def replace_op_def
      sample_replace_def assert_tool_result_rewrite_def max_safe_def)

section \<open>The surface\<close>

text \<open>
  C8: After a successful replay of a log, the surface nodes and the ranges shadowed by the
  replacements together list every message-producing event exactly once; each replacement cites
  every node it shadows, shadows only earlier events, and its range runs from its declared start
  to its declared end; and the sequence numbers are contiguous from zero.
\<close>

theorem surface_partitions_messages:
  assumes "fold_surface events = Inr res"
  shows "distinct (sf_nodes res @ concat (map sr_shadowed (sf_replacements res)))
    \<and> set (sf_nodes res @ concat (map sr_shadowed (sf_replacements res)))
        = {n. n < length events \<and> is_surface_eligible_type (ev_type (events ! n))}
    \<and> (\<forall>r \<in> set (sf_replacements res). replacement_sound events r)
    \<and> (\<forall>n < length events. ev_seq (events ! n) = n)"
proof -
  from assms obtain st reps where f: "fold_surface_from events 0 create_fold_state [] events = Inr (st, reps)"
    and res: "res = \<lparr>sf_nodes = fs_nodes st, sf_replacements = reps\<rparr>"
    by (auto simp: fold_surface_def res_simps)
  from fold_from_init [OF f] res show ?thesis by (simp add: surface_partition_def)
qed

theorem surface_partitions_messages_witness:
  "replacement_sound sample_log \<lparr>sr_seq = 3, sr_start = 1, sr_end = 2, sr_shadowed = [1, 2]\<rparr>"
  using surface_partitions_messages [OF sample_fold] by simp

text \<open>
  C7: The incremental surface manager is equivalent to the complete replay: whatever the
  interleaving of log pushes, validations of candidates and reads, reading its nodes gives exactly
  the nodes of the complete fold, or fails with exactly its error, and its generation is the number
  of replacements.
\<close>

theorem manager_agrees_with_fold:
  assumes "manager_reach evs m"
  shows "fst (manager_nodes evs 0 m) = and_then (fold_surface evs) (\<lambda>res. Inr (sf_nodes res))
    \<and> fst (manager_generation evs 0 m)
        = and_then (fold_surface evs) (\<lambda>res. Inr (length (sf_replacements res)))"
proof -
  obtain r m' where d: "process_delta evs 0 m = (r, m')" by fastforce
  note run = process_delta_run [OF manager_reach_ok [OF assms], unfolded d, simplified]
  note f = fold_replay [OF surface_inv_init, of evs "[]"]
  show ?thesis
  proof (cases "surface_run evs")
    case (Inl err)
    with f have "fold_surface evs = Inl err" by (simp add: surface_run_def fold_surface_def)
    with run(2) [OF Inl] d show ?thesis by (simp add: manager_nodes_def manager_generation_def)
  next
    case (Inr s)
    with fold_surface_run [of evs] obtain res where "fold_surface evs = Inr res"
      "sf_nodes res = fs_nodes (snd s)" "length (sf_replacements res) = fs_generation (snd s)"
      by auto
    with run(3) [OF Inr] d show ?thesis by (simp add: manager_nodes_def manager_generation_def)
  qed
qed

theorem manager_agrees_with_fold_witness:
  "fst (manager_nodes sample_log 0 (snd (manager_generation sample_log 0 (new_surface_manager 0)))) = Inr [3]"
  using manager_agrees_with_fold [OF mr_generation [OF mr_new, of sample_log]] by (simp add: sample_fold)

text \<open>
  Deep equality of JSON values is an equivalence relation on well-formed values, so the
  comparison that guards the rewriting of a tool result does not depend on the order of the object
  keys or on which side is the original.
\<close>

theorem deep_equality_equivalence:
  assumes "json_ok a" "json_ok b" "json_ok c"
  shows "is_deep_equal_json a a \<and> is_deep_equal_json a b = is_deep_equal_json b a
    \<and> (is_deep_equal_json a b \<and> is_deep_equal_json b c \<longrightarrow> is_deep_equal_json a c)"
  using assms deep_equal_refl deep_equal_sym deep_equal_trans by blast

theorem deep_equality_equivalence_witness:
  "is_deep_equal_json (JObj [(''b'', JNull), (''a'', JNum 1)]) (JObj [(''a'', JNum 1), (''b'', JNull)])"
  using deep_equality_equivalence [of "JObj [(''a'', JNum 1), (''b'', JNull)]"
      "JObj [(''b'', JNull), (''a'', JNum 1)]" JNull]
  by (simp add: is_deep_equal_json.simps)

section \<open>The append boundary\<close>

lemma session_log_surface:
  assumes "session_reach s"
  obtains res st where "fold_surface (sn_log s) = Inr res" "surface_run (sn_log s) = Inr (sn_log s, st)"
    "sf_nodes res = fs_nodes st" "session_ok s"
proof -
  have ok: "session_ok s" using assms by (rule session_reach_ok)
  then obtain st where "surface_run (sn_log s) = Inr (sn_log s, st)" by (rule session_okD)
  with fold_surface_run [of "sn_log s"] ok that show thesis by auto
qed

text \<open>
  C5: An append is atomic. When it is rejected, for whatever reason, the log, the derived messages
  and the request header of the session are what they were; when it returns an event, that event
  carries the next sequence number, is the new end of the log, and the new log replays.
\<close>

theorem append_is_atomic:
  assumes "session_reach s" "session_append veto now d op sources s = (r, s')"
  shows "case r of
      Inl err \<Rightarrow> sn_log s' = sn_log s \<and> fst (derive_messages s') = fst (derive_messages s)
        \<and> fst (request_header s') = fst (request_header s)
    | Inr e \<Rightarrow> sn_log s' = sn_log s @ [e] \<and> ev_seq e = length (sn_log s) \<and> ev_data e = d
        \<and> (\<exists>res. fold_surface (sn_log s') = Inr res)"
proof -
  have s': "session_reach s'" using sr_append [OF assms(1), of veto now d op sources] assms(2) by simp
  have same: "fst (derive_messages s') = fst (derive_messages s) \<and> fst (request_header s') = fst (request_header s)"
    if "sn_log s' = sn_log s"
  proof -
    from session_log_surface [OF assms(1)] obtain st where
      "surface_run (sn_log s) = Inr (sn_log s, st)" by metis
    with that derive_messages_run(1) request_header_run(1) session_reach_ok [OF assms(1)]
      session_reach_ok [OF s'] show ?thesis by metis
  qed
  obtain res where "fold_surface (sn_log s') = Inr res" using session_log_surface [OF s'] by metis
  from assms(2) show ?thesis
    by (cases rule: append_cases) (use same \<open>fold_surface (sn_log s') = Inr res\<close> in \<open>auto simp: candidate_def\<close>)
qed

text \<open>A session with one message, and the rejection of an ineligible event on it.\<close>

definition sample_session :: session where
  "sample_session = empty_session\<lparr>sn_header := default_header ''s1'' 0\<rparr>"

definition sample_first :: session_event where
  "sample_first = sample_event 0 (UserMessage (sample_message ''m1'')) (Some (JStr ''append'')) None"

definition sample_session1 :: session where
  "sample_session1 = snd (session_append (\<lambda>_. Inr ()) 0 (UserMessage (sample_message ''m1''))
     (Some (JStr ''append'')) None sample_session)"

lemma sample_session_new: "session_new False ''s1'' None None 0 = Inr sample_session"
  by (simp add: sample_session_def session_new_def validate_session_header_def default_header_def
      is_event_count_def map_error_def session_format_version_def max_safe_def empty_session_def)

lemma sample_session_reach: "session_reach sample_session" "session_reach sample_session1"
  unfolding sample_session1_def by (intro sr_append sr_new [OF sample_session_new])+

lemmas plan_simps =
  session_append_def assert_supported_request_header_def validate_next_def process_delta_def
  new_surface_manager_def plan_surface_event_def surface_op_of_def ev_type_def
  is_surface_eligible_type_def surface_event_types_def assert_provenance_def cited_sources_def Let_def

lemma sample_log1: "sn_log sample_session1 = [sample_first]"
  by (simp add: sample_session1_def sample_session_def empty_session_def plan_simps sample_first_def
      sample_event_def)

lemma sample_fold1: "fold_surface [sample_first] = Inr \<lparr>sf_nodes = [0], sf_replacements = []\<rparr>"
  by (simp add: fold_surface_def create_fold_state_def apply_surface_event_def sample_first_def
      sample_event_def plan_simps)

lemma sample_reject:
  "\<exists>err s'. session_append veto 0 (TurnStart 1) (Some JNull) None sample_session1 = (Inl err, s')"
proof -
  let ?c = "candidate sample_session1 0 (TurnStart 1) (Some JNull) None"
  obtain r s' where a: "session_append veto 0 (TurnStart 1) (Some JNull) None sample_session1 = (r, s')"
    by fastforce
  obtain err where bad: "surface_op_of ?c = Inl err"
    by (simp add: surface_op_of_def candidate_def ev_type_def is_surface_eligible_type_def surface_event_types_def)
  from a show ?thesis
  proof (cases rule: append_cases)
    case (commit m)
    obtain st where "manager_ok (sn_log sample_session1) (sn_manager sample_session1)"
      "surface_run (sn_log sample_session1) = Inr (sn_log sample_session1, st)"
      using session_okD [OF session_reach_ok [OF sample_session_reach(2)]] by metis
    with validate_next_cases(2) [of "sn_log sample_session1" "sn_manager sample_session1" ?c] commit(3)
    have False using bad by (auto simp: res_simps plan_surface_event_def split: if_splits)
    then show ?thesis ..
  qed (use a in auto)
qed

theorem append_is_atomic_witness:
  "sn_log (snd (session_append (\<lambda>_. Inr ()) 0 (TurnStart 1) (Some JNull) None sample_session1)) = [sample_first]"
proof -
  obtain err s' where "session_append (\<lambda>_. Inr ()) 0 (TurnStart 1) (Some JNull) None sample_session1 = (Inl err, s')"
    using sample_reject by blast
  with append_is_atomic [OF sample_session_reach(2) this] show ?thesis by (simp add: sample_log1)
qed

text \<open>
  C6: The cached message history is exact: in every reachable session, \<open>deriveMessages\<close> returns the
  projection of the surface of the complete log, whatever reads and replacements happened before.
\<close>

theorem derived_history_exact:
  assumes "session_reach s"
  shows "\<exists>res. fold_surface (sn_log s) = Inr res
    \<and> fst (derive_messages s) = Inr (derive_nodes (sn_log s) (sf_nodes res))"
  using session_log_surface [OF assms] derive_messages_run(1) by metis

theorem derived_history_exact_witness:
  "fst (derive_messages sample_session1) = Inr [sample_message ''m1'']"
proof -
  have "fst (derive_messages sample_session1) = Inr (derive_nodes [sample_first] [0])"
    using derived_history_exact [OF sample_session_reach(2)] by (simp add: sample_log1 sample_fold1)
  then show ?thesis
    by (simp add: derive_nodes_def List.map_filter_def sample_first_def sample_event_def derive_event_message_def)
qed

text \<open>
  The incrementally maintained request header and request context of a reachable session are
  the ones a complete replay of its log gives.
\<close>

theorem request_header_exact:
  assumes "session_reach s"
  shows "fst (request_header s) = fold_request_header (sn_log s) None
    \<and> fst (request_context s) = fold_request_context (sn_log s) None"
  using session_reach_ok [OF assms] request_header_run(1) request_context_run(1) by blast

theorem request_header_exact_witness:
  "fst (request_header sample_session1) = None"
  using request_header_exact [OF sample_session_reach(2)] by (simp add: sample_log1 sample_first_def sample_event_def)

text \<open>An append that is not reentrant succeeds on an ineligible type and on a plain message.\<close>

lemma append_succeeds:
  assumes ok: "session_ok s" and detached: "sn_appending s = None"
    and sup: "assert_supported_request_header (event_type_of d) (Some (encode_data d)) = Inr ()"
    and op: "surface_op_of (candidate s now d op None) \<in> {Inr None, Inr (Some Op_append)}"
  shows "\<exists>m. session_append veto now d op None s =
    (Inr (candidate s now d op None), s\<lparr>sn_manager := m, sn_log := sn_log s @ [candidate s now d op None]\<rparr>)"
proof -
  let ?c = "candidate s now d op None"
  from ok obtain st where m: "manager_ok (sn_log s) (sn_manager s)"
    and run: "surface_run (sn_log s) = Inr (sn_log s, st)" by (rule session_okD)
  have "cited_sources ?c = Inr []" "ev_seq ?c = length (sn_log s)"
    by (simp_all add: cited_sources_def candidate_def)
  with op have "\<exists>p. plan_surface_event st ?c (length (sn_log s)) (sn_log s) 0 = Inr p"
    by (auto simp: plan_surface_event_def assert_provenance_def)
  then have "fst (validate_next (sn_log s) 0 ?c (sn_manager s)) = Inr ()"
    using validate_next_cases(2) [OF m, of ?c] run by auto
  then obtain mgr where "validate_next (sn_log s) 0 ?c (sn_manager s) = (Inr (), mgr)"
    by (metis prod.collapse)
  with detached sup show ?thesis
    by (intro exI [of _ mgr]) (simp add: session_append_def Let_def candidate_def)
qed

section \<open>Import and forks\<close>

lemma import_events_log:
  "import_events i s es = Inr s' \<Longrightarrow>
     sn_log s' = sn_log s @ es \<and> sn_appending s' = sn_appending s
     \<and> (\<forall>e \<in> set es. assert_session_event_envelope (encode_event e) = Inr ())"
proof (induction es arbitrary: i s)
  case (Cons e es)
  from Cons.prems obtain m where "assert_session_event_envelope (encode_event e) = Inr ()"
    "import_events (Suc i) (s\<lparr>sn_manager := m, sn_log := sn_log s @ [e]\<rparr>) es = Inr s'"
    by (auto simp: res_simps map_error_def split: sum.splits prod.splits)
  with Cons.IH show ?case by fastforce
qed simp

lemma session_new_log:
  assumes "session_new restore' sid (Some es) header now = Inr s"
  shows "(if last_event_type es = Some ''session/end-seed'' then sn_log s = es
      else sn_log s = es @ [sample_event (length es) EndSeed None None\<lparr>ev_time := now\<rparr>])
    \<and> sn_firstLiveSeq s = length es \<and> sn_appending s = None
    \<and> (\<forall>e \<in> set es. assert_session_event_envelope (encode_event e) = Inr ())"
  using assms
proof (cases rule: session_new_cases)
  case (1 s0 s1)
  then have s0: "sn_log s0 = es" "sn_appending s0 = None"
    "\<forall>e \<in> set es. assert_session_event_envelope (encode_event e) = Inr ()"
    using import_events_log [of 0 empty_session es s0] by (simp_all add: empty_session_def)
  with 1(2) have s1: "sn_log s1 = es" "sn_firstLiveSeq s1 = length es" "sn_appending s1 = None" by auto
  show ?thesis
  proof (cases "last_event_type es = Some ''session/end-seed''")
    case True
    with 1(3) s0 s1 show ?thesis by simp
  next
    case False
    with 1(3) s1 have "session_append (\<lambda>_. Inr ()) now EndSeed None None s1 =
      (Inr (candidate s1 now EndSeed None None), s)" by simp
    then show ?thesis
      by (cases rule: append_cases) (use False s0 s1 in \<open>auto simp: candidate_def sample_event_def\<close>)
  qed
qed

lemma fork_prefix_Inr:
  assumes "fork_prefix evs b = Inr seed"
  shows "\<exists>k < length evs. seed = take (k + 1) evs \<and> open_turn_of seed = None"
proof -
  from assms obtain z where z: "safe_integer_of b = Some z" by (auto simp: fork_prefix_def split: option.splits)
  note f = assms [unfolded fork_prefix_def z option.case]
  have b: "\<not> z < 0" "\<not> int (length evs) \<le> z" using f by (simp_all split: if_splits)
  have "int (ev_seq (evs ! nat z)) = z" using f b by (simp split: if_splits)
  with f b have "(case open_turn_of (take (nat z + 1) evs) of Some t \<Rightarrow> Inl (Open_turn z t)
      | None \<Rightarrow> Inr (take (nat z + 1) evs)) = Inr seed" by simp
  then have "seed = take (nat z + 1) evs" "open_turn_of seed = None"
    by (cases "open_turn_of (take (nat z + 1) evs)"; simp)+
  moreover have "nat z < length evs" using b by linarith
  ultimately show ?thesis by blast
qed

lemma fork_seed_Inr:
  assumes "fork_seed evs requested = Inr seed"
  shows "\<exists>k \<le> length evs. seed = take k evs \<and> open_turn_of seed = None"
proof -
  have "seed = [] \<or> (\<exists>b. fork_prefix evs b = Inr seed)"
    using assms unfolding fork_seed_def by (cases requested; cases "evs = []") force+
  then show ?thesis
  proof (elim disjE exE)
    assume "seed = []"
    then show ?thesis by (intro exI [of _ 0]) (simp add: open_turn_of_def)
  next
    fix b assume "fork_prefix evs b = Inr seed"
    from fork_prefix_Inr [OF this] obtain k where "k < length evs" "seed = take (k + 1) evs" "open_turn_of seed = None"
      by blast
    then show ?thesis by (intro exI [of _ "k + 1"]) auto
  qed
qed

lemma open_turn_of_plain:
  "\<not> turn_boundary e \<Longrightarrow> open_turn_of (es @ [e]) = open_turn_of es"
  by (simp add: open_turn_of_def)


lemma sample_first_importable: "assert_session_event_envelope (encode_event sample_first) = Inr ()"
  using shape_of_data [of sample_first "()"]
  by (simp add: envelope_accepted sample_first_def sample_event_def ev_type_def event_typed_def
      message_importable_def sample_message_def max_safe_def message_event_types_def)

lemma sample_fork:
  "\<exists>child. session_fork sample_session1 (Some (Finite 0)) ''s2'' 5 = Inr child"
proof -
  let ?h = "fork_header (sn_header sample_session1) ''s2'' [sample_first] 5"
  have hd: "sn_header sample_session1 = default_header ''s1'' 0"
    by (simp add: sample_session1_def sample_session_def empty_session_def plan_simps)
  have seed: "fork_seed (sn_log sample_session1) (Some (Finite 0)) = Inr [sample_first]"
    by (simp add: sample_log1 fork_seed_def fork_prefix_def open_turn_of_def)
      (simp add: sample_first_def sample_event_def)
  have head: "validate_session_header ''s2'' (Some ?h) = Inr ?h"
    by (simp add: hd fork_header_def default_header_def validate_session_header_def is_event_count_def
        session_format_version_def max_safe_def json_nat_def optional_def is_string_def)
  obtain s0 where s0: "import_events 0 empty_session [sample_first] = Inr s0"
    using sample_first_importable
    by (simp add: map_error_def) (simp add: empty_session_def sample_first_def sample_event_def plan_simps)
  let ?s1 = "s0\<lparr>sn_firstLiveSeq := length (sn_log s0), sn_header := ?h\<rparr>"
  have ok: "session_ok ?s1" "sn_appending ?s1 = None" "sn_log ?s1 = [sample_first]"
    using import_events_ok [OF session_ok_empty s0] import_events_log [OF s0]
    by (simp_all add: session_ok_def derived_ok_def empty_session_def)
  have "assert_supported_request_header (event_type_of EndSeed) (Some (encode_data EndSeed)) = Inr ()"
    "surface_op_of (candidate ?s1 5 EndSeed None None) \<in> {Inr None, Inr (Some Op_append)}"
    by (simp_all add: assert_supported_request_header_def surface_op_of_def candidate_def ev_type_def
        is_surface_eligible_type_def surface_event_types_def)
  from append_succeeds [OF ok(1,2) this] obtain e t where
    "session_append (\<lambda>_. Inr ()) 5 EndSeed None None ?s1 = (Inr e, t)" by blast
  moreover have "last_event_type [sample_first] \<noteq> Some ''session/end-seed''"
    by (simp add: last_event_type_def ev_type_def sample_first_def sample_event_def)
  ultimately have "session_new False ''s2'' (Some [sample_first]) (Some ?h) 5 = Inr t"
    using s0 head ok(3) by (simp add: session_new_def map_error_def Let_def)
  with seed show ?thesis by (auto simp: session_fork_def map_error_def)
qed


text \<open>
  The append boundary admits what the import boundary refuses: a session accepts a user message
  without an identity, and the log it is then left with can be neither restored nor used as a seed.
\<close>

theorem append_admits_unimportable:
  assumes "session_reach s" "sn_appending s = None" "msg_id m = []"
  shows "\<exists>e s'. session_append veto now (UserMessage m) (Some (JStr ''append'')) None s = (Inr e, s')
    \<and> (\<forall>restore' sid header t. \<exists>err. session_new restore' sid (Some (sn_log s')) header t = Inl err)"
proof -
  let ?c = "candidate s now (UserMessage m) (Some (JStr ''append'')) None"
  have "assert_supported_request_header (event_type_of (UserMessage m)) (Some (encode_data (UserMessage m))) = Inr ()"
    "surface_op_of ?c \<in> {Inr None, Inr (Some Op_append)}"
    by (simp_all add: assert_supported_request_header_def surface_op_of_def candidate_def ev_type_def
        is_surface_eligible_type_def surface_event_types_def)
  from append_succeeds [OF session_reach_ok [OF assms(1)] assms(2) this] obtain mgr where
    app: "session_append veto now (UserMessage m) (Some (JStr ''append'')) None s =
      (Inr ?c, s\<lparr>sn_manager := mgr, sn_log := sn_log s @ [?c]\<rparr>)" by blast
  have bad: "assert_session_event_envelope (encode_event ?c) \<noteq> Inr ()"
    using shape_unidentified [OF assms(3), of "()"]
    by (simp add: envelope_accepted candidate_def ev_type_def message_shape message_event_types_def)
  have "\<exists>err. session_new restore' sid (Some (sn_log s @ [?c])) header t = Inl err" for restore' sid header t
  proof (cases "session_new restore' sid (Some (sn_log s @ [?c])) header t")
    case (Inr s')
    with session_new_log [OF Inr] bad show ?thesis by simp
  qed simp
  with app show ?thesis by auto
qed

theorem append_admits_unimportable_witness:
  "\<exists>e s'. session_append (\<lambda>_. Inr ()) 1 (UserMessage (sample_message [])) (Some (JStr ''append'')) None
     sample_session1 = (Inr e, s')"
proof -
  have "sn_appending sample_session1 = None"
    by (simp add: sample_session1_def sample_session_def empty_session_def plan_simps)
  from append_admits_unimportable [OF sample_session_reach(2) this, of "sample_message []" "\<lambda>_. Inr ()" 1]
  show ?thesis by (auto simp: sample_message_def)
qed

end
