(* ===== verification/SessionTraceProperties.thy ===== *)
theory SessionTraceProperties
  imports SessionTrace SessionProperties
begin

text \<open>
  Brackets and repair: the trace of an accepted log is well nested, the repair scan and the trace
  agree on accepted logs, the synthesised closers bring every accepted log back to a closed one
  that both the companion and the surface accept, and a session attached to the companion only
  ever holds accepted logs.
\<close>

section \<open>Nesting\<close>

definition trace_ok :: "session_trace \<Rightarrow> bool" where
  "trace_ok t \<longleftrightarrow>
     (\<forall>n. tc_openTurn t = Some n \<longrightarrow> n = tc_nextTurn t)
     \<and> (\<forall>n. tc_openStep t = Some n \<longrightarrow> n = tc_nextStep t \<and> tc_openTurn t \<noteq> None)
     \<and> (tc_openStep t = None \<longrightarrow> tc_pendingCalls t = {})"

lemma trace_ok_fresh [simp]: "trace_ok fresh_trace"
  by (simp add: trace_ok_def fresh_trace_def)

lemmas relation_simps =
  validate_relation_def keep_trace_def outside_turn_def require_open_step_def apply_transition_def res_simps

lemma trace_step_iff:
  "trace_step t e = Inr t' \<longleftrightarrow>
     tc_lastSeq t < int (ev_seq e) \<and> (\<exists>x. validate_relation t e = Inr x \<and> t' = apply_transition t x)"
  by (auto simp: trace_step_def validate_event_def res_simps split: if_splits)

lemma trace_step_ok: "trace_ok t \<Longrightarrow> trace_step t e = Inr t' \<Longrightarrow> trace_ok t'"
  unfolding trace_step_iff trace_ok_def
  by (cases "ev_data e") (auto simp: relation_simps split: if_splits)

interpretation trace_log: strict_log trace_step trace_ok
  by unfold_locales (rule trace_step_ok)

lemma seed_trace_ok: "seed_trace es = Inr t \<Longrightarrow> trace_ok t"
  unfolding seed_trace_def by (rule trace_log.replay_inv [OF trace_ok_fresh])

lemma seed_trace_snoc: "seed_trace (es @ [e]) = and_then (seed_trace es) (\<lambda>t. trace_step t e)"
  by (simp add: seed_trace_def replay_snoc)

lemma seed_trace_append: "seed_trace (es @ xs) = and_then (seed_trace es) (\<lambda>t. replay trace_step t xs)"
  by (simp add: seed_trace_def replay_append)

section \<open>The repair scan follows the trace\<close>

definition pending_linked :: "session_trace \<Rightarrow> (string \<times> (nat \<times> nat option)) list \<Rightarrow> bool" where
  "pending_linked t ps \<longleftrightarrow>
     distinct (map fst ps)
     \<and> (\<forall>p \<in> set ps. tc_openStep t = Some (fst (snd p))
          \<and> (snd (snd p) \<noteq> None \<longrightarrow> fst p \<in> tc_pendingCalls t))"

definition trace_linked :: "session_trace \<Rightarrow> repair_scan \<Rightarrow> bool" where
  "trace_linked t s \<longleftrightarrow>
     tc_openTurn t = rp_openTurn s \<and> tc_openStep t = rp_openStep s \<and> pending_linked t (rp_pendingCalls s)"

lemma set_update_subset: "set (AList.update k v m) \<subseteq> insert (k, v) (set m)"
  by (induction m) auto

lemma set_delete_subset: "set (AList.delete k m) \<subseteq> set m"
  by (induction m) auto

lemma in_delete: "(c, v) \<in> set (AList.delete k m) \<Longrightarrow> c \<noteq> k \<and> (c, v) \<in> set m"
  by (induction m) (auto split: if_splits)

lemma pending_linked_mono:
  "pending_linked t ps \<Longrightarrow> tc_openStep t' = tc_openStep t \<Longrightarrow> tc_pendingCalls t \<subseteq> tc_pendingCalls t'
    \<Longrightarrow> pending_linked t' ps"
  unfolding pending_linked_def by (simp add: subset_iff)

lemma pending_linked_set:
  assumes "pending_linked t ps" "tc_openStep t = Some step" "q \<noteq> None \<Longrightarrow> c \<in> tc_pendingCalls t"
  shows "pending_linked t (js_set c (step, q) ps)"
  unfolding pending_linked_def
proof (intro conjI ballI)
  show "distinct (map fst (js_set c (step, q) ps))"
    using assms(1) by (simp add: pending_linked_def distinct_update)
next
  fix p assume "p \<in> set (js_set c (step, q) ps)"
  then have "p = (c, (step, q)) \<or> p \<in> set ps" using set_update_subset by fast
  with assms show "tc_openStep t = Some (fst (snd p))"
    "snd (snd p) \<noteq> None \<longrightarrow> fst p \<in> tc_pendingCalls t"
    by (auto simp: pending_linked_def)
qed

lemma pending_linked_delete:
  assumes "pending_linked t ps" "tc_openStep t' = tc_openStep t" "tc_pendingCalls t - {c} \<subseteq> tc_pendingCalls t'"
  shows "pending_linked t' (js_delete c ps)"
  unfolding pending_linked_def
proof (intro conjI ballI)
  show "distinct (map fst (js_delete c ps))"
    using assms(1) by (simp add: pending_linked_def distinct_delete)
next
  fix p assume "p \<in> set (js_delete c ps)"
  then have "fst p \<noteq> c" "p \<in> set ps" using in_delete [of "fst p" "snd p" c ps] by auto
  with assms show "tc_openStep t' = Some (fst (snd p))"
    "snd (snd p) \<noteq> None \<longrightarrow> fst p \<in> tc_pendingCalls t'"
    by (auto simp: pending_linked_def)
qed

lemma register_calls_linked:
  "pending_linked t ps \<Longrightarrow> tc_openStep t = Some step \<Longrightarrow> pending_linked t (register_calls step bs ps)"
proof (induction bs arbitrary: ps)
  case (Cons b bs)
  have "pending_linked t (js_set c (step, None) ps)" for c
    by (rule pending_linked_set [OF Cons.prems]) simp
  with Cons show ?case by (cases b) simp_all
qed simp

lemma trace_linked_step:
  assumes link: "trace_linked t s" and ok: "trace_ok t" and step: "trace_step t e = Inr t'"
  shows "trace_linked t' (scan_event s e)"
proof -
  obtain x where x: "validate_relation t e = Inr x" "t' = apply_transition t x"
    using step by (auto simp: trace_step_iff)
  note l = link [unfolded trace_linked_def]
  show ?thesis
  proof (cases "ev_data e")
    case (AssistantMessage turn step' m u i)
    with x have "tc_openStep t = Some step'" "t' = t\<lparr>tc_lastSeq := int (ev_seq e)\<rparr>"
      by (auto simp: relation_simps)
    moreover from this have "pending_linked t' (rp_pendingCalls s)" "tc_openStep t' = Some step'"
      using l pending_linked_mono [of t "rp_pendingCalls s" t'] by simp_all
    note register_calls_linked [OF this]
    ultimately show ?thesis using l by (simp add: trace_linked_def scan_event_def AssistantMessage)
  next
    case (ToolCall turn step' c n a)
    with x have t': "tc_openStep t = Some step'"
      "t' = t\<lparr>tc_lastSeq := int (ev_seq e), tc_pendingCalls := insert c (tc_pendingCalls t)\<rparr>"
      by (auto simp: relation_simps)
    show ?thesis
    proof (cases "js_get (rp_pendingCalls s) c")
      case None
      with l t' show ?thesis by (auto simp: trace_linked_def scan_event_def ToolCall pending_linked_def)
    next
      case (Some v)
      obtain k q where v: "v = (k, q)" by fastforce
      have "tc_openStep t = Some k" using l Some v by (auto simp: pending_linked_def dest!: map_of_SomeD)
      have "pending_linked t' (rp_pendingCalls s)" using l t' by (auto simp: pending_linked_def)
      then have "pending_linked t' (js_set c (k, Some (ev_seq e)) (rp_pendingCalls s))"
        by (rule pending_linked_set) (use t' \<open>tc_openStep t = Some k\<close> in simp_all)
      with l t' Some v show ?thesis by (simp add: trace_linked_def scan_event_def ToolCall)
    qed
  next
    case (ToolResult r)
    have "pending_linked t' (js_delete (tr_callId r) (rp_pendingCalls s))"
      by (rule pending_linked_delete [of t])
        (use x l in \<open>auto simp: relation_simps ToolResult split: if_splits\<close>)
    with x l show ?thesis
      by (auto simp: relation_simps ToolResult trace_linked_def scan_event_def split: if_splits)
  qed (use x l ok in \<open>auto simp: relation_simps trace_linked_def scan_event_def pending_linked_def
      trace_ok_def split: if_splits\<close>)
qed

lemma scan_log_snoc: "scan_log (es @ [e]) = scan_event (scan_log es) e"
  by (simp add: scan_log_def)

lemma seed_trace_linked: "seed_trace es = Inr t \<Longrightarrow> trace_linked t (scan_log es)"
proof (induction es arbitrary: t rule: rev_induct)
  case Nil
  then show ?case
    by (auto simp: seed_trace_def scan_log_def trace_linked_def pending_linked_def fresh_trace_def init_scan_def)
next
  case (snoc e es)
  then obtain t0 where "seed_trace es = Inr t0" "trace_step t0 e = Inr t"
    by (auto simp: seed_trace_snoc res_simps)
  with trace_linked_step [OF snoc.IH seed_trace_ok] show ?case by (simp add: scan_log_snoc)
qed

lemma seed_trace_last:
  "seed_trace es = Inr t \<Longrightarrow> es \<noteq> [] \<Longrightarrow> tc_lastSeq t = int (ev_seq (last es))"
proof (induction es rule: rev_induct)
  case (snoc e es)
  then obtain t0 x where "validate_relation t0 e = Inr x" "t = apply_transition t0 x"
    by (auto simp: seed_trace_snoc res_simps trace_step_iff)
  then show ?case by (cases "ev_data e") (auto simp: relation_simps split: if_splits)
qed simp

section \<open>The closers are accepted\<close>

lemma length_call_closers [simp]: "length (call_closers seq time turn ps) = length ps"
  by (induction seq time turn ps rule: call_closers.induct) simp_all

lemma call_closers_trace:
  "tc_lastSeq t < int seq \<Longrightarrow> tc_openTurn t = Some turn \<Longrightarrow> pending_linked t ps \<Longrightarrow>
     \<exists>t'. replay trace_step t (call_closers seq time turn ps) = Inr t'
       \<and> tc_lastSeq t' < int (seq + length ps) \<and> tc_openTurn t' = Some turn \<and> tc_openStep t' = tc_openStep t
       \<and> tc_pendingCalls t' \<subseteq> tc_pendingCalls t"
proof (induction seq time turn ps arbitrary: t rule: call_closers.induct)
  case (2 seq time turn c step q ps)
  let ?t = "t\<lparr>tc_lastSeq := int seq, tc_pendingCalls := tc_pendingCalls t - {c}\<rparr>"
  have "tc_openStep t = Some step" "q \<noteq> None \<longrightarrow> c \<in> tc_pendingCalls t"
    using "2.prems"(3) by (auto simp: pending_linked_def)
  then have step: "trace_step t (call_closer seq time turn c step q) = Inr ?t"
    using "2.prems"(1,2)
    by (cases q) (auto simp: trace_step_iff relation_simps call_closer_def closer_event_def synthetic_not_started_def)
  have "c \<notin> fst ` set ps" using "2.prems"(3) by (simp add: pending_linked_def)
  then have ne: "c' \<noteq> c" if "(c', v) \<in> set ps" for c' v using that by force
  have "pending_linked t ps" using "2.prems"(3) by (auto simp: pending_linked_def)
  then have "pending_linked ?t ps" unfolding pending_linked_def using ne by fastforce
  from "2.IH" [of ?t] this "2.prems"(2) obtain t' where
    "replay trace_step ?t (call_closers (Suc seq) time turn ps) = Inr t'"
    "tc_lastSeq t' < int (Suc seq + length ps)" "tc_openTurn t' = Some turn" "tc_openStep t' = tc_openStep t"
    "tc_pendingCalls t' \<subseteq> tc_pendingCalls t - {c}" by auto
  with step show ?case by auto
qed auto

lemma closers_cases:
  assumes "rp_openTurn (scan_log es) = Some turn" "es \<noteq> []"
  defines "ps \<equiv> rp_pendingCalls (scan_log es)" and "seq \<equiv> ev_seq (last es) + 1" and "time \<equiv> ev_time (last es)"
  shows "rp_openStep (scan_log es) = None \<Longrightarrow> interrupted_turn_closers es =
      call_closers seq time turn ps
      @ [closer_event (seq + length ps) time (TurnEnd turn End_interrupted) None None]"
    and "rp_openStep (scan_log es) = Some k \<Longrightarrow> interrupted_turn_closers es =
      call_closers seq time turn ps
      @ [closer_event (seq + length ps) time (StepEnd turn k) None None,
         closer_event (seq + length ps + 1) time (TurnEnd turn End_interrupted) None None]"
  using assms by (simp_all add: interrupted_turn_closers_def Let_def)

lemma closers_nil:
  "rp_openTurn (scan_log es) = None \<Longrightarrow> interrupted_turn_closers es = []"
  by (simp add: interrupted_turn_closers_def Let_def)

lemma scan_open_nonempty: "rp_openTurn (scan_log es) = Some turn \<Longrightarrow> es \<noteq> []"
  by (auto simp: scan_log_def init_scan_def)

lemma replay_two: "replay step s [x, y] = and_then (step s x) (\<lambda>t. step t y)"
  by (cases "step s x") (auto simp: and_then_def split: sum.splits)

definition trace_closed :: "session_trace \<Rightarrow> bool" where
  "trace_closed t \<longleftrightarrow> tc_openTurn t = None \<and> tc_openStep t = None \<and> tc_pendingCalls t = {}"

lemma close_turn:
  assumes "tc_lastSeq t < int n" "tc_openTurn t = Some turn" "tc_openStep t = None" "tc_pendingCalls t = {}"
  shows "\<exists>t'. trace_step t (closer_event n time (TurnEnd turn r) None None) = Inr t' \<and> trace_closed t'"
  using assms by (auto simp: trace_step_iff relation_simps closer_event_def trace_closed_def)

lemma close_step:
  assumes "tc_lastSeq t < int n" "tc_openTurn t = Some turn" "tc_openStep t = Some k"
  shows "\<exists>t'. trace_step t (closer_event n time (StepEnd turn k) None None) = Inr t'
    \<and> tc_lastSeq t' = int n \<and> tc_openTurn t' = Some turn \<and> tc_openStep t' = None \<and> tc_pendingCalls t' = {}"
  using assms by (auto simp: trace_step_iff relation_simps closer_event_def)

lemma closers_trace:
  assumes es: "seed_trace es = Inr t"
  shows "\<exists>t'. replay trace_step t (interrupted_turn_closers es) = Inr t' \<and> trace_closed t'"
proof -
  note link = seed_trace_linked [OF es, unfolded trace_linked_def]
  note ok = seed_trace_ok [OF es]
  show ?thesis
  proof (cases "rp_openTurn (scan_log es)")
    case None
    with link ok have "trace_closed t" by (cases "tc_openStep t") (auto simp: trace_closed_def trace_ok_def)
    with closers_nil [OF None] show ?thesis by simp
  next
    case (Some turn)
    note ne = scan_open_nonempty [OF Some]
    let ?seq = "ev_seq (last es) + 1" and ?ps = "rp_pendingCalls (scan_log es)"
    have seq: "tc_lastSeq t < int ?seq" using seed_trace_last [OF es ne] by simp
    from call_closers_trace [OF seq, of turn ?ps "ev_time (last es)"] link Some obtain t1 where
      t1: "replay trace_step t (call_closers ?seq (ev_time (last es)) turn ?ps) = Inr t1"
      "tc_lastSeq t1 < int (?seq + length ?ps)" "tc_openTurn t1 = Some turn" "tc_openStep t1 = tc_openStep t"
      "tc_pendingCalls t1 \<subseteq> tc_pendingCalls t" by auto
    show ?thesis
    proof (cases "rp_openStep (scan_log es)")
      case None
      with link ok t1(5) have "tc_openStep t1 = None" "tc_pendingCalls t1 = {}"
        using t1(4) by (auto simp: trace_ok_def)
      from close_turn [OF t1(2,3) this] t1(1) closers_cases(1) [OF Some ne None] show ?thesis
        by (auto simp: replay_append)
    next
      case (Some k)
      with link t1(4) have "tc_openStep t1 = Some k" by simp
      from close_step [OF t1(2,3) this, of "ev_time (last es)"] obtain t2 where
        t2: "trace_step t1 (closer_event (?seq + length ?ps) (ev_time (last es)) (StepEnd turn k) None None) = Inr t2"
        "tc_lastSeq t2 = int (?seq + length ?ps)" "tc_openTurn t2 = Some turn" "tc_openStep t2 = None"
        "tc_pendingCalls t2 = {}" by blast
      from close_turn [OF _ t2(3-5), of "?seq + length ?ps + 1" "ev_time (last es)" End_interrupted] t2(2)
      obtain t3 where "trace_step t2 (closer_event (?seq + length ?ps + 1) (ev_time (last es))
          (TurnEnd turn End_interrupted) None None) = Inr t3" "trace_closed t3" by auto
      with t2(1) t1(1) closers_cases(2) [OF \<open>rp_openTurn (scan_log es) = Some turn\<close> ne Some] show ?thesis
        by (auto simp: replay_append replay_two)
    qed
  qed
qed

text \<open>The sequence numbers the scan remembers are those of events of the log.\<close>

lemma register_calls_seqs:
  "(c, (step, Some n)) \<in> set (register_calls k bs ps) \<Longrightarrow> (c, (step, Some n)) \<in> set ps"
proof (induction bs arbitrary: ps)
  case (Cons b bs)
  then have "(c, (step, Some n)) \<in> set (case b of ToolCallBlock d _ _ \<Rightarrow> js_set d (k, None) ps | _ \<Rightarrow> ps)"
    by simp
  then show ?case
    using set_update_subset by (cases b) (auto dest!: subsetD [OF set_update_subset])
qed simp

lemma scan_log_seqs:
  "(c, (step, Some n)) \<in> set (rp_pendingCalls (scan_log es)) \<Longrightarrow> \<exists>e \<in> set es. ev_seq e = n"
proof (induction es arbitrary: c step rule: rev_induct)
  case Nil
  then show ?case by (simp add: scan_log_def init_scan_def)
next
  case (snoc e es)
  have "ev_seq e = n \<or> (\<exists>c step. (c, (step, Some n)) \<in> set (rp_pendingCalls (scan_log es)))"
    using snoc.prems
    by (auto simp: scan_log_snoc scan_event_def
        dest!: subsetD [OF set_update_subset] subsetD [OF set_delete_subset] register_calls_seqs
        split: event_data.splits option.splits)
  with snoc.IH show ?case by auto
qed

lemma call_closer_plan:
  assumes "q \<noteq> None \<Longrightarrow> the q < seq \<and> int (the q) \<le> max_safe"
  shows "plan_surface_event st (call_closer seq time turn c step q) seq evs 0 = Inr (Some (AppendPlan seq))"
  using assms safe_integer_of_int [of "int (the q)"]
  by (cases q)
    (simp_all add: plan_surface_event_def call_closer_def closer_event_def surface_op_of_def ev_type_def
      is_surface_eligible_type_def surface_event_types_def assert_provenance_def cited_sources_def)

lemma call_closers_surface:
  "\<forall>p \<in> set ps. snd (snd p) \<noteq> None \<longrightarrow> the (snd (snd p)) < length evs \<and> int (the (snd (snd p))) \<le> max_safe \<Longrightarrow>
     replay accept_event (evs, st) (call_closers (length evs) time turn ps) =
       Inr (evs @ call_closers (length evs) time turn ps,
            st\<lparr>fs_nodes := fs_nodes st @ [length evs ..< length evs + length ps]\<rparr>)"
proof (induction ps arbitrary: evs st)
  case (Cons p ps)
  obtain c step q where p: "p = (c, (step, q))" by (cases p) auto
  let ?e = "call_closer (length evs) time turn c step q"
  have plan: "plan_surface_event st ?e (length evs) evs 0 = Inr (Some (AppendPlan (length evs)))"
    using Cons.prems p by (intro call_closer_plan) simp
  have "\<forall>p \<in> set ps. snd (snd p) \<noteq> None \<longrightarrow> the (snd (snd p)) < length (evs @ [?e])
      \<and> int (the (snd (snd p))) \<le> max_safe"
    using Cons.prems by force
  from Cons.IH [OF this] plan p show ?case by (simp add: upt_conv_Cons del: upt_Suc)
qed simp

lemma boundary_surface:
  assumes "\<not> is_surface_eligible_type (event_type_of d)"
  shows "accept_event (evs, st) (closer_event (length evs) time d None None) =
    Inr (evs @ [closer_event (length evs) time d None None], st)"
  using assms by (simp add: plan_surface_event_def closer_event_def surface_op_of_def ev_type_def)

lemma contiguous_last:
  "\<forall>n < length es. ev_seq (es ! n) = n \<Longrightarrow> es \<noteq> [] \<Longrightarrow> ev_seq (last es) + 1 = length es"
  by (simp add: last_conv_nth)

lemma closers_surface:
  assumes run: "surface_run es = Inr (es, st)" and small: "int (length es) \<le> max_safe"
  shows "\<exists>k st'. surface_run (es @ interrupted_turn_closers es) = Inr (es @ interrupted_turn_closers es, st')
    \<and> fs_nodes st' = fs_nodes st @ [length es ..< length es + k] \<and> fs_generation st' = fs_generation st"
proof -
  have cont: "\<forall>n < length es. ev_seq (es ! n) = n" using surface_run_Inr(2) [OF run] by simp
  have "\<exists>k st'. replay accept_event (es, st) (interrupted_turn_closers es) = Inr (es @ interrupted_turn_closers es, st')
    \<and> fs_nodes st' = fs_nodes st @ [length es ..< length es + k] \<and> fs_generation st' = fs_generation st"
  proof (cases "rp_openTurn (scan_log es)")
    case None
    with closers_nil [OF None] show ?thesis by (intro exI [of _ 0]) auto
  next
    case (Some turn)
    note ne = scan_open_nonempty [OF Some]
    let ?ps = "rp_pendingCalls (scan_log es)" and ?time = "ev_time (last es)"
    have len: "ev_seq (last es) + 1 = length es" using contiguous_last [OF cont ne] .
    have "n < length es" if "(c, (step, Some n)) \<in> set ?ps" for c step n
      using scan_log_seqs [OF that] cont by (auto simp: in_set_conv_nth)
    then have "\<forall>p \<in> set ?ps. snd (snd p) \<noteq> None \<longrightarrow>
        the (snd (snd p)) < length es \<and> int (the (snd (snd p))) \<le> max_safe"
      using small by fastforce
    note calls = call_closers_surface [OF this, of st ?time turn]
    have boundary: "\<not> is_surface_eligible_type (event_type_of (StepEnd turn k))"
      "\<not> is_surface_eligible_type (event_type_of (TurnEnd turn End_interrupted))" for k
      by (simp_all add: is_surface_eligible_type_def surface_event_types_def)
    let ?evs = "es @ call_closers (length es) ?time turn ?ps"
      and ?st = "st\<lparr>fs_nodes := fs_nodes st @ [length es ..< length es + length ?ps]\<rparr>"
    have len': "length ?evs = length es + length ?ps" by simp
    show ?thesis
    proof (cases "rp_openStep (scan_log es)")
      case None
      note closers_cases(1) [OF Some ne None, unfolded len]
      moreover note boundary_surface [OF boundary(2), of ?evs ?st ?time, unfolded len']
      ultimately show ?thesis
        using calls by (intro exI [of _ "length ?ps"] exI [of _ ?st]) (simp add: replay_append del: accept_event.simps)
    next
      case step: (Some k)
      let ?e = "closer_event (length es + length ?ps) ?time (StepEnd turn k) None None"
      note closers_cases(2) [OF Some ne step, unfolded len]
      moreover note boundary_surface [OF boundary(1), of ?evs ?st ?time k, unfolded len']
      moreover note boundary_surface [OF boundary(2), of "?evs @ [?e]" ?st ?time]
      ultimately show ?thesis
        using calls by (intro exI [of _ "length ?ps"] exI [of _ ?st])
          (simp add: replay_append replay_two del: accept_event.simps)
    qed
  qed
  with run show ?thesis by (simp add: surface_run_def replay_append)
qed

section \<open>Properties\<close>

lemma open_turn_of_snoc:
  "open_turn_of (es @ [e]) = (case ev_data e of TurnStart t \<Rightarrow> Some t | TurnEnd _ _ \<Rightarrow> None | _ \<Rightarrow> open_turn_of es)"
  by (simp add: open_turn_of_def split: event_data.splits)

lemma seed_trace_open_turn: "seed_trace es = Inr t \<Longrightarrow> open_turn_of es = tc_openTurn t"
proof (induction es arbitrary: t rule: rev_induct)
  case Nil
  then show ?case by (auto simp: open_turn_of_def seed_trace_def fresh_trace_def)
next
  case (snoc e es)
  then obtain t0 x where "seed_trace es = Inr t0" "validate_relation t0 e = Inr x" "t = apply_transition t0 x"
    by (auto simp: seed_trace_snoc res_simps trace_step_iff)
  with snoc.IH show ?case
    by (cases "ev_data e") (auto simp: open_turn_of_snoc relation_simps split: if_splits)
qed

text \<open>
  C9: Repair closes every interrupted log the companion accepts: the log followed by its closers is
  accepted again and ends with no turn, no step and no tool call open, so a session can be resumed
  from it and forked at its end.
\<close>

theorem repair_closes_log:
  assumes "seed_trace es = Inr t"
  shows "\<exists>t'. seed_trace (es @ interrupted_turn_closers es) = Inr t' \<and> trace_closed t'
    \<and> open_turn_of (es @ interrupted_turn_closers es) = None"
proof -
  from closers_trace [OF assms] obtain t' where
    t': "replay trace_step t (interrupted_turn_closers es) = Inr t'" "trace_closed t'" by blast
  with assms have "seed_trace (es @ interrupted_turn_closers es) = Inr t'" by (simp add: seed_trace_append)
  with seed_trace_open_turn [OF this] t'(2) show ?thesis by (simp add: trace_closed_def)
qed

definition interrupted_log :: "session_event list" where
  "interrupted_log =
     [sample_event 0 (TurnStart 1) None None, sample_event 1 (StepStart 1 1) None None,
      sample_event 2
        (AssistantMessage 1 1
          \<lparr>msg_id = ''a1'', msg_role = Role_assistant,
           msg_content = [ToolCallBlock ''c1'' ''read'' [], ToolCallBlock ''c2'' ''write'' []],
           msg_source = ModelSource ''p'' ''m'' None\<rparr> None False) (Some (JStr ''append'')) None,
      sample_event 3 (ToolCall 1 1 ''c1'' ''read'' []) None None]"

definition interrupted_trace :: session_trace where
  "interrupted_trace =
     \<lparr>tc_lastSeq = 3, tc_openTurn = Some 1, tc_openStep = Some 1, tc_nextTurn = 1, tc_nextStep = 1,
      tc_pendingCalls = {''c1''}\<rparr>"

lemma interrupted_trace: "seed_trace interrupted_log = Inr interrupted_trace"
  by (simp add: interrupted_log_def interrupted_trace_def seed_trace_def fresh_trace_def trace_step_def
      validate_event_def validate_relation_def keep_trace_def require_open_step_def apply_transition_def
      sample_event_def)

lemma interrupted_fold:
  "fold_surface interrupted_log = Inr \<lparr>sf_nodes = [2], sf_replacements = []\<rparr>"
  by (simp add: fold_surface_def create_fold_state_def apply_surface_event_def interrupted_log_def
      sample_event_def plan_simps)

theorem repair_closes_log_witness:
  "\<exists>t'. seed_trace (interrupted_log @ interrupted_turn_closers interrupted_log) = Inr t'"
  using repair_closes_log [OF interrupted_trace] by blast

text \<open>
  Repair is idempotent, on any log: a repaired log needs no further closers.
\<close>

theorem repair_is_idempotent:
  "interrupted_turn_closers (es @ interrupted_turn_closers es) = []"
proof (cases "rp_openTurn (scan_log es)")
  case None
  with closers_nil show ?thesis by simp
next
  case (Some turn)
  obtain xs n time where x: "interrupted_turn_closers es = xs @ [closer_event n time (TurnEnd turn End_interrupted) None None]"
  proof (cases "rp_openStep (scan_log es)")
    case None
    from that closers_cases(1) [OF Some scan_open_nonempty [OF Some] None] show thesis by blast
  next
    case step: (Some k)
    note closers_cases(2) [OF Some scan_open_nonempty [OF Some] step]
    with that [of "call_closers _ _ turn _ @ [closer_event _ _ (StepEnd turn k) None None]"] show thesis
      by simp
  qed
  have "rp_openTurn (scan_log (es @ interrupted_turn_closers es)) = None"
    unfolding x append_assoc [symmetric] scan_log_snoc by (simp add: scan_event_def closer_event_def)
  then show ?thesis by (rule closers_nil)
qed

text \<open>
  Repair is compatible with the surface: appending the closers to a log that replays gives a log
  that replays, whose surface is the old one followed by the synthetic results, in order, with no
  replacement added (for logs whose length is a safe integer).
\<close>

theorem repaired_log_replays:
  assumes "fold_surface es = Inr res" "int (length es) \<le> max_safe"
  shows "\<exists>res' k. fold_surface (es @ interrupted_turn_closers es) = Inr res'
    \<and> sf_nodes res' = sf_nodes res @ [length es ..< length es + k]
    \<and> length (sf_replacements res') = length (sf_replacements res)"
proof -
  from assms(1) fold_surface_iff_run [of es] obtain s where s: "surface_run es = Inr s" by (auto simp: is_ok_iff)
  with surface_run_Inr(1) [OF s] have run: "surface_run es = Inr (es, snd s)" by (cases s) simp
  from closers_surface [OF run assms(2)] obtain k st' where
    st': "surface_run (es @ interrupted_turn_closers es) = Inr (es @ interrupted_turn_closers es, st')"
    "fs_nodes st' = fs_nodes (snd s) @ [length es ..< length es + k]" "fs_generation st' = fs_generation (snd s)"
    by blast
  from fold_surface_run [of es] run assms(1) have "sf_nodes res = fs_nodes (snd s)"
    "length (sf_replacements res) = fs_generation (snd s)" by auto
  with fold_surface_run [of "es @ interrupted_turn_closers es"] st' show ?thesis by auto
qed

theorem repaired_log_replays_witness:
  "\<exists>res' k. fold_surface (interrupted_log @ interrupted_turn_closers interrupted_log) = Inr res'
     \<and> sf_nodes res' = 2 # [4 ..< 4 + k]"
proof -
  have "length interrupted_log = 4" by (simp add: interrupted_log_def)
  then have "int (length interrupted_log) \<le> max_safe" by (simp add: max_safe_def)
  from repaired_log_replays [OF interrupted_fold this] \<open>length interrupted_log = 4\<close>
  show ?thesis by (simp, blast)
qed

text \<open>
  C35: The companion keeps a session's log well bracketed: when the log of an attached session is
  accepted and its dispatch check is the companion's, then after any append, committed or rejected,
  the log is accepted again, and a committed event is the next step of the trace.
\<close>

theorem companion_keeps_log_accepted:
  assumes "sn_appending s = Some False" "seed_trace (sn_log s) = Inr t"
    "session_append (companion_veto t) now d op sources s = (r, s')"
  shows "case r of
      Inl err \<Rightarrow> seed_trace (sn_log s') = Inr t
    | Inr e \<Rightarrow> \<exists>t'. trace_step t e = Inr t' \<and> seed_trace (sn_log s') = Inr t'"
  using assms(3)
proof (cases rule: append_cases)
  case (commit m)
  then have "companion_veto t (candidate s now d op sources) = Inr ()" using assms(1) by simp
  then obtain t' where "trace_step t (candidate s now d op sources) = Inr t'"
    by (auto simp: companion_veto_def trace_step_def res_simps)
  with commit assms(2) show ?thesis by (simp add: seed_trace_snoc)
qed (use assms(2) in simp_all)

theorem companion_keeps_log_accepted_witness:
  "\<exists>err s'. session_append (companion_veto fresh_trace) 0 (StepStart 1 1) None None
       (sample_session\<lparr>sn_appending := Some False\<rparr>) = (Inl err, s') \<and> seed_trace (sn_log s') = Inr fresh_trace"
proof -
  let ?s = "sample_session\<lparr>sn_appending := Some False\<rparr>"
  let ?a = "session_append (companion_veto fresh_trace) 0 (StepStart 1 1) None None ?s"
  obtain r s' where a: "?a = (r, s')" by fastforce
  have "sn_appending ?s = Some False" "seed_trace (sn_log ?s) = Inr fresh_trace"
    by (simp_all add: sample_session_def empty_session_def seed_trace_def)
  note p = companion_keeps_log_accepted [OF this a]
  have "\<not> is_ok (trace_step fresh_trace e)" if "ev_data e = StepStart 1 1" for e
    using that by (simp add: trace_step_def validate_event_def validate_relation_def fresh_trace_def is_ok_def)
  moreover have "ev_data e = StepStart 1 1" if "r = Inr e" for e
    using a that by (cases rule: append_cases) (auto simp: candidate_def)
  ultimately show ?thesis using a p by (cases r) (auto simp: is_ok_iff)
qed

end
