(* ===== verification/GoalFold.thy ===== *)
theory GoalFold
  imports SessionSeed "HOL-Library.List_Lexorder" "HOL-Library.Char_ord"
begin

text \<open>
  The durable state of a session goal (\<open>goal/goal/src/types.ts\<close>, \<open>domain.ts\<close>): its snapshots and
  changes, the strict decoder of the \<open>goal/change\<close> events of a session log and the replay fold over
  them (\<open>fold.ts\<close>), and the lenient projection the clients read (\<open>index.ts\<close>).

  A \<open>goal/change\<close> event carries an arbitrary JSON value until the decoder has accepted it. Every
  \<open>throw\<close> of the sources is a constructor of \<open>goal_fault\<close> with what its message interpolates.
\<close>

section \<open>Goals and their changes\<close>

datatype goal_phase = Phase_active | Phase_paused | Phase_blocked | Phase_complete

record goal_ref =
  gr_id :: string
  gr_revision :: nat

record goal_block_reason =
  br_code :: string
  br_message :: string

record goal_snapshot =
  gs_id :: string
  gs_revision :: nat
  gs_objective :: string
  gs_phase :: goal_phase
  gs_blockedReason :: "goal_block_reason option"
  gs_maxGoalRounds :: nat

datatype snapshot_operation =
  Goal_create | Goal_edit | Goal_pause | Goal_resume | Goal_complete | Goal_block

datatype goal_operation = Snapshot_operation snapshot_operation | Goal_clear

record goal_snapshot_change =
  gc_operation :: snapshot_operation
  gc_goal :: goal_snapshot
  gc_roundsStarted :: nat
  gc_createdAt :: nat
  gc_updatedAt :: nat

datatype goal_change =
    Snapshot_change goal_snapshot_change
  | Clear_change goal_ref nat

datatype goal_fault =
    Not_positive string
  | Not_non_negative string
  | Reason_fields | Reason_code | Reason_message
  | Goal_not_record | Goal_id_empty | Goal_objective | Goal_phase_invalid | Goal_fields goal_phase
  | Ref_fields | Ref_id_empty
  | Unsupported_version "json option"
  | Clear_fields | Operation_invalid | Snapshot_fields | Updated_before_created
  | Invalid_goal_source
  | Definition_changed snapshot_operation
  | Not_next_revision goal_operation
  | Counters_changed snapshot_operation
  | Invalid_phase_transition snapshot_operation
  | No_current_goal goal_operation
  | Clear_before_update
  | Create_not_fresh
  | Lacks_updatedAt
  | Invalid_kind nat
  | Not_next_round nat

section \<open>The strict decoder\<close>

definition goal_change_version :: rat where
  "goal_change_version = 1"

fun phase_name :: "goal_phase \<Rightarrow> string" where
  "phase_name Phase_active = ''active''"
| "phase_name Phase_paused = ''paused''"
| "phase_name Phase_blocked = ''blocked''"
| "phase_name Phase_complete = ''complete''"

fun operation_name :: "snapshot_operation \<Rightarrow> string" where
  "operation_name Goal_create = ''create''"
| "operation_name Goal_edit = ''edit''"
| "operation_name Goal_pause = ''pause''"
| "operation_name Goal_resume = ''resume''"
| "operation_name Goal_complete = ''complete''"
| "operation_name Goal_block = ''block''"

definition phases :: "goal_phase list" where
  "phases = [Phase_active, Phase_paused, Phase_blocked, Phase_complete]"

definition snapshot_operations :: "snapshot_operation list" where
  "snapshot_operations = [Goal_create, Goal_edit, Goal_pause, Goal_resume, Goal_complete, Goal_block]"

definition phase_of :: "json option \<Rightarrow> goal_phase option" where
  "phase_of v = find (\<lambda>p. v = Some (JStr (phase_name p))) phases"

definition operation_of :: "json option \<Rightarrow> snapshot_operation option" where
  "operation_of v = find (\<lambda>p. v = Some (JStr (operation_name p))) snapshot_operations"

text \<open>\<open>Object.keys(value).sort().join(',')\<close>.\<close>

definition sorted_keys :: "(string \<times> json) list \<Rightarrow> string" where
  "sorted_keys fs = js_join '','' (sort (map fst fs))"

definition positive_integer :: "json option \<Rightarrow> string \<Rightarrow> goal_fault + nat" where
  "positive_integer v name =
     (case json_integer v of
        None \<Rightarrow> Inl (Not_positive name)
      | Some k \<Rightarrow> if k < 1 then Inl (Not_positive name) else Inr (nat k))"

definition non_negative_integer :: "json option \<Rightarrow> string \<Rightarrow> goal_fault + nat" where
  "non_negative_integer v name =
     (case json_integer v of
        None \<Rightarrow> Inl (Not_non_negative name)
      | Some k \<Rightarrow> if k < 0 then Inl (Not_non_negative name) else Inr (nat k))"

text \<open>The regular expression \<open>^[a-z][a-z0-9]*(?:-[a-z0-9]+)*$\<close>.\<close>

definition is_reason_code :: "string \<Rightarrow> bool" where
  "is_reason_code s \<longleftrightarrow> s \<noteq> [] \<and> 97 \<le> (of_char (hd s) :: nat) \<and> (of_char (hd s) :: nat) \<le> 122 \<and> kebab False s"

text \<open>A string that is not blank and equal to its own trimming.\<close>

definition is_normalized :: "string \<Rightarrow> bool" where
  "is_normalized s \<longleftrightarrow> js_trim s \<noteq> [] \<and> js_trim s = s"

definition decode_block_reason :: "json option \<Rightarrow> goal_fault + goal_block_reason" where
  "decode_block_reason v =
     (case v of
        Some (JObj fs) \<Rightarrow>
          if sorted_keys fs \<noteq> ''code,message'' then Inl Reason_fields
          else (case (map_of fs ''code'', map_of fs ''message'') of
            (Some (JStr code), message) \<Rightarrow>
              if \<not> is_reason_code code then Inl Reason_code
              else (case message of
                 Some (JStr m) \<Rightarrow> if is_normalized m then Inr \<lparr>br_code = code, br_message = m\<rparr> else Inl Reason_message
               | _ \<Rightarrow> Inl Reason_message)
          | _ \<Rightarrow> Inl Reason_code)
      | _ \<Rightarrow> Inl Reason_fields)"

definition snapshot_keys :: "goal_phase \<Rightarrow> string" where
  "snapshot_keys p =
     (if p = Phase_blocked then ''blockedReason,id,maxGoalRounds,objective,phase,revision''
      else ''id,maxGoalRounds,objective,phase,revision'')"

definition decode_snapshot :: "json option \<Rightarrow> goal_fault + goal_snapshot" where
  "decode_snapshot v =
     (case v of
        Some (JObj fs) \<Rightarrow>
          (case map_of fs ''id'' of
             Some (JStr i) \<Rightarrow>
               if i = [] then Inl Goal_id_empty
               else (case map_of fs ''objective'' of
                 Some (JStr objective) \<Rightarrow>
                   if \<not> is_normalized objective then Inl Goal_objective
                   else (case phase_of (map_of fs ''phase'') of
                     None \<Rightarrow> Inl Goal_phase_invalid
                   | Some phase \<Rightarrow>
                       and_then (throw_if (sorted_keys fs \<noteq> snapshot_keys phase) (Goal_fields phase)) (\<lambda>_.
                       and_then (positive_integer (map_of fs ''revision'') ''goal.revision'') (\<lambda>revision.
                       and_then (positive_integer (map_of fs ''maxGoalRounds'') ''goal.maxGoalRounds'') (\<lambda>rounds.
                       and_then (if phase = Phase_blocked
                                 then and_then (decode_block_reason (map_of fs ''blockedReason'')) (\<lambda>r. Inr (Some r))
                                 else Inr None) (\<lambda>reason.
                       Inr \<lparr>gs_id = i, gs_revision = revision, gs_objective = objective, gs_phase = phase,
                            gs_blockedReason = reason, gs_maxGoalRounds = rounds\<rparr>)))))
               | _ \<Rightarrow> Inl Goal_objective)
           | _ \<Rightarrow> Inl Goal_id_empty)
      | _ \<Rightarrow> Inl Goal_not_record)"

definition decode_ref :: "json option \<Rightarrow> goal_fault + goal_ref" where
  "decode_ref v =
     (case v of
        Some (JObj fs) \<Rightarrow>
          if sorted_keys fs \<noteq> ''id,revision'' then Inl Ref_fields
          else (case map_of fs ''id'' of
             Some (JStr i) \<Rightarrow>
               if i = [] then Inl Ref_id_empty
               else and_then (positive_integer (map_of fs ''revision'') ''cleared.revision'') (\<lambda>revision.
                      Inr \<lparr>gr_id = i, gr_revision = revision\<rparr>)
           | _ \<Rightarrow> Inl Ref_id_empty)
      | _ \<Rightarrow> Inl Ref_fields)"

definition decode_goal_change :: "json \<Rightarrow> goal_fault + goal_change option" where
  "decode_goal_change v =
     (case v of
        JObj fs \<Rightarrow>
          if map_of fs ''kind'' \<noteq> Some (JStr ''goal/change'') then Inr None
          else if map_of fs ''version'' \<noteq> Some (JNum goal_change_version)
            then Inl (Unsupported_version (map_of fs ''version''))
          else if map_of fs ''operation'' = Some (JStr ''clear'') then
            and_then (throw_if (sorted_keys fs \<noteq> ''cleared,clearedAt,kind,operation,version'') Clear_fields) (\<lambda>_.
            and_then (decode_ref (map_of fs ''cleared'')) (\<lambda>ref.
            and_then (non_negative_integer (map_of fs ''clearedAt'') ''clearedAt'') (\<lambda>clearedAt.
              Inr (Some (Clear_change ref clearedAt)))))
          else (case operation_of (map_of fs ''operation'') of
             None \<Rightarrow> Inl Operation_invalid
           | Some operation \<Rightarrow>
               and_then (throw_if (sorted_keys fs
                   \<noteq> ''createdAt,goal,kind,operation,roundsStarted,updatedAt,version'') Snapshot_fields) (\<lambda>_.
               and_then (non_negative_integer (map_of fs ''createdAt'') ''createdAt'') (\<lambda>created.
               and_then (non_negative_integer (map_of fs ''updatedAt'') ''updatedAt'') (\<lambda>updated.
               and_then (throw_if (updated < created) Updated_before_created) (\<lambda>_.
               and_then (decode_snapshot (map_of fs ''goal'')) (\<lambda>goal.
               and_then (non_negative_integer (map_of fs ''roundsStarted'') ''roundsStarted'') (\<lambda>rounds.
                 Inr (Some (Snapshot_change \<lparr>gc_operation = operation, gc_goal = goal,
                   gc_roundsStarted = rounds, gc_createdAt = created, gc_updatedAt = updated\<rparr>)))))))))
      | _ \<Rightarrow> Inr None)"

section \<open>The replay fold\<close>

record goal_fold_state =
  gf_goal :: "goal_snapshot option"
  gf_roundsStarted :: nat
  gf_createdAt :: "nat option"
  gf_updatedAt :: "nat option"
  gf_lastRef :: "goal_ref option"
  gf_seenGoalIds :: "string list"

definition empty_goal_fold_state :: goal_fold_state where
  "empty_goal_fold_state =
     \<lparr>gf_goal = None, gf_roundsStarted = 0, gf_createdAt = None, gf_updatedAt = None,
      gf_lastRef = None, gf_seenGoalIds = []\<rparr>"

text \<open>\<open>goalSource\<close>: the goal id, revision and round of a message attributed to a goal.\<close>

definition goal_source :: "message_source \<Rightarrow> goal_fault + (string \<times> nat \<times> nat) option" where
  "goal_source source =
     (case source of
        MergedSource kind fs \<Rightarrow>
          if kind \<noteq> ''goal'' then Inr None
          else (case (map_of fs ''goalId'', json_integer (map_of fs ''revision''), json_integer (map_of fs ''round'')) of
             (Some (JStr i), Some revision, Some n) \<Rightarrow>
               if i = [] \<or> revision < 1 \<or> n < 1 then Inl Invalid_goal_source
               else Inr (Some (i, nat revision, nat n))
           | _ \<Rightarrow> Inl Invalid_goal_source)
      | _ \<Rightarrow> Inr None)"

definition require_same_definition ::
    "goal_snapshot \<Rightarrow> goal_snapshot \<Rightarrow> snapshot_operation \<Rightarrow> goal_fault + unit" where
  "require_same_definition current nxt operation =
     throw_if (gs_objective nxt \<noteq> gs_objective current \<or> gs_maxGoalRounds nxt \<noteq> gs_maxGoalRounds current)
       (Definition_changed operation)"

definition require_next_revision ::
    "goal_snapshot \<Rightarrow> goal_ref \<Rightarrow> goal_operation \<Rightarrow> goal_fault + unit" where
  "require_next_revision current nxt operation =
     throw_if (gr_id nxt \<noteq> gs_id current \<or> gr_revision nxt \<noteq> gs_revision current + 1)
       (Not_next_revision operation)"

definition snapshot_ref :: "goal_snapshot \<Rightarrow> goal_ref" where
  "snapshot_ref g = \<lparr>gr_id = gs_id g, gr_revision = gs_revision g\<rparr>"

definition validate_snapshot_transition ::
    "goal_fold_state \<Rightarrow> goal_snapshot_change \<Rightarrow> goal_snapshot \<Rightarrow> goal_fault + unit" where
  "validate_snapshot_transition state change current =
     (let nxt = gc_goal change; op = gc_operation change
      in and_then (require_next_revision current (snapshot_ref nxt) (Snapshot_operation op)) (\<lambda>_.
         (case gf_updatedAt state of
            None \<Rightarrow> Inl Lacks_updatedAt
          | Some updatedAt \<Rightarrow>
              and_then (throw_if (Some (gc_createdAt change) \<noteq> gf_createdAt state
                  \<or> gc_updatedAt change < updatedAt
                  \<or> gc_roundsStarted change \<noteq> gf_roundsStarted state) (Counters_changed op)) (\<lambda>_.
              (case op of
                 Goal_edit \<Rightarrow>
                   throw_if (gs_phase nxt \<noteq> gs_phase current \<or> gs_blockedReason nxt \<noteq> gs_blockedReason current)
                     (Invalid_phase_transition op)
               | Goal_pause \<Rightarrow>
                   and_then (require_same_definition current nxt op) (\<lambda>_.
                     throw_if (gs_phase current \<noteq> Phase_active \<or> gs_phase nxt \<noteq> Phase_paused)
                       (Invalid_phase_transition op))
               | Goal_resume \<Rightarrow>
                   and_then (require_same_definition current nxt op) (\<lambda>_.
                     throw_if (gs_phase current \<notin> {Phase_active, Phase_paused, Phase_blocked}
                         \<or> gs_phase nxt \<noteq> Phase_active \<or> gs_maxGoalRounds nxt \<le> gf_roundsStarted state)
                       (Invalid_phase_transition op))
               | Goal_complete \<Rightarrow>
                   and_then (require_same_definition current nxt op) (\<lambda>_.
                     throw_if (gs_phase current = Phase_complete \<or> gs_phase nxt \<noteq> Phase_complete)
                       (Invalid_phase_transition op))
               | Goal_block \<Rightarrow>
                   and_then (require_same_definition current nxt op) (\<lambda>_.
                     throw_if (gs_phase current \<noteq> Phase_active \<or> gs_phase nxt \<noteq> Phase_blocked)
                       (Invalid_phase_transition op))
               | Goal_create \<Rightarrow> Inl (Invalid_phase_transition op))))))"

fun goal_change_ref :: "goal_change \<Rightarrow> goal_ref" where
  "goal_change_ref (Clear_change ref _) = ref"
| "goal_change_ref (Snapshot_change c) = snapshot_ref (gc_goal c)"

definition install_snapshot :: "goal_snapshot_change \<Rightarrow> goal_fold_state \<Rightarrow> goal_fold_state" where
  "install_snapshot c state =
     state\<lparr>gf_goal := Some (gc_goal c), gf_roundsStarted := gc_roundsStarted c,
           gf_createdAt := Some (gc_createdAt c), gf_updatedAt := Some (gc_updatedAt c),
           gf_lastRef := Some (snapshot_ref (gc_goal c))\<rparr>"

fun apply_goal_change :: "goal_fold_state \<Rightarrow> goal_change \<Rightarrow> goal_fault + goal_fold_state" where
  "apply_goal_change state (Clear_change ref clearedAt) =
     (case gf_goal state of
        None \<Rightarrow> Inl (No_current_goal Goal_clear)
      | Some current \<Rightarrow>
          and_then (require_next_revision current ref Goal_clear) (\<lambda>_.
          (case gf_updatedAt state of
             None \<Rightarrow> Inl Lacks_updatedAt
           | Some updatedAt \<Rightarrow>
               if clearedAt < updatedAt then Inl Clear_before_update
               else Inr (state\<lparr>gf_goal := None, gf_roundsStarted := 0, gf_createdAt := None,
                               gf_updatedAt := None, gf_lastRef := Some ref\<rparr>))))"
| "apply_goal_change state (Snapshot_change c) =
     (if gc_operation c = Goal_create then
        if gs_revision (gc_goal c) \<noteq> 1 \<or> gs_phase (gc_goal c) \<noteq> Phase_active \<or> gc_roundsStarted c \<noteq> 0
           \<or> gf_goal state \<noteq> None \<and> map_option gs_phase (gf_goal state) \<noteq> Some Phase_complete
           \<or> gs_id (gc_goal c) \<in> set (gf_seenGoalIds state)
        then Inl Create_not_fresh
        else Inr (install_snapshot c (state\<lparr>gf_seenGoalIds := gf_seenGoalIds state @ [gs_id (gc_goal c)]\<rparr>))
      else
        (case gf_goal state of
           None \<Rightarrow> Inl (No_current_goal (Snapshot_operation (gc_operation c)))
         | Some current \<Rightarrow>
             and_then (validate_snapshot_transition state c current) (\<lambda>_. Inr (install_snapshot c state))))"

definition admit_round :: "goal_fold_state \<Rightarrow> nat \<Rightarrow> string \<times> nat \<times> nat \<Rightarrow> goal_fault + goal_fold_state" where
  "admit_round state seq source =
     (case source of (goalId, revision, n) \<Rightarrow>
        (case gf_goal state of
           None \<Rightarrow> Inl (Not_next_round seq)
         | Some current \<Rightarrow>
             if gs_phase current \<noteq> Phase_active \<or> goalId \<noteq> gs_id current \<or> revision \<noteq> gs_revision current
                \<or> n \<noteq> gf_roundsStarted state + 1 \<or> gs_maxGoalRounds current < n
             then Inl (Not_next_round seq)
             else Inr (state\<lparr>gf_roundsStarted := n\<rparr>)))"

definition apply_goal_event :: "goal_fold_state \<Rightarrow> session_event \<Rightarrow> goal_fault + goal_fold_state" where
  "apply_goal_event state e =
     (case ev_data e of
        PluginEvent type d \<Rightarrow>
          if type = ''goal/change''
          then and_then (decode_goal_change d) (\<lambda>change.
                 case change of None \<Rightarrow> Inl (Invalid_kind (ev_seq e)) | Some c \<Rightarrow> apply_goal_change state c)
          else Inr state
      | UserMessage m \<Rightarrow>
          and_then (goal_source (msg_source m)) (\<lambda>source.
            case source of None \<Rightarrow> Inr state | Some s \<Rightarrow> admit_round state (ev_seq e) s)
      | _ \<Rightarrow> Inr state)"

text \<open>\<open>foldGoal\<close>; the projection it returns is the state without the set of seen ids.\<close>

definition fold_goal :: "session_event list \<Rightarrow> goal_fault + goal_fold_state" where
  "fold_goal es = replay apply_goal_event empty_goal_fold_state es"

section \<open>The client projection\<close>

record goal_projection =
  gp_goal :: goal_snapshot
  gp_roundsStarted :: nat
  gp_createdAt :: nat
  gp_updatedAt :: nat

definition apply_goal_projection :: "goal_projection option \<Rightarrow> session_event \<Rightarrow> goal_projection option" where
  "apply_goal_projection state e =
     (case ev_data e of
        PluginEvent type d \<Rightarrow>
          if type \<noteq> ''goal/change'' then state
          else (case decode_goal_change d of
             Inl _ \<Rightarrow> state
           | Inr None \<Rightarrow> state
           | Inr (Some (Clear_change _ _)) \<Rightarrow> None
           | Inr (Some (Snapshot_change c)) \<Rightarrow>
               Some \<lparr>gp_goal = gc_goal c, gp_roundsStarted = gc_roundsStarted c,
                     gp_createdAt = gc_createdAt c, gp_updatedAt = gc_updatedAt c\<rparr>)
      | _ \<Rightarrow> state)"

definition project_goal :: "session_event list \<Rightarrow> goal_projection option" where
  "project_goal es = foldl apply_goal_projection None es"

section \<open>Writing a change\<close>

text \<open>The JSON objects the service appends, with their properties in the order it writes them.\<close>

definition encode_reason_object :: "goal_block_reason \<Rightarrow> json" where
  "encode_reason_object r = JObj [(''code'', JStr (br_code r)), (''message'', JStr (br_message r))]"

definition encode_snapshot :: "goal_snapshot \<Rightarrow> json" where
  "encode_snapshot g =
     JObj ([(''id'', JStr (gs_id g)), (''revision'', json_nat (gs_revision g)),
            (''objective'', JStr (gs_objective g)), (''phase'', JStr (phase_name (gs_phase g))),
            (''maxGoalRounds'', json_nat (gs_maxGoalRounds g))]
           @ optional ''blockedReason'' (map_option encode_reason_object (gs_blockedReason g)))"

fun encode_goal_change :: "goal_change \<Rightarrow> json" where
  "encode_goal_change (Clear_change ref clearedAt) =
     JObj [(''kind'', JStr ''goal/change''), (''version'', JNum goal_change_version), (''operation'', JStr ''clear''),
           (''cleared'', JObj [(''id'', JStr (gr_id ref)), (''revision'', json_nat (gr_revision ref))]),
           (''clearedAt'', json_nat clearedAt)]"
| "encode_goal_change (Snapshot_change c) =
     JObj [(''kind'', JStr ''goal/change''), (''version'', JNum goal_change_version),
           (''operation'', JStr (operation_name (gc_operation c))), (''goal'', encode_snapshot (gc_goal c)),
           (''roundsStarted'', json_nat (gc_roundsStarted c)), (''createdAt'', json_nat (gc_createdAt c)),
           (''updatedAt'', json_nat (gc_updatedAt c))]"

end
