(* ===== verification/GoalService.thy ===== *)
theory GoalService
  imports GoalFold SessionLog
begin

text \<open>
  The goal service (\<open>goal/goal/src/index.ts\<close>, class \<open>GoalService\<close>): compare-and-set mutations of the
  goal of one session, each committed as one \<open>goal/change\<close> event of the session log, and the
  process-local cache that replays the log and remembers whether this process may continue the
  goal by itself (its activation, which is never stored).

  \<open>goal_host\<close> holds what one agent's service works on: whether the agent is the live one of the
  registry, its session, its entry of the \<open>WeakMap\<close> of caches, and the notifications emitted so far
  (their listeners are contained). The clock readings and the vetoing listeners of the append are
  in \<open>goal_env\<close>, the random UUID is an argument of \<open>goal_create\<close>. An observer that reads the goal during
  the append only synchronizes the cache earlier: synchronizing twice is synchronizing once.
\<close>

section \<open>State\<close>

datatype goal_activation = Armed | Disarmed

record goal_view =
  gv_goal :: goal_snapshot
  gv_roundsStarted :: nat
  gv_createdAt :: nat
  gv_updatedAt :: nat
  gv_activation :: goal_activation

record goal_changed =
  gn_operation :: goal_operation
  gn_ref :: goal_ref
  gn_goal :: "goal_view option"

record goal_cache =
  gk_state :: goal_fold_state
  gk_activation :: goal_activation
  gk_observedSeq :: nat
  gk_pending :: "(nat \<times> goal_activation) option"

record goal_host =
  gh_live :: bool
  gh_session :: session
  gh_cache :: "goal_cache option"
  gh_emitted :: "goal_changed list"
  gh_defaultMaxGoalRounds :: nat

record goal_env =
  ge_veto :: "session_event \<Rightarrow> string + unit"
  ge_now :: nat
  ge_eventTime :: int

datatype goal_error =
    Agent_not_live
  | Goal_not_found
  | Goal_already_exists string goal_phase
  | Stale_revision goal_ref goal_ref
  | Invalid_objective
  | Invalid_max_rounds
  | Invalid_block_reason
  | Invalid_edit
  | Wrong_phase snapshot_operation string goal_phase "goal_phase list"
  | Already_armed string
  | Rounds_exhausted string nat

datatype service_error =
    Rejected goal_error
  | Faulted goal_fault
  | Append_failed session_error
  | Lacks_createdAt
  | Lacks_timestamps
  | Commit_cleared

fun goal_error_code :: "goal_error \<Rightarrow> string" where
  "goal_error_code Agent_not_live = ''GOAL_AGENT_NOT_LIVE''"
| "goal_error_code Goal_not_found = ''GOAL_NOT_FOUND''"
| "goal_error_code (Goal_already_exists _ _) = ''GOAL_ALREADY_EXISTS''"
| "goal_error_code (Stale_revision _ _) = ''GOAL_STALE_REVISION''"
| "goal_error_code Invalid_objective = ''GOAL_INVALID_OBJECTIVE''"
| "goal_error_code Invalid_max_rounds = ''GOAL_INVALID_MAX_ROUNDS''"
| "goal_error_code Invalid_block_reason = ''GOAL_INVALID_BLOCK_REASON''"
| "goal_error_code Invalid_edit = ''GOAL_INVALID_EDIT''"
| "goal_error_code (Wrong_phase _ _ _ _) = ''GOAL_INVALID_TRANSITION''"
| "goal_error_code (Already_armed _) = ''GOAL_INVALID_TRANSITION''"
| "goal_error_code (Rounds_exhausted _ _) = ''GOAL_INVALID_TRANSITION''"

section \<open>Input validation\<close>

definition resolve_max_goal_rounds :: "js_number \<Rightarrow> goal_error + nat" where
  "resolve_max_goal_rounds v =
     (case safe_integer_of v of
        None \<Rightarrow> Inl Invalid_max_rounds
      | Some k \<Rightarrow> if k < 1 then Inl Invalid_max_rounds else Inr (nat k))"

definition resolve_objective :: "string \<Rightarrow> goal_error + string" where
  "resolve_objective v = (if js_trim v = [] then Inl Invalid_objective else Inr (js_trim v))"

definition resolve_create_goal :: "string \<Rightarrow> js_number option \<Rightarrow> nat \<Rightarrow> goal_error + (string \<times> nat)" where
  "resolve_create_goal objective maxGoalRounds defaultMaxGoalRounds =
     and_then (resolve_objective objective) (\<lambda>obj.
     and_then (resolve_max_goal_rounds
         (case maxGoalRounds of None \<Rightarrow> Finite (of_nat defaultMaxGoalRounds) | Some v \<Rightarrow> v)) (\<lambda>rounds.
       Inr (obj, rounds)))"

definition resolve_block_reason :: "json option \<Rightarrow> goal_error + goal_block_reason" where
  "resolve_block_reason reason =
     (case (field_of ''code'' reason, field_of ''message'' reason) of
        (Some (JStr code), Some (JStr message)) \<Rightarrow>
          if \<not> is_reason_code code \<or> js_trim message = [] then Inl Invalid_block_reason
          else Inr \<lparr>br_code = code, br_message = js_trim message\<rparr>
      | _ \<Rightarrow> Inl Invalid_block_reason)"

definition goal_config :: "js_number option \<Rightarrow> goal_error + nat" where
  "goal_config defaultMaxGoalRounds =
     resolve_max_goal_rounds (case defaultMaxGoalRounds of None \<Rightarrow> Finite 256 | Some v \<Rightarrow> v)"

section \<open>The cache\<close>

definition goal_host_cache :: "goal_host \<Rightarrow> (goal_fault + goal_cache) \<times> goal_host" where
  "goal_host_cache h =
     (case gh_cache h of
        Some c \<Rightarrow> (Inr c, h)
      | None \<Rightarrow>
          (case fold_goal (sn_log (gh_session h)) of
             Inl f \<Rightarrow> (Inl f, h)
           | Inr st \<Rightarrow>
               let c = \<lparr>gk_state = st, gk_activation = Disarmed, gk_observedSeq = length (sn_log (gh_session h)),
                        gk_pending = None\<rparr>
               in (Inr c, h\<lparr>gh_cache := Some c\<rparr>)))"

definition is_goal_change :: "session_event \<Rightarrow> bool" where
  "is_goal_change e \<longleftrightarrow> ev_type e = ''goal/change''"

definition observe_event :: "goal_cache \<Rightarrow> session_event \<Rightarrow> goal_fold_state \<Rightarrow> goal_cache" where
  "observe_event c e st =
     c\<lparr>gk_state := st,
       gk_activation :=
         (if is_goal_change e
          then (case gk_pending c of
                  Some (seq, activation) \<Rightarrow> if seq = ev_seq e then activation else Disarmed
                | None \<Rightarrow> Disarmed)
          else gk_activation c),
       gk_observedSeq := gk_observedSeq c + 1\<rparr>"

fun sync_events :: "goal_cache \<Rightarrow> session_event list \<Rightarrow> (goal_fault + unit) \<times> goal_cache" where
  "sync_events c [] = (Inr (), c)"
| "sync_events c (e # es) =
     (case apply_goal_event (gk_state c) e of
        Inl f \<Rightarrow> (Inl f, c)
      | Inr st \<Rightarrow> sync_events (observe_event c e st) es)"

definition sync_cache :: "session \<Rightarrow> goal_cache \<Rightarrow> (goal_fault + unit) \<times> goal_cache" where
  "sync_cache s c = sync_events c (drop (gk_observedSeq c) (sn_log s))"

definition view_of :: "goal_cache \<Rightarrow> service_error + goal_view option" where
  "view_of c =
     (case gf_goal (gk_state c) of
        None \<Rightarrow> Inr None
      | Some g \<Rightarrow>
          (case (gf_createdAt (gk_state c), gf_updatedAt (gk_state c)) of
             (Some created, Some updated) \<Rightarrow>
               Inr (Some \<lparr>gv_goal = g, gv_roundsStarted = gf_roundsStarted (gk_state c),
                          gv_createdAt = created, gv_updatedAt = updated, gv_activation = gk_activation c\<rparr>)
           | _ \<Rightarrow> Inl Lacks_timestamps))"

text \<open>\<open>assertLive\<close>, \<open>cache\<close> and \<open>sync\<close>: the prologue of every public operation.\<close>

definition prepare_mutation :: "goal_host \<Rightarrow> (service_error + goal_cache) \<times> goal_host" where
  "prepare_mutation h =
     (if \<not> gh_live h then (Inl (Rejected Agent_not_live), h)
      else (case goal_host_cache h of
        (Inl f, h1) \<Rightarrow> (Inl (Faulted f), h1)
      | (Inr c, h1) \<Rightarrow>
          (case sync_cache (gh_session h1) c of
             (Inl f, c1) \<Rightarrow> (Inl (Faulted f), h1\<lparr>gh_cache := Some c1\<rparr>)
           | (Inr _, c1) \<Rightarrow> (Inr c1, h1\<lparr>gh_cache := Some c1\<rparr>))))"

definition expect_current :: "goal_cache \<Rightarrow> goal_ref \<Rightarrow> service_error + goal_snapshot" where
  "expect_current c ref =
     (case gf_goal (gk_state c) of
        None \<Rightarrow> Inl (Rejected Goal_not_found)
      | Some current \<Rightarrow>
          if gr_id ref \<noteq> gs_id current \<or> gr_revision ref \<noteq> gs_revision current
          then Inl (Rejected (Stale_revision ref (snapshot_ref current)))
          else Inr current)"

section \<open>Commits\<close>

fun change_operation :: "goal_change \<Rightarrow> goal_operation" where
  "change_operation (Clear_change _ _) = Goal_clear"
| "change_operation (Snapshot_change c) = Snapshot_operation (gc_operation c)"

definition commit_change ::
    "goal_env \<Rightarrow> goal_cache \<Rightarrow> goal_change \<Rightarrow> goal_activation \<Rightarrow> goal_host \<Rightarrow> (service_error + goal_cache) \<times> goal_host" where
  "commit_change env c change activation h =
     (let c1 = c\<lparr>gk_pending := Some (length (sn_log (gh_session h)), activation)\<rparr>
      in (case session_append (ge_veto env) (ge_eventTime env)
              (PluginEvent ''goal/change'' (encode_goal_change change)) None None (gh_session h) of
            (Inl e, s) \<Rightarrow> (Inl (Append_failed e), h\<lparr>gh_session := s, gh_cache := Some (c1\<lparr>gk_pending := None\<rparr>)\<rparr>)
          | (Inr _, s) \<Rightarrow>
              (case sync_cache s c1 of
                 (Inl f, c2) \<Rightarrow>
                   (Inl (Faulted f), h\<lparr>gh_session := s, gh_cache := Some (c2\<lparr>gk_pending := None\<rparr>)\<rparr>)
               | (Inr _, c2) \<Rightarrow>
                   let c3 = c2\<lparr>gk_pending := None\<rparr>; h1 = h\<lparr>gh_session := s, gh_cache := Some c3\<rparr>
                   in (case view_of c3 of
                         Inl e \<Rightarrow> (Inl e, h1)
                       | Inr v \<Rightarrow>
                           (Inr c3, h1\<lparr>gh_emitted := gh_emitted h1 @ [\<lparr>gn_operation = change_operation change,
                              gn_ref = goal_change_ref change, gn_goal = v\<rparr>]\<rparr>)))))"

definition next_mutation_time :: "goal_env \<Rightarrow> goal_cache \<Rightarrow> service_error + nat" where
  "next_mutation_time env c =
     (case gf_updatedAt (gk_state c) of
        None \<Rightarrow> Inl (Faulted Lacks_updatedAt)
      | Some updated \<Rightarrow> Inr (max (ge_now env) updated))"

definition commit_snapshot ::
    "goal_env \<Rightarrow> goal_cache \<Rightarrow> goal_snapshot_change \<Rightarrow> goal_activation \<Rightarrow> goal_host
      \<Rightarrow> (service_error + goal_view) \<times> goal_host" where
  "commit_snapshot env c change activation h =
     (case commit_change env c (Snapshot_change change) activation h of
        (Inl e, h1) \<Rightarrow> (Inl e, h1)
      | (Inr c1, h1) \<Rightarrow>
          (case view_of c1 of
             Inl e \<Rightarrow> (Inl e, h1)
           | Inr None \<Rightarrow> (Inl Commit_cleared, h1)
           | Inr (Some v) \<Rightarrow> (Inr v, h1)))"

definition commit_current ::
    "goal_env \<Rightarrow> goal_cache \<Rightarrow> snapshot_operation \<Rightarrow> goal_snapshot \<Rightarrow> goal_activation \<Rightarrow> goal_host
      \<Rightarrow> (service_error + goal_view) \<times> goal_host" where
  "commit_current env c operation goal activation h =
     (case gf_createdAt (gk_state c) of
        None \<Rightarrow> (Inl Lacks_createdAt, h)
      | Some created \<Rightarrow>
          (case next_mutation_time env c of
             Inl e \<Rightarrow> (Inl e, h)
           | Inr updated \<Rightarrow>
               commit_snapshot env c \<lparr>gc_operation = operation, gc_goal = goal,
                 gc_roundsStarted = gf_roundsStarted (gk_state c), gc_createdAt = created, gc_updatedAt = updated\<rparr>
                 activation h))"

definition with_phase :: "goal_snapshot \<Rightarrow> goal_phase \<Rightarrow> goal_snapshot" where
  "with_phase current phase =
     \<lparr>gs_id = gs_id current, gs_revision = gs_revision current + 1, gs_objective = gs_objective current,
      gs_phase = phase, gs_blockedReason = None, gs_maxGoalRounds = gs_maxGoalRounds current\<rparr>"

section \<open>Operations\<close>

definition goal_get :: "goal_host \<Rightarrow> (service_error + goal_view option) \<times> goal_host" where
  "goal_get h =
     (case prepare_mutation h of (Inl e, h1) \<Rightarrow> (Inl e, h1) | (Inr c, h1) \<Rightarrow> (view_of c, h1))"

definition goal_disarm :: "goal_host \<Rightarrow> (service_error + goal_view option) \<times> goal_host" where
  "goal_disarm h =
     (case prepare_mutation h of
        (Inl e, h1) \<Rightarrow> (Inl e, h1)
      | (Inr c, h1) \<Rightarrow>
          let c1 = c\<lparr>gk_activation := Disarmed\<rparr> in (view_of c1, h1\<lparr>gh_cache := Some c1\<rparr>))"

text \<open>The \<open>agent/session-start\<close> listener of the constructor.\<close>

definition goal_session_start :: "goal_host \<Rightarrow> goal_host" where
  "goal_session_start h =
     (case goal_host_cache h of
        (Inl _, h1) \<Rightarrow> h1
      | (Inr c, h1) \<Rightarrow> h1\<lparr>gh_cache := Some (c\<lparr>gk_activation := Disarmed\<rparr>)\<rparr>)"

definition goal_create ::
    "goal_env \<Rightarrow> string \<Rightarrow> string \<Rightarrow> js_number option \<Rightarrow> goal_host \<Rightarrow> (service_error + goal_view) \<times> goal_host" where
  "goal_create env uuid objective maxGoalRounds h =
     (case resolve_create_goal objective maxGoalRounds (gh_defaultMaxGoalRounds h) of
        Inl e \<Rightarrow> (Inl (Rejected e), h)
      | Inr (obj, rounds) \<Rightarrow>
          (case prepare_mutation h of
             (Inl e, h1) \<Rightarrow> (Inl e, h1)
           | (Inr c, h1) \<Rightarrow>
               let fresh = commit_snapshot env c
                     \<lparr>gc_operation = Goal_create,
                      gc_goal = \<lparr>gs_id = ''goal-'' @ uuid, gs_revision = 1, gs_objective = obj,
                        gs_phase = Phase_active, gs_blockedReason = None, gs_maxGoalRounds = rounds\<rparr>,
                      gc_roundsStarted = 0, gc_createdAt = ge_now env, gc_updatedAt = ge_now env\<rparr> Armed h1
               in (case gf_goal (gk_state c) of
                     Some current \<Rightarrow>
                       if gs_phase current \<noteq> Phase_complete
                       then (Inl (Rejected (Goal_already_exists (gs_id current) (gs_phase current))), h1)
                       else fresh
                   | None \<Rightarrow> fresh)))"

text \<open>The prologue of the mutations of the current goal.\<close>

definition on_current ::
    "goal_ref \<Rightarrow> (goal_cache \<Rightarrow> goal_snapshot \<Rightarrow> goal_host \<Rightarrow> (service_error + 'a) \<times> goal_host) \<Rightarrow> goal_host
      \<Rightarrow> (service_error + 'a) \<times> goal_host" where
  "on_current ref body h =
     (case prepare_mutation h of
        (Inl e, h1) \<Rightarrow> (Inl e, h1)
      | (Inr c, h1) \<Rightarrow>
          (case expect_current c ref of Inl e \<Rightarrow> (Inl e, h1) | Inr current \<Rightarrow> body c current h1))"

definition edited_goal :: "goal_snapshot \<Rightarrow> string option \<Rightarrow> js_number option \<Rightarrow> goal_error + goal_snapshot" where
  "edited_goal current objective maxGoalRounds =
     and_then (throw_if (objective = None \<and> maxGoalRounds = None) Invalid_edit) (\<lambda>_.
     and_then (case objective of None \<Rightarrow> Inr (gs_objective current) | Some v \<Rightarrow> resolve_objective v) (\<lambda>obj.
     and_then (case maxGoalRounds of None \<Rightarrow> Inr (gs_maxGoalRounds current) | Some v \<Rightarrow> resolve_max_goal_rounds v)
       (\<lambda>rounds.
       Inr (current\<lparr>gs_revision := gs_revision current + 1, gs_objective := obj, gs_maxGoalRounds := rounds\<rparr>))))"

definition goal_edit ::
    "goal_env \<Rightarrow> goal_ref \<Rightarrow> string option \<Rightarrow> js_number option \<Rightarrow> goal_host \<Rightarrow> (service_error + goal_view) \<times> goal_host" where
  "goal_edit env ref objective maxGoalRounds h =
     on_current ref (\<lambda>c current h1.
       case edited_goal current objective maxGoalRounds of
         Inl e \<Rightarrow> (Inl (Rejected e), h1)
       | Inr goal \<Rightarrow> commit_current env c Goal_edit goal (gk_activation c) h1) h"

definition goal_transition ::
    "goal_env \<Rightarrow> goal_ref \<Rightarrow> snapshot_operation \<Rightarrow> goal_phase list \<Rightarrow> goal_phase \<Rightarrow> goal_activation \<Rightarrow> goal_host
      \<Rightarrow> (service_error + goal_view) \<times> goal_host" where
  "goal_transition env ref operation allowed phase activation h =
     on_current ref (\<lambda>c current h1.
       if gs_phase current \<notin> set allowed
       then (Inl (Rejected (Wrong_phase operation (gs_id current) (gs_phase current) allowed)), h1)
       else commit_current env c operation (with_phase current phase) activation h1) h"

definition goal_pause :: "goal_env \<Rightarrow> goal_ref \<Rightarrow> goal_host \<Rightarrow> (service_error + goal_view) \<times> goal_host" where
  "goal_pause env ref h = goal_transition env ref Goal_pause [Phase_active] Phase_paused Disarmed h"

definition goal_complete :: "goal_env \<Rightarrow> goal_ref \<Rightarrow> goal_host \<Rightarrow> (service_error + goal_view) \<times> goal_host" where
  "goal_complete env ref h =
     goal_transition env ref Goal_complete [Phase_active, Phase_paused, Phase_blocked] Phase_complete Disarmed h"

definition goal_resume :: "goal_env \<Rightarrow> goal_ref \<Rightarrow> goal_host \<Rightarrow> (service_error + goal_view) \<times> goal_host" where
  "goal_resume env ref h =
     on_current ref (\<lambda>c current h1.
       let resumable = [Phase_active, Phase_paused, Phase_blocked] in
       if gs_phase current \<notin> set resumable
       then (Inl (Rejected (Wrong_phase Goal_resume (gs_id current) (gs_phase current) resumable)), h1)
       else if gs_phase current = Phase_active \<and> gk_activation c = Armed
       then (Inl (Rejected (Already_armed (gs_id current))), h1)
       else if gs_maxGoalRounds current \<le> gf_roundsStarted (gk_state c)
       then (Inl (Rejected (Rounds_exhausted (gs_id current) (gs_maxGoalRounds current))), h1)
       else commit_current env c Goal_resume (with_phase current Phase_active) Armed h1) h"

definition goal_block ::
    "goal_env \<Rightarrow> goal_ref \<Rightarrow> json option \<Rightarrow> goal_host \<Rightarrow> (service_error + goal_view) \<times> goal_host" where
  "goal_block env ref reason h =
     on_current ref (\<lambda>c current h1.
       if gs_phase current \<noteq> Phase_active
       then (Inl (Rejected (Wrong_phase Goal_block (gs_id current) (gs_phase current) [Phase_active])), h1)
       else (case resolve_block_reason reason of
           Inl e \<Rightarrow> (Inl (Rejected e), h1)
         | Inr r \<Rightarrow>
             commit_current env c Goal_block ((with_phase current Phase_blocked)\<lparr>gs_blockedReason := Some r\<rparr>)
               Disarmed h1)) h"

definition goal_clear :: "goal_env \<Rightarrow> goal_ref \<Rightarrow> goal_host \<Rightarrow> (service_error + goal_ref) \<times> goal_host" where
  "goal_clear env ref h =
     on_current ref (\<lambda>c current h1.
       let tombstone = \<lparr>gr_id = gs_id current, gr_revision = gs_revision current + 1\<rparr> in
       case next_mutation_time env c of
         Inl e \<Rightarrow> (Inl e, h1)
       | Inr clearedAt \<Rightarrow>
           (case commit_change env c (Clear_change tombstone clearedAt) Disarmed h1 of
              (Inl e, h2) \<Rightarrow> (Inl e, h2)
            | (Inr _, h2) \<Rightarrow> (Inr tombstone, h2))) h"

text \<open>The remote boundary.\<close>

definition remote_create ::
    "goal_env \<Rightarrow> string \<Rightarrow> string \<Rightarrow> js_number option \<Rightarrow> goal_host \<Rightarrow> (service_error + goal_ref) \<times> goal_host" where
  "remote_create env uuid objective maxGoalRounds h =
     (case goal_create env uuid objective maxGoalRounds h of
        (Inl e, h1) \<Rightarrow> (Inl e, h1)
      | (Inr v, h1) \<Rightarrow> (Inr (snapshot_ref (gv_goal v)), h1))"

section \<open>The invariant companion\<close>

text \<open>
  \<open>goal/goal/src/invariant.ts\<close>: an independent fold per session that vetoes the dispatch of an event
  the strict fold refuses, and moves to the staged state when the event is published.
\<close>

definition goal_companion_veto :: "goal_fold_state \<Rightarrow> session_event \<Rightarrow> string + unit" where
  "goal_companion_veto st e =
     (case apply_goal_event st e of
        Inl _ \<Rightarrow> Inl (''session event '' @ str_of_nat (ev_seq e) @ '' violates the durable goal stream'')
      | Inr _ \<Rightarrow> Inr ())"

definition goal_companion_seed :: "session_event list \<Rightarrow> goal_fault + goal_fold_state" where
  "goal_companion_seed es = replay apply_goal_event empty_goal_fold_state es"

end
