(* ===== verification/GoalFoldProperties.thy ===== *)
theory GoalFoldProperties
  imports GoalFold
begin

text \<open>
  The durable goal stream. The decoder accepts exactly the well-formed changes and inverts the
  encoding the service writes; an accepted log keeps the goal well formed, never repeats a
  reference and numbers the rounds of every goal consecutively; the client projection shows the
  goal of the strict fold.
\<close>

section \<open>Well-formed changes\<close>

definition reason_wf :: "goal_block_reason \<Rightarrow> bool" where
  "reason_wf r \<longleftrightarrow> is_reason_code (br_code r) \<and> is_normalized (br_message r)"

definition snapshot_wf :: "goal_snapshot \<Rightarrow> bool" where
  "snapshot_wf g \<longleftrightarrow> gs_id g \<noteq> [] \<and> 1 \<le> gs_revision g \<and> int (gs_revision g) \<le> max_safe
     \<and> is_normalized (gs_objective g) \<and> 1 \<le> gs_maxGoalRounds g \<and> int (gs_maxGoalRounds g) \<le> max_safe
     \<and> (case gs_blockedReason g of
          None \<Rightarrow> gs_phase g \<noteq> Phase_blocked
        | Some r \<Rightarrow> gs_phase g = Phase_blocked \<and> reason_wf r)"

fun change_wf :: "goal_change \<Rightarrow> bool" where
  "change_wf (Clear_change ref clearedAt) \<longleftrightarrow>
     gr_id ref \<noteq> [] \<and> 1 \<le> gr_revision ref \<and> int (gr_revision ref) \<le> max_safe \<and> int clearedAt \<le> max_safe"
| "change_wf (Snapshot_change c) \<longleftrightarrow>
     snapshot_wf (gc_goal c) \<and> int (gc_roundsStarted c) \<le> max_safe
     \<and> gc_createdAt c \<le> gc_updatedAt c \<and> int (gc_updatedAt c) \<le> max_safe"

lemma positive_integer_iff [res_simps]:
  "positive_integer v name = Inr n \<longleftrightarrow> 1 \<le> n \<and> json_integer v = Some (int n)"
  by (auto simp: positive_integer_def split: option.splits)

lemma non_negative_integer_iff [res_simps]:
  "non_negative_integer v name = Inr n \<longleftrightarrow> json_integer v = Some (int n)"
  by (auto simp: non_negative_integer_def split: option.splits)

lemma json_integer_nat [simp]:
  "json_integer (Some (json_nat n)) = (if int n \<le> max_safe then Some (int n) else None)"
  using safe_integer_of_int [of "int n"] by (simp add: json_integer_def json_nat_def)

lemma json_integer_safe: "json_integer v = Some (int n) \<Longrightarrow> int n \<le> max_safe"
  by (auto simp: json_integer_def safe_integer_of_def split: option.splits json.splits if_splits)

lemma phase_of_name [simp]: "phase_of (Some (JStr (phase_name p))) = Some p"
  by (cases p) (simp_all add: phase_of_def phases_def)

lemma operation_of_name [simp]: "operation_of (Some (JStr (operation_name p))) = Some p"
  by (cases p) (simp_all add: operation_of_def snapshot_operations_def)

lemma operation_name_not_clear [simp]: "operation_name p \<noteq> ''clear''"
  by (cases p) simp_all

lemma decode_block_reason_iff:
  "decode_block_reason v = Inr r \<Longrightarrow> reason_wf r"
  by (auto simp: decode_block_reason_def reason_wf_def split: option.splits json.splits if_splits)

lemma decode_snapshot_wf: "decode_snapshot v = Inr g \<Longrightarrow> snapshot_wf g"
  by (auto simp: decode_snapshot_def snapshot_wf_def res_simps intro: decode_block_reason_iff json_integer_safe
      split: option.splits json.splits if_splits)

lemma decode_ref_wf:
  "decode_ref v = Inr ref \<Longrightarrow> gr_id ref \<noteq> [] \<and> 1 \<le> gr_revision ref \<and> int (gr_revision ref) \<le> max_safe"
  by (auto simp: decode_ref_def res_simps intro: json_integer_safe split: option.splits json.splits if_splits)

lemma decode_goal_change_cases:
  assumes "decode_goal_change v = Inr (Some c)"
  obtains (clear) fs ref n where "c = Clear_change ref n" "decode_ref (map_of fs ''cleared'') = Inr ref"
      "json_integer (map_of fs ''clearedAt'') = Some (int n)"
  | (snapshot) fs operation created updated goal rounds where
      "c = Snapshot_change \<lparr>gc_operation = operation, gc_goal = goal, gc_roundsStarted = rounds,
         gc_createdAt = created, gc_updatedAt = updated\<rparr>"
      "decode_snapshot (map_of fs ''goal'') = Inr goal"
      "json_integer (map_of fs ''updatedAt'') = Some (int updated)" "created \<le> updated"
      "json_integer (map_of fs ''roundsStarted'') = Some (int rounds)"
  using assms unfolding decode_goal_change_def
  by (simp add: res_simps not_less split: json.splits if_splits option.splits) blast+

lemma decode_goal_change_wf:
  assumes "decode_goal_change v = Inr (Some c)"
  shows "change_wf c"
  using assms
proof (cases rule: decode_goal_change_cases)
  case clear
  then show ?thesis using decode_ref_wf json_integer_safe by simp
next
  case snapshot
  then show ?thesis using decode_snapshot_wf json_integer_safe by simp
qed

text \<open>The keys the encoder writes are the ones the decoder asks for.\<close>

lemma encoded_keys:
  "js_join '','' (sort [''code'', ''message'']) = ''code,message''"
  "js_join '','' (sort [''id'', ''revision'']) = ''id,revision''"
  "js_join '','' (sort [''id'', ''revision'', ''objective'', ''phase'', ''maxGoalRounds'']) =
     ''id,maxGoalRounds,objective,phase,revision''"
  "js_join '','' (sort [''id'', ''revision'', ''objective'', ''phase'', ''maxGoalRounds'', ''blockedReason'']) =
     ''blockedReason,id,maxGoalRounds,objective,phase,revision''"
  "js_join '','' (sort [''kind'', ''version'', ''operation'', ''cleared'', ''clearedAt'']) =
     ''cleared,clearedAt,kind,operation,version''"
  "js_join '','' (sort [''kind'', ''version'', ''operation'', ''goal'', ''roundsStarted'', ''createdAt'', ''updatedAt'']) =
     ''createdAt,goal,kind,operation,roundsStarted,updatedAt,version''"
  by code_simp+

lemma decode_encode_reason:
  "reason_wf r \<Longrightarrow> decode_block_reason (Some (encode_reason_object r)) = Inr r"
  by (simp add: decode_block_reason_def encode_reason_object_def reason_wf_def sorted_keys_def encoded_keys)

lemma decode_encode_snapshot:
  assumes "snapshot_wf g"
  shows "decode_snapshot (Some (encode_snapshot g)) = Inr g"
proof (cases "gs_blockedReason g")
  case None
  with assms show ?thesis
    by (simp add: decode_snapshot_def encode_snapshot_def snapshot_wf_def snapshot_keys_def sorted_keys_def
        encoded_keys optional_def positive_integer_def)
next
  case (Some r)
  with assms show ?thesis
    by (simp add: decode_snapshot_def encode_snapshot_def snapshot_wf_def snapshot_keys_def sorted_keys_def
        encoded_keys optional_def positive_integer_def decode_encode_reason del: phase_name.simps)
qed

lemma decode_encode_change:
  assumes "change_wf c"
  shows "decode_goal_change (encode_goal_change c) = Inr (Some c)"
proof (cases c)
  case (Clear_change ref clearedAt)
  with assms show ?thesis
    by (simp add: decode_goal_change_def decode_ref_def sorted_keys_def encoded_keys positive_integer_def
        non_negative_integer_def)
next
  case (Snapshot_change s)
  with assms have "decode_snapshot (Some (encode_snapshot (gc_goal s))) = Inr (gc_goal s)"
    by (simp add: decode_encode_snapshot)
  with Snapshot_change assms show ?thesis
    by (simp add: decode_goal_change_def sorted_keys_def encoded_keys non_negative_integer_def)
qed


section \<open>One event of the stream\<close>

definition change_of :: "session_event \<Rightarrow> goal_change option" where
  "change_of e =
     (case ev_data e of
        PluginEvent type d \<Rightarrow>
          if type = ''goal/change'' then (case decode_goal_change d of Inr c \<Rightarrow> c | Inl _ \<Rightarrow> None) else None
      | _ \<Rightarrow> None)"

definition round_of :: "session_event \<Rightarrow> (string \<times> nat \<times> nat) option" where
  "round_of e =
     (case ev_data e of
        UserMessage m \<Rightarrow> (case goal_source (msg_source m) of Inr r \<Rightarrow> r | Inl _ \<Rightarrow> None)
      | _ \<Rightarrow> None)"

lemma goal_event_cases:
  assumes "apply_goal_event st e = Inr st'"
  obtains (change) c where "change_of e = Some c" "round_of e = None" "change_wf c"
      "apply_goal_change st c = Inr st'"
  | (round) r where "change_of e = None" "round_of e = Some r" "admit_round st (ev_seq e) r = Inr st'"
  | (other) "change_of e = None" "round_of e = None" "st' = st"
proof (cases "ev_data e")
  case (PluginEvent type d)
  show thesis
  proof (cases "type = ''goal/change''")
    case True
    with PluginEvent assms obtain c where "decode_goal_change d = Inr (Some c)" "apply_goal_change st c = Inr st'"
      by (auto simp: apply_goal_event_def res_simps split: option.splits)
    with True PluginEvent show thesis
      by (intro change [of c]) (simp_all add: change_of_def round_of_def decode_goal_change_wf)
  next
    case False
    with PluginEvent assms show thesis
      by (intro other) (simp_all add: change_of_def round_of_def apply_goal_event_def)
  qed
next
  case (UserMessage m)
  with assms obtain r where r: "goal_source (msg_source m) = Inr r"
    "(case r of None \<Rightarrow> Inr st | Some s \<Rightarrow> admit_round st (ev_seq e) s) = Inr st'"
    by (auto simp: apply_goal_event_def res_simps)
  with UserMessage show thesis
    by (cases r) (auto intro: other round simp: change_of_def round_of_def)
qed (use assms in \<open>auto intro!: other simp: change_of_def round_of_def apply_goal_event_def\<close>)

lemma apply_change_cases:
  assumes "apply_goal_change st c = Inr st'"
  obtains (clear) g n where "c = Clear_change \<lparr>gr_id = gs_id g, gr_revision = gs_revision g + 1\<rparr> n" "gf_goal st = Some g"
      "st' = st\<lparr>gf_goal := None, gf_roundsStarted := 0, gf_createdAt := None, gf_updatedAt := None,
         gf_lastRef := Some \<lparr>gr_id = gs_id g, gr_revision = gs_revision g + 1\<rparr>\<rparr>"
  | (create) s where "c = Snapshot_change s" "gc_operation s = Goal_create" "gs_revision (gc_goal s) = 1"
      "gs_phase (gc_goal s) = Phase_active" "gc_roundsStarted s = 0"
      "gf_goal st = None \<or> map_option gs_phase (gf_goal st) = Some Phase_complete"
      "gs_id (gc_goal s) \<notin> set (gf_seenGoalIds st)"
      "st' = install_snapshot s (st\<lparr>gf_seenGoalIds := gf_seenGoalIds st @ [gs_id (gc_goal s)]\<rparr>)"
  | (update) s g where "c = Snapshot_change s" "gc_operation s \<noteq> Goal_create" "gf_goal st = Some g"
      "gs_id (gc_goal s) = gs_id g" "gs_revision (gc_goal s) = gs_revision g + 1"
      "gf_createdAt st = Some (gc_createdAt s)" "gc_roundsStarted s = gf_roundsStarted st"
      "validate_snapshot_transition st s g = Inr ()" "st' = install_snapshot s st"
proof (cases c)
  case (Clear_change ref n)
  with assms obtain g where g: "gf_goal st = Some g" "gr_id ref = gs_id g" "gr_revision ref = gs_revision g + 1"
    "st' = st\<lparr>gf_goal := None, gf_roundsStarted := 0, gf_createdAt := None, gf_updatedAt := None, gf_lastRef := Some ref\<rparr>"
    by (auto simp: res_simps require_next_revision_def split: option.splits if_splits)
  then have "ref = \<lparr>gr_id = gs_id g, gr_revision = gs_revision g + 1\<rparr>" by (cases ref) simp
  with g Clear_change show thesis by (intro clear [of g n]) simp_all
next
  case (Snapshot_change s)
  show thesis
  proof (cases "gc_operation s = Goal_create")
    case True
    with Snapshot_change assms show thesis
      by (intro create [of s]) (auto split: if_splits)
  next
    case False
    with Snapshot_change assms obtain g where g: "gf_goal st = Some g"
      "validate_snapshot_transition st s g = Inr ()" "st' = install_snapshot s st"
      by (auto simp: res_simps split: option.splits)
    then have "gs_id (gc_goal s) = gs_id g \<and> gs_revision (gc_goal s) = gs_revision g + 1
        \<and> gf_createdAt st = Some (gc_createdAt s) \<and> gc_roundsStarted s = gf_roundsStarted st"
      by (auto simp: validate_snapshot_transition_def Let_def res_simps require_next_revision_def snapshot_ref_def
          split: option.splits)
    with g False Snapshot_change show thesis by (intro update [of s g]) simp_all
  qed
qed

lemma admit_round_cases:
  assumes "admit_round st seq r = Inr st'"
  obtains g where "gf_goal st = Some g" "gs_phase g = Phase_active"
    "r = (gs_id g, gs_revision g, gf_roundsStarted st + 1)" "gf_roundsStarted st + 1 \<le> gs_maxGoalRounds g"
    "st' = st\<lparr>gf_roundsStarted := gf_roundsStarted st + 1\<rparr>"
  using assms by (auto simp: admit_round_def split: prod.splits option.splits if_splits)

section \<open>The invariant of the fold\<close>

definition goal_inv :: "goal_fold_state \<Rightarrow> bool" where
  "goal_inv st \<longleftrightarrow>
     distinct (gf_seenGoalIds st)
     \<and> (case gf_goal st of
          None \<Rightarrow> gf_roundsStarted st = 0 \<and> gf_createdAt st = None \<and> gf_updatedAt st = None
        | Some g \<Rightarrow> snapshot_wf g \<and> gs_id g \<in> set (gf_seenGoalIds st) \<and> gf_lastRef st = Some (snapshot_ref g)
            \<and> (\<exists>created updated. gf_createdAt st = Some created \<and> gf_updatedAt st = Some updated
                 \<and> created \<le> updated \<and> int updated \<le> max_safe)
            \<and> int (gf_roundsStarted st) \<le> max_safe)"

lemma goal_inv_empty: "goal_inv empty_goal_fold_state"
  by (simp add: goal_inv_def empty_goal_fold_state_def)

lemma goal_inv_change:
  assumes "goal_inv st" "change_wf c" "apply_goal_change st c = Inr st'"
  shows "goal_inv st'"
  using assms(3)
proof (cases rule: apply_change_cases)
  case (clear g n)
  with assms(1) show ?thesis by (simp add: goal_inv_def)
next
  case (create s)
  with assms(1,2) show ?thesis by (auto simp: goal_inv_def install_snapshot_def)
next
  case (update s g)
  with assms(1,2) show ?thesis by (auto simp: goal_inv_def install_snapshot_def)
qed

lemma goal_inv_step: "goal_inv st \<Longrightarrow> apply_goal_event st e = Inr st' \<Longrightarrow> goal_inv st'"
proof (erule goal_event_cases)
  fix r assume inv: "goal_inv st" and "admit_round st (ev_seq e) r = Inr st'"
  then obtain g where "gf_goal st = Some g" "gf_roundsStarted st + 1 \<le> gs_maxGoalRounds g"
    "st' = st\<lparr>gf_roundsStarted := gf_roundsStarted st + 1\<rparr>" by (auto elim: admit_round_cases)
  with inv show "goal_inv st'" by (auto simp: goal_inv_def snapshot_wf_def)
qed (use goal_inv_change in auto)

interpretation goal_log: strict_log apply_goal_event goal_inv
  by unfold_locales (rule goal_inv_step)

lemma fold_goal_inv: "fold_goal es = Inr st \<Longrightarrow> goal_inv st"
  unfolding fold_goal_def by (rule goal_log.replay_inv [OF goal_inv_empty])

lemma fold_goal_snoc: "fold_goal (es @ [e]) = and_then (fold_goal es) (\<lambda>st. apply_goal_event st e)"
  by (simp add: fold_goal_def replay_snoc)

lemma fold_goal_induct [consumes 1, case_names empty snoc]:
  assumes "fold_goal es = Inr st" "P [] empty_goal_fold_state"
    "\<And>es e s s'. fold_goal es = Inr s \<Longrightarrow> goal_inv s \<Longrightarrow> P es s \<Longrightarrow> apply_goal_event s e = Inr s' \<Longrightarrow> P (es @ [e]) s'"
  shows "P es st"
  using assms(1)
proof (induction es arbitrary: st rule: rev_induct)
  case Nil
  with assms(2) show ?case by (simp add: fold_goal_def)
next
  case (snoc e es)
  then obtain s where s: "fold_goal es = Inr s" "apply_goal_event s e = Inr st"
    by (auto simp: fold_goal_snoc res_simps)
  from assms(3) [OF s(1) fold_goal_inv [OF s(1)] snoc.IH [OF s(1)] s(2)] show ?case .
qed

section \<open>References and rounds\<close>

definition log_refs :: "session_event list \<Rightarrow> goal_ref list" where
  "log_refs es = map goal_change_ref (List.map_filter change_of es)"

definition log_rounds :: "string \<Rightarrow> session_event list \<Rightarrow> nat list" where
  "log_rounds i es = map (\<lambda>r. snd (snd r)) (filter (\<lambda>r. fst r = i) (List.map_filter round_of es))"

lemma log_refs_snoc:
  "log_refs (es @ [e]) = log_refs es @ (case change_of e of None \<Rightarrow> [] | Some c \<Rightarrow> [goal_change_ref c])"
  by (auto simp: log_refs_def List.map_filter_def split: option.splits)

lemma log_rounds_snoc:
  "log_rounds i (es @ [e]) = log_rounds i es
     @ (case round_of e of None \<Rightarrow> [] | Some (k, _, n) \<Rightarrow> if k = i then [n] else [])"
  by (auto simp: log_rounds_def List.map_filter_def split: option.splits)

definition refs_ok :: "session_event list \<Rightarrow> goal_fold_state \<Rightarrow> bool" where
  "refs_ok es st \<longleftrightarrow> distinct (log_refs es) \<and> gr_id ` set (log_refs es) = set (gf_seenGoalIds st)
     \<and> (\<forall>ref \<in> set (log_refs es). \<forall>g. gf_goal st = Some g \<longrightarrow> gr_id ref = gs_id g \<longrightarrow> gr_revision ref \<le> gs_revision g)"

lemma log_refs_ok: "fold_goal es = Inr st \<Longrightarrow> refs_ok es st"
proof (induction rule: fold_goal_induct)
  case empty
  then show ?case by (simp add: refs_ok_def log_refs_def List.map_filter_def empty_goal_fold_state_def)
next
  case (snoc es e s s')
  from snoc(3) show ?case
  proof (cases rule: goal_event_cases)
    case (change c)
    from change(4) show ?thesis
    proof (cases rule: apply_change_cases)
      case (clear g n)
      with snoc(2,4) change(1) show ?thesis
        by (fastforce simp: refs_ok_def log_refs_snoc goal_inv_def)
    next
      case (create q)
      have "gr_id ref \<noteq> gs_id (gc_goal q)" if "ref \<in> set (log_refs es)" for ref
      proof
        assume "gr_id ref = gs_id (gc_goal q)"
        with that have "gs_id (gc_goal q) \<in> gr_id ` set (log_refs es)" by force
        with snoc(4) create(7) show False by (simp add: refs_ok_def)
      qed
      moreover from this have "snapshot_ref (gc_goal q) \<notin> set (log_refs es)"
        by (metis goal_ref.select_convs(1) snapshot_ref_def)
      moreover have "goal_change_ref c = snapshot_ref (gc_goal q)" using create(1) by simp
      ultimately show ?thesis
        using snoc(4) change(1) create(8)
        by (simp add: refs_ok_def log_refs_snoc install_snapshot_def) (simp add: snapshot_ref_def)
    next
      case (update q g)
      with snoc(2,4) change(1) show ?thesis
        by (fastforce simp: refs_ok_def log_refs_snoc install_snapshot_def snapshot_ref_def goal_inv_def)
    qed
  next
    case (round r)
    with snoc(4) show ?thesis by (auto simp: refs_ok_def log_refs_snoc elim!: admit_round_cases)
  next
    case other
    with snoc(4) show ?thesis by (simp add: refs_ok_def log_refs_snoc)
  qed
qed

definition rounds_ok :: "session_event list \<Rightarrow> goal_fold_state \<Rightarrow> bool" where
  "rounds_ok es st \<longleftrightarrow>
     (\<forall>i. \<exists>n. log_rounds i es = [1..<Suc n]
        \<and> (map_option gs_id (gf_goal st) = Some i \<longrightarrow> n = gf_roundsStarted st)
        \<and> (i \<notin> set (gf_seenGoalIds st) \<longrightarrow> n = 0))"

lemma rounds_ok_keep:
  assumes "rounds_ok es st" "set (gf_seenGoalIds st) \<subseteq> set (gf_seenGoalIds st')"
    "\<And>i. map_option gs_id (gf_goal st') = Some i \<Longrightarrow> gf_roundsStarted st' = 0 \<and> i \<notin> set (gf_seenGoalIds st)
       \<or> map_option gs_id (gf_goal st) = Some i \<and> gf_roundsStarted st' = gf_roundsStarted st"
    "round_of e = None"
  shows "rounds_ok (es @ [e]) st'"
  unfolding rounds_ok_def
proof
  fix i
  from assms(1) obtain n where n: "log_rounds i es = [1..<Suc n]"
    "map_option gs_id (gf_goal st) = Some i \<longrightarrow> n = gf_roundsStarted st" "i \<notin> set (gf_seenGoalIds st) \<longrightarrow> n = 0"
    unfolding rounds_ok_def by blast
  show "\<exists>n. log_rounds i (es @ [e]) = [1..<Suc n]
      \<and> (map_option gs_id (gf_goal st') = Some i \<longrightarrow> n = gf_roundsStarted st') \<and> (i \<notin> set (gf_seenGoalIds st') \<longrightarrow> n = 0)"
    using n assms(2,3,4) by (intro exI [of _ n]) (auto simp: log_rounds_snoc)
qed

lemma log_rounds_ok: "fold_goal es = Inr st \<Longrightarrow> rounds_ok es st"
proof (induction rule: fold_goal_induct)
  case empty
  then show ?case by (simp add: rounds_ok_def log_rounds_def empty_goal_fold_state_def List.map_filter_def)
next
  case (snoc es e s s')
  from snoc(3) show ?case
  proof (cases rule: goal_event_cases)
    case (change c)
    from change(4) show ?thesis
      by (cases rule: apply_change_cases)
        (use snoc(2,4) change(2) in \<open>auto intro!: rounds_ok_keep [OF snoc(4)] simp: install_snapshot_def\<close>)
  next
    case (round r)
    from round(3) obtain g where g: "gf_goal s = Some g" "r = (gs_id g, gs_revision g, gf_roundsStarted s + 1)"
      "s' = s\<lparr>gf_roundsStarted := gf_roundsStarted s + 1\<rparr>" by (rule admit_round_cases)
    show ?thesis
      unfolding rounds_ok_def
    proof
      fix i
      from snoc(4) obtain n where n: "log_rounds i es = [1..<Suc n]"
        "map_option gs_id (gf_goal s) = Some i \<longrightarrow> n = gf_roundsStarted s" "i \<notin> set (gf_seenGoalIds s) \<longrightarrow> n = 0"
        unfolding rounds_ok_def by blast
      show "\<exists>n. log_rounds i (es @ [e]) = [1..<Suc n]
        \<and> (map_option gs_id (gf_goal s') = Some i \<longrightarrow> n = gf_roundsStarted s') \<and> (i \<notin> set (gf_seenGoalIds s') \<longrightarrow> n = 0)"
      proof (cases "i = gs_id g")
        case True
        with n g round(2) snoc(2) show ?thesis
          by (intro exI [of _ "Suc n"]) (auto simp: log_rounds_snoc goal_inv_def)
      next
        case False
        with n g round(2) show ?thesis by (intro exI [of _ n]) (auto simp: log_rounds_snoc)
      qed
    qed
  next
    case other
    with rounds_ok_keep [OF snoc(4)] show ?thesis by simp
  qed
qed

text \<open>
  C12: In a log the strict fold accepts, no two goal changes carry the same reference, so a
  reference identifies one state of one goal; the current goal is well formed, is the last change,
  and the continuation rounds admitted for any goal are numbered 1, 2, 3 without gap or repetition,
  ending at the counter of the fold.
\<close>

theorem goal_log_identities:
  assumes "fold_goal es = Inr st"
  shows "distinct (log_refs es)
    \<and> (case gf_goal st of
         None \<Rightarrow> gf_roundsStarted st = 0
       | Some g \<Rightarrow> snapshot_wf g \<and> gf_lastRef st = Some (snapshot_ref g)
           \<and> log_rounds (gs_id g) es = [1..<Suc (gf_roundsStarted st)])
    \<and> (\<exists>n. log_rounds i es = [1..<Suc n])"
proof -
  note refs = log_refs_ok [OF assms] and rounds = log_rounds_ok [OF assms] and inv = fold_goal_inv [OF assms]
  have "log_rounds (gs_id g) es = [1..<Suc (gf_roundsStarted st)]" if "gf_goal st = Some g" for g
    using rounds that unfolding rounds_ok_def by (metis option.simps(9))
  moreover have "\<exists>n. log_rounds i es = [1..<Suc n]" using rounds unfolding rounds_ok_def by blast
  ultimately show ?thesis
    using refs inv by (auto simp: refs_ok_def goal_inv_def split: option.splits)
qed

section \<open>The client projection\<close>

definition projection_ok :: "goal_projection option \<Rightarrow> goal_fold_state \<Rightarrow> bool" where
  "projection_ok p st \<longleftrightarrow>
     (case p of
        None \<Rightarrow> gf_goal st = None
      | Some q \<Rightarrow> gf_goal st = Some (gp_goal q) \<and> gf_createdAt st = Some (gp_createdAt q)
          \<and> gf_updatedAt st = Some (gp_updatedAt q) \<and> gp_roundsStarted q \<le> gf_roundsStarted st)"

lemma apply_goal_projection_change:
  "apply_goal_projection p e =
     (case change_of e of
        None \<Rightarrow> p
      | Some (Clear_change _ _) \<Rightarrow> None
      | Some (Snapshot_change c) \<Rightarrow>
          Some \<lparr>gp_goal = gc_goal c, gp_roundsStarted = gc_roundsStarted c, gp_createdAt = gc_createdAt c,
                gp_updatedAt = gc_updatedAt c\<rparr>)"
  by (auto simp: apply_goal_projection_def change_of_def split: event_data.splits sum.splits option.splits)

text \<open>
  The lenient last-wins projection of the clients agrees with the strict fold on every log the
  fold accepts: the same goal with the same times or none, and a round counter that is never ahead.
\<close>

theorem goal_projection_agrees:
  assumes "fold_goal es = Inr st"
  shows "projection_ok (project_goal es) st"
  using assms
proof (induction rule: fold_goal_induct)
  case empty
  then show ?case by (simp add: projection_ok_def project_goal_def empty_goal_fold_state_def)
next
  case (snoc es e s s')
  have step: "project_goal (es @ [e]) = apply_goal_projection (project_goal es) e" by (simp add: project_goal_def)
  from snoc(3) show ?case
  proof (cases rule: goal_event_cases)
    case (change c)
    from change(4) show ?thesis
      by (cases rule: apply_change_cases)
        (simp_all add: step apply_goal_projection_change change(1) projection_ok_def install_snapshot_def)
  next
    case (round r)
    with snoc(4) show ?thesis
      by (auto simp: step apply_goal_projection_change projection_ok_def split: option.splits elim!: admit_round_cases)
  next
    case other
    with snoc(4) show ?thesis by (simp add: step apply_goal_projection_change)
  qed
qed

end
