(* ===== verification/GoalServiceProperties.thy ===== *)
theory GoalServiceProperties
  imports GoalService GoalFoldProperties SessionLogProperties
begin

text \<open>
  The goal service against its specification: \<open>goal_spec\<close> says what each request does to the goal,
  its round counter and its activation, without log, cache, clock or encoding; every request of a
  reachable service either refuses as the specification does, or appends exactly one event that the
  strict fold accepts and moves to the specified goal, or leaves everything alone because the
  session refused the append.
\<close>

section \<open>Synchronizing the cache\<close>

lemma goal_change_data: "change_of e = Some c \<Longrightarrow> is_goal_change e"
  by (auto simp: change_of_def is_goal_change_def ev_type_def split: event_data.splits if_splits)

lemma no_change_keeps_goal:
  assumes "apply_goal_event st e = Inr st'" "\<not> is_goal_change e"
  shows "gf_goal st' = gf_goal st"
  using assms(1)
proof (cases rule: goal_event_cases)
  case (change c)
  with goal_change_data assms(2) show ?thesis by blast
next
  case (round r)
  from round(3) show ?thesis by (auto elim: admit_round_cases)
qed simp

text \<open>A cache that is not committing: it replayed a prefix of the log, and is armed on an active goal.\<close>

definition armed_ok :: "goal_activation \<Rightarrow> goal_fold_state \<Rightarrow> bool" where
  "armed_ok a st \<longleftrightarrow> (a = Armed \<longrightarrow> map_option gs_phase (gf_goal st) = Some Phase_active)"

definition cache_ok :: "session_event list \<Rightarrow> goal_cache \<Rightarrow> bool" where
  "cache_ok es c \<longleftrightarrow> gk_observedSeq c \<le> length es \<and> fold_goal (take (gk_observedSeq c) es) = Inr (gk_state c)
     \<and> gk_pending c = None \<and> armed_ok (gk_activation c) (gk_state c)"

definition host_log :: "goal_host \<Rightarrow> session_event list" where
  "host_log h = sn_log (gh_session h)"

definition host_ok :: "goal_host \<Rightarrow> bool" where
  "host_ok h \<longleftrightarrow> (\<exists>st. fold_goal (host_log h) = Inr st)
     \<and> (case gh_cache h of None \<Rightarrow> True | Some c \<Rightarrow> cache_ok (host_log h) c)
     \<and> 1 \<le> gh_defaultMaxGoalRounds h \<and> int (gh_defaultMaxGoalRounds h) \<le> max_safe"

definition synced :: "goal_host \<Rightarrow> goal_cache \<Rightarrow> bool" where
  "synced h c \<longleftrightarrow> gh_cache h = Some c \<and> gk_observedSeq c = length (host_log h) \<and> gk_pending c = None
     \<and> fold_goal (host_log h) = Inr (gk_state c) \<and> armed_ok (gk_activation c) (gk_state c)"

lemma sync_events_run:
  "replay apply_goal_event (gk_state c) es = Inr st \<Longrightarrow> gk_pending c = None \<Longrightarrow>
    armed_ok (gk_activation c) (gk_state c) \<Longrightarrow>
    \<exists>a. sync_events c es = (Inr (), c\<lparr>gk_state := st, gk_activation := a, gk_observedSeq := gk_observedSeq c + length es\<rparr>)
      \<and> armed_ok a st"
proof (induction es arbitrary: c)
  case (Cons e es)
  from Cons.prems(1) obtain s where s: "apply_goal_event (gk_state c) e = Inr s" "replay apply_goal_event s es = Inr st"
    by (auto simp: res_simps)
  let ?c = "observe_event c e s"
  have fields: "gk_state ?c = s" "gk_pending ?c = None" "gk_observedSeq ?c = gk_observedSeq c + 1"
    using Cons.prems(2) by (simp_all add: observe_event_def)
  have "armed_ok (gk_activation ?c) s"
    using Cons.prems(2,3) no_change_keeps_goal [OF s(1)]
    by (cases "is_goal_change e") (simp_all add: observe_event_def armed_ok_def)
  with Cons.IH [of ?c] fields s(2) obtain a where
    "sync_events ?c es = (Inr (), ?c\<lparr>gk_state := st, gk_activation := a, gk_observedSeq := gk_observedSeq ?c + length es\<rparr>)"
    "armed_ok a st" by auto
  moreover have "?c\<lparr>gk_state := st, gk_activation := a, gk_observedSeq := gk_observedSeq ?c + length es\<rparr>
      = c\<lparr>gk_state := st, gk_activation := a, gk_observedSeq := gk_observedSeq c + length (e # es)\<rparr>"
    by (simp add: observe_event_def)
  ultimately show ?case using s(1) by auto
next
  case Nil
  then show ?case by (intro exI [of _ "gk_activation c"]) simp
qed

lemma sync_cache_run:
  assumes "cache_ok (sn_log s) c" "fold_goal (sn_log s) = Inr st"
  obtains c' where "sync_cache s c = (Inr (), c')" "gk_state c' = st" "gk_observedSeq c' = length (sn_log s)"
    "gk_pending c' = None" "armed_ok (gk_activation c') st"
proof -
  let ?n = "gk_observedSeq c"
  have "fold_goal (take ?n (sn_log s) @ drop ?n (sn_log s)) = Inr st" using assms(2) by simp
  with assms(1) have "replay apply_goal_event (gk_state c) (drop ?n (sn_log s)) = Inr st"
    by (simp add: cache_ok_def fold_goal_def replay_append del: append_take_drop_id)
  from sync_events_run [OF this] assms(1) obtain a where
    "sync_events c (drop ?n (sn_log s)) = (Inr (), c\<lparr>gk_state := st, gk_activation := a,
       gk_observedSeq := ?n + length (drop ?n (sn_log s))\<rparr>)" "armed_ok a st" by (auto simp: cache_ok_def)
  with assms(1) that show thesis by (simp add: sync_cache_def cache_ok_def)
qed

lemma synced_host: "synced h c \<Longrightarrow> cache_ok (host_log h) c"
  by (simp add: synced_def cache_ok_def)

lemma prepare_synced:
  assumes "host_ok h" "gh_live h"
  obtains c where "prepare_mutation h = (Inr c, h\<lparr>gh_cache := Some c\<rparr>)" "synced (h\<lparr>gh_cache := Some c\<rparr>) c"
proof -
  from assms(1) obtain st where st: "fold_goal (host_log h) = Inr st" by (auto simp: host_ok_def)
  obtain c0 where c0: "goal_host_cache h = (Inr c0, h\<lparr>gh_cache := Some c0\<rparr>)" "cache_ok (host_log h) c0"
  proof (cases "gh_cache h")
    case None
    with st that show thesis
      by (simp add: goal_host_cache_def host_log_def Let_def cache_ok_def armed_ok_def)
  next
    case (Some c)
    with assms(1) have "cache_ok (host_log h) c" by (simp add: host_ok_def)
    with Some that [of c] show thesis by (simp add: goal_host_cache_def)
  qed
  from sync_cache_run [OF c0(2) [unfolded host_log_def] st [unfolded host_log_def]] obtain c where
    "sync_cache (gh_session h) c0 = (Inr (), c)" "gk_state c = st" "gk_observedSeq c = length (sn_log (gh_session h))"
    "gk_pending c = None" "armed_ok (gk_activation c) st" .
  with c0(1) assms(2) st that show thesis
    by (simp add: prepare_mutation_def synced_def host_log_def)
qed

section \<open>Commits\<close>

lemma view_of_inv:
  assumes "goal_inv (gk_state c)"
  shows "\<exists>v. view_of c = Inr v \<and> map_option gv_goal v = gf_goal (gk_state c)
    \<and> (\<forall>x. v = Some x \<longrightarrow> gv_roundsStarted x = gf_roundsStarted (gk_state c) \<and> gv_activation x = gk_activation c)"
  using assms by (auto simp: view_of_def goal_inv_def split: option.splits)

definition left_alone :: "goal_host \<Rightarrow> goal_cache \<Rightarrow> goal_host \<Rightarrow> bool" where
  "left_alone h c h' \<longleftrightarrow> (\<exists>s. h' = h\<lparr>gh_session := s, gh_cache := Some c\<rparr> \<and> sn_log s = host_log h)"

definition committed :: "goal_host \<Rightarrow> goal_change \<Rightarrow> goal_activation \<Rightarrow> goal_fold_state \<Rightarrow> goal_host \<Rightarrow> bool" where
  "committed h ch a st h' \<longleftrightarrow>
     (\<exists>e c. host_log h' = host_log h @ [e] \<and> change_of e = Some ch \<and> synced h' c \<and> gk_state c = st \<and> gk_activation c = a)
     \<and> gh_live h' = gh_live h \<and> gh_defaultMaxGoalRounds h' = gh_defaultMaxGoalRounds h"

text \<open>What committing an acceptable change does.\<close>

lemma commit_change_cases:
  assumes c: "synced h c" and wf: "change_wf ch" and app: "apply_goal_change (gk_state c) ch = Inr st"
    and armed: "armed_ok a st" and run: "commit_change env c ch a h = (r, h')"
  obtains (refused) err where "r = Inl (Append_failed err)" "left_alone h c h'"
  | (commit) c' where "r = Inr c'" "committed h ch a st h'" "gk_state c' = st" "gk_activation c' = a"
proof -
  let ?s = "gh_session h" and ?d = "PluginEvent ''goal/change'' (encode_goal_change ch)"
  let ?c1 = "c\<lparr>gk_pending := Some (length (sn_log ?s), a)\<rparr>"
  obtain q s where ap: "session_append (ge_veto env) (ge_eventTime env) ?d None None ?s = (q, s)" by fastforce
  let ?e = "candidate ?s (ge_eventTime env) ?d None None"
  have same: "c\<lparr>gk_pending := None\<rparr> = c" using c by (simp add: synced_def)
  from session_append_log [OF ap] show thesis
  proof (elim disjE exE conjE)
    fix err assume e: "q = Inl err" "sn_log s = sn_log ?s"
    with run ap have "r = Inl (Append_failed err)" "h' = h\<lparr>gh_session := s, gh_cache := Some c\<rparr>"
      by (simp_all add: commit_change_def Let_def same)
    with e(2) show thesis by (intro refused [of err]) (auto simp: left_alone_def host_log_def)
  next
    assume e: "q = Inr ?e" "sn_log s = sn_log ?s @ [?e]"
    have dec: "decode_goal_change (encode_goal_change ch) = Inr (Some ch)" using decode_encode_change [OF wf] .
    then have ch: "change_of ?e = Some ch" by (simp add: change_of_def candidate_def)
    have step: "apply_goal_event (gk_state c) ?e = Inr st"
      using dec app by (simp add: apply_goal_event_def candidate_def)
    let ?c2 = "c\<lparr>gk_state := st, gk_activation := a, gk_observedSeq := Suc (length (sn_log ?s)), gk_pending := None\<rparr>"
    have obs: "gk_observedSeq c = length (sn_log ?s)" and fold: "fold_goal (sn_log ?s) = Inr (gk_state c)"
      using c by (simp_all add: synced_def host_log_def)
    have sync: "sync_cache s ?c1 = (Inr (), ?c2\<lparr>gk_pending := Some (length (sn_log ?s), a)\<rparr>)"
      using step goal_change_data [OF ch] by (simp add: sync_cache_def e(2) obs observe_event_def candidate_def)
    have "goal_inv st"
      using goal_inv_change [OF fold_goal_inv [OF fold] wf app] .
    then obtain v where v: "view_of ?c2 = Inr v" using view_of_inv [of ?c2] by auto
    have r: "r = Inr ?c2"
      and h': "h' = h\<lparr>gh_session := s, gh_cache := Some ?c2, gh_emitted := gh_emitted h @
        [\<lparr>gn_operation = change_operation ch, gn_ref = goal_change_ref ch, gn_goal = v\<rparr>]\<rparr>"
      using run by (simp_all add: commit_change_def Let_def ap e(1) sync v)
    have "fold_goal (sn_log s) = Inr st" by (simp add: e(2) fold_goal_snoc fold step)
    then have "synced h' ?c2" using armed by (simp add: synced_def h' host_log_def e(2))
    with ch have "committed h ch a st h'" by (auto simp: committed_def h' host_log_def e(2))
    with r show thesis by (intro commit [of ?c2]) simp_all
  qed
qed

lemma commit_snapshot_cases:
  assumes c: "synced h c" and wf: "change_wf (Snapshot_change ch)"
    and app: "apply_goal_change (gk_state c) (Snapshot_change ch) = Inr st"
    and armed: "armed_ok a st" and run: "commit_snapshot env c ch a h = (r, h')"
  obtains (refused) err where "r = Inl (Append_failed err)" "left_alone h c h'"
  | (commit) v where "r = Inr v" "committed h (Snapshot_change ch) a st h'" "gv_goal v = gc_goal ch"
      "gv_activation v = a"
proof -
  obtain q h1 where q: "commit_change env c (Snapshot_change ch) a h = (q, h1)" by fastforce
  from c wf app armed q show thesis
  proof (cases rule: commit_change_cases)
    case (refused err)
    with run q have "r = Inl (Append_failed err)" "h' = h1" by (simp_all add: commit_snapshot_def)
    with refused(2) show thesis by (intro that(1)) simp_all
  next
    case (commit c')
    have "fold_goal (host_log h) = Inr (gk_state c)" using c by (simp add: synced_def)
    then have "goal_inv st" using goal_inv_change [OF fold_goal_inv wf app] by blast
    moreover have "gf_goal st = Some (gc_goal ch)"
      using app by (auto simp: res_simps install_snapshot_def split: if_splits option.splits)
    ultimately obtain v where "view_of c' = Inr (Some v)" "gv_goal v = gc_goal ch" "gv_activation v = a"
      using view_of_inv [of c'] commit(3,4) by auto
    moreover from this run q commit(1) have "r = Inr v" "h' = h1" by (simp_all add: commit_snapshot_def)
    ultimately show thesis using commit(2) by (intro that(2)) simp_all
  qed
qed

section \<open>The specification\<close>

record goal_abs =
  ga_goal :: "goal_snapshot option"
  ga_rounds :: nat
  ga_activation :: goal_activation

datatype goal_request =
    Create_request string string "js_number option"
  | Edit_request goal_ref "string option" "js_number option"
  | Pause_request goal_ref
  | Resume_request goal_ref
  | Complete_request goal_ref
  | Block_request goal_ref "json option"
  | Clear_request goal_ref

definition spec_current :: "goal_ref \<Rightarrow> goal_abs \<Rightarrow> goal_error + goal_snapshot" where
  "spec_current ref a =
     (case ga_goal a of
        None \<Rightarrow> Inl Goal_not_found
      | Some g \<Rightarrow> if ref = snapshot_ref g then Inr g else Inl (Stale_revision ref (snapshot_ref g)))"

definition spec_install :: "goal_snapshot \<Rightarrow> goal_activation \<Rightarrow> goal_abs \<Rightarrow> goal_abs \<times> goal_ref" where
  "spec_install g activation a = (a\<lparr>ga_goal := Some g, ga_activation := activation\<rparr>, snapshot_ref g)"

definition spec_move ::
    "goal_ref \<Rightarrow> snapshot_operation \<Rightarrow> goal_phase list \<Rightarrow> goal_phase \<Rightarrow> goal_abs \<Rightarrow> goal_error + goal_abs \<times> goal_ref" where
  "spec_move ref operation allowed phase a =
     and_then (spec_current ref a) (\<lambda>g.
       if gs_phase g \<notin> set allowed then Inl (Wrong_phase operation (gs_id g) (gs_phase g) allowed)
       else Inr (spec_install (with_phase g phase) Disarmed a))"

fun goal_spec :: "nat \<Rightarrow> goal_request \<Rightarrow> goal_abs \<Rightarrow> goal_error + goal_abs \<times> goal_ref" where
  "goal_spec dflt (Create_request uuid objective rounds) a =
     and_then (resolve_create_goal objective rounds dflt) (\<lambda>(obj, n).
       let g = \<lparr>gs_id = ''goal-'' @ uuid, gs_revision = 1, gs_objective = obj, gs_phase = Phase_active,
                gs_blockedReason = None, gs_maxGoalRounds = n\<rparr>
       in (case ga_goal a of
             Some old \<Rightarrow>
               if gs_phase old \<noteq> Phase_complete then Inl (Goal_already_exists (gs_id old) (gs_phase old))
               else Inr (spec_install g Armed (a\<lparr>ga_rounds := 0\<rparr>))
           | None \<Rightarrow> Inr (spec_install g Armed (a\<lparr>ga_rounds := 0\<rparr>))))"
| "goal_spec dflt (Edit_request ref objective rounds) a =
     and_then (spec_current ref a) (\<lambda>g.
     and_then (edited_goal g objective rounds) (\<lambda>new. Inr (spec_install new (ga_activation a) a)))"
| "goal_spec dflt (Pause_request ref) a = spec_move ref Goal_pause [Phase_active] Phase_paused a"
| "goal_spec dflt (Resume_request ref) a =
     and_then (spec_current ref a) (\<lambda>g.
       if gs_phase g = Phase_complete
       then Inl (Wrong_phase Goal_resume (gs_id g) (gs_phase g) [Phase_active, Phase_paused, Phase_blocked])
       else if ga_activation a = Armed then Inl (Already_armed (gs_id g))
       else if gs_maxGoalRounds g \<le> ga_rounds a then Inl (Rounds_exhausted (gs_id g) (gs_maxGoalRounds g))
       else Inr (spec_install (with_phase g Phase_active) Armed a))"
| "goal_spec dflt (Complete_request ref) a =
     spec_move ref Goal_complete [Phase_active, Phase_paused, Phase_blocked] Phase_complete a"
| "goal_spec dflt (Block_request ref reason) a =
     and_then (spec_current ref a) (\<lambda>g.
       if gs_phase g \<noteq> Phase_active
       then Inl (Wrong_phase Goal_block (gs_id g) (gs_phase g) [Phase_active])
       else and_then (resolve_block_reason reason) (\<lambda>r.
         Inr (spec_install ((with_phase g Phase_blocked)\<lparr>gs_blockedReason := Some r\<rparr>) Disarmed a)))"
| "goal_spec dflt (Clear_request ref) a =
     and_then (spec_current ref a) (\<lambda>g.
       Inr (\<lparr>ga_goal = None, ga_rounds = 0, ga_activation = Disarmed\<rparr>,
            \<lparr>gr_id = gs_id g, gr_revision = gs_revision g + 1\<rparr>))"

definition view_ref :: "(service_error + goal_view) \<times> goal_host \<Rightarrow> (service_error + goal_ref) \<times> goal_host" where
  "view_ref p = map_prod (map_sum id (\<lambda>v. snapshot_ref (gv_goal v))) id p"

fun goal_perform :: "goal_env \<Rightarrow> goal_request \<Rightarrow> goal_host \<Rightarrow> (service_error + goal_ref) \<times> goal_host" where
  "goal_perform env (Create_request uuid objective rounds) h = view_ref (goal_create env uuid objective rounds h)"
| "goal_perform env (Edit_request ref objective rounds) h = view_ref (goal_edit env ref objective rounds h)"
| "goal_perform env (Pause_request ref) h = view_ref (goal_pause env ref h)"
| "goal_perform env (Resume_request ref) h = view_ref (goal_resume env ref h)"
| "goal_perform env (Complete_request ref) h = view_ref (goal_complete env ref h)"
| "goal_perform env (Block_request ref reason) h = view_ref (goal_block env ref reason h)"
| "goal_perform env (Clear_request ref) h = goal_clear env ref h"

text \<open>
  What the caller and the platform provide: a clock within the safe integers, a random UUID that no
  goal of the log has, and a revision that still has a successor among the safe integers.
\<close>

definition request_legal :: "goal_env \<Rightarrow> goal_request \<Rightarrow> goal_host \<Rightarrow> bool" where
  "request_legal env q h \<longleftrightarrow> int (ge_now env) \<le> max_safe
     \<and> (case q of
          Create_request uuid _ _ \<Rightarrow> ''goal-'' @ uuid \<notin> gr_id ` set (log_refs (host_log h))
        | Edit_request ref _ _ \<Rightarrow> int (gr_revision ref) < max_safe
        | Pause_request ref \<Rightarrow> int (gr_revision ref) < max_safe
        | Resume_request ref \<Rightarrow> int (gr_revision ref) < max_safe
        | Complete_request ref \<Rightarrow> int (gr_revision ref) < max_safe
        | Block_request ref _ \<Rightarrow> int (gr_revision ref) < max_safe
        | Clear_request ref \<Rightarrow> int (gr_revision ref) < max_safe)"

definition abs_of :: "goal_cache \<Rightarrow> goal_abs" where
  "abs_of c = \<lparr>ga_goal = gf_goal (gk_state c), ga_rounds = gf_roundsStarted (gk_state c), ga_activation = gk_activation c\<rparr>"

section \<open>Every request implements its specification\<close>

fun implements :: "goal_host \<Rightarrow> goal_cache \<Rightarrow> goal_error + goal_abs \<times> goal_ref
    \<Rightarrow> (service_error + goal_ref) \<times> goal_host \<Rightarrow> bool" where
  "implements h c (Inl e) out \<longleftrightarrow> out = (Inl (Rejected e), h)"
| "implements h c (Inr (a, ref)) (r, h') \<longleftrightarrow>
     (\<exists>err. r = Inl (Append_failed err) \<and> left_alone h c h')
     \<or> r = Inr ref \<and> (\<exists>ch st. committed h ch (ga_activation a) st h' \<and> goal_change_ref ch = ref
          \<and> gf_goal st = ga_goal a \<and> gf_roundsStarted st = ga_rounds a)"

lemma synced_inv: "synced h c \<Longrightarrow> goal_inv (gk_state c)"
  by (auto simp: synced_def intro: fold_goal_inv)

lemma commit_snapshot_implements:
  assumes c: "synced h c" and wf: "change_wf (Snapshot_change ch)"
    and app: "apply_goal_change (gk_state c) (Snapshot_change ch) = Inr st" and armed: "armed_ok a st"
    and x: "ga_goal x = Some (gc_goal ch)" "ga_rounds x = gc_roundsStarted ch" "ga_activation x = a"
  shows "implements h c (Inr (x, snapshot_ref (gc_goal ch))) (view_ref (commit_snapshot env c ch a h))"
proof -
  have st: "gf_goal st = Some (gc_goal ch)" "gf_roundsStarted st = gc_roundsStarted ch"
    using app by (auto simp: res_simps install_snapshot_def split: if_splits option.splits)
  obtain r h' where run: "commit_snapshot env c ch a h = (r, h')" by fastforce
  from c wf app armed run show ?thesis
  proof (cases rule: commit_snapshot_cases)
    case (refused err)
    then show ?thesis by (simp add: run view_ref_def)
  next
    case (commit v)
    then have "committed h (Snapshot_change ch) (ga_activation x) st h'" using x(3) by simp
    with commit(1,3) st x(1,2) show ?thesis
      by (simp add: run view_ref_def) (metis goal_change_ref.simps(2))
  qed
qed

lemma commit_current_implements:
  assumes c: "synced h c" and now: "int (ge_now env) \<le> max_safe"
    and g: "gf_goal (gk_state c) = Some g" and op: "op \<noteq> Goal_create" and wf: "snapshot_wf new"
    and valid: "\<And>ch. gc_operation ch = op \<Longrightarrow> gc_goal ch = new \<Longrightarrow> gf_createdAt (gk_state c) = Some (gc_createdAt ch)
      \<Longrightarrow> gc_roundsStarted ch = gf_roundsStarted (gk_state c)
      \<Longrightarrow> (\<exists>t. gf_updatedAt (gk_state c) = Some t \<and> t \<le> gc_updatedAt ch)
      \<Longrightarrow> validate_snapshot_transition (gk_state c) ch g = Inr ()"
    and armed: "a = Armed \<Longrightarrow> gs_phase new = Phase_active"
  shows "implements h c (Inr (spec_install new a (abs_of c))) (view_ref (commit_current env c op new a h))"
proof -
  from synced_inv [OF c] g obtain created updated where t: "gf_createdAt (gk_state c) = Some created"
    "gf_updatedAt (gk_state c) = Some updated" "created \<le> updated" "int updated \<le> max_safe"
    and n: "int (gf_roundsStarted (gk_state c)) \<le> max_safe" by (auto simp: goal_inv_def)
  let ?ch = "\<lparr>gc_operation = op, gc_goal = new, gc_roundsStarted = gf_roundsStarted (gk_state c),
    gc_createdAt = created, gc_updatedAt = max (ge_now env) updated\<rparr>"
  have "validate_snapshot_transition (gk_state c) ?ch g = Inr ()" by (rule valid) (simp_all add: t)
  with g op have app: "apply_goal_change (gk_state c) (Snapshot_change ?ch) = Inr (install_snapshot ?ch (gk_state c))" by simp
  have "change_wf (Snapshot_change ?ch)" using wf t n now by (simp add: max_def)
  moreover have "armed_ok a (install_snapshot ?ch (gk_state c))" using armed by (simp add: armed_ok_def install_snapshot_def)
  ultimately have "implements h c (Inr (spec_install new a (abs_of c))) (view_ref (commit_snapshot env c ?ch a h))"
    unfolding spec_install_def using commit_snapshot_implements [OF c _ app, of a "(abs_of c)\<lparr>ga_goal := Some new, ga_activation := a\<rparr>"]
    by (simp add: abs_of_def)
  with t show ?thesis by (simp add: commit_current_def next_mutation_time_def)
qed

lemma validate_transition_simp:
  assumes "gf_createdAt st = Some (gc_createdAt ch)" "gc_roundsStarted ch = gf_roundsStarted st"
    "\<exists>t. gf_updatedAt st = Some t \<and> t \<le> gc_updatedAt ch"
    "gs_id (gc_goal ch) = gs_id g" "gs_revision (gc_goal ch) = gs_revision g + 1"
  shows "validate_snapshot_transition st ch g =
    (let nxt = gc_goal ch; op = gc_operation ch in
     case op of
       Goal_edit \<Rightarrow>
         throw_if (gs_phase nxt \<noteq> gs_phase g \<or> gs_blockedReason nxt \<noteq> gs_blockedReason g) (Invalid_phase_transition op)
     | Goal_pause \<Rightarrow> and_then (require_same_definition g nxt op) (\<lambda>_.
         throw_if (gs_phase g \<noteq> Phase_active \<or> gs_phase nxt \<noteq> Phase_paused) (Invalid_phase_transition op))
     | Goal_resume \<Rightarrow> and_then (require_same_definition g nxt op) (\<lambda>_.
         throw_if (gs_phase g \<notin> {Phase_active, Phase_paused, Phase_blocked} \<or> gs_phase nxt \<noteq> Phase_active
           \<or> gs_maxGoalRounds nxt \<le> gf_roundsStarted st) (Invalid_phase_transition op))
     | Goal_complete \<Rightarrow> and_then (require_same_definition g nxt op) (\<lambda>_.
         throw_if (gs_phase g = Phase_complete \<or> gs_phase nxt \<noteq> Phase_complete) (Invalid_phase_transition op))
     | Goal_block \<Rightarrow> and_then (require_same_definition g nxt op) (\<lambda>_.
         throw_if (gs_phase g \<noteq> Phase_active \<or> gs_phase nxt \<noteq> Phase_blocked) (Invalid_phase_transition op))
     | Goal_create \<Rightarrow> Inl (Invalid_phase_transition op))"
proof -
  from assms(3) obtain t where "gf_updatedAt st = Some t" "\<not> gc_updatedAt ch < t" by auto
  with assms show ?thesis
    by (simp add: validate_snapshot_transition_def Let_def require_next_revision_def snapshot_ref_def)
qed

lemma with_phase_fields [simp]:
  "gs_id (with_phase g p) = gs_id g" "gs_revision (with_phase g p) = gs_revision g + 1"
  "gs_objective (with_phase g p) = gs_objective g" "gs_phase (with_phase g p) = p"
  "gs_maxGoalRounds (with_phase g p) = gs_maxGoalRounds g" "gs_blockedReason (with_phase g p) = None"
  by (simp_all add: with_phase_def)

lemma with_phase_wf:
  "snapshot_wf g \<Longrightarrow> int (gs_revision g) < max_safe \<Longrightarrow> p \<noteq> Phase_blocked \<Longrightarrow> snapshot_wf (with_phase g p)"
  "snapshot_wf g \<Longrightarrow> int (gs_revision g) < max_safe \<Longrightarrow> reason_wf r
    \<Longrightarrow> snapshot_wf ((with_phase g Phase_blocked)\<lparr>gs_blockedReason := Some r\<rparr>)"
  by (auto simp: snapshot_wf_def)

lemma require_same_with_phase [simp]:
  "require_same_definition g (with_phase g p) op = Inr ()"
  "require_same_definition g ((with_phase g p)\<lparr>gs_blockedReason := r\<rparr>) op = Inr ()"
  by (simp_all add: require_same_definition_def)

lemma edited_goal_wf:
  assumes "edited_goal g objective rounds = Inr new" "snapshot_wf g" "int (gs_revision g) < max_safe"
  shows "snapshot_wf new \<and> gs_id new = gs_id g \<and> gs_revision new = gs_revision g + 1 \<and> gs_phase new = gs_phase g
    \<and> gs_blockedReason new = gs_blockedReason g"
proof -
  have "is_normalized obj" if "resolve_objective v = Inr obj" for v obj
    using that by (auto simp: resolve_objective_def is_normalized_def split: if_splits)
  moreover have "1 \<le> n \<and> int n \<le> max_safe" if "resolve_max_goal_rounds v = Inr n" for v n
    using that by (auto simp: resolve_max_goal_rounds_def safe_integer_of_def split: option.splits if_splits js_number.splits)
  ultimately show ?thesis
    using assms by (auto simp: edited_goal_def res_simps snapshot_wf_def split: option.splits)
qed

lemma resolve_block_reason_wf: "resolve_block_reason v = Inr r \<Longrightarrow> reason_wf r"
  by (auto simp: resolve_block_reason_def reason_wf_def is_normalized_def split: option.splits json.splits if_splits)

lemma expect_current_spec:
  "expect_current c ref = map_error Rejected (spec_current ref (abs_of c))"
  by (cases ref) (auto simp: expect_current_def spec_current_def abs_of_def map_error_def snapshot_ref_def split: option.splits)

lemma spec_current_iff [res_simps]:
  "spec_current ref a = Inr g \<longleftrightarrow> ga_goal a = Some g \<and> ref = snapshot_ref g"
  by (auto simp: spec_current_def split: option.splits if_splits)

lemma view_ref_simps [simp]:
  "view_ref (Inl e, h) = (Inl e, h)" "view_ref (Inr v, h) = (Inr (snapshot_ref (gv_goal v)), h)"
  by (simp_all add: view_ref_def)

text \<open>The operations on the current goal, once the cache is synchronized.\<close>

lemma on_current_prepared:
  assumes "prepare_mutation h = (Inr c, h1)"
  shows "view_ref (on_current ref body h) = (case spec_current ref (abs_of c) of
      Inl e \<Rightarrow> (Inl (Rejected e), h1) | Inr g \<Rightarrow> view_ref (body c g h1))"
  by (cases "spec_current ref (abs_of c)")
    (simp_all add: on_current_def assms expect_current_spec map_error_def)

lemma move_implements:
  assumes p: "prepare_mutation h = (Inr c, h1)" and c: "synced h1 c" and now: "int (ge_now env) \<le> max_safe"
    and ref: "int (gr_revision ref) < max_safe"
    and op: "(op, allowed, p) \<in> {(Goal_pause, [Phase_active], Phase_paused),
      (Goal_complete, [Phase_active, Phase_paused, Phase_blocked], Phase_complete)}"
  shows "implements h1 c (spec_move ref op allowed p (abs_of c)) (view_ref (goal_transition env ref op allowed p Disarmed h))"
proof (cases "spec_current ref (abs_of c)")
  case (Inl e)
  then show ?thesis by (simp add: goal_transition_def on_current_prepared [OF p] spec_move_def)
next
  case (Inr g)
  then have g: "gf_goal (gk_state c) = Some g" "ref = snapshot_ref g" by (simp_all add: spec_current_iff abs_of_def)
  with synced_inv [OF c] have wf: "snapshot_wf g" by (simp add: goal_inv_def)
  show ?thesis
  proof (cases "gs_phase g \<in> set allowed")
    case True
    have "implements h1 c (Inr (spec_install (with_phase g p) Disarmed (abs_of c)))
        (view_ref (commit_current env c op (with_phase g p) Disarmed h1))"
    proof (rule commit_current_implements [OF c now g(1)])
      show "op \<noteq> Goal_create" "Disarmed = Armed \<Longrightarrow> gs_phase (with_phase g p) = Phase_active" using op by auto
      show "snapshot_wf (with_phase g p)" using op wf ref g(2) by (auto intro!: with_phase_wf simp: snapshot_ref_def)
      fix ch :: goal_snapshot_change assume ch: "gc_operation ch = op" "gc_goal ch = with_phase g p"
        "gf_createdAt (gk_state c) = Some (gc_createdAt ch)" "gc_roundsStarted ch = gf_roundsStarted (gk_state c)"
        "\<exists>t. gf_updatedAt (gk_state c) = Some t \<and> t \<le> gc_updatedAt ch"
      show "validate_snapshot_transition (gk_state c) ch g = Inr ()"
        using op True by (subst validate_transition_simp) (use ch in \<open>auto simp: Let_def\<close>)
    qed
    with True Inr show ?thesis by (simp add: goal_transition_def on_current_prepared [OF p] spec_move_def)
  next
    case False
    with Inr show ?thesis
      by (simp add: goal_transition_def on_current_prepared [OF p] spec_move_def)
  qed
qed

lemma edit_implements:
  assumes p: "prepare_mutation h = (Inr c, h1)" and c: "synced h1 c" and now: "int (ge_now env) \<le> max_safe"
    and ref: "int (gr_revision ref) < max_safe"
  shows "implements h1 c (goal_spec d (Edit_request ref objective rounds) (abs_of c))
    (view_ref (goal_edit env ref objective rounds h))"
proof (cases "spec_current ref (abs_of c)")
  case (Inl e)
  then show ?thesis by (simp add: goal_edit_def on_current_prepared [OF p])
next
  case (Inr g)
  then have g: "gf_goal (gk_state c) = Some g" "ref = snapshot_ref g" by (simp_all add: spec_current_iff abs_of_def)
  with synced_inv [OF c] have wf: "snapshot_wf g" by (simp add: goal_inv_def)
  show ?thesis
  proof (cases "edited_goal g objective rounds")
    case e: (Inl err)
    with Inr show ?thesis by (simp add: goal_edit_def on_current_prepared [OF p])
  next
    case e: (Inr new)
    note new = edited_goal_wf [OF e wf]
    have rev: "int (gs_revision g) < max_safe" using ref g(2) by (simp add: snapshot_ref_def)
    have "implements h1 c (Inr (spec_install new (gk_activation c) (abs_of c)))
        (view_ref (commit_current env c Goal_edit new (gk_activation c) h1))"
    proof (rule commit_current_implements [OF c now g(1)])
      show "snapshot_wf new" using new rev by simp
      show "gs_phase new = Phase_active" if "gk_activation c = Armed"
        using that c g(1) new rev by (simp add: synced_def armed_ok_def)
      fix ch :: goal_snapshot_change assume ch: "gc_operation ch = Goal_edit" "gc_goal ch = new"
        "gf_createdAt (gk_state c) = Some (gc_createdAt ch)" "gc_roundsStarted ch = gf_roundsStarted (gk_state c)"
        "\<exists>t. gf_updatedAt (gk_state c) = Some t \<and> t \<le> gc_updatedAt ch"
      show "validate_snapshot_transition (gk_state c) ch g = Inr ()"
        using new [OF rev] by (subst validate_transition_simp) (use ch in \<open>auto simp: Let_def\<close>)
    qed simp
    with Inr e show ?thesis by (simp add: goal_edit_def on_current_prepared [OF p] abs_of_def)
  qed
qed

lemma resume_implements:
  assumes p: "prepare_mutation h = (Inr c, h1)" and c: "synced h1 c" and now: "int (ge_now env) \<le> max_safe"
    and ref: "int (gr_revision ref) < max_safe"
  shows "implements h1 c (goal_spec d (Resume_request ref) (abs_of c)) (view_ref (goal_resume env ref h))"
proof (cases "spec_current ref (abs_of c)")
  case (Inl e)
  then show ?thesis by (simp add: goal_resume_def on_current_prepared [OF p])
next
  case (Inr g)
  then have g: "gf_goal (gk_state c) = Some g" "ref = snapshot_ref g" by (simp_all add: spec_current_iff abs_of_def)
  with synced_inv [OF c] have wf: "snapshot_wf g" by (simp add: goal_inv_def)
  have armed: "gk_activation c = Armed \<Longrightarrow> gs_phase g = Phase_active" using c g(1) by (simp add: synced_def armed_ok_def)
  show ?thesis
  proof (cases "gs_phase g = Phase_complete \<or> gk_activation c = Armed \<or> gs_maxGoalRounds g \<le> gf_roundsStarted (gk_state c)")
    case True
    with Inr armed show ?thesis
      by (cases "gs_phase g")
        (auto simp: goal_resume_def on_current_prepared [OF p] Let_def abs_of_def)
  next
    case False
    then have resumable: "gs_phase g \<in> {Phase_active, Phase_paused, Phase_blocked}" by (cases "gs_phase g") simp_all
    have "implements h1 c (Inr (spec_install (with_phase g Phase_active) Armed (abs_of c)))
        (view_ref (commit_current env c Goal_resume (with_phase g Phase_active) Armed h1))"
    proof (rule commit_current_implements [OF c now g(1)])
      show "snapshot_wf (with_phase g Phase_active)"
        using wf ref g(2) by (auto intro!: with_phase_wf simp: snapshot_ref_def)
      fix ch :: goal_snapshot_change assume ch: "gc_operation ch = Goal_resume" "gc_goal ch = with_phase g Phase_active"
        "gf_createdAt (gk_state c) = Some (gc_createdAt ch)" "gc_roundsStarted ch = gf_roundsStarted (gk_state c)"
        "\<exists>t. gf_updatedAt (gk_state c) = Some t \<and> t \<le> gc_updatedAt ch"
      show "validate_snapshot_transition (gk_state c) ch g = Inr ()"
        using False resumable by (subst validate_transition_simp) (use ch in \<open>auto simp: Let_def\<close>)
    qed simp_all
    with Inr False resumable show ?thesis
      by (simp add: goal_resume_def on_current_prepared [OF p] Let_def) (auto simp: abs_of_def)
  qed
qed

lemma block_implements:
  assumes p: "prepare_mutation h = (Inr c, h1)" and c: "synced h1 c" and now: "int (ge_now env) \<le> max_safe"
    and ref: "int (gr_revision ref) < max_safe"
  shows "implements h1 c (goal_spec d (Block_request ref reason) (abs_of c)) (view_ref (goal_block env ref reason h))"
proof (cases "spec_current ref (abs_of c)")
  case (Inl e)
  then show ?thesis by (simp add: goal_block_def on_current_prepared [OF p])
next
  case (Inr g)
  then have g: "gf_goal (gk_state c) = Some g" "ref = snapshot_ref g" by (simp_all add: spec_current_iff abs_of_def)
  with synced_inv [OF c] have wf: "snapshot_wf g" by (simp add: goal_inv_def)
  show ?thesis
  proof (cases "gs_phase g = Phase_active")
    case active: True
    show ?thesis
    proof (cases "resolve_block_reason reason")
      case r: (Inl err)
      with Inr active show ?thesis by (simp add: goal_block_def on_current_prepared [OF p])
    next
      case r: (Inr why)
      let ?new = "(with_phase g Phase_blocked)\<lparr>gs_blockedReason := Some why\<rparr>"
      have "implements h1 c (Inr (spec_install ?new Disarmed (abs_of c))) (view_ref (commit_current env c Goal_block ?new Disarmed h1))"
      proof (rule commit_current_implements [OF c now g(1)])
        show "snapshot_wf ?new"
          using wf ref g(2) resolve_block_reason_wf [OF r] by (intro with_phase_wf) (simp_all add: snapshot_ref_def)
        fix ch :: goal_snapshot_change assume ch: "gc_operation ch = Goal_block" "gc_goal ch = ?new"
          "gf_createdAt (gk_state c) = Some (gc_createdAt ch)" "gc_roundsStarted ch = gf_roundsStarted (gk_state c)"
          "\<exists>t. gf_updatedAt (gk_state c) = Some t \<and> t \<le> gc_updatedAt ch"
        show "validate_snapshot_transition (gk_state c) ch g = Inr ()"
          using active by (subst validate_transition_simp) (use ch in \<open>auto simp: Let_def\<close>)
      qed simp_all
      with Inr active r show ?thesis by (simp add: goal_block_def on_current_prepared [OF p])
    qed
  next
    case False
    with Inr show ?thesis by (simp add: goal_block_def on_current_prepared [OF p])
  qed
qed

lemma clear_implements:
  assumes p: "prepare_mutation h = (Inr c, h1)" and c: "synced h1 c" and now: "int (ge_now env) \<le> max_safe"
    and ref: "int (gr_revision ref) < max_safe"
  shows "implements h1 c (goal_spec d (Clear_request ref) (abs_of c)) (goal_clear env ref h)"
proof (cases "spec_current ref (abs_of c)")
  case (Inl e)
  then show ?thesis by (simp add: goal_clear_def on_current_def p expect_current_spec map_error_def)
next
  case (Inr g)
  then have g: "gf_goal (gk_state c) = Some g" "ref = snapshot_ref g" by (simp_all add: spec_current_iff abs_of_def)
  with synced_inv [OF c] obtain updated where wf: "snapshot_wf g"
    and t: "gf_updatedAt (gk_state c) = Some updated" "int updated \<le> max_safe" by (auto simp: goal_inv_def)
  let ?ref = "\<lparr>gr_id = gs_id g, gr_revision = gs_revision g + 1\<rparr>" and ?t = "max (ge_now env) updated"
  let ?st = "(gk_state c)\<lparr>gf_goal := None, gf_roundsStarted := 0, gf_createdAt := None, gf_updatedAt := None,
    gf_lastRef := Some ?ref\<rparr>"
  have "change_wf (Clear_change ?ref ?t)"
    using wf ref g(2) t now by (simp add: snapshot_wf_def snapshot_ref_def max_def)
  moreover have "apply_goal_change (gk_state c) (Clear_change ?ref ?t) = Inr ?st"
    using g(1) t by (simp add: require_next_revision_def)
  moreover obtain r h' where run: "commit_change env c (Clear_change ?ref ?t) Disarmed h1 = (r, h')" by fastforce
  ultimately have out: "(\<exists>err. r = Inl (Append_failed err)) \<and> left_alone h1 c h'
      \<or> (\<exists>c'. r = Inr c') \<and> committed h1 (Clear_change ?ref ?t) Disarmed ?st h'"
    using commit_change_cases [OF c _ _ _ run, where st = ?st] by (metis armed_ok_def goal_activation.distinct(1))
  have eq: "goal_clear env ref h = (case r of Inl e \<Rightarrow> (Inl e, h') | Inr _ \<Rightarrow> (Inr ?ref, h'))"
    using Inr t run by (simp add: goal_clear_def on_current_def p expect_current_spec map_error_def
        next_mutation_time_def Let_def split: sum.split)
  show ?thesis
    using out
  proof (elim disjE conjE exE)
    fix err assume "r = Inl (Append_failed err)" "left_alone h1 c h'"
    with eq Inr show ?thesis by simp
  next
    fix c' assume "r = Inr c'" and com: "committed h1 (Clear_change ?ref ?t) Disarmed ?st h'"
    with eq Inr show ?thesis by simp (intro exI [of _ "Clear_change ?ref ?t"] exI [of _ ?st], simp)
  qed
qed

lemma create_implements:
  assumes p: "prepare_mutation h = (Inr c, h1)" and c: "synced h1 c" and now: "int (ge_now env) \<le> max_safe"
    and fresh: "''goal-'' @ uuid \<notin> gr_id ` set (log_refs (host_log h1))"
    and ok: "resolve_create_goal objective rounds (gh_defaultMaxGoalRounds h) = Inr (obj, n)"
  shows "implements h1 c (goal_spec (gh_defaultMaxGoalRounds h) (Create_request uuid objective rounds) (abs_of c))
    (view_ref (goal_create env uuid objective rounds h))"
proof -
  let ?g = "\<lparr>gs_id = ''goal-'' @ uuid, gs_revision = 1, gs_objective = obj, gs_phase = Phase_active,
    gs_blockedReason = None, gs_maxGoalRounds = n\<rparr>"
  let ?ch = "\<lparr>gc_operation = Goal_create, gc_goal = ?g, gc_roundsStarted = 0, gc_createdAt = ge_now env,
    gc_updatedAt = ge_now env\<rparr>"
  have n: "is_normalized obj" "1 \<le> n" "int n \<le> max_safe"
    using ok by (auto simp: resolve_create_goal_def res_simps resolve_objective_def is_normalized_def
        resolve_max_goal_rounds_def safe_integer_of_def split: option.splits if_splits js_number.splits)
  show ?thesis
  proof (cases "gf_goal (gk_state c) \<noteq> None \<and> map_option gs_phase (gf_goal (gk_state c)) \<noteq> Some Phase_complete")
    case True
    then show ?thesis
      by (auto simp: goal_create_def p ok abs_of_def Let_def)
  next
    case False
    have "fold_goal (host_log h1) = Inr (gk_state c)" using c by (simp add: synced_def)
    from log_refs_ok [OF this] fresh have "''goal-'' @ uuid \<notin> set (gf_seenGoalIds (gk_state c))"
      by (simp add: refs_ok_def)
    with False have app: "apply_goal_change (gk_state c) (Snapshot_change ?ch)
      = Inr (install_snapshot ?ch ((gk_state c)\<lparr>gf_seenGoalIds := gf_seenGoalIds (gk_state c) @ [''goal-'' @ uuid]\<rparr>))"
      by auto
    have wf: "change_wf (Snapshot_change ?ch)" using n now by (simp add: snapshot_wf_def max_safe_def)
    have "implements h1 c (Inr (spec_install ?g Armed ((abs_of c)\<lparr>ga_rounds := 0\<rparr>)))
        (view_ref (commit_snapshot env c ?ch Armed h1))"
      unfolding spec_install_def
      using commit_snapshot_implements [OF c wf app, of Armed "(abs_of c)\<lparr>ga_rounds := 0, ga_goal := Some ?g, ga_activation := Armed\<rparr>"]
      by (simp add: armed_ok_def install_snapshot_def)
    with False show ?thesis
      by (auto simp: goal_create_def p ok abs_of_def Let_def split: option.splits)
  qed
qed

end
