(* ===== verification/GoalProperties.thy ===== *)
theory GoalProperties
  imports GoalServiceProperties
begin

text \<open>
  The properties of the goal component: the reachable services, their refinement of \<open>goal_spec\<close>,
  compare-and-set, the locality of the activation, and the invariant companion.
\<close>

section \<open>Reachable services\<close>

text \<open>
  A service starts over a session whose log the strict fold accepts. Besides its own requests and
  reads, other code may append to the session, as long as the fold accepts the longer log (which the
  companion enforces), and the registry may retire the agent.
\<close>

inductive goal_step :: "goal_host \<Rightarrow> goal_host \<Rightarrow> bool" where
  Request: "request_legal env q h \<Longrightarrow> goal_step h (snd (goal_perform env q h))"
| Get: "goal_step h (snd (goal_get h))"
| Disarm: "goal_step h (snd (goal_disarm h))"
| Session_start: "goal_step h (goal_session_start h)"
| Registry: "goal_step h (h\<lparr>gh_live := b\<rparr>)"
| Foreign: "session_append veto now d op sources (gh_session h) = (r, s) \<Longrightarrow> is_ok (fold_goal (sn_log s))
    \<Longrightarrow> goal_step h (h\<lparr>gh_session := s\<rparr>)"

inductive goal_reach :: "goal_host \<Rightarrow> bool" where
  Start: "is_ok (fold_goal (sn_log s)) \<Longrightarrow> goal_config dflt = Inr n \<Longrightarrow>
    goal_reach \<lparr>gh_live = b, gh_session = s, gh_cache = None, gh_emitted = [], gh_defaultMaxGoalRounds = n\<rparr>"
| Step: "goal_reach h \<Longrightarrow> goal_step h h' \<Longrightarrow> goal_reach h'"

lemma goal_config_bounds: "goal_config dflt = Inr n \<Longrightarrow> 1 \<le> n \<and> int n \<le> max_safe"
  by (auto simp: goal_config_def resolve_max_goal_rounds_def safe_integer_of_def
      split: option.splits if_splits js_number.splits)

lemma cache_ok_append: "cache_ok es c \<Longrightarrow> cache_ok (es @ es') c"
  by (simp add: cache_ok_def)

lemma synced_host_ok:
  "synced h c \<Longrightarrow> 1 \<le> gh_defaultMaxGoalRounds h \<Longrightarrow> int (gh_defaultMaxGoalRounds h) \<le> max_safe \<Longrightarrow> host_ok h"
  using synced_host [of h c] by (auto simp: host_ok_def synced_def)

lemma left_alone_synced: "left_alone h c h' \<Longrightarrow> synced h c \<Longrightarrow> synced h' c"
  by (auto simp: left_alone_def synced_def host_log_def)

lemma left_alone_fields:
  "left_alone h c h' \<Longrightarrow> host_log h' = host_log h \<and> gh_live h' = gh_live h
    \<and> gh_defaultMaxGoalRounds h' = gh_defaultMaxGoalRounds h"
  by (auto simp: left_alone_def host_log_def)

text \<open>Every request of a service in order: what it leaves behind.\<close>

lemma perform_implements:
  assumes ok: "host_ok h" and live: "gh_live h" and legal: "request_legal env q h"
  obtains c where "prepare_mutation h = (Inr c, h\<lparr>gh_cache := Some c\<rparr>)" "synced (h\<lparr>gh_cache := Some c\<rparr>) c"
    "implements (h\<lparr>gh_cache := Some c\<rparr>) c (goal_spec (gh_defaultMaxGoalRounds h) q (abs_of c)) (goal_perform env q h)
     \<or> (\<exists>e. goal_spec (gh_defaultMaxGoalRounds h) q (abs_of c) = Inl e \<and> goal_perform env q h = (Inl (Rejected e), h))"
proof -
  obtain c where p: "prepare_mutation h = (Inr c, h\<lparr>gh_cache := Some c\<rparr>)" and c: "synced (h\<lparr>gh_cache := Some c\<rparr>) c"
    by (rule prepare_synced [OF ok live])
  have now: "int (ge_now env) \<le> max_safe" using legal by (simp add: request_legal_def)
  have "implements (h\<lparr>gh_cache := Some c\<rparr>) c (goal_spec (gh_defaultMaxGoalRounds h) q (abs_of c)) (goal_perform env q h)
     \<or> (\<exists>e. goal_spec (gh_defaultMaxGoalRounds h) q (abs_of c) = Inl e \<and> goal_perform env q h = (Inl (Rejected e), h))"
  proof (cases q)
    case (Create_request uuid objective rounds)
    show ?thesis
    proof (cases "resolve_create_goal objective rounds (gh_defaultMaxGoalRounds h)")
      case (Inl e)
      with Create_request show ?thesis by (simp add: goal_create_def)
    next
      case (Inr x)
      have "''goal-'' @ uuid \<notin> gr_id ` set (log_refs (host_log (h\<lparr>gh_cache := Some c\<rparr>)))"
        using legal Create_request by (simp add: request_legal_def host_log_def)
      from create_implements [OF p c now this] Inr Create_request show ?thesis by (cases x) simp
    qed
  qed (use legal edit_implements [OF p c now] move_implements [OF p c now] resume_implements [OF p c now]
      block_implements [OF p c now] clear_implements [OF p c now]
      in \<open>simp_all add: request_legal_def goal_pause_def goal_complete_def\<close>)
  with that p c show thesis by blast
qed

lemma perform_dead:
  "\<not> gh_live h \<Longrightarrow> goal_perform env q h = (fst (goal_perform env q h), h)"
  by (cases q)
    (auto simp: goal_create_def goal_edit_def goal_pause_def goal_complete_def goal_resume_def goal_block_def
      goal_clear_def goal_transition_def on_current_def prepare_mutation_def split: sum.split)

lemma implements_ok:
  assumes "implements h c x (r, h')" "synced h c"
    "1 \<le> gh_defaultMaxGoalRounds h" "int (gh_defaultMaxGoalRounds h) \<le> max_safe"
  shows "host_ok h'"
proof (cases x)
  case (Inl e)
  with assms show ?thesis using synced_host_ok by simp
next
  case (Inr y)
  obtain a ref where "y = (a, ref)" by fastforce
  with Inr assms(1) consider "left_alone h c h'" | ch st where "committed h ch (ga_activation a) st h'" by auto
  then show ?thesis
  proof cases
    case 1
    with left_alone_synced [OF 1 assms(2)] left_alone_fields [OF 1] assms(3,4) show ?thesis
      using synced_host_ok by simp
  next
    case 2
    then obtain c' where "synced h' c'" "gh_defaultMaxGoalRounds h' = gh_defaultMaxGoalRounds h"
      by (auto simp: committed_def)
    with assms(3,4) show ?thesis using synced_host_ok by simp
  qed
qed

lemma host_ok_default:
  "host_ok h \<Longrightarrow> 1 \<le> gh_defaultMaxGoalRounds h \<and> int (gh_defaultMaxGoalRounds h) \<le> max_safe"
  by (simp add: host_ok_def)

lemma perform_ok:
  assumes "host_ok h" "request_legal env q h"
  shows "host_ok (snd (goal_perform env q h))"
proof (cases "gh_live h")
  case False
  then show ?thesis using assms(1) perform_dead by (metis snd_conv)
next
  case True
  obtain r h' where out: "goal_perform env q h = (r, h')" by fastforce
  obtain c where c: "synced (h\<lparr>gh_cache := Some c\<rparr>) c" and
    "implements (h\<lparr>gh_cache := Some c\<rparr>) c (goal_spec (gh_defaultMaxGoalRounds h) q (abs_of c)) (r, h') \<or> h' = h"
    by (rule perform_implements [OF assms(1) True assms(2)]) (use out in auto)
  with implements_ok [OF _ c] host_ok_default [OF assms(1)] assms(1) out show ?thesis by auto
qed

lemma prepared_ok:
  assumes "host_ok h"
  shows "host_ok (snd (prepare_mutation h))"
    and "prepare_mutation h = (Inr c, h1) \<Longrightarrow> host_ok (h1\<lparr>gh_cache := Some (c\<lparr>gk_activation := Disarmed\<rparr>)\<rparr>)"
proof -
  have "host_ok (snd (prepare_mutation h))
      \<and> (\<forall>c h1. prepare_mutation h = (Inr c, h1) \<longrightarrow> host_ok (h1\<lparr>gh_cache := Some (c\<lparr>gk_activation := Disarmed\<rparr>)\<rparr>))"
  proof (cases "gh_live h")
    case False
    with assms show ?thesis by (simp add: prepare_mutation_def)
  next
    case True
    obtain c where p: "prepare_mutation h = (Inr c, h\<lparr>gh_cache := Some c\<rparr>)" and c: "synced (h\<lparr>gh_cache := Some c\<rparr>) c"
      by (rule prepare_synced [OF assms True])
    from c have "synced (h\<lparr>gh_cache := Some (c\<lparr>gk_activation := Disarmed\<rparr>)\<rparr>) (c\<lparr>gk_activation := Disarmed\<rparr>)"
      by (simp add: synced_def host_log_def armed_ok_def)
    with p c host_ok_default [OF assms] synced_host_ok show ?thesis by fastforce
  qed
  then show "host_ok (snd (prepare_mutation h))"
    "prepare_mutation h = (Inr c, h1) \<Longrightarrow> host_ok (h1\<lparr>gh_cache := Some (c\<lparr>gk_activation := Disarmed\<rparr>)\<rparr>)" by blast+
qed

lemma goal_step_ok: "goal_step h h' \<Longrightarrow> host_ok h \<Longrightarrow> host_ok h'"
proof (induction rule: goal_step.induct)
  case (Request env q h)
  then show ?case by (intro perform_ok)
next
  case (Get h)
  obtain r h1 where "prepare_mutation h = (r, h1)" by fastforce
  with prepared_ok(1) [OF Get] show ?case by (cases r) (simp_all add: goal_get_def)
next
  case (Disarm h)
  obtain r h1 where "prepare_mutation h = (r, h1)" by fastforce
  with prepared_ok [OF Disarm] show ?case by (cases r) (simp_all add: goal_disarm_def Let_def)
next
  case (Session_start h)
  then show ?case
    by (cases "gh_cache h")
      (auto simp: goal_session_start_def goal_host_cache_def Let_def host_ok_def cache_ok_def armed_ok_def host_log_def
        split: sum.split)
next
  case (Registry h b)
  then show ?case by (auto simp: host_ok_def host_log_def split: option.splits)
next
  case (Foreign veto now d op sources h r s)
  from session_append_log [OF Foreign(1)] obtain es where "sn_log s = sn_log (gh_session h) @ es" by auto
  with Foreign(2,3) show ?case
    by (auto simp: host_ok_def host_log_def is_ok_iff cache_ok_append split: option.splits)
qed

lemma goal_reach_ok: "goal_reach h \<Longrightarrow> host_ok h"
proof (induction rule: goal_reach.induct)
  case (Start s dflt n b)
  then show ?case using goal_config_bounds by (auto simp: host_ok_def host_log_def is_ok_iff)
qed (rule goal_step_ok)

section \<open>Refinement\<close>

text \<open>What reading the goal would show.\<close>

definition observe_goal :: "goal_host \<Rightarrow> goal_abs option" where
  "observe_goal h = (case prepare_mutation h of (Inl _, _) \<Rightarrow> None | (Inr c, _) \<Rightarrow> Some (abs_of c))"

lemma observe_synced:
  assumes "synced h c" "gh_live h"
  shows "observe_goal h = Some (abs_of c)"
  using assms
  by (simp add: observe_goal_def prepare_mutation_def goal_host_cache_def synced_def sync_cache_def host_log_def)

lemma observe_cached: "gh_cache h = Some c \<Longrightarrow> prepare_mutation h = (Inr c', h1) \<Longrightarrow> observe_goal h = Some (abs_of c')"
  by (simp add: observe_goal_def)

lemma perform_refines:
  assumes "goal_reach h" "gh_live h" "request_legal env q h" "goal_perform env q h = (r, h')"
  shows "\<exists>a. observe_goal h = Some a
    \<and> (case goal_spec (gh_defaultMaxGoalRounds h) q a of
         Inl e \<Rightarrow> r = Inl (Rejected e) \<and> host_log h' = host_log h \<and> observe_goal h' = Some a
       | Inr (a', ref) \<Rightarrow>
           (\<exists>err. r = Inl (Append_failed err)) \<and> host_log h' = host_log h \<and> observe_goal h' = Some a
           \<or> r = Inr ref \<and> observe_goal h' = Some a'
             \<and> (\<exists>e c. host_log h' = host_log h @ [e] \<and> change_of e = Some c \<and> goal_change_ref c = ref))"
proof -
  obtain c where p: "prepare_mutation h = (Inr c, h\<lparr>gh_cache := Some c\<rparr>)" and c: "synced (h\<lparr>gh_cache := Some c\<rparr>) c"
    and out: "implements (h\<lparr>gh_cache := Some c\<rparr>) c (goal_spec (gh_defaultMaxGoalRounds h) q (abs_of c)) (r, h')
     \<or> (\<exists>e. goal_spec (gh_defaultMaxGoalRounds h) q (abs_of c) = Inl e \<and> (r, h') = (Inl (Rejected e), h))"
    by (rule perform_implements [OF goal_reach_ok [OF assms(1)] assms(2,3), unfolded assms(4)])
  let ?h = "h\<lparr>gh_cache := Some c\<rparr>"
  have obs: "observe_goal h = Some (abs_of c)" by (simp add: observe_goal_def p)
  have obs': "observe_goal ?h = Some (abs_of c)" using observe_synced [OF c] assms(2) by simp
  have log: "host_log ?h = host_log h" by (simp add: host_log_def)
  show ?thesis
  proof (cases "goal_spec (gh_defaultMaxGoalRounds h) q (abs_of c)")
    case (Inl e)
    with out have "r = Inl (Rejected e) \<and> (h' = ?h \<or> h' = h)" by auto
    with Inl obs obs' log show ?thesis by auto
  next
    case (Inr y)
    obtain a ref where y: "y = (a, ref)" by fastforce
    with Inr out consider (refused) err where "r = Inl (Append_failed err)" "left_alone ?h c h'"
      | (commit) ch st where "r = Inr ref" "committed ?h ch (ga_activation a) st h'" "goal_change_ref ch = ref"
        "gf_goal st = ga_goal a" "gf_roundsStarted st = ga_rounds a" by auto
    then show ?thesis
    proof cases
      case refused
      have "observe_goal h' = Some (abs_of c)" "host_log h' = host_log h"
        using left_alone_synced [OF refused(2) c] left_alone_fields [OF refused(2)] assms(2) log
        by (auto intro: observe_synced)
      with refused(1) Inr y obs show ?thesis by auto
    next
      case commit
      then obtain e c' where e: "host_log h' = host_log h @ [e]" "change_of e = Some ch" "synced h' c'"
        "gk_state c' = st" "gk_activation c' = ga_activation a" "gh_live h'"
        using assms(2) log by (auto simp: committed_def)
      then have "observe_goal h' = Some a"
        using observe_synced [of h' c'] commit(4,5) by (simp add: abs_of_def)
      with e(1,2) commit(1,3) Inr y obs show ?thesis by auto
    qed
  qed
qed

text \<open>
  C11: Every request of a reachable service implements its specification: it refuses exactly when and
  as the specification does, changing neither the log nor the goal; otherwise it appends one
  \<open>goal/change\<close> event, the answered reference is that change's, and the goal, the round counter and
  the activation are the specified ones, unless the session refused the append, and then nothing
  changes. It never fails because of its own log.
\<close>

theorem goal_service_refines_spec:
  assumes "goal_reach h" "gh_live h" "request_legal env q h" "goal_perform env q h = (r, h')"
  shows "\<exists>a. observe_goal h = Some a
    \<and> (case goal_spec (gh_defaultMaxGoalRounds h) q a of
         Inl e \<Rightarrow> r = Inl (Rejected e) \<and> host_log h' = host_log h \<and> observe_goal h' = Some a
       | Inr (a', ref) \<Rightarrow>
           (\<exists>err. r = Inl (Append_failed err)) \<and> host_log h' = host_log h \<and> observe_goal h' = Some a
           \<or> r = Inr ref \<and> observe_goal h' = Some a'
             \<and> (\<exists>e c. host_log h' = host_log h @ [e] \<and> change_of e = Some c \<and> goal_change_ref c = ref))"
  using perform_refines [OF assms] .

section \<open>Compare and set\<close>

fun request_ref :: "goal_request \<Rightarrow> goal_ref option" where
  "request_ref (Create_request _ _ _) = None"
| "request_ref (Edit_request ref _ _) = Some ref"
| "request_ref (Pause_request ref) = Some ref"
| "request_ref (Resume_request ref) = Some ref"
| "request_ref (Complete_request ref) = Some ref"
| "request_ref (Block_request ref _) = Some ref"
| "request_ref (Clear_request ref) = Some ref"

lemma spec_consumes_ref:
  assumes "goal_spec d q a = Inr (a', ref')" "request_ref q = Some ref"
  shows "ga_goal a' \<noteq> None \<longrightarrow> gr_revision (snapshot_ref (the (ga_goal a'))) = gr_revision ref + 1"
  using assms
  by (cases q)
    (auto simp: res_simps spec_move_def spec_install_def snapshot_ref_def edited_goal_def split: if_splits)

lemma spec_stale:
  assumes "request_ref q = Some ref" "ga_goal a \<noteq> None \<longrightarrow> gr_revision (snapshot_ref (the (ga_goal a))) = gr_revision ref + 1"
  shows "\<exists>e. goal_spec d q a = Inl e \<and> goal_error_code e \<in> {''GOAL_NOT_FOUND'', ''GOAL_STALE_REVISION''}"
proof -
  have "\<exists>e. spec_current ref a = Inl e \<and> goal_error_code e \<in> {''GOAL_NOT_FOUND'', ''GOAL_STALE_REVISION''}"
    using assms(2) by (auto simp: spec_current_def split: option.splits)
  with assms(1) show ?thesis by (cases q) (auto simp: spec_move_def)
qed

lemma goal_perform_live: "gh_live h \<Longrightarrow> goal_reach h \<Longrightarrow> request_legal env q h \<Longrightarrow> gh_live (snd (goal_perform env q h))"
proof -
  assume live: "gh_live h" and reach: "goal_reach h" and legal: "request_legal env q h"
  obtain r h' where out: "goal_perform env q h = (r, h')" by fastforce
  obtain c where "implements (h\<lparr>gh_cache := Some c\<rparr>) c (goal_spec (gh_defaultMaxGoalRounds h) q (abs_of c)) (r, h') \<or> h' = h"
    by (rule perform_implements [OF goal_reach_ok [OF reach] live legal]) (use out in auto)
  then show ?thesis
  proof
    assume i: "implements (h\<lparr>gh_cache := Some c\<rparr>) c (goal_spec (gh_defaultMaxGoalRounds h) q (abs_of c)) (r, h')"
    show ?thesis
    proof (cases "goal_spec (gh_defaultMaxGoalRounds h) q (abs_of c)")
      case (Inl e)
      with i out live show ?thesis by simp
    next
      case (Inr y)
      with i out live show ?thesis
        by (cases y) (auto simp: committed_def dest: left_alone_fields)
    qed
  qed (use live out in simp)
qed

lemma perform_success:
  assumes "goal_reach h" "gh_live h" "request_legal env q h" "goal_perform env q h = (Inr ref', h')"
  shows "\<exists>a a'. goal_spec (gh_defaultMaxGoalRounds h) q a = Inr (a', ref') \<and> observe_goal h = Some a
    \<and> observe_goal h' = Some a'"
  using perform_refines [OF assms]
  by (elim exE conjE, rename_tac a, case_tac "goal_spec (gh_defaultMaxGoalRounds h) q a") auto


section \<open>A concrete goal\<close>

definition goal_sample_env :: goal_env where
  "goal_sample_env = \<lparr>ge_veto = (\<lambda>_. Inr ()), ge_now = 5, ge_eventTime = 5\<rparr>"

definition goal_sample_host :: goal_host where
  "goal_sample_host =
     \<lparr>gh_live = True, gh_session = empty_session\<lparr>sn_appending := Some False\<rparr>, gh_cache = None,
      gh_emitted = [], gh_defaultMaxGoalRounds = 256\<rparr>"

definition goal_sample_create :: goal_request where
  "goal_sample_create = Create_request ''1'' ''ship it'' (Some (Finite 2))"

definition goal_sample_ref :: goal_ref where
  "goal_sample_ref = \<lparr>gr_id = ''goal-1'', gr_revision = 1\<rparr>"

definition goal_sample_created :: goal_host where
  "goal_sample_created = snd (goal_perform goal_sample_env goal_sample_create goal_sample_host)"

definition goal_sample_goal :: goal_snapshot where
  "goal_sample_goal =
     \<lparr>gs_id = ''goal-1'', gs_revision = 1, gs_objective = ''ship it'', gs_phase = Phase_active,
      gs_blockedReason = None, gs_maxGoalRounds = 2\<rparr>"

lemma plugin_append_ok:
  assumes "sn_log s = []" "sn_manager s = new_surface_manager 0" "sn_appending s = Some False"
  shows "fst (session_append (\<lambda>_. Inr ()) now (PluginEvent ''goal/change'' d) None None s)
    = Inr (candidate s now (PluginEvent ''goal/change'' d) None None)"
  using assms
  by (simp add: session_append_def assert_supported_request_header_def validate_next_def process_delta_def
      new_surface_manager_def create_fold_state_def plan_surface_event_def surface_op_of_def
      is_surface_eligible_type_def surface_event_types_def ev_type_def candidate_def Let_def)

lemma goal_sample_start: "goal_reach goal_sample_host" "gh_live goal_sample_host"
  "request_legal goal_sample_env goal_sample_create goal_sample_host"
  "observe_goal goal_sample_host = Some \<lparr>ga_goal = None, ga_rounds = 0, ga_activation = Disarmed\<rparr>"
proof -
  have "goal_config None = Inr 256" using safe_integer_of_int [of 256]
    by (simp add: goal_config_def resolve_max_goal_rounds_def max_safe_def)
  then show "goal_reach goal_sample_host" unfolding goal_sample_host_def
    by (intro goal_reach.Start [where dflt = None]) (simp_all add: empty_session_def fold_goal_def)
  show "gh_live goal_sample_host" by (simp add: goal_sample_host_def)
  show "request_legal goal_sample_env goal_sample_create goal_sample_host"
    by (simp add: request_legal_def goal_sample_env_def goal_sample_create_def goal_sample_host_def max_safe_def
        host_log_def empty_session_def log_refs_def List.map_filter_def)
  show "observe_goal goal_sample_host = Some \<lparr>ga_goal = None, ga_rounds = 0, ga_activation = Disarmed\<rparr>"
    by (simp add: observe_goal_def prepare_mutation_def goal_sample_host_def goal_host_cache_def empty_session_def
        fold_goal_def sync_cache_def abs_of_def empty_goal_fold_state_def Let_def)
qed

lemma goal_sample_spec:
  "goal_spec 256 goal_sample_create \<lparr>ga_goal = None, ga_rounds = 0, ga_activation = Disarmed\<rparr>
    = Inr (\<lparr>ga_goal = Some goal_sample_goal, ga_rounds = 0, ga_activation = Armed\<rparr>, goal_sample_ref)"
proof -
  have "js_trim ''ship it'' = ''ship it''" by (simp add: js_trim_printable printable_def)
  then have "resolve_create_goal ''ship it'' (Some (Finite 2)) 256 = Inr (''ship it'', 2)"
    using safe_integer_of_int [of 2]
    by (simp add: resolve_create_goal_def resolve_objective_def resolve_max_goal_rounds_def max_safe_def)
  then show ?thesis
    by (simp add: goal_sample_create_def spec_install_def goal_sample_goal_def goal_sample_ref_def snapshot_ref_def Let_def)
qed

lemma commit_change_refused:
  assumes "fst (commit_change env c ch a h) = Inl (Append_failed err)"
  shows "fst (session_append (ge_veto env) (ge_eventTime env) (PluginEvent ''goal/change'' (encode_goal_change ch))
    None None (gh_session h)) = Inl err"
proof -
  obtain q s where ap: "session_append (ge_veto env) (ge_eventTime env)
      (PluginEvent ''goal/change'' (encode_goal_change ch)) None None (gh_session h) = (q, s)" by fastforce
  let ?c1 = "c\<lparr>gk_pending := Some (length (sn_log (gh_session h)), a)\<rparr>"
  obtain u c2 where sync: "sync_cache s ?c1 = (u, c2)" by fastforce
  have view: "view_of x \<noteq> Inl (Append_failed e)" for x e by (simp add: view_of_def split: option.splits)
  show ?thesis
  proof (cases q)
    case (Inl e)
    with assms ap show ?thesis by (simp add: commit_change_def Let_def)
  next
    case (Inr e)
    show ?thesis
    proof (cases u)
      case (Inl f)
      with assms ap Inr sync show ?thesis by (simp add: commit_change_def Let_def)
    next
      case u: (Inr w)
      with assms ap Inr sync view show ?thesis
        by (cases "view_of (c2\<lparr>gk_pending := None\<rparr>)") (auto simp: commit_change_def Let_def)
    qed
  qed
qed

lemma commit_snapshot_refused:
  assumes "fst (commit_snapshot env c ch a h) = Inl (Append_failed err)"
  shows "fst (commit_change env c (Snapshot_change ch) a h) = Inl (Append_failed err)"
proof -
  obtain q h1 where q: "commit_change env c (Snapshot_change ch) a h = (q, h1)" by fastforce
  have "view_of x \<noteq> Inl (Append_failed e)" for x e by (simp add: view_of_def split: option.splits)
  show ?thesis
  proof (cases q)
    case (Inl e)
    with assms q show ?thesis by (simp add: commit_snapshot_def)
  next
    case (Inr c')
    with assms q \<open>\<And>x e. view_of x \<noteq> Inl (Append_failed e)\<close> show ?thesis
      by (cases "view_of c'") (simp_all add: commit_snapshot_def split: option.splits)
  qed
qed

lemma view_ref_refused: "fst (view_ref p) = Inl e \<longleftrightarrow> fst p = Inl e"
  by (cases p, cases "fst p") (simp_all add: view_ref_def)

lemma goal_create_refused:
  assumes "prepare_mutation h = (Inr c, h1)" "gf_goal (gk_state c) = None"
    "fst (goal_create env uuid objective rounds h) = Inl (Append_failed err)"
  shows "\<exists>ch. fst (commit_snapshot env c ch Armed h1) = Inl (Append_failed err)"
proof (cases "resolve_create_goal objective rounds (gh_defaultMaxGoalRounds h)")
  case (Inl e)
  with assms show ?thesis by (simp add: goal_create_def)
next
  case (Inr x)
  with assms(1,2) assms(3) show ?thesis
    by (cases x) (auto simp only: goal_create_def Let_def sum.case prod.case option.case)
qed

lemma goal_sample_not_refused:
  "fst (goal_perform goal_sample_env goal_sample_create goal_sample_host) \<noteq> Inl (Append_failed err)"
proof
  assume *: "fst (goal_perform goal_sample_env goal_sample_create goal_sample_host) = Inl (Append_failed err)"
  obtain c where p: "prepare_mutation goal_sample_host = (Inr c, goal_sample_host\<lparr>gh_cache := Some c\<rparr>)"
    by (rule prepare_synced [OF goal_reach_ok [OF goal_sample_start(1)] goal_sample_start(2)])
  with goal_sample_start(4) have none: "gf_goal (gk_state c) = None" by (simp add: observe_goal_def abs_of_def)
  let ?h = "goal_sample_host\<lparr>gh_cache := Some c\<rparr>"
  from * have "fst (goal_create goal_sample_env ''1'' ''ship it'' (Some (Finite 2)) goal_sample_host) = Inl (Append_failed err)"
    unfolding goal_sample_create_def goal_perform.simps view_ref_refused .
  from goal_create_refused [OF p none this] obtain ch where
    "fst (commit_snapshot goal_sample_env c ch Armed ?h) = Inl (Append_failed err)" ..
  from commit_change_refused [OF commit_snapshot_refused [OF this]]
  show False
    using plugin_append_ok [of "gh_session goal_sample_host" 5]
    by (simp add: goal_sample_host_def goal_sample_env_def empty_session_def)
qed

lemma goal_sample_run:
  "goal_perform goal_sample_env goal_sample_create goal_sample_host = (Inr goal_sample_ref, goal_sample_created)"
  "goal_reach goal_sample_created" "gh_live goal_sample_created"
  "observe_goal goal_sample_created = Some \<lparr>ga_goal = Some goal_sample_goal, ga_rounds = 0, ga_activation = Armed\<rparr>"
proof -
  note start = goal_sample_start(1-3)
  let ?out = "goal_perform goal_sample_env goal_sample_create goal_sample_host"
  have pair: "?out = (fst ?out, goal_sample_created)" by (simp add: goal_sample_created_def)
  have dflt: "gh_defaultMaxGoalRounds goal_sample_host = 256" by (simp add: goal_sample_host_def)
  have "fst ?out = Inr goal_sample_ref \<and> observe_goal goal_sample_created
      = Some \<lparr>ga_goal = Some goal_sample_goal, ga_rounds = 0, ga_activation = Armed\<rparr>"
    using perform_refines [OF start pair] goal_sample_not_refused
    by (simp add: dflt goal_sample_start(4) goal_sample_spec)
  with pair show "?out = (Inr goal_sample_ref, goal_sample_created)"
    "observe_goal goal_sample_created = Some \<lparr>ga_goal = Some goal_sample_goal, ga_rounds = 0, ga_activation = Armed\<rparr>"
    by (metis, simp)
  show "goal_reach goal_sample_created"
    unfolding goal_sample_created_def by (rule goal_reach.Step [OF start(1) goal_step.Request [OF start(3)]])
  show "gh_live goal_sample_created"
    unfolding goal_sample_created_def by (rule goal_perform_live [OF start(2,1,3)])
qed

lemma goal_sample_legal: "request_legal goal_sample_env (Pause_request goal_sample_ref) h"
  "request_legal goal_sample_env (Clear_request goal_sample_ref) h"
  by (simp_all add: request_legal_def goal_sample_env_def goal_sample_ref_def max_safe_def)

theorem goal_service_refines_spec_witness:
  "fst (goal_perform goal_sample_env goal_sample_create goal_sample_host) = Inr goal_sample_ref
    \<and> observe_goal goal_sample_created = Some \<lparr>ga_goal = Some goal_sample_goal, ga_rounds = 0, ga_activation = Armed\<rparr>"
  using goal_service_refines_spec [OF goal_sample_start(1-3) goal_sample_run(1)]
    goal_sample_start(4) goal_sample_spec goal_sample_run(1)
  by (simp add: goal_sample_host_def)

section \<open>The activation is local to the process\<close>

lemma sync_events_foreign:
  "replay apply_goal_event (gk_state c) (es @ [e]) = Inr st \<Longrightarrow> gk_pending c = None \<Longrightarrow> is_goal_change e \<Longrightarrow>
    \<exists>c'. sync_events c (es @ [e]) = (Inr (), c') \<and> gk_activation c' = Disarmed"
proof (induction es arbitrary: c)
  case Nil
  then obtain s where "apply_goal_event (gk_state c) e = Inr s" by (auto simp: res_simps)
  with Nil(2,3) show ?case by (simp add: observe_event_def)
next
  case (Cons x es)
  then obtain s where s: "apply_goal_event (gk_state c) x = Inr s" "replay apply_goal_event s (es @ [e]) = Inr st"
    by (auto simp: res_simps)
  with Cons.IH [of "observe_event c x s"] Cons.prems show ?case by (simp add: observe_event_def)
qed

text \<open>
  C14: Only this process arms its goal: an armed goal is active; a service that has not yet looked at
  its session (a new process) finds the goal disarmed; and a goal change that anyone else appends
  disarms it.
\<close>

theorem activation_is_local:
  assumes "goal_reach h" "gh_live h" "observe_goal h = Some a"
    "session_append veto now d op sources (gh_session h) = (Inr e, s)" "change_of e = Some c"
    "is_ok (fold_goal (sn_log s))"
  shows "(ga_activation a = Disarmed \<or> map_option gs_phase (ga_goal a) = Some Phase_active)
    \<and> (gh_cache h \<noteq> None \<or> ga_activation a = Disarmed)
    \<and> map_option ga_activation (observe_goal (h\<lparr>gh_session := s\<rparr>)) = Some Disarmed"
proof (intro conjI)
  note ok = goal_reach_ok [OF assms(1)]
  obtain k where p: "prepare_mutation h = (Inr k, h\<lparr>gh_cache := Some k\<rparr>)" and k: "synced (h\<lparr>gh_cache := Some k\<rparr>) k"
    by (rule prepare_synced [OF ok assms(2)])
  with assms(3) have a: "a = abs_of k" by (simp add: observe_goal_def)
  show "ga_activation a = Disarmed \<or> map_option gs_phase (ga_goal a) = Some Phase_active"
    using k by (cases "gk_activation k") (simp_all add: a abs_of_def synced_def armed_ok_def)
  show "gh_cache h \<noteq> None \<or> ga_activation a = Disarmed"
  proof (cases "gh_cache h")
    case None
    from ok obtain st where "fold_goal (sn_log (gh_session h)) = Inr st" by (auto simp: host_ok_def host_log_def)
    with None assms(2) p show ?thesis
      by (auto simp: a abs_of_def prepare_mutation_def goal_host_cache_def sync_cache_def Let_def)
  qed simp
  from session_append_log [OF assms(4)] have log: "sn_log s = sn_log (gh_session h) @ [e]" by auto
  obtain st where st: "fold_goal (sn_log s) = Inr st" using assms(6) by (auto simp: is_ok_iff)
  show "map_option ga_activation (observe_goal (h\<lparr>gh_session := s\<rparr>)) = Some Disarmed"
  proof (cases "gh_cache h")
    case None
    with st assms(2) show ?thesis
      by (simp add: observe_goal_def prepare_mutation_def goal_host_cache_def sync_cache_def Let_def abs_of_def)
  next
    case (Some c0)
    let ?n = "gk_observedSeq c0"
    from ok Some have c0: "cache_ok (sn_log (gh_session h)) c0" by (simp add: host_ok_def host_log_def)
    then have split: "sn_log s = take ?n (sn_log (gh_session h)) @ (drop ?n (sn_log (gh_session h)) @ [e])"
      and drop: "drop ?n (sn_log s) = drop ?n (sn_log (gh_session h)) @ [e]"
      by (simp_all add: log cache_ok_def)
    from st c0 have "replay apply_goal_event (gk_state c0) (drop ?n (sn_log (gh_session h)) @ [e]) = Inr st"
      unfolding fold_goal_def split by (subst (asm) replay_append) (simp add: cache_ok_def fold_goal_def)
    from sync_events_foreign [OF this _ goal_change_data [OF assms(5)]] c0 obtain c' where
      "sync_events c0 (drop ?n (sn_log s)) = (Inr (), c')" "gk_activation c' = Disarmed"
      unfolding drop by (auto simp: cache_ok_def)
    with Some assms(2) show ?thesis
      by (simp add: observe_goal_def prepare_mutation_def goal_host_cache_def sync_cache_def abs_of_def)
  qed
qed

section \<open>The companion\<close>

text \<open>
  C16: With the invariant companion installed on an attached session whose log the strict fold
  accepts, every append either leaves the log alone or extends it by an event the fold accepts: the
  durable goal stream of an attached session can never become unreadable.
\<close>

theorem goal_companion_keeps_stream:
  assumes "goal_companion_seed (sn_log s) = Inr st" "sn_appending s = Some b"
    "session_append (goal_companion_veto st) now d op sources s = (r, s')"
  shows "(case r of Inl _ \<Rightarrow> sn_log s' = sn_log s | Inr e \<Rightarrow> sn_log s' = sn_log s @ [e]
      \<and> fold_goal (sn_log s') = apply_goal_event st e) \<and> is_ok (fold_goal (sn_log s'))"
proof -
  have st: "fold_goal (sn_log s) = Inr st" using assms(1) by (simp add: goal_companion_seed_def fold_goal_def)
  from assms(3) show ?thesis
  proof (cases rule: append_cases)
    case (commit m)
    from commit(4) assms(2) obtain st' where "apply_goal_event st (candidate s now d op sources) = Inr st'"
      by (auto simp: goal_companion_veto_def split: sum.splits)
    with commit(1,2) st show ?thesis by (simp add: fold_goal_snoc)
  qed (use st in simp_all)
qed

section \<open>Witnesses\<close>

lemma goal_append_ok:
  assumes "session_ok s" "sn_appending s = Some False"
  shows "fst (session_append (\<lambda>_. Inr ()) now (PluginEvent ''goal/change'' d) None None s)
    = Inr (candidate s now (PluginEvent ''goal/change'' d) None None)"
proof -
  let ?e = "candidate s now (PluginEvent ''goal/change'' d) None None"
  from assms(1) obtain st where m: "manager_ok (sn_log s) (sn_manager s)" and run: "surface_run (sn_log s) = Inr (sn_log s, st)"
    by (rule session_okD)
  have "accept_event (sn_log s, st) ?e = Inr (sn_log s @ [?e], st)"
    by (simp add: plan_surface_event_def surface_op_of_def is_surface_eligible_type_def
        surface_event_types_def ev_type_def candidate_def)
  with validate_next_cases [OF m, of ?e] run have "fst (validate_next (sn_log s) 0 ?e (sn_manager s)) = Inr ()" by simp
  then obtain m' where "validate_next (sn_log s) 0 ?e (sn_manager s) = (Inr (), m')" by (metis prod.collapse)
  then show ?thesis
    using assms(2) by (simp add: session_append_def assert_supported_request_header_def Let_def candidate_def)
qed

lemma session_append_attached:
  assumes "session_append veto now d op sources s = (r, s')"
  shows "sn_appending s' = sn_appending s"
  using assms by (cases rule: append_cases) simp_all

definition goal_sample_change :: goal_change where
  "goal_sample_change = Snapshot_change \<lparr>gc_operation = Goal_create, gc_goal = goal_sample_goal, gc_roundsStarted = 0,
     gc_createdAt = 5, gc_updatedAt = 5\<rparr>"

definition goal_sample_event :: session_event where
  "goal_sample_event = candidate empty_session 5 (PluginEvent ''goal/change'' (encode_goal_change goal_sample_change)) None None"

definition goal_sample_session :: session where
  "goal_sample_session = snd (session_append (\<lambda>_. Inr ()) 5
     (PluginEvent ''goal/change'' (encode_goal_change goal_sample_change)) None None (gh_session goal_sample_host))"

definition goal_sample_second :: goal_host where
  "goal_sample_second = goal_sample_host\<lparr>gh_session := goal_sample_session\<rparr>"

lemma goal_sample_appended:
  "session_append (\<lambda>_. Inr ()) 5 (PluginEvent ''goal/change'' (encode_goal_change goal_sample_change)) None None
      (gh_session goal_sample_host) = (Inr goal_sample_event, goal_sample_session)"
  "sn_log goal_sample_session = [goal_sample_event]" "session_ok goal_sample_session"
  "sn_appending goal_sample_session = Some False"
proof -
  let ?s = "gh_session goal_sample_host" and ?d = "PluginEvent ''goal/change'' (encode_goal_change goal_sample_change)"
  have ok: "session_ok ?s" "sn_appending ?s = Some False"
    using session_ok_empty by (simp_all add: goal_sample_host_def session_ok_def derived_ok_def)
  have e: "candidate ?s 5 ?d None None = goal_sample_event"
    by (simp add: goal_sample_event_def candidate_def goal_sample_host_def empty_session_def)
  from goal_append_ok [OF ok, of 5 "encode_goal_change goal_sample_change", unfolded e]
  show ap: "session_append (\<lambda>_. Inr ()) 5 ?d None None ?s = (Inr goal_sample_event, goal_sample_session)"
    by (metis goal_sample_session_def prod.collapse)
  have "sn_log ?s = []" by (simp add: goal_sample_host_def empty_session_def)
  with session_append_log [OF ap] e show "sn_log goal_sample_session = [goal_sample_event]" by simp
  show "session_ok goal_sample_session" unfolding goal_sample_session_def by (rule session_append_ok [OF ok(1)])
  show "sn_appending goal_sample_session = Some False"
    using session_append_attached [OF ap] ok(2) by simp
qed

lemma goal_sample_wf: "change_wf goal_sample_change"
proof -
  have "js_trim ''ship it'' = ''ship it''" by (simp add: js_trim_printable printable_def)
  then show ?thesis
    by (simp add: goal_sample_change_def goal_sample_goal_def snapshot_wf_def is_normalized_def max_safe_def)
qed

lemma goal_sample_change_of: "change_of goal_sample_event = Some goal_sample_change"
  using decode_encode_change [OF goal_sample_wf] by (simp add: change_of_def goal_sample_event_def candidate_def)

lemma goal_sample_fold:
  "\<exists>st. fold_goal (sn_log goal_sample_session) = Inr st \<and> gf_goal st = Some goal_sample_goal \<and> gf_roundsStarted st = 0"
  using decode_encode_change [OF goal_sample_wf]
  by (simp add: fold_goal_def goal_sample_appended(2) apply_goal_event_def goal_sample_event_def candidate_def
      goal_sample_change_def install_snapshot_def empty_goal_fold_state_def goal_sample_goal_def)

lemma goal_sample_second_start: "goal_reach goal_sample_second" "gh_live goal_sample_second"
  "observe_goal goal_sample_second = Some \<lparr>ga_goal = Some goal_sample_goal, ga_rounds = 0, ga_activation = Disarmed\<rparr>"
proof -
  obtain st where st: "fold_goal (sn_log goal_sample_session) = Inr st" "gf_goal st = Some goal_sample_goal"
    "gf_roundsStarted st = 0" using goal_sample_fold by blast
  have "goal_config None = Inr 256" using safe_integer_of_int [of 256]
    by (simp add: goal_config_def resolve_max_goal_rounds_def max_safe_def)
  then show "goal_reach goal_sample_second" unfolding goal_sample_second_def goal_sample_host_def
    using st(1) by (simp add: goal_reach.Start [where dflt = None])
  show "gh_live goal_sample_second" by (simp add: goal_sample_second_def goal_sample_host_def)
  show "observe_goal goal_sample_second = Some \<lparr>ga_goal = Some goal_sample_goal, ga_rounds = 0, ga_activation = Disarmed\<rparr>"
    using st by (simp add: observe_goal_def prepare_mutation_def goal_sample_second_def goal_sample_host_def
        goal_host_cache_def sync_cache_def abs_of_def Let_def)
qed

lemma commit_current_refused:
  assumes "fst (commit_current env c op g a h) = Inl (Append_failed err)"
  shows "\<exists>ch. fst (commit_snapshot env c ch a h) = Inl (Append_failed err)"
  using assms by (auto simp: commit_current_def next_mutation_time_def split: option.splits)

lemma goal_pause_refused:
  assumes "fst (goal_pause env ref h) = Inl (Append_failed err)" "prepare_mutation h = (Inr c, h1)"
  shows "\<exists>d. fst (session_append (ge_veto env) (ge_eventTime env) (PluginEvent ''goal/change'' d) None None
    (gh_session h1)) = Inl err"
proof -
  obtain g where "fst (commit_current env c Goal_pause (with_phase g Phase_paused) Disarmed h1) = Inl (Append_failed err)"
    using assms
    by (auto simp: goal_pause_def goal_transition_def on_current_def expect_current_def split: option.splits if_splits)
  from commit_change_refused [OF commit_snapshot_refused] commit_current_refused [OF this] show ?thesis by blast
qed

definition goal_sample_paused_host :: goal_host where
  "goal_sample_paused_host = snd (goal_perform goal_sample_env (Pause_request goal_sample_ref) goal_sample_second)"

lemma goal_sample_pause:
  "goal_perform goal_sample_env (Pause_request goal_sample_ref) goal_sample_second
    = (Inr \<lparr>gr_id = ''goal-1'', gr_revision = 2\<rparr>, goal_sample_paused_host)"
proof -
  let ?out = "goal_perform goal_sample_env (Pause_request goal_sample_ref) goal_sample_second"
  have pair: "?out = (fst ?out, goal_sample_paused_host)" by (simp add: goal_sample_paused_host_def)
  have "fst ?out \<noteq> Inl (Append_failed err)" for err
  proof
    assume "fst ?out = Inl (Append_failed err)"
    then have p: "fst (goal_pause goal_sample_env goal_sample_ref goal_sample_second) = Inl (Append_failed err)"
      by (simp add: view_ref_refused)
    obtain c where "prepare_mutation goal_sample_second = (Inr c, goal_sample_second\<lparr>gh_cache := Some c\<rparr>)"
      by (rule prepare_synced [OF goal_reach_ok [OF goal_sample_second_start(1)] goal_sample_second_start(2)])
    from goal_pause_refused [OF p this] goal_append_ok [OF goal_sample_appended(3,4), of 5]
    show False by (simp add: goal_sample_second_def goal_sample_env_def)
  qed
  moreover have "goal_spec d (Pause_request goal_sample_ref) \<lparr>ga_goal = Some goal_sample_goal, ga_rounds = 0, ga_activation = Disarmed\<rparr>
      = Inr (\<lparr>ga_goal = Some (with_phase goal_sample_goal Phase_paused), ga_rounds = 0, ga_activation = Disarmed\<rparr>,
          \<lparr>gr_id = ''goal-1'', gr_revision = 2\<rparr>)" for d
    by (simp add: spec_move_def spec_current_def goal_sample_goal_def goal_sample_ref_def snapshot_ref_def spec_install_def)
  ultimately have "fst ?out = Inr \<lparr>gr_id = ''goal-1'', gr_revision = 2\<rparr>"
    using perform_refines [OF goal_sample_second_start(1,2) goal_sample_legal(1) pair] goal_sample_second_start(3)
    by simp
  with pair show ?thesis by simp
qed


theorem activation_is_local_witness:
  "map_option ga_activation (observe_goal (goal_sample_host\<lparr>gh_session := goal_sample_session\<rparr>)) = Some Disarmed"
  using activation_is_local [OF goal_sample_start(1,2,4) goal_sample_appended(1) goal_sample_change_of] goal_sample_fold
  by (auto simp: is_ok_iff)

theorem goal_companion_keeps_stream_witness:
  "is_ok (fold_goal (sn_log (snd (session_append (goal_companion_veto empty_goal_fold_state) 5
      (PluginEvent ''goal/change'' JNull) None None (gh_session goal_sample_host)))))"
proof -
  have "goal_companion_seed (sn_log (gh_session goal_sample_host)) = Inr empty_goal_fold_state"
    "sn_appending (gh_session goal_sample_host) = Some False"
    by (simp_all add: goal_companion_seed_def goal_sample_host_def empty_session_def)
  from goal_companion_keeps_stream [OF this prod.collapse [symmetric]] show ?thesis by simp
qed

theorem goal_log_identities_witness:
  "distinct (log_refs (sn_log goal_sample_session)) \<and> log_rounds ''goal-1'' (sn_log goal_sample_session) = []"
proof -
  obtain st where st: "fold_goal (sn_log goal_sample_session) = Inr st" "gf_goal st = Some goal_sample_goal"
    "gf_roundsStarted st = 0" using goal_sample_fold by blast
  show ?thesis using goal_log_identities [OF st(1)] st(2,3) by (simp add: goal_sample_goal_def)
qed

theorem goal_projection_agrees_witness:
  "map_option gp_goal (project_goal (sn_log goal_sample_session)) = Some goal_sample_goal"
proof -
  obtain st where st: "fold_goal (sn_log goal_sample_session) = Inr st" "gf_goal st = Some goal_sample_goal"
    using goal_sample_fold by blast
  show ?thesis using goal_projection_agrees [OF st(1)] st(2) by (auto simp: projection_ok_def split: option.splits)
qed

end
