(* ===== verification/ChunkRows.thy ===== *)
theory ChunkRows
  imports Json
begin

text \<open>
  The storage packing of streamed deltas (\<open>core/session/src/chunk-rows.ts\<close>): runs of \<open>assistant/chunk\<close> events of
  one block become one storage row, and rows expand to the events again. Events and rows are the JSON values of
  the log's lines. \<open>classify\<close> reads a whitelisted event into a \<open>delta\<close>, the fields the later functions of the source
  take from it.
\<close>

section \<open>Deltas and rows\<close>

datatype delta_kind = Text_delta | Reasoning_delta | Tool_call_delta

type_synonym delta_call = "string \<times> string option"

record delta =
  dl_kind :: delta_kind
  dl_seq :: int
  dl_time :: int
  dl_turn :: rat
  dl_step :: rat
  dl_index :: rat
  dl_call :: "delta_call option"
  dl_text :: string

record chunk_row =
  cr_kind :: delta_kind
  cr_seq0 :: int
  cr_time0 :: int
  cr_turn :: rat
  cr_step :: rat
  cr_index :: rat
  cr_call :: "delta_call option"
  cr_dt :: "int list"
  cr_members :: "string list"

definition min_run :: nat where
  "min_run = 3"

fun delta_type :: "delta_kind \<Rightarrow> string" where
  "delta_type Text_delta = ''text-delta''"
| "delta_type Reasoning_delta = ''reasoning-delta''"
| "delta_type Tool_call_delta = ''tool-call-delta''"

fun row_tag :: "delta_kind \<Rightarrow> string" where
  "row_tag Text_delta = ''text-chunks''"
| "row_tag Reasoning_delta = ''reasoning-chunks''"
| "row_tag Tool_call_delta = ''tool-call-chunks''"

section \<open>Packing\<close>

definition classify_chunk :: "(string \<times> json) list \<Rightarrow> (delta_kind \<times> delta_call option \<times> string) option" where
  "classify_chunk cs =
     (case map_of cs ''type'' of
        Some (JStr t) \<Rightarrow>
          if t = ''text-delta'' \<or> t = ''reasoning-delta'' then
            (case map_of cs ''text'' of
               Some (JStr s) \<Rightarrow>
                 if has_exact_keys cs [''type'', ''index'', ''text'']
                 then Some (if t = ''text-delta'' then Text_delta else Reasoning_delta, None, s) else None
             | _ \<Rightarrow> None)
          else if t = ''tool-call-delta'' then
            (case (map_of cs ''id'', map_of cs ''argumentsDelta'') of
               (Some (JStr i), Some (JStr a)) \<Rightarrow>
                 if has_exact_keys cs [''type'', ''index'', ''id'', ''argumentsDelta'']
                 then Some (Tool_call_delta, Some (i, None), a)
                 else if has_exact_keys cs [''type'', ''index'', ''id'', ''name'', ''argumentsDelta''] then
                   (case map_of cs ''name'' of
                      Some (JStr n) \<Rightarrow> Some (Tool_call_delta, Some (i, Some n), a)
                    | _ \<Rightarrow> None)
                 else None
             | _ \<Rightarrow> None)
          else None
      | _ \<Rightarrow> None)"

definition classify :: "json \<Rightarrow> delta option" where
  "classify e =
     (case e of
        JObj fs \<Rightarrow>
          if map_of fs ''type'' = Some (JStr ''assistant/chunk'') \<and> has_exact_keys fs [''type'', ''seq'', ''time'', ''data''] then
            (case (json_integer (map_of fs ''seq''), json_integer (map_of fs ''time''), map_of fs ''data'') of
               (Some s, Some t, Some (JObj ds)) \<Rightarrow>
                 if 0 \<le> s \<and> has_exact_keys ds [''turn'', ''step'', ''chunk''] then
                   (case (map_of ds ''turn'', map_of ds ''step'', map_of ds ''chunk'') of
                      (Some (JNum a), Some (JNum b), Some (JObj cs)) \<Rightarrow>
                        (case map_of cs ''index'' of
                           Some (JNum i) \<Rightarrow>
                             map_option (\<lambda>(k, call, text).
                                 \<lparr>dl_kind = k, dl_seq = s, dl_time = t, dl_turn = a, dl_step = b, dl_index = i,
                                  dl_call = call, dl_text = text\<rparr>) (classify_chunk cs)
                         | _ \<Rightarrow> None)
                    | _ \<Rightarrow> None)
                 else None
             | _ \<Rightarrow> None)
          else None
      | _ \<Rightarrow> None)"

text \<open>Whether \<open>next'\<close> extends a run that ends in \<open>prev\<close>; both have the same kind.\<close>

definition continues :: "delta \<Rightarrow> delta \<Rightarrow> bool" where
  "continues prev next' \<longleftrightarrow>
     dl_seq next' = dl_seq prev + 1 \<and> \<bar>dl_time next' - dl_time prev\<bar> \<le> max_safe
     \<and> dl_turn next' = dl_turn prev \<and> dl_step next' = dl_step prev \<and> dl_index next' = dl_index prev
     \<and> dl_call next' = dl_call prev"

fun gaps :: "int list \<Rightarrow> int list" where
  "gaps (a # b # ts) = (b - a) # gaps (b # ts)"
| "gaps _ = []"

definition run_data :: "rat \<Rightarrow> rat \<Rightarrow> rat \<Rightarrow> delta_call option \<Rightarrow> int list \<Rightarrow> string list \<Rightarrow> json" where
  "run_data turn step index call dt members =
     JObj ([(''turn'', JNum turn), (''step'', JNum step), (''index'', JNum index),
            (''dt'', JArr (map json_int dt))]
           @ (case call of
                None \<Rightarrow> [(''texts'', JArr (map JStr members))]
              | Some (i, name) \<Rightarrow>
                  (''id'', JStr i) # optional ''name'' (map_option JStr name) @ [(''args'', JArr (map JStr members))]))"

text \<open>\<open>buildRow\<close>, for a run that is not empty.\<close>

definition build_row :: "delta_kind \<Rightarrow> delta list \<Rightarrow> json" where
  "build_row kind run =
     (let first = hd run
      in JObj [(''type'', JStr (row_tag kind)), (''seq0'', json_int (dl_seq first)), (''time0'', json_int (dl_time first)),
               (''data'', run_data (dl_turn first) (dl_step first) (dl_index first) (dl_call first)
                            (gaps (map dl_time run)) (map dl_text run))])"

record packer =
  pk_out :: "json list"
  pk_kind :: "delta_kind option"
  pk_run :: "(json \<times> delta) list"

definition flush_run :: "packer \<Rightarrow> packer" where
  "flush_run p =
     \<lparr>pk_out = pk_out p @ (case pk_kind p of
          None \<Rightarrow> map fst (pk_run p)
        | Some k \<Rightarrow> if min_run \<le> length (pk_run p) then [build_row k (map snd (pk_run p))] else map fst (pk_run p)),
      pk_kind = None, pk_run = []\<rparr>"

definition pack_event :: "packer \<Rightarrow> json \<Rightarrow> packer" where
  "pack_event p e =
     (case classify e of
        None \<Rightarrow> (let q = flush_run p in q\<lparr>pk_out := pk_out q @ [e]\<rparr>)
      | Some d \<Rightarrow>
          if pk_kind p = Some (dl_kind d) \<and> pk_run p \<noteq> [] \<and> continues (snd (last (pk_run p))) d
          then p\<lparr>pk_run := pk_run p @ [(e, d)]\<rparr>
          else (flush_run p)\<lparr>pk_kind := Some (dl_kind d), pk_run := [(e, d)]\<rparr>)"

definition pack_chunk_runs :: "json list \<Rightarrow> json list" where
  "pack_chunk_runs es = pk_out (flush_run (foldl pack_event \<lparr>pk_out = [], pk_kind = None, pk_run = []\<rparr> es))"

section \<open>Unpacking\<close>

datatype row_fault =
    Bad_envelope | Bad_seq0 | Bad_time0 | Data_not_object | Bad_data_keys | Bad_call | Bad_placement
  | Bad_payload | Bad_dt | Dt_length nat nat | Seq_range | Time_range

text \<open>
  The double nearest to an integer between 0 and \<open>2 ^ 54\<close> (ties to even). The other sums of the
  module are only used where they are exact, or compared with the safe range, from which rounding does not lead in
  or out.
\<close>

definition round_double :: "int \<Rightarrow> int" where
  "round_double n =
     (if n \<le> 2 ^ 53 \<or> even n then n else if even (n div 2) then n - 1 else n + 1)"

fun all_integers :: "json list \<Rightarrow> int list option" where
  "all_integers [] = Some []"
| "all_integers (j # js) =
     (case json_integer (Some j) of None \<Rightarrow> None | Some k \<Rightarrow> map_option ((#) k) (all_integers js))"

fun all_texts :: "json list \<Rightarrow> string list option" where
  "all_texts [] = Some []"
| "all_texts (JStr s # js) = map_option ((#) s) (all_texts js)"
| "all_texts (_ # js) = None"

definition validate_run_data ::
    "(string \<times> json) list \<Rightarrow> string \<Rightarrow> row_fault + ((rat \<times> rat \<times> rat) \<times> int list \<times> string list)" where
  "validate_run_data ds payloadKey =
     (case (map_of ds ''turn'', map_of ds ''step'', map_of ds ''index'') of
        (Some (JNum a), Some (JNum b), Some (JNum i)) \<Rightarrow>
          (case map_of ds payloadKey of
             Some (JArr ps) \<Rightarrow>
               (case all_texts ps of
                  None \<Rightarrow> Inl Bad_payload
                | Some members \<Rightarrow>
                    if ps = [] then Inl Bad_payload
                    else
                      (case map_of ds ''dt'' of
                         Some (JArr gs) \<Rightarrow>
                           (case all_integers gs of
                              None \<Rightarrow> Inl Bad_dt
                            | Some dt \<Rightarrow>
                                if length dt \<noteq> length members - 1 then Inl (Dt_length (length dt) (length members))
                                else Inr ((a, b, i), dt, members))
                       | _ \<Rightarrow> Inl Bad_dt))
           | _ \<Rightarrow> Inl Bad_payload)
      | _ \<Rightarrow> Inl Bad_placement)"

text \<open>The running time of the members, which must stay a safe integer.\<close>

fun check_times :: "int \<Rightarrow> int list \<Rightarrow> row_fault + unit" where
  "check_times time [] = Inr ()"
| "check_times time (g # gs) = (if max_safe < \<bar>time + g\<bar> then Inl Time_range else check_times (time + g) gs)"

definition validate_call :: "(string \<times> json) list \<Rightarrow> row_fault + delta_call" where
  "validate_call ds =
     (let withName = has_exact_keys ds [''turn'', ''step'', ''index'', ''id'', ''name'', ''dt'', ''args'']
      in if \<not> withName \<and> \<not> has_exact_keys ds [''turn'', ''step'', ''index'', ''id'', ''dt'', ''args''] then Inl Bad_data_keys
         else (case map_of ds ''id'' of
             Some (JStr i) \<Rightarrow>
               if withName then (case map_of ds ''name'' of Some (JStr n) \<Rightarrow> Inr (i, Some n) | _ \<Rightarrow> Inl Bad_call)
               else Inr (i, None)
           | _ \<Rightarrow> Inl Bad_call))"

definition validate_row :: "delta_kind \<Rightarrow> (string \<times> json) list \<Rightarrow> row_fault + chunk_row" where
  "validate_row kind fs =
     (if \<not> has_exact_keys fs [''type'', ''seq0'', ''time0'', ''data''] then Inl Bad_envelope
      else (case json_integer (map_of fs ''seq0'') of
          None \<Rightarrow> Inl Bad_seq0
        | Some seq0 \<Rightarrow>
            if seq0 < 0 then Inl Bad_seq0
            else (case json_integer (map_of fs ''time0'') of
                None \<Rightarrow> Inl Bad_time0
              | Some time0 \<Rightarrow>
                  (case map_of fs ''data'' of
                     Some (JObj ds) \<Rightarrow>
                       and_then (if kind = Tool_call_delta
                                 then and_then (validate_call ds) (\<lambda>c. Inr (Some c))
                                 else and_then (throw_if (\<not> has_exact_keys ds [''turn'', ''step'', ''index'', ''dt'', ''texts''])
                                                  Bad_data_keys) (\<lambda>_. Inr None)) (\<lambda>call.
                       and_then (validate_run_data ds (if kind = Tool_call_delta then ''args'' else ''texts''))
                         (\<lambda>((turn, step, index), dt, members).
                       and_then (throw_if (max_safe < round_double (seq0 + int (length members)) - 1) Seq_range) (\<lambda>_.
                       and_then (check_times time0 dt) (\<lambda>_.
                         Inr \<lparr>cr_kind = kind, cr_seq0 = seq0, cr_time0 = time0, cr_turn = turn, cr_step = step,
                              cr_index = index, cr_call = call, cr_dt = dt, cr_members = members\<rparr>))))
                   | Some (JArr _) \<Rightarrow> Inl Bad_data_keys
                   | _ \<Rightarrow> Inl Data_not_object))))"

definition delta_chunk :: "delta_kind \<Rightarrow> rat \<Rightarrow> delta_call option \<Rightarrow> string \<Rightarrow> json" where
  "delta_chunk kind index call text =
     JObj ([(''type'', JStr (delta_type kind)), (''index'', JNum index)]
           @ (case call of
                None \<Rightarrow> [(''text'', JStr text)]
              | Some (i, name) \<Rightarrow>
                  (''id'', JStr i) # optional ''name'' (map_option JStr name) @ [(''argumentsDelta'', JStr text)]))"

definition delta_event :: "delta \<Rightarrow> json" where
  "delta_event d =
     JObj [(''type'', JStr ''assistant/chunk''), (''seq'', json_int (dl_seq d)), (''time'', json_int (dl_time d)),
           (''data'', JObj [(''turn'', JNum (dl_turn d)), (''step'', JNum (dl_step d)),
                            (''chunk'', delta_chunk (dl_kind d) (dl_index d) (dl_call d) (dl_text d))])]"

fun expand_members :: "chunk_row \<Rightarrow> int \<Rightarrow> int \<Rightarrow> int list \<Rightarrow> string list \<Rightarrow> delta list" where
  "expand_members row seq time dt [] = []"
| "expand_members row seq time dt (m # ms) =
     \<lparr>dl_kind = cr_kind row, dl_seq = seq, dl_time = time, dl_turn = cr_turn row, dl_step = cr_step row,
      dl_index = cr_index row, dl_call = cr_call row, dl_text = m\<rparr>
     # (case dt of [] \<Rightarrow> expand_members row (seq + 1) time [] ms
                 | g # gs \<Rightarrow> expand_members row (seq + 1) (time + g) gs ms)"

definition row_deltas :: "chunk_row \<Rightarrow> delta list" where
  "row_deltas row = expand_members row (cr_seq0 row) (cr_time0 row) (cr_dt row) (cr_members row)"

definition expand_row :: "chunk_row \<Rightarrow> json list" where
  "expand_row row = map delta_event (row_deltas row)"

definition row_kind_of :: "json \<Rightarrow> delta_kind option" where
  "row_kind_of v =
     (case json_field ''type'' v of
        Some (JStr t) \<Rightarrow>
          if t = ''text-chunks'' then Some Text_delta
          else if t = ''reasoning-chunks'' then Some Reasoning_delta
          else if t = ''tool-call-chunks'' then Some Tool_call_delta
          else None
      | _ \<Rightarrow> None)"

definition decode_storage_record :: "json \<Rightarrow> row_fault + json list" where
  "decode_storage_record v =
     (case row_kind_of v of
        None \<Rightarrow> Inr [v]
      | Some k \<Rightarrow> (case v of JObj fs \<Rightarrow> and_then (validate_row k fs) (\<lambda>r. Inr (expand_row r)) | _ \<Rightarrow> Inr [v]))"

end
