(* ===== verification/ChunkRowProperties.thy ===== *)
theory ChunkRowProperties
  imports ChunkRows
begin

text \<open>
  Packing loses nothing: unpacking the packed log gives the events again, up to the order of the keys inside an
  object, which no reader of JSON depends on. And what a row from elsewhere can expand to.
\<close>

section \<open>Classified events\<close>

definition delta_ok :: "delta \<Rightarrow> bool" where
  "delta_ok d \<longleftrightarrow> 0 \<le> dl_seq d \<and> dl_seq d \<le> max_safe \<and> \<bar>dl_time d\<bar> \<le> max_safe
     \<and> (dl_kind d = Tool_call_delta \<longleftrightarrow> dl_call d \<noteq> None)"

lemma classify_chunk_cases:
  assumes "classify_chunk cs = Some (k, call, text)"
  obtains (text_like) "k \<noteq> Tool_call_delta" "call = None" "map_of cs ''type'' = Some (JStr (delta_type k))"
      "map_of cs ''text'' = Some (JStr text)" "has_exact_keys cs [''type'', ''index'', ''text'']"
    | (unnamed) i where "k = Tool_call_delta" "call = Some (i, None)" "map_of cs ''type'' = Some (JStr (delta_type k))"
      "map_of cs ''id'' = Some (JStr i)" "map_of cs ''argumentsDelta'' = Some (JStr text)"
      "has_exact_keys cs [''type'', ''index'', ''id'', ''argumentsDelta'']"
    | (named) i n where "k = Tool_call_delta" "call = Some (i, Some n)" "map_of cs ''type'' = Some (JStr (delta_type k))"
      "map_of cs ''id'' = Some (JStr i)" "map_of cs ''name'' = Some (JStr n)"
      "map_of cs ''argumentsDelta'' = Some (JStr text)"
      "has_exact_keys cs [''type'', ''index'', ''id'', ''name'', ''argumentsDelta'']"
  using assms by (auto simp: classify_chunk_def split: option.splits json.splits if_splits)

lemma classify_cases:
  assumes "classify e = Some d"
  obtains fs ds cs where "e = JObj fs" "has_exact_keys fs [''type'', ''seq'', ''time'', ''data'']"
    "map_of fs ''type'' = Some (JStr ''assistant/chunk'')" "map_of fs ''seq'' = Some (json_int (dl_seq d))"
    "map_of fs ''time'' = Some (json_int (dl_time d))" "map_of fs ''data'' = Some (JObj ds)"
    "has_exact_keys ds [''turn'', ''step'', ''chunk'']" "map_of ds ''turn'' = Some (JNum (dl_turn d))"
    "map_of ds ''step'' = Some (JNum (dl_step d))" "map_of ds ''chunk'' = Some (JObj cs)"
    "map_of cs ''index'' = Some (JNum (dl_index d))"
    "classify_chunk cs = Some (dl_kind d, dl_call d, dl_text d)" "delta_ok d"
proof -
  from assms obtain fs ds cs s t a b i k call body where
    r: "e = JObj fs" "map_of fs ''type'' = Some (JStr ''assistant/chunk'')"
      "has_exact_keys fs [''type'', ''seq'', ''time'', ''data'']" "json_integer (map_of fs ''seq'') = Some s"
      "json_integer (map_of fs ''time'') = Some t" "map_of fs ''data'' = Some (JObj ds)" "0 \<le> s"
      "has_exact_keys ds [''turn'', ''step'', ''chunk'']" "map_of ds ''turn'' = Some (JNum a)"
      "map_of ds ''step'' = Some (JNum b)" "map_of ds ''chunk'' = Some (JObj cs)" "map_of cs ''index'' = Some (JNum i)"
      "classify_chunk cs = Some (k, call, body)"
      "d = \<lparr>dl_kind = k, dl_seq = s, dl_time = t, dl_turn = a, dl_step = b, dl_index = i, dl_call = call, dl_text = body\<rparr>"
    by (auto simp: classify_def split: option.splits json.splits if_splits)
  have "k = Tool_call_delta \<longleftrightarrow> call \<noteq> None" using r(13) by (cases rule: classify_chunk_cases) simp_all
  with r(4,5,7,14) have "delta_ok d" by (simp add: delta_ok_def json_integer_iff)
  with r show thesis by (intro that) (simp_all add: json_integer_iff)
qed

lemma classified_equal:
  assumes "classify e = Some d"
  shows "is_deep_equal_json (delta_event d) e"
proof -
  from assms show ?thesis
  proof (cases rule: classify_cases)
    case (1 fs ds cs)
    have chunk: "is_deep_equal_json (delta_chunk (dl_kind d) (dl_index d) (dl_call d) (dl_text d)) (JObj cs)"
      using 1(12)
    proof (cases rule: classify_chunk_cases)
      case text_like
      then show ?thesis unfolding delta_chunk_def
        by (simp del: is_deep_equal_json.simps) (rule deep_equal_exact, auto simp: 1(11) split: if_splits)
    next
      case (unnamed i)
      then show ?thesis unfolding delta_chunk_def
        by (simp add: optional_def del: is_deep_equal_json.simps)
          (rule deep_equal_exact, auto simp: 1(11) split: if_splits)
    next
      case (named i n)
      then show ?thesis unfolding delta_chunk_def
        by (simp add: optional_def del: is_deep_equal_json.simps)
          (rule deep_equal_exact, auto simp: 1(11) split: if_splits)
    qed
    have data: "is_deep_equal_json (JObj [(''turn'', JNum (dl_turn d)), (''step'', JNum (dl_step d)),
        (''chunk'', delta_chunk (dl_kind d) (dl_index d) (dl_call d) (dl_text d))]) (JObj ds)"
      by (rule deep_equal_exact [OF 1(7)]) (use 1(8-10) chunk in \<open>auto split: if_splits\<close>)
    show ?thesis unfolding delta_event_def 1(1)
      by (rule deep_equal_exact [OF 1(2)]) (use 1(3-6) data in \<open>auto simp: json_int_def split: if_splits\<close>)
  qed
qed

lemma classified_ok: "classify e = Some d \<Longrightarrow> delta_ok d"
  by (erule classify_cases)

section \<open>Runs\<close>

definition run_ok :: "delta_kind \<Rightarrow> delta list \<Rightarrow> bool" where
  "run_ok k ds \<longleftrightarrow> ds \<noteq> [] \<and> list_all (\<lambda>d. delta_ok d \<and> dl_kind d = k) ds \<and> successively continues ds"

lemma run_ok_snoc:
  "run_ok k (ds @ [d]) \<longleftrightarrow> delta_ok d \<and> dl_kind d = k \<and> (ds \<noteq> [] \<longrightarrow> run_ok k ds \<and> continues (last ds) d)"
  by (auto simp: run_ok_def successively_append_iff)

lemma run_ok_Cons:
  "run_ok k (d # e # ds) \<longleftrightarrow> delta_ok d \<and> dl_kind d = k \<and> continues d e \<and> run_ok k (e # ds)"
  by (auto simp: run_ok_def)

lemma run_ok_single: "run_ok k [d] \<longleftrightarrow> delta_ok d \<and> dl_kind d = k"
  by (auto simp: run_ok_def)

lemma all_integers_encoded: "list_all (\<lambda>g. \<bar>g\<bar> \<le> max_safe) gs \<Longrightarrow> all_integers (map json_int gs) = Some gs"
  by (induction gs) (auto simp: json_integer_iff [THEN iffD2])

lemma all_texts_encoded [simp]: "all_texts (map JStr ss) = Some ss"
  by (induction ss) simp_all

lemma gaps_length: "length (gaps ts) = length ts - 1"
  by (induction ts rule: gaps.induct) auto

lemma run_gaps_safe: "run_ok k ds \<Longrightarrow> list_all (\<lambda>g. \<bar>g\<bar> \<le> max_safe) (gaps (map dl_time ds))"
proof (induction ds)
  case (Cons d ds)
  then show ?case by (cases ds) (auto simp: run_ok_Cons continues_def)
qed simp

lemma run_times_safe: "run_ok k (d # ds) \<Longrightarrow> check_times (dl_time d) (gaps (map dl_time (d # ds))) = Inr ()"
proof (induction ds arbitrary: d)
  case (Cons e ds)
  then have "\<bar>dl_time e\<bar> \<le> max_safe" by (auto simp: run_ok_Cons run_ok_def delta_ok_def)
  with Cons show ?case by (simp add: run_ok_Cons)
qed simp

lemma run_last_seq: "run_ok k (d # ds) \<Longrightarrow> dl_seq d + int (length ds) \<le> max_safe"
proof (induction ds arbitrary: d)
  case Nil
  then show ?case by (simp add: run_ok_single delta_ok_def)
next
  case (Cons e ds)
  then have "dl_seq e + int (length ds) \<le> max_safe" by (simp add: run_ok_Cons)
  with Cons.prems show ?case by (simp add: run_ok_Cons continues_def)
qed

definition placed :: "chunk_row \<Rightarrow> delta \<Rightarrow> bool" where
  "placed row d \<longleftrightarrow> dl_kind d = cr_kind row \<and> dl_turn d = cr_turn row \<and> dl_step d = cr_step row
     \<and> dl_index d = cr_index row \<and> dl_call d = cr_call row"

lemma expand_run:
  "run_ok k (d # ds) \<Longrightarrow> placed row d \<Longrightarrow>
    expand_members row (dl_seq d) (dl_time d) (gaps (map dl_time (d # ds))) (map dl_text (d # ds)) = d # ds"
proof (induction ds arbitrary: d)
  case Nil
  then show ?case by (cases d) (simp add: placed_def)
next
  case (Cons e ds)
  from Cons.prems have e: "run_ok k (e # ds)" "continues d e" "dl_kind e = k" "dl_kind d = k"
    by (auto simp: run_ok_Cons run_ok_def)
  with Cons.prems(2) have "placed row e" by (auto simp: placed_def continues_def)
  note rest = Cons.IH [OF e(1) this]
  have seq: "dl_seq d + 1 = dl_seq e" using e(2) by (simp add: continues_def)
  have "expand_members row (dl_seq d) (dl_time d) (gaps (map dl_time (d # e # ds))) (map dl_text (d # e # ds))
      = \<lparr>dl_kind = cr_kind row, dl_seq = dl_seq d, dl_time = dl_time d, dl_turn = cr_turn row, dl_step = cr_step row,
         dl_index = cr_index row, dl_call = cr_call row, dl_text = dl_text d\<rparr>
        # expand_members row (dl_seq e) (dl_time e) (gaps (map dl_time (e # ds))) (map dl_text (e # ds))"
    using seq by simp
  also have "\<dots> = d # e # ds" unfolding rest using Cons.prems(2) by (cases d) (simp add: placed_def)
  finally show ?case .
qed

lemma row_kind_of_row: "row_kind_of (JObj ((''type'', JStr (row_tag k)) # fs)) = Some k"
  by (cases k) (simp_all add: row_kind_of_def)

lemma max_safe_double: "max_safe = 2 ^ 53 - 1"
  by (simp add: max_safe_def)

lemma run_data_read:
  assumes "run_ok k (d # ds)"
  shows "validate_run_data
      [(''turn'', JNum a), (''step'', JNum b), (''index'', JNum i), (''dt'', JArr (map json_int (gaps (map dl_time (d # ds))))),
       (''texts'', JArr (map JStr (map dl_text (d # ds))))] ''texts''
      = Inr ((a, b, i), gaps (map dl_time (d # ds)), map dl_text (d # ds))"
    "validate_run_data
      ([(''turn'', JNum a), (''step'', JNum b), (''index'', JNum i), (''dt'', JArr (map json_int (gaps (map dl_time (d # ds))))),
        (''id'', x)] @ optional ''name'' n @ [(''args'', JArr (map JStr (map dl_text (d # ds))))]) ''args''
      = Inr ((a, b, i), gaps (map dl_time (d # ds)), map dl_text (d # ds))"
proof -
  have "all_integers (map json_int (gaps (map dl_time (d # ds)))) = Some (gaps (map dl_time (d # ds)))"
    using all_integers_encoded run_gaps_safe [OF assms] by blast
  moreover have "all_texts (map JStr (map dl_text (d # ds))) = Some (map dl_text (d # ds))" by (rule all_texts_encoded)
  ultimately show "validate_run_data
      [(''turn'', JNum a), (''step'', JNum b), (''index'', JNum i), (''dt'', JArr (map json_int (gaps (map dl_time (d # ds))))),
       (''texts'', JArr (map JStr (map dl_text (d # ds))))] ''texts''
      = Inr ((a, b, i), gaps (map dl_time (d # ds)), map dl_text (d # ds))"
    "validate_run_data
      ([(''turn'', JNum a), (''step'', JNum b), (''index'', JNum i), (''dt'', JArr (map json_int (gaps (map dl_time (d # ds))))),
        (''id'', x)] @ optional ''name'' n @ [(''args'', JArr (map JStr (map dl_text (d # ds))))]) ''args''
      = Inr ((a, b, i), gaps (map dl_time (d # ds)), map dl_text (d # ds))"
    by (simp_all add: validate_run_data_def gaps_length optional_def split: option.splits)
qed

lemma run_in_range:
  assumes "run_ok k (d # ds)"
  shows "round_double (dl_seq d + int (length (map dl_text (d # ds)))) - 1 \<le> max_safe"
  using run_last_seq [OF assms] by (simp add: round_double_def max_safe_double)

lemma decode_row:
  assumes "run_ok k (d # ds)"
  shows "decode_storage_record (build_row k (d # ds)) = Inr (map delta_event (d # ds))"
proof -
  have d: "delta_ok d" "dl_kind d = k" using assms by (simp_all add: run_ok_def)
  define row where "row = \<lparr>cr_kind = k, cr_seq0 = dl_seq d, cr_time0 = dl_time d, cr_turn = dl_turn d, cr_step = dl_step d,
     cr_index = dl_index d, cr_call = dl_call d, cr_dt = gaps (map dl_time (d # ds)), cr_members = map dl_text (d # ds)\<rparr>"
  define fs where "fs = [(''type'', JStr (row_tag k)), (''seq0'', json_int (dl_seq d)), (''time0'', json_int (dl_time d)),
     (''data'', run_data (dl_turn d) (dl_step d) (dl_index d) (dl_call d) (gaps (map dl_time (d # ds))) (map dl_text (d # ds)))]"
  have ints: "json_integer (Some (json_int (dl_seq d))) = Some (dl_seq d)"
    "json_integer (Some (json_int (dl_time d))) = Some (dl_time d)"
    using d(1) by (simp_all add: json_integer_iff delta_ok_def)
  have keys: "has_exact_keys fs [''type'', ''seq0'', ''time0'', ''data'']" by (simp add: fs_def has_exact_keys_def)
  note range = run_in_range [OF assms] and times = run_times_safe [OF assms] and read = run_data_read [OF assms]
  have "validate_row k fs = Inr row"
  proof (cases "dl_call d")
    case None
    then have "k \<noteq> Tool_call_delta" using d by (simp add: delta_ok_def)
    with None d(1) ints range times read(1) show ?thesis
      unfolding validate_row_def
      by (simp add: keys) (simp add: fs_def run_data_def row_def delta_ok_def has_exact_keys_def)
  next
    case (Some c)
    obtain i n where c: "c = (i, n)" by fastforce
    have k: "k = Tool_call_delta" using Some d by (simp add: delta_ok_def)
    have call: "validate_call ([(''turn'', JNum (dl_turn d)), (''step'', JNum (dl_step d)), (''index'', JNum (dl_index d)),
        (''dt'', JArr (map json_int (gaps (map dl_time (d # ds))))), (''id'', JStr i)] @ optional ''name'' (map_option JStr n)
        @ [(''args'', JArr (map JStr (map dl_text (d # ds))))]) = Inr (i, n)"
      by (cases n) (simp_all add: validate_call_def has_exact_keys_def optional_def)
    from Some c k d(1) ints range times read(2) [of "dl_turn d" "dl_step d" "dl_index d" "JStr i" "map_option JStr n"] call
    show ?thesis
      unfolding validate_row_def
      by (simp add: keys) (simp add: fs_def run_data_def row_def delta_ok_def)
  qed
  moreover have "row_deltas row = d # ds"
    using expand_run [OF assms, of row] d(2) by (simp only: row_deltas_def) (simp add: row_def placed_def)
  moreover have "build_row k (d # ds) = JObj fs" by (simp add: build_row_def fs_def Let_def)
  moreover have "row_kind_of (JObj fs) = Some k" unfolding fs_def by (rule row_kind_of_row)
  ultimately show ?thesis by (simp add: decode_storage_record_def expand_row_def)
qed

section \<open>The round trip\<close>

definition unpacks_to :: "json list \<Rightarrow> json list \<Rightarrow> bool" where
  "unpacks_to rows es \<longleftrightarrow>
     (\<exists>ess. traverse decode_storage_record rows = Inr ess \<and> list_all2 is_deep_equal_json (concat ess) es)"

lemma unpacks_to_Nil [simp]: "unpacks_to [] []"
  by (simp add: unpacks_to_def)

lemma unpacks_to_append: "unpacks_to rs es \<Longrightarrow> unpacks_to rs' es' \<Longrightarrow> unpacks_to (rs @ rs') (es @ es')"
proof -
  assume "unpacks_to rs es" "unpacks_to rs' es'"
  then obtain ess ess' where "traverse decode_storage_record rs = Inr ess" "list_all2 is_deep_equal_json (concat ess) es"
    "traverse decode_storage_record rs' = Inr ess'" "list_all2 is_deep_equal_json (concat ess') es'"
    unfolding unpacks_to_def by blast
  then have "traverse decode_storage_record (rs @ rs') = Inr (ess @ ess')"
    "list_all2 is_deep_equal_json (concat (ess @ ess')) (es @ es')"
    by (simp_all add: list_all2_appendI)
  then show ?thesis unfolding unpacks_to_def by blast
qed

lemma unpacks_to_verbatim: "\<forall>e \<in> set es. json_ok e \<and> row_kind_of e = None \<Longrightarrow> unpacks_to es es"
proof (induction es)
  case (Cons e es)
  then obtain ess where "traverse decode_storage_record es = Inr ess" "list_all2 is_deep_equal_json (concat ess) es"
    by (auto simp: unpacks_to_def)
  with Cons.prems show ?case
    by (auto simp: unpacks_to_def decode_storage_record_def res_simps deep_equal_refl)
qed simp

lemma unpacks_to_row:
  assumes "run_ok k (map snd run)" "\<forall>(e, d) \<in> set run. classify e = Some d"
  shows "unpacks_to [build_row k (map snd run)] (map fst run)"
proof -
  from assms(1) obtain d ds where ds: "map snd run = d # ds" by (cases "map snd run") (simp_all add: run_ok_def)
  with assms(1) decode_row have "decode_storage_record (build_row k (map snd run)) = Inr (map delta_event (map snd run))"
    by simp
  moreover have "list_all2 is_deep_equal_json (map delta_event (map snd run)) (map fst run)"
    using assms(2) classified_equal by (auto simp: list_all2_map1 list_all2_map2 list_all2_same)
  ultimately show ?thesis by (simp add: unpacks_to_def)
qed

definition packer_ok :: "json list \<Rightarrow> packer \<Rightarrow> bool" where
  "packer_ok es p \<longleftrightarrow>
     (\<exists>done'. es = done' @ map fst (pk_run p) \<and> unpacks_to (pk_out p) done')
     \<and> (\<forall>(e, d) \<in> set (pk_run p). classify e = Some d)
     \<and> (case pk_kind p of None \<Rightarrow> pk_run p = [] | Some k \<Rightarrow> run_ok k (map snd (pk_run p)))"

lemma flush_run_ok:
  assumes "packer_ok es p" "\<forall>e \<in> set es. json_ok e \<and> row_kind_of e = None"
  shows "packer_ok es (flush_run p) \<and> pk_run (flush_run p) = []"
proof -
  from assms(1) obtain done' where d: "es = done' @ map fst (pk_run p)" "unpacks_to (pk_out p) done'"
    unfolding packer_ok_def by blast
  have "unpacks_to (pk_out (flush_run p)) es"
  proof (cases "pk_kind p")
    case None
    with assms(1) d show ?thesis by (simp add: packer_ok_def flush_run_def)
  next
    case (Some k)
    have run: "run_ok k (map snd (pk_run p))" "\<forall>(e, d) \<in> set (pk_run p). classify e = Some d"
      using assms(1) Some by (simp_all add: packer_ok_def)
    have "\<forall>e \<in> set (map fst (pk_run p)). json_ok e \<and> row_kind_of e = None" using assms(2) d(1) by auto
    from unpacks_to_append [OF d(2) unpacks_to_row [OF run]] unpacks_to_append [OF d(2) unpacks_to_verbatim [OF this]]
    show ?thesis using Some d(1) by (simp add: flush_run_def)
  qed
  then show ?thesis by (simp add: packer_ok_def flush_run_def)
qed

lemma pack_event_ok:
  assumes "packer_ok es p" "\<forall>x \<in> set (es @ [e]). json_ok x \<and> row_kind_of x = None"
  shows "packer_ok (es @ [e]) (pack_event p e)"
proof -
  have f: "packer_ok es (flush_run p)" "pk_run (flush_run p) = []" using flush_run_ok assms by auto
  then have out: "unpacks_to (pk_out (flush_run p)) es" by (auto simp: packer_ok_def)
  show ?thesis
  proof (cases "classify e")
    case None
    have "unpacks_to [e] [e]" using assms(2) by (intro unpacks_to_verbatim) simp
    from unpacks_to_append [OF out this] None f show ?thesis
      by (simp add: pack_event_def packer_ok_def flush_run_def Let_def)
  next
    case (Some d)
    show ?thesis
    proof (cases "pk_kind p = Some (dl_kind d) \<and> pk_run p \<noteq> [] \<and> continues (snd (last (pk_run p))) d")
      case True
      with assms(1) have "run_ok (dl_kind d) (map snd (pk_run p))" by (simp add: packer_ok_def)
      with True classified_ok [OF Some] have "run_ok (dl_kind d) (map snd (pk_run p @ [(e, d)]))"
        by (simp add: run_ok_snoc last_map)
      with True Some assms(1) show ?thesis by (auto simp: pack_event_def packer_ok_def)
    next
      case False
      then have "pack_event p e = (flush_run p)\<lparr>pk_kind := Some (dl_kind d), pk_run := [(e, d)]\<rparr>"
        using Some by (auto simp: pack_event_def)
      with Some out classified_ok [OF Some] show ?thesis by (simp add: packer_ok_def run_ok_single)
    qed
  qed
qed

text \<open>
  C28: Reading a packed log gives the events it was packed from, in their order and each as it was, up to the order of
  the keys inside an object; only events that carry the type of a storage row are excluded, which no event has.
\<close>

theorem chunk_rows_roundtrip:
  assumes "\<forall>e \<in> set es. json_ok e \<and> row_kind_of e = None"
  shows "\<exists>ess. traverse decode_storage_record (pack_chunk_runs es) = Inr ess
    \<and> list_all2 is_deep_equal_json (concat ess) es"
proof -
  have "packer_ok es (foldl pack_event \<lparr>pk_out = [], pk_kind = None, pk_run = []\<rparr> es)"
    using assms
  proof (induction es rule: rev_induct)
    case Nil
    then show ?case by (simp add: packer_ok_def)
  next
    case (snoc e es)
    then show ?case by (simp add: pack_event_ok)
  qed
  from flush_run_ok [OF this assms] have "unpacks_to (pack_chunk_runs es) es"
    by (auto simp: pack_chunk_runs_def packer_ok_def)
  then show ?thesis by (simp add: unpacks_to_def)
qed

section \<open>Rows from elsewhere\<close>

lemma expand_members_times:
  "check_times time dt = Inr () \<Longrightarrow> \<bar>time\<bar> \<le> max_safe \<Longrightarrow> d \<in> set (expand_members row seq time dt ms) \<Longrightarrow>
    \<bar>dl_time d\<bar> \<le> max_safe"
  by (induction row seq time dt ms rule: expand_members.induct) (auto split: list.splits if_splits)

lemma expand_members_seqs:
  "d \<in> set (expand_members row seq time dt ms) \<Longrightarrow> seq \<le> dl_seq d \<and> dl_seq d < seq + int (length ms)"
proof (induction ms arbitrary: seq time dt)
  case (Cons m ms)
  from Cons.prems Cons.IH [of "seq + 1"] show ?case by (cases dt) fastforce+
qed simp

lemma all_texts_length: "all_texts js = Some ss \<Longrightarrow> length ss = length js"
  by (induction js arbitrary: ss rule: all_texts.induct) auto

lemma run_data_members: "validate_run_data ds key = Inr (place, dt, members) \<Longrightarrow> members \<noteq> []"
  by (auto simp: validate_run_data_def dest!: all_texts_length split: option.splits json.splits if_splits)


text \<open>The bound is attained: the last sum of the range check rounds.\<close>

definition edge_row :: json where
  "edge_row =
     JObj [(''type'', JStr ''text-chunks''), (''seq0'', JNum 9007199254740991), (''time0'', JNum 0),
           (''data'', JObj [(''turn'', JNum 0), (''step'', JNum 0), (''index'', JNum 0), (''dt'', JArr [JNum 0]),
                            (''texts'', JArr [JStr ''a'', JStr ''b''])])]"

lemma edge_row_accepted:
  "map_sum id (map (json_field ''seq'')) (decode_storage_record edge_row)
    = Inr [Some (JNum 9007199254740991), Some (JNum 9007199254740992)]"
  by code_simp

section \<open>Samples\<close>

definition sample_chunk :: "nat \<Rightarrow> string \<Rightarrow> json" where
  "sample_chunk n s =
     JObj [(''type'', JStr ''assistant/chunk''), (''seq'', JNum (of_nat n)), (''time'', JNum (of_nat (10 * n))),
           (''data'', JObj [(''step'', JNum 0), (''turn'', JNum 1),
              (''chunk'', JObj [(''type'', JStr ''text-delta''), (''index'', JNum 0), (''text'', JStr s)])])]"

definition sample_chunks :: "json list" where
  "sample_chunks = [JObj [(''type'', JStr ''turn/start'')], sample_chunk 1 ''a'', sample_chunk 2 ''b'', sample_chunk 3 ''c'']"

theorem chunk_rows_roundtrip_witness:
  "length (pack_chunk_runs sample_chunks) = 2
    \<and> (\<exists>ess. traverse decode_storage_record (pack_chunk_runs sample_chunks) = Inr ess
        \<and> list_all2 is_deep_equal_json (concat ess) sample_chunks)"
proof -
  have "length (pack_chunk_runs sample_chunks) = 2" by code_simp
  moreover have "\<forall>e \<in> set sample_chunks. json_ok e \<and> row_kind_of e = None"
    by (simp add: sample_chunks_def sample_chunk_def row_kind_of_def)
  ultimately show ?thesis using chunk_rows_roundtrip by blast
qed

definition edge_fields :: "(string \<times> json) list" where
  "edge_fields = (case edge_row of JObj fs \<Rightarrow> fs | _ \<Rightarrow> [])"

definition edge_expanded :: chunk_row where
  "edge_expanded = \<lparr>cr_kind = Text_delta, cr_seq0 = 9007199254740991, cr_time0 = 0, cr_turn = 0, cr_step = 0,
     cr_index = 0, cr_call = None, cr_dt = [0], cr_members = [''a'', ''b'']\<rparr>"


end
