(* ===== verification/AgentInbox.thy ===== *)
theory AgentInbox
  imports SessionLog
begin

text \<open>
  The inbox of an agent (\<open>core/agent/src/inbox.ts\<close>, class \<open>Inbox\<close>): two ordered lists of pending
  user messages, every mutation of which is one normalized splice event of the agent's session log.
  \<open>inbox_host\<close> is the inbox with its session and the notifications published so far. The clock and the
  vetoing listeners of the append are arguments, as in \<open>session_append\<close>.

  \<open>start\<close> and \<open>removedCount\<close> of a stored splice are natural numbers; the check that they are safe
  integers is implied by the bounds, as no array is longer than \<open>2 ^ 32 - 1\<close>.
\<close>

section \<open>State\<close>

record inbox =
  ib_nextTurn :: "message list"
  ib_nextStep :: "message list"

datatype inbox_notice =
    Inserted message
  | Discarded message
  | Claimed message nat

record inbox_host =
  ih_session :: session
  ih_inbox :: inbox
  ih_notices :: "inbox_notice list"

datatype inbox_error =
    Invalid_splice
  | Already_pending string
  | Inbox_append_failed session_error
  | Invalid_persisted_splice nat inbox_error

definition empty_inbox :: inbox where
  "empty_inbox = \<lparr>ib_nextTurn = [], ib_nextStep = []\<rparr>"

fun pending_of :: "inbox_target \<Rightarrow> inbox \<Rightarrow> message list" where
  "pending_of Next_turn ib = ib_nextTurn ib"
| "pending_of Next_step ib = ib_nextStep ib"

fun set_pending :: "inbox_target \<Rightarrow> message list \<Rightarrow> inbox \<Rightarrow> inbox" where
  "set_pending Next_turn ms ib = ib\<lparr>ib_nextTurn := ms\<rparr>"
| "set_pending Next_step ms ib = ib\<lparr>ib_nextStep := ms\<rparr>"

definition has_pending :: "inbox \<Rightarrow> bool" where
  "has_pending ib \<longleftrightarrow> 0 < length (ib_nextTurn ib) \<or> 0 < length (ib_nextStep ib)"

section \<open>Splices\<close>

text \<open>\<open>toSpliced\<close> at a position and with a count that lie in the list.\<close>

definition spliced :: "nat \<Rightarrow> nat \<Rightarrow> 'a list \<Rightarrow> 'a list \<Rightarrow> 'a list" where
  "spliced start n ins xs = take start xs @ ins @ drop (start + n) xs"

fun first_repeat :: "string list \<Rightarrow> string list \<Rightarrow> string option" where
  "first_repeat seen [] = None"
| "first_repeat seen (i # is) = (if i \<in> set seen then Some i else first_repeat (i # seen) is)"

definition removed_count :: "inbox_splice \<Rightarrow> nat" where
  "removed_count sp = (case sp_removedCount sp of None \<Rightarrow> 0 | Some n \<Rightarrow> n)"

definition validate_splice :: "inbox \<Rightarrow> inbox_splice \<Rightarrow> inbox_error + unit" where
  "validate_splice ib sp =
     (let inbox = pending_of (sp_target sp) ib
      in if length inbox < sp_start sp \<or> length inbox < sp_start sp + removed_count sp then Inl Invalid_splice
         else
           let candidate = spliced (sp_start sp) (removed_count sp) (sp_inserted sp) inbox;
               all = (case sp_target sp of Next_turn \<Rightarrow> candidate @ ib_nextStep ib
                                         | Next_step \<Rightarrow> ib_nextTurn ib @ candidate)
           in (case first_repeat [] (map msg_id all) of
                 Some i \<Rightarrow> Inl (Already_pending i)
               | None \<Rightarrow> Inr ()))"

definition splice_inbox :: "inbox_splice \<Rightarrow> inbox \<Rightarrow> inbox" where
  "splice_inbox sp ib =
     set_pending (sp_target sp)
       (spliced (sp_start sp) (removed_count sp) (sp_inserted sp) (pending_of (sp_target sp) ib)) ib"

definition apply_splice :: "inbox \<Rightarrow> inbox_splice \<Rightarrow> inbox_error + inbox" where
  "apply_splice ib sp = and_then (validate_splice ib sp) (\<lambda>_. Inr (splice_inbox sp ib))"

definition apply_inbox_event :: "inbox \<Rightarrow> session_event \<Rightarrow> inbox_error + inbox" where
  "apply_inbox_event ib e =
     (case ev_data e of
        InboxSpliced sp \<Rightarrow> map_error (Invalid_persisted_splice (ev_seq e)) (apply_splice ib sp)
      | _ \<Rightarrow> Inr ib)"

text \<open>The events of a session after the ones it inherited.\<close>

definition seed_length :: "session \<Rightarrow> nat" where
  "seed_length s =
     (case json_field ''seedLength'' (sn_header s) of
        Some (JNum r) \<Rightarrow> (case safe_integer_of (Finite r) of Some k \<Rightarrow> nat k | None \<Rightarrow> 0)
      | _ \<Rightarrow> 0)"

definition own_suffix :: "session \<Rightarrow> session_event list" where
  "own_suffix s = drop (seed_length s) (sn_log s)"

definition new_inbox :: "session \<Rightarrow> inbox_error + inbox" where
  "new_inbox s = replay apply_inbox_event empty_inbox (own_suffix s)"

section \<open>Mutations\<close>

definition truncated :: "rat \<Rightarrow> int" where
  "truncated r = (if r < 0 then - \<lfloor>- r\<rfloor> else \<lfloor>r\<rfloor>)"

definition actual_start :: "nat \<Rightarrow> js_number \<Rightarrow> nat" where
  "actual_start len start =
     (case start of
        Finite r \<Rightarrow>
          if truncated r < 0 then nat (max (int len + truncated r) 0) else min (nat (truncated r)) len
      | NaN \<Rightarrow> 0
      | PosInfinity \<Rightarrow> len
      | NegInfinity \<Rightarrow> 0)"

definition actual_delete_count :: "nat \<Rightarrow> nat \<Rightarrow> js_number \<Rightarrow> nat" where
  "actual_delete_count len start count =
     (case count of
        Finite r \<Rightarrow> min (nat (max (truncated r) 0)) (len - start)
      | NaN \<Rightarrow> 0
      | PosInfinity \<Rightarrow> len - start
      | NegInfinity \<Rightarrow> 0)"

definition inbox_mutate ::
    "(session_event \<Rightarrow> string + unit) \<Rightarrow> int \<Rightarrow> inbox_target \<Rightarrow> js_number \<Rightarrow> js_number \<Rightarrow> message list \<Rightarrow> bool
      \<Rightarrow> inbox_host \<Rightarrow> (inbox_error + message list) \<times> inbox_host" where
  "inbox_mutate veto now target start deleteCount inserted discardRemoved h =
     (let inbox = pending_of target (ih_inbox h);
          i = actual_start (length inbox) start;
          n = actual_delete_count (length inbox) i deleteCount
      in if n = 0 \<and> inserted = [] then (Inr [], h)
         else
           let sp = \<lparr>sp_target = target, sp_start = i, sp_removedCount = (if n = 0 then None else Some n),
                     sp_inserted = inserted, sp_canceled = (discardRemoved \<and> 0 < n)\<rparr>
           in (case validate_splice (ih_inbox h) sp of
                 Inl e \<Rightarrow> (Inl e, h)
               | Inr _ \<Rightarrow>
                   (case session_append veto now (InboxSpliced sp) None None (ih_session h) of
                      (Inl e, s) \<Rightarrow> (Inl (Inbox_append_failed e), h\<lparr>ih_session := s\<rparr>)
                    | (Inr _, s) \<Rightarrow>
                        let removed = take n (drop i inbox)
                        in (Inr removed,
                            h\<lparr>ih_session := s, ih_inbox := splice_inbox sp (ih_inbox h),
                              ih_notices := ih_notices h @ (if discardRemoved then map Discarded removed else [])
                                @ map Inserted inserted\<rparr>))))"

definition inbox_splice_op ::
    "(session_event \<Rightarrow> string + unit) \<Rightarrow> int \<Rightarrow> inbox_target \<Rightarrow> js_number \<Rightarrow> js_number \<Rightarrow> message list
      \<Rightarrow> inbox_host \<Rightarrow> (inbox_error + message list) \<times> inbox_host" where
  "inbox_splice_op veto now target start deleteCount inserted h =
     inbox_mutate veto now target start deleteCount inserted True h"

abbreviation js_of_nat :: "nat \<Rightarrow> js_number" where
  "js_of_nat n \<equiv> Finite (of_nat n)"

definition inbox_clear ::
    "(session_event \<Rightarrow> string + unit) \<Rightarrow> int \<Rightarrow> inbox_host \<Rightarrow> (inbox_error + unit) \<times> inbox_host" where
  "inbox_clear veto now h =
     (case inbox_splice_op veto now Next_step (js_of_nat 0) (js_of_nat (length (ib_nextStep (ih_inbox h)))) [] h of
        (Inl e, h1) \<Rightarrow> (Inl e, h1)
      | (Inr _, h1) \<Rightarrow>
          (case inbox_splice_op veto now Next_turn (js_of_nat 0) (js_of_nat (length (ib_nextTurn (ih_inbox h1)))) [] h1 of
             (Inl e, h2) \<Rightarrow> (Inl e, h2)
           | (Inr _, h2) \<Rightarrow> (Inr (), h2)))"

definition publish_claims :: "message list \<Rightarrow> nat \<Rightarrow> inbox_host \<Rightarrow> inbox_host" where
  "publish_claims ms turn h = h\<lparr>ih_notices := ih_notices h @ map (\<lambda>m. Claimed m turn) ms\<rparr>"

definition inbox_claim ::
    "(session_event \<Rightarrow> string + unit) \<Rightarrow> int \<Rightarrow> inbox_target \<Rightarrow> nat \<Rightarrow> inbox_host
      \<Rightarrow> (inbox_error + message list) \<times> inbox_host" where
  "inbox_claim veto now target turn h =
     (case inbox_mutate veto now Next_step (js_of_nat 0) (js_of_nat (length (ib_nextStep (ih_inbox h)))) [] False h of
        (Inl e, h1) \<Rightarrow> (Inl e, h1)
      | (Inr steps, h1) \<Rightarrow>
          if target = Next_turn then
            (case inbox_mutate veto now Next_turn (js_of_nat 0) (js_of_nat 1) [] False h1 of
               (Inl e, h2) \<Rightarrow> (Inl e, h2)
             | (Inr turns, h2) \<Rightarrow> (Inr (steps @ turns), publish_claims (steps @ turns) turn h2))
          else (Inr steps, publish_claims steps turn h1))"

definition inbox_append ::
    "(session_event \<Rightarrow> string + unit) \<Rightarrow> int \<Rightarrow> inbox_target \<Rightarrow> message \<Rightarrow> inbox_host
      \<Rightarrow> (inbox_error + message list) \<times> inbox_host" where
  "inbox_append veto now target m h =
     inbox_splice_op veto now target (js_of_nat (length (pending_of target (ih_inbox h)))) (js_of_nat 0) [m] h"

definition inbox_prepend ::
    "(session_event \<Rightarrow> string + unit) \<Rightarrow> int \<Rightarrow> inbox_target \<Rightarrow> message \<Rightarrow> inbox_host
      \<Rightarrow> (inbox_error + message list) \<times> inbox_host" where
  "inbox_prepend veto now target m h = inbox_splice_op veto now target (js_of_nat 0) (js_of_nat 0) [m] h"

definition locate_message :: "string \<Rightarrow> inbox \<Rightarrow> (inbox_target \<times> nat) option" where
  "locate_message i ib =
     (case find_index (\<lambda>m. msg_id m = i) (ib_nextTurn ib) of
        Some k \<Rightarrow> Some (Next_turn, k)
      | None \<Rightarrow>
          (case find_index (\<lambda>m. msg_id m = i) (ib_nextStep ib) of
             Some k \<Rightarrow> Some (Next_step, k)
           | None \<Rightarrow> None))"

definition inbox_replace ::
    "(session_event \<Rightarrow> string + unit) \<Rightarrow> int \<Rightarrow> string \<Rightarrow> message \<Rightarrow> inbox_host
      \<Rightarrow> (inbox_error + bool) \<times> inbox_host" where
  "inbox_replace veto now i m h =
     (case locate_message i (ih_inbox h) of
        None \<Rightarrow> (Inr False, h)
      | Some (target, k) \<Rightarrow>
          (case inbox_splice_op veto now target (js_of_nat k) (js_of_nat 1) [m] h of
             (Inl e, h1) \<Rightarrow> (Inl e, h1)
           | (Inr _, h1) \<Rightarrow> (Inr True, h1)))"

definition inbox_remove ::
    "(session_event \<Rightarrow> string + unit) \<Rightarrow> int \<Rightarrow> string \<Rightarrow> inbox_host \<Rightarrow> (inbox_error + bool) \<times> inbox_host" where
  "inbox_remove veto now i h =
     (case locate_message i (ih_inbox h) of
        None \<Rightarrow> (Inr False, h)
      | Some (target, k) \<Rightarrow>
          (case inbox_splice_op veto now target (js_of_nat k) (js_of_nat 1) [] h of
             (Inl e, h1) \<Rightarrow> (Inl e, h1)
           | (Inr _, h1) \<Rightarrow> (Inr True, h1)))"

end
