(* ===== verification/AgentInboxProperties.thy ===== *)
theory AgentInboxProperties
  imports AgentInbox SessionLogProperties "HOL-Library.Multiset"
begin

text \<open>
  The inbox of an agent: its live lists are always what a new inbox reads from the session log, no
  message is pending twice, and no message gets lost: what was inserted is pending, discarded or
  claimed.
\<close>

section \<open>One splice\<close>

lemma spliced_mset:
  assumes "i + n \<le> length xs"
  shows "mset (spliced i n ins xs) + mset (take n (drop i xs)) = mset xs + mset ins"
proof -
  have "xs = take i xs @ take n (drop i xs) @ drop (i + n) xs"
    by (metis append_take_drop_id drop_drop add.commute)
  then have "mset xs = mset (take i xs) + mset (take n (drop i xs)) + mset (drop (i + n) xs)"
    by (metis mset_append add.assoc)
  then show ?thesis by (simp add: spliced_def)
qed

lemma first_repeat_None: "first_repeat seen is = None \<longleftrightarrow> distinct is \<and> set seen \<inter> set is = {}"
  by (induction "is" arbitrary: seen) auto

definition all_pending :: "inbox \<Rightarrow> message list" where
  "all_pending ib = ib_nextTurn ib @ ib_nextStep ib"

definition no_repeats :: "inbox \<Rightarrow> bool" where
  "no_repeats ib \<longleftrightarrow> distinct (map msg_id (all_pending ib))"

lemma validate_splice_ok:
  assumes "validate_splice ib sp = Inr ()"
  shows "sp_start sp + removed_count sp \<le> length (pending_of (sp_target sp) ib)" "no_repeats (splice_inbox sp ib)"
proof -
  from assms show "sp_start sp + removed_count sp \<le> length (pending_of (sp_target sp) ib)"
    by (simp add: validate_splice_def Let_def split: if_splits)
  from assms show "no_repeats (splice_inbox sp ib)"
    by (cases "sp_target sp")
      (auto simp: validate_splice_def Let_def splice_inbox_def no_repeats_def all_pending_def first_repeat_None
        split: if_splits option.splits)
qed

lemma splice_inbox_mset:
  assumes "sp_start sp + removed_count sp \<le> length (pending_of (sp_target sp) ib)"
  shows "mset (all_pending (splice_inbox sp ib))
      + mset (take (removed_count sp) (drop (sp_start sp) (pending_of (sp_target sp) ib)))
    = mset (all_pending ib) + mset (sp_inserted sp)"
  using spliced_mset [OF assms, of "sp_inserted sp"]
  by (cases "sp_target sp") (simp_all add: splice_inbox_def all_pending_def ac_simps)

lemma actual_start_le: "actual_start len start \<le> len"
  by (auto simp: actual_start_def split: js_number.splits)

lemma actual_delete_le: "i \<le> len \<Longrightarrow> i + actual_delete_count len i amount \<le> len"
  by (auto simp: actual_delete_count_def split: js_number.splits)

lemma truncated_nat [simp]: "truncated (of_nat n) = int n"
  by (simp add: truncated_def)

lemma actual_nat [simp]:
  "actual_start len (js_of_nat n) = min n len" "actual_delete_count len i (js_of_nat n) = min n (len - i)"
  by (simp_all add: actual_start_def actual_delete_count_def)

lemma mutate_cases:
  assumes "inbox_mutate veto now target start amount inserted discard h = (r, h')"
  obtains (nothing) "inserted = []" "r = Inr []" "h' = h"
    | (failed) e s where "r = Inl e" "h' = h\<lparr>ih_session := s\<rparr>" "sn_log s = sn_log (ih_session h)"
        "sn_header s = sn_header (ih_session h)"
    | (spliced) sp s e removed where "validate_splice (ih_inbox h) sp = Inr ()" "sp_target sp = target"
        "sp_inserted sp = inserted"
        "removed = take (removed_count sp) (drop (sp_start sp) (pending_of target (ih_inbox h)))"
        "sp_start sp = actual_start (length (pending_of target (ih_inbox h))) start"
        "removed_count sp = actual_delete_count (length (pending_of target (ih_inbox h))) (sp_start sp) amount"
        "sn_log s = sn_log (ih_session h) @ [e]" "ev_data e = InboxSpliced sp"
        "sn_header s = sn_header (ih_session h)" "r = Inr removed"
        "h' = h\<lparr>ih_session := s, ih_inbox := splice_inbox sp (ih_inbox h),
                ih_notices := ih_notices h @ (if discard then map Discarded removed else []) @ map Inserted inserted\<rparr>"
proof -
  define i where "i = actual_start (length (pending_of target (ih_inbox h))) start"
  define n where "n = actual_delete_count (length (pending_of target (ih_inbox h))) i amount"
  define sp where "sp = \<lparr>sp_target = target, sp_start = i, sp_removedCount = (if n = 0 then None else Some n),
                     sp_inserted = inserted, sp_canceled = (discard \<and> 0 < n)\<rparr>"
  note run = assms [unfolded inbox_mutate_def Let_def i_def [symmetric] n_def [symmetric] sp_def [symmetric]]
  have sp: "sp_target sp = target" "sp_start sp = i" "removed_count sp = n" "sp_inserted sp = inserted"
    by (simp_all add: sp_def removed_count_def)
  show thesis
  proof (cases "n = 0 \<and> inserted = []")
    case True
    with run have rh: "r = Inr [] \<and> h' = h" by auto
    show thesis by (rule nothing) (use True rh in simp_all)
  next
    case False
    note run = run [unfolded if_not_P [OF False]]
    show thesis
    proof (cases "validate_splice (ih_inbox h) sp")
      case (Inl e)
      with run show thesis by (intro failed [of e "ih_session h"]) simp_all
    next
      case (Inr u)
      obtain q s where ap: "session_append veto now (InboxSpliced sp) None None (ih_session h) = (q, s)" by fastforce
      note hd = session_append_header [OF ap]
      from session_append_log [OF ap] show thesis
      proof (elim disjE exE conjE)
        fix e assume "q = Inl e" "sn_log s = sn_log (ih_session h)"
        with run Inr ap hd show thesis by (intro failed [of "Inbox_append_failed e" s]) simp_all
      next
        let ?e = "candidate (ih_session h) now (InboxSpliced sp) None None"
        assume "q = Inr ?e" "sn_log s = sn_log (ih_session h) @ [?e]"
        with run Inr ap hd sp show thesis
          by (intro spliced [of sp "take n (drop i (pending_of target (ih_inbox h)))" s ?e])
            (simp_all add: i_def n_def candidate_def)
      qed
    qed
  qed
qed

section \<open>The inbox agrees with its log\<close>

definition inbox_ok :: "inbox_host \<Rightarrow> bool" where
  "inbox_ok h \<longleftrightarrow> new_inbox (ih_session h) = Inr (ih_inbox h) \<and> no_repeats (ih_inbox h)
     \<and> seed_length (ih_session h) \<le> length (sn_log (ih_session h))"

lemma seed_length_header: "sn_header s' = sn_header s \<Longrightarrow> seed_length s' = seed_length s"
  by (simp add: seed_length_def)

lemma own_suffix_same:
  "sn_log s' = sn_log s \<Longrightarrow> sn_header s' = sn_header s \<Longrightarrow> own_suffix s' = own_suffix s"
  by (simp add: own_suffix_def seed_length_def)

lemma own_suffix_snoc:
  "sn_log s' = sn_log s @ [e] \<Longrightarrow> sn_header s' = sn_header s \<Longrightarrow> seed_length s \<le> length (sn_log s) \<Longrightarrow>
    own_suffix s' = own_suffix s @ [e]"
  by (simp add: own_suffix_def seed_length_def)

lemma inbox_ok_same:
  assumes "inbox_ok h" "sn_log s = sn_log (ih_session h)" "sn_header s = sn_header (ih_session h)"
  shows "inbox_ok (h\<lparr>ih_session := s\<rparr>)"
proof -
  have "new_inbox s = new_inbox (ih_session h)" unfolding new_inbox_def own_suffix_same [OF assms(2,3)] ..
  moreover have "seed_length s \<le> length (sn_log s)"
    unfolding seed_length_header [OF assms(3)] assms(2) using assms(1) by (simp add: inbox_ok_def)
  ultimately show ?thesis using assms(1) by (simp add: inbox_ok_def)
qed

lemma inbox_ok_snoc:
  assumes "inbox_ok h" "sn_log s = sn_log (ih_session h) @ [e]" "sn_header s = sn_header (ih_session h)"
    "apply_inbox_event (ih_inbox h) e = Inr ib" "no_repeats ib"
  shows "inbox_ok (h\<lparr>ih_session := s, ih_inbox := ib, ih_notices := ns\<rparr>)"
proof -
  have len: "seed_length (ih_session h) \<le> length (sn_log (ih_session h))"
    and old: "new_inbox (ih_session h) = Inr (ih_inbox h)" using assms(1) by (simp_all add: inbox_ok_def)
  have "new_inbox s = Inr ib"
    unfolding new_inbox_def own_suffix_snoc [OF assms(2,3) len] replay_snoc old [unfolded new_inbox_def]
    using assms(4) by simp
  moreover have "seed_length s \<le> length (sn_log s)"
    unfolding seed_length_header [OF assms(3)] assms(2) using len by simp
  ultimately show ?thesis using assms(5) by (simp add: inbox_ok_def)
qed

lemma mutate_ok:
  assumes "inbox_mutate veto now target start amount inserted discard h = (r, h')" "inbox_ok h"
  shows "inbox_ok h'"
  using assms(1)
proof (cases rule: mutate_cases)
  case (failed e s)
  with assms(2) inbox_ok_same show ?thesis by simp
next
  case (spliced sp s e removed)
  have "apply_inbox_event (ih_inbox h) e = Inr (splice_inbox sp (ih_inbox h))"
    using spliced(1,8) by (simp add: apply_inbox_event_def apply_splice_def map_error_def)
  from inbox_ok_snoc [OF assms(2) spliced(7,9) this validate_splice_ok(2) [OF spliced(1)]] spliced(11)
  show ?thesis by simp
qed (use assms(2) in simp)

section \<open>Nothing is lost\<close>

definition inserted_in :: "inbox_notice list \<Rightarrow> message multiset" where
  "inserted_in ns = mset (List.map_filter (\<lambda>n. case n of Inserted m \<Rightarrow> Some m | _ \<Rightarrow> None) ns)"

definition settled_in :: "inbox_notice list \<Rightarrow> message multiset" where
  "settled_in ns = mset (List.map_filter (\<lambda>n. case n of Inserted m \<Rightarrow> None | Discarded m \<Rightarrow> Some m | Claimed m t \<Rightarrow> Some m) ns)"

lemma map_filter_app: "List.map_filter f (xs @ ys) = List.map_filter f xs @ List.map_filter f ys"
  by (simp add: List.map_filter_def)

lemma map_filter_map: "List.map_filter f (map g xs) = List.map_filter (f \<circ> g) xs"
  by (simp add: List.map_filter_def filter_map comp_def)

lemma map_filter_all [simp]: "List.map_filter (\<lambda>x. Some (g x)) xs = map g xs" "List.map_filter (\<lambda>x. None) xs = []"
  by (simp_all add: List.map_filter_def)

lemma notices_simps [simp]:
  "inserted_in (ms @ ns) = inserted_in ms + inserted_in ns"
  "settled_in (ms @ ns) = settled_in ms + settled_in ns"
  "inserted_in (map Inserted xs) = mset xs" "settled_in (map Inserted xs) = {#}"
  "inserted_in (map Discarded xs) = {#}" "settled_in (map Discarded xs) = mset xs"
  "inserted_in (map (\<lambda>m. Claimed m t) xs) = {#}" "settled_in (map (\<lambda>m. Claimed m t) xs) = mset xs"
  "inserted_in [] = {#}" "settled_in [] = {#}"
  by (simp_all add: inserted_in_def settled_in_def map_filter_app map_filter_map comp_def)

text \<open>The account of an inbox: the messages inserted are those pending, discarded or claimed.\<close>

definition balance :: "inbox_host \<Rightarrow> message multiset \<Rightarrow> bool" where
  "balance h initial \<longleftrightarrow>
     initial + inserted_in (ih_notices h) = mset (all_pending (ih_inbox h)) + settled_in (ih_notices h)"

lemma mutate_balance:
  assumes "inbox_mutate veto now target start amount inserted discard h = (r, h')"
    "initial + inserted_in (ih_notices h) = mset (all_pending (ih_inbox h)) + settled_in (ih_notices h) + owed"
  shows "initial + inserted_in (ih_notices h')
    = mset (all_pending (ih_inbox h')) + settled_in (ih_notices h') + owed
      + (if discard then {#} else (case r of Inr removed \<Rightarrow> mset removed | Inl _ \<Rightarrow> {#}))"
  using assms(1)
proof (cases rule: mutate_cases)
  case (spliced sp s e removed)
  have m: "mset (all_pending (splice_inbox sp (ih_inbox h))) + mset removed
      = mset (all_pending (ih_inbox h)) + mset inserted"
    using splice_inbox_mset [OF validate_splice_ok(1) [OF spliced(1)]] spliced(2-4) by simp
  have "initial + inserted_in (ih_notices h')
      = mset (all_pending (ih_inbox h)) + mset inserted + settled_in (ih_notices h) + owed"
    using assms(2) spliced(11) by (cases discard) (simp_all add: ac_simps)
  also have "\<dots> = mset (all_pending (splice_inbox sp (ih_inbox h))) + mset removed + settled_in (ih_notices h) + owed"
    using m by simp
  finally show ?thesis using spliced(10,11) by (cases discard) (simp_all add: ac_simps)
qed (use assms(2) in simp_all)

lemmas mutate_balance_discard = mutate_balance [where discard = True and owed = "{#}", simplified]

section \<open>All operations\<close>

datatype inbox_request =
    Splice_messages inbox_target js_number js_number "message list"
  | Clear_inbox
  | Claim_batch inbox_target nat
  | Append_message inbox_target message
  | Prepend_message inbox_target message
  | Replace_message string message
  | Remove_message string

definition ignoring :: "('e + 'a) \<times> 's \<Rightarrow> ('e + unit) \<times> 's" where
  "ignoring p = (map_sum id (\<lambda>_. ()) (fst p), snd p)"

lemma ignoring_iff: "ignoring p = (r, h') \<longleftrightarrow> (\<exists>x. p = (x, h') \<and> r = map_sum id (\<lambda>_. ()) x)"
  by (cases p) (auto simp: ignoring_def)

lemma is_ok_map_sum [simp]: "is_ok (map_sum id f x) = is_ok x"
  by (cases x) auto

text \<open>The outcome of a request (whether it returned) and the state it leaves.\<close>

fun inbox_perform ::
    "(session_event \<Rightarrow> string + unit) \<Rightarrow> int \<Rightarrow> inbox_request \<Rightarrow> inbox_host \<Rightarrow> (inbox_error + unit) \<times> inbox_host" where
  "inbox_perform veto now (Splice_messages t i n ms) h =
     ignoring (inbox_splice_op veto now t i n ms h)"
| "inbox_perform veto now Clear_inbox h = inbox_clear veto now h"
| "inbox_perform veto now (Claim_batch t turn) h = ignoring (inbox_claim veto now t turn h)"
| "inbox_perform veto now (Append_message t m) h = ignoring (inbox_append veto now t m h)"
| "inbox_perform veto now (Prepend_message t m) h = ignoring (inbox_prepend veto now t m h)"
| "inbox_perform veto now (Replace_message i m) h = ignoring (inbox_replace veto now i m h)"
| "inbox_perform veto now (Remove_message i) h = ignoring (inbox_remove veto now i h)"

lemma publish_claims_simps [simp]:
  "ih_session (publish_claims ms t h) = ih_session h" "ih_inbox (publish_claims ms t h) = ih_inbox h"
  "ih_notices (publish_claims ms t h) = ih_notices h @ map (\<lambda>m. Claimed m t) ms"
  by (simp_all add: publish_claims_def)

lemma publish_claims_ok [simp]: "inbox_ok (publish_claims ms t h) = inbox_ok h"
  by (simp add: inbox_ok_def)

lemma splice_op_ok: "inbox_splice_op veto now t i n ms h = (r, h') \<Longrightarrow> inbox_ok h \<Longrightarrow> inbox_ok h'"
  unfolding inbox_splice_op_def by (rule mutate_ok)

lemma claim_ok:
  assumes "inbox_claim veto now t turn h = (r, h')" "inbox_ok h"
  shows "inbox_ok h'"
proof -
  obtain r1 h1 where one: "inbox_mutate veto now Next_step (js_of_nat 0)
      (js_of_nat (length (ib_nextStep (ih_inbox h)))) [] False h = (r1, h1)" by fastforce
  obtain r2 h2 where two: "inbox_mutate veto now Next_turn (js_of_nat 0) (js_of_nat 1) [] False h1 = (r2, h2)"
    by fastforce
  from mutate_ok [OF one assms(2)] have "inbox_ok h1" .
  moreover from mutate_ok [OF two this] have "inbox_ok h2" .
  ultimately show ?thesis using assms(1) one two
    by (auto simp: inbox_claim_def split: sum.splits if_splits)
qed

lemma inbox_perform_ok:
  assumes "inbox_perform veto now q h = (r, h')" "inbox_ok h"
  shows "inbox_ok h'"
  using assms
  by (cases q)
    (auto simp: inbox_clear_def inbox_append_def inbox_prepend_def inbox_replace_def inbox_remove_def
      ignoring_iff intro: splice_op_ok claim_ok split: prod.splits sum.splits option.splits)

lemma splice_op_balance: "inbox_splice_op veto now t i n ms h = (r, h') \<Longrightarrow> balance h initial \<Longrightarrow> balance h' initial"
  unfolding inbox_splice_op_def balance_def by (rule mutate_balance_discard)

lemma claim_balance:
  assumes "inbox_claim veto now target turn h = (Inr ms, h')" "balance h initial"
  shows "balance h' initial"
proof -
  let ?mut = "inbox_mutate veto now"
  obtain r1 h1 where one: "?mut Next_step (js_of_nat 0) (js_of_nat (length (ib_nextStep (ih_inbox h)))) [] False h = (r1, h1)"
    by fastforce
  with assms(1) obtain steps where steps: "r1 = Inr steps" by (auto simp: inbox_claim_def split: sum.splits)
  have b1: "initial + inserted_in (ih_notices h1)
      = mset (all_pending (ih_inbox h1)) + settled_in (ih_notices h1) + mset steps"
    using mutate_balance [OF one, of initial "{#}"] assms(2) steps by (simp add: balance_def)
  show ?thesis
  proof (cases "target = Next_turn")
    case False
    with assms(1) one steps have "h' = publish_claims steps turn h1" by (auto simp: inbox_claim_def)
    with b1 show ?thesis by (simp add: balance_def ac_simps)
  next
    case True
    obtain r2 h2 where two: "?mut Next_turn (js_of_nat 0) (js_of_nat 1) [] False h1 = (r2, h2)" by fastforce
    with True assms(1) one steps obtain turns where turns: "r2 = Inr turns" "h' = publish_claims (steps @ turns) turn h2"
      by (auto simp: inbox_claim_def split: sum.splits)
    have "initial + inserted_in (ih_notices h2)
        = mset (all_pending (ih_inbox h2)) + settled_in (ih_notices h2) + mset steps + mset turns"
      using mutate_balance [OF two, of initial "mset steps"] b1 turns(1) by simp
    with turns(2) show ?thesis by (simp add: balance_def ac_simps)
  qed
qed

lemma inbox_perform_balance:
  assumes "inbox_perform veto now q h = (r, h')" "balance h initial" "is_ok r \<or> (\<nexists>t n. q = Claim_batch t n)"
  shows "balance h' initial"
proof (cases "\<exists>t n. q = Claim_batch t n")
  case True
  with assms(1) obtain t n o' where c: "inbox_claim veto now t n h = (o', h')" "r = map_sum id (\<lambda>_. ()) o'"
    by (auto simp: ignoring_iff)
  with True assms(3) have "is_ok o'" by auto
  then obtain ms where "o' = Inr ms" by (auto simp: is_ok_iff)
  with c(1) assms(2) show ?thesis by (auto intro: claim_balance)
next
  case False
  with assms(1,2) show ?thesis
    by (cases q)
      (auto simp: inbox_clear_def inbox_append_def inbox_prepend_def inbox_replace_def inbox_remove_def
        ignoring_iff intro: splice_op_balance split: prod.splits sum.splits option.splits)
qed

section \<open>Reachable inboxes\<close>

interpretation inbox_log: strict_log apply_inbox_event no_repeats
proof
  fix ib e ib' assume "no_repeats ib" "apply_inbox_event ib e = Inr ib'"
  then show "no_repeats ib'"
    by (auto simp: apply_inbox_event_def apply_splice_def map_error_def res_simps
        intro: validate_splice_ok(2) split: event_data.splits sum.splits)
qed

lemma new_inbox_no_repeats: "new_inbox s = Inr ib \<Longrightarrow> no_repeats ib"
  unfolding new_inbox_def
  by (rule inbox_log.replay_inv [of empty_inbox]) (simp_all add: no_repeats_def all_pending_def empty_inbox_def)

text \<open>
  An inbox is made over a session; besides its own requests, other parts of the program append events to the
  session. \<open>inbox_run\<close> leaves out the calls of \<open>claim\<close> that fail half way.
\<close>

definition appended_by_other :: "inbox_host \<Rightarrow> inbox_host \<Rightarrow> bool" where
  "appended_by_other h h' \<longleftrightarrow>
     (\<exists>veto now d op sources. (\<forall>sp. d \<noteq> InboxSpliced sp)
        \<and> h' = h\<lparr>ih_session := snd (session_append veto now d op sources (ih_session h))\<rparr>)"

inductive inbox_reach :: "inbox_host \<Rightarrow> bool" where
  ir_new: "new_inbox s = Inr ib \<Longrightarrow> seed_length s \<le> length (sn_log s) \<Longrightarrow>
    inbox_reach \<lparr>ih_session = s, ih_inbox = ib, ih_notices = []\<rparr>"
| ir_request: "inbox_reach h \<Longrightarrow> inbox_reach (snd (inbox_perform veto now q h))"
| ir_other: "inbox_reach h \<Longrightarrow> appended_by_other h h' \<Longrightarrow> inbox_reach h'"

inductive inbox_run :: "inbox_host \<Rightarrow> inbox_host \<Rightarrow> bool" where
  run_start: "inbox_run h h"
| run_request: "inbox_run h0 h \<Longrightarrow> inbox_perform veto now q h = (r, h') \<Longrightarrow>
    is_ok r \<or> (\<nexists>t n. q = Claim_batch t n) \<Longrightarrow> inbox_run h0 h'"
| run_other: "inbox_run h0 h \<Longrightarrow> appended_by_other h h' \<Longrightarrow> inbox_run h0 h'"

lemma appended_by_other_ok:
  assumes "appended_by_other h h'" "inbox_ok h"
  shows "inbox_ok h'"
proof -
  from assms(1) obtain veto now d op sources where d: "\<forall>sp. d \<noteq> InboxSpliced sp"
    and h': "h' = h\<lparr>ih_session := snd (session_append veto now d op sources (ih_session h))\<rparr>"
    by (auto simp: appended_by_other_def)
  obtain r s where ap: "session_append veto now d op sources (ih_session h) = (r, s)" by fastforce
  note hd = session_append_header [OF ap]
  from session_append_log [OF ap] show ?thesis
  proof (elim disjE exE conjE)
    assume "sn_log s = sn_log (ih_session h)"
    with inbox_ok_same [OF assms(2) this hd] h' ap show ?thesis by simp
  next
    let ?e = "candidate (ih_session h) now d op sources"
    assume e: "sn_log s = sn_log (ih_session h) @ [?e]"
    have "apply_inbox_event (ih_inbox h) ?e = Inr (ih_inbox h)"
      using d by (auto simp: apply_inbox_event_def candidate_def split: event_data.splits)
    moreover have "no_repeats (ih_inbox h)" using assms(2) by (simp add: inbox_ok_def)
    ultimately have "inbox_ok (h\<lparr>ih_session := s, ih_inbox := ih_inbox h, ih_notices := ih_notices h\<rparr>)"
      by (rule inbox_ok_snoc [OF assms(2) e hd])
    moreover have "h\<lparr>ih_session := s, ih_inbox := ih_inbox h, ih_notices := ih_notices h\<rparr> = h'"
      using h' ap by simp
    ultimately show ?thesis by simp
  qed
qed

text \<open>
  C22: The live inbox is the durable one: at any time an inbox newly made over the session would hold the same
  messages in the same order, and no message identity is pending twice.
\<close>

theorem inbox_is_durable:
  assumes "inbox_reach h"
  shows "new_inbox (ih_session h) = Inr (ih_inbox h)
    \<and> distinct (map msg_id (ib_nextTurn (ih_inbox h) @ ib_nextStep (ih_inbox h)))"
proof -
  from assms have "inbox_ok h"
  proof (induction rule: inbox_reach.induct)
    case (ir_new s ib)
    then show ?case by (simp add: inbox_ok_def new_inbox_no_repeats)
  next
    case (ir_request h veto now q)
    then show ?case by (cases "inbox_perform veto now q h") (auto intro: inbox_perform_ok)
  next
    case (ir_other h h')
    then show ?case by (auto intro: appended_by_other_ok)
  qed
  then show ?thesis by (simp add: inbox_ok_def no_repeats_def all_pending_def)
qed


section \<open>A sample inbox\<close>

definition sample_prompt :: "string \<Rightarrow> message" where
  "sample_prompt i = \<lparr>msg_id = i, msg_role = Role_user, msg_content = [TextBlock ''hi''], msg_source = UserSource\<rparr>"

definition sample_inbox0 :: inbox_host where
  "sample_inbox0 = \<lparr>ih_session = empty_session, ih_inbox = empty_inbox, ih_notices = []\<rparr>"

definition sample_inbox1 :: inbox_host where
  "sample_inbox1 = snd (inbox_perform (\<lambda>_. Inr ()) 0 (Append_message Next_turn (sample_prompt ''p1'')) sample_inbox0)"

definition sample_inbox2 :: inbox_host where
  "sample_inbox2 = snd (inbox_perform (\<lambda>_. Inr ()) 0 (Append_message Next_step (sample_prompt ''p2'')) sample_inbox1)"

definition sample_inbox3 :: inbox_host where
  "sample_inbox3 = snd (inbox_perform (\<lambda>_. Inr ()) 0 (Claim_batch Next_turn 1) sample_inbox2)"

lemma sample_inbox_values:
  "ih_inbox sample_inbox2 = \<lparr>ib_nextTurn = [sample_prompt ''p1''], ib_nextStep = [sample_prompt ''p2'']\<rparr>"
  "ih_notices sample_inbox3 =
    [Inserted (sample_prompt ''p1''), Inserted (sample_prompt ''p2''),
     Claimed (sample_prompt ''p2'') 1, Claimed (sample_prompt ''p1'') 1]"
  by code_simp+

lemma sample_inbox_reach: "inbox_reach sample_inbox0"
  unfolding sample_inbox0_def
  by (rule ir_new) (simp_all add: new_inbox_def own_suffix_def seed_length_def empty_session_def)

theorem inbox_is_durable_witness:
  "new_inbox (ih_session sample_inbox2) = Inr (ih_inbox sample_inbox2)
    \<and> distinct (map msg_id (ib_nextTurn (ih_inbox sample_inbox2) @ ib_nextStep (ih_inbox sample_inbox2)))"
  unfolding sample_inbox2_def sample_inbox1_def
  by (rule inbox_is_durable [OF ir_request [OF ir_request [OF sample_inbox_reach]]])


text \<open>
  A \<open>claim\<close> of the next turn whose second append is refused has already removed the next-step messages
  durably, and publishes nothing for them.
\<close>

definition refuse_turns :: "session_event \<Rightarrow> string + unit" where
  "refuse_turns e =
     (case ev_data e of InboxSpliced sp \<Rightarrow> if sp_target sp = Next_turn then Inl ''refused'' else Inr () | _ \<Rightarrow> Inr ())"

definition sample_inbox_attached :: inbox_host where
  "sample_inbox_attached = sample_inbox2\<lparr>ih_session := (ih_session sample_inbox2)\<lparr>sn_appending := Some False\<rparr>\<rparr>"

lemma failed_claim_drops_steps:
  "case inbox_perform refuse_turns 0 (Claim_batch Next_turn 1) sample_inbox_attached of
     (r, h) \<Rightarrow> r = Inl (Inbox_append_failed (Vetoed ''refused'')) \<and> ib_nextStep (ih_inbox h) = []
       \<and> ih_notices h = ih_notices sample_inbox_attached"
  by code_simp

end
