(* ===== verification/TeamFold.thy ===== *)
theory TeamFold
  imports GoalFold GraphSearch "HOL-Library.Monad_Syntax"
begin

text \<open>
  The durable state of an agent team (\<open>experimental/agent-team/src/types.ts\<close>): its members, tasks and
  peer messages, kept as four kinds of events in the session log of the team lead; the strict decoder of
  those events and the replay fold over them (\<open>fold.ts\<close>), with the validation of the task dependency
  graph (\<open>task-graph.ts\<close>).

  The Zod schemas are written as readers of JSON values: \<open>None\<close> is a value the schema rejects. The
  blocks of a message keep their JSON form. Every \<open>throw\<close> is a constructor of \<open>team_fault\<close>.
\<close>

section \<open>Members, tasks and messages\<close>

datatype member_phase = Provisioning | Active | Failed

datatype member_context = Context_fresh | Context_fork

record team_member =
  tm_id :: string
  tm_name :: string
  tm_description :: string
  tm_provider :: string
  tm_context :: member_context
  tm_phase :: member_phase
  tm_error :: "string option"

datatype task_status = Task_pending | Task_in_progress | Task_completed | Task_deleted

record team_task =
  tt_id :: string
  tt_revision :: nat
  tt_subject :: string
  tt_description :: string
  tt_status :: task_status
  tt_ownerId :: "string option"
  tt_blockedBy :: "string list"
  tt_writeScopes :: "string list"

datatype message_delivery = Delivery_quiet | Delivery_wakeup

record team_message =
  tg_id :: string
  tg_senderId :: string
  tg_senderName :: string
  tg_targetId :: string
  tg_delivery :: message_delivery
  tg_content :: "json list"

datatype team_record =
    Member_record team_member
  | Task_record team_task
  | Queued_record team_message
  | Delivered_record string string

section \<open>Readers of stored values\<close>

definition only_keys :: "string list \<Rightarrow> (string \<times> json) list \<Rightarrow> bool" where
  "only_keys ks fs \<longleftrightarrow> set (map fst fs) \<subseteq> set ks"

definition z_string :: "json option \<Rightarrow> string option" where
  "z_string v = (case v of Some (JStr s) \<Rightarrow> Some s | _ \<Rightarrow> None)"

definition z_text :: "json option \<Rightarrow> string option" where
  "z_text v = (case z_string v of Some s \<Rightarrow> if s = [] then None else Some s | None \<Rightarrow> None)"

definition z_enum :: "(string \<times> 'a) list \<Rightarrow> json option \<Rightarrow> 'a option" where
  "z_enum names v = Option.bind (z_string v) (map_of names)"

definition z_optional :: "(json option \<Rightarrow> 'a option) \<Rightarrow> json option \<Rightarrow> 'a option option" where
  "z_optional read v = (case v of None \<Rightarrow> Some None | Some j \<Rightarrow> map_option Some (read (Some j)))"

definition z_array :: "(json option \<Rightarrow> 'a option) \<Rightarrow> json option \<Rightarrow> 'a list option" where
  "z_array read v = (case v of Some (JArr xs) \<Rightarrow> those (map (\<lambda>x. read (Some x)) xs) | _ \<Rightarrow> None)"

definition z_boolean :: "json option \<Rightarrow> bool option" where
  "z_boolean v = (case v of Some (JBool b) \<Rightarrow> Some b | _ \<Rightarrow> None)"

definition z_natural :: "json option \<Rightarrow> nat option" where
  "z_natural v = (case json_integer v of Some k \<Rightarrow> if k < 0 then None else Some (nat k) | None \<Rightarrow> None)"

definition z_positive :: "json option \<Rightarrow> nat option" where
  "z_positive v = (case z_natural v of Some n \<Rightarrow> if n < 1 then None else Some n | None \<Rightarrow> None)"

text \<open>\<open>/^task-(\d+)$/\<close>: the number of a numeric task id.\<close>

definition task_number :: "string \<Rightarrow> nat option" where
  "task_number s =
     (if starts_with ''task-'' s \<and> drop 5 s \<noteq> [] \<and> list_all is_digit (drop 5 s)
      then Some (nat_of_digits (drop 5 s)) else None)"

definition z_task_id :: "json option \<Rightarrow> string option" where
  "z_task_id v =
     (case z_text v of
        None \<Rightarrow> None
      | Some s \<Rightarrow> (case task_number s of
                   Some n \<Rightarrow> if int n \<le> max_safe then Some s else None
                 | None \<Rightarrow> Some s))"

section \<open>Content blocks\<close>

definition image_attachment_ok :: "json option \<Rightarrow> bool" where
  "image_attachment_ok v =
     (case v of
        Some (JObj fs) \<Rightarrow>
          only_keys [''attachmentId'', ''mediaType'', ''bytes'', ''width'', ''height'', ''name''] fs
          \<and> z_text (map_of fs ''attachmentId'') \<noteq> None
          \<and> map_of fs ''mediaType'' \<in> Some ` JStr ` {''image/png'', ''image/jpeg'', ''image/webp'', ''image/gif''}
          \<and> z_natural (map_of fs ''bytes'') \<noteq> None
          \<and> z_positive (map_of fs ''width'') \<noteq> None
          \<and> z_positive (map_of fs ''height'') \<noteq> None
          \<and> z_optional z_string (map_of fs ''name'') \<noteq> None
      | _ \<Rightarrow> False)"

lemma content_size:
  assumes "map_of fs k = Some (JArr xs)" "x \<in> set xs"
  shows "size x < Suc (size_list (size_prod (\<lambda>_. 0) size) fs)"
proof -
  have "size (JArr xs) < Suc (size_list (size_prod (\<lambda>_. 0) size) fs)"
    using json_size_obj [OF map_of_SomeD [OF assms(1)]] by simp
  moreover have "size x < size (JArr xs)" using json_size_arr [OF assms(2)] by simp
  ultimately show ?thesis by simp
qed

function (sequential) content_block_ok :: "json \<Rightarrow> bool" where
  "content_block_ok (JObj fs) =
     (case map_of fs ''type'' of
        Some (JStr t) \<Rightarrow>
          if t = ''text'' \<or> t = ''reasoning''
          then only_keys [''type'', ''text''] fs \<and> z_string (map_of fs ''text'') \<noteq> None
          else if t = ''image''
          then only_keys [''type'', ''attachment''] fs \<and> image_attachment_ok (map_of fs ''attachment'')
          else if t = ''tool-call''
          then only_keys [''type'', ''id'', ''name'', ''arguments''] fs
               \<and> z_text (map_of fs ''id'') \<noteq> None
               \<and> z_string (map_of fs ''name'') \<noteq> None
               \<and> z_string (map_of fs ''arguments'') \<noteq> None
          else if t = ''tool-result''
          then only_keys [''type'', ''toolCallId'', ''content'', ''isError''] fs
               \<and> z_text (map_of fs ''toolCallId'') \<noteq> None
               \<and> z_optional z_boolean (map_of fs ''isError'') \<noteq> None
               \<and> (case map_of fs ''content'' of
                    Some (JArr xs) \<Rightarrow> (\<forall>x \<in> set xs. content_block_ok x)
                  | _ \<Rightarrow> False)
          else t \<noteq> []
      | _ \<Rightarrow> False)"
| "content_block_ok _ = False"
  by pat_completeness auto
termination
  by (relation "measure size") (auto simp: content_size)

definition z_content_block :: "json option \<Rightarrow> json option" where
  "z_content_block v = (case v of Some j \<Rightarrow> if content_block_ok j then Some j else None | None \<Rightarrow> None)"

section \<open>The strict decoder\<close>

fun member_phase_name :: "member_phase \<Rightarrow> string" where
  "member_phase_name Provisioning = ''provisioning''"
| "member_phase_name Active = ''active''"
| "member_phase_name Failed = ''failed''"

fun context_name :: "member_context \<Rightarrow> string" where
  "context_name Context_fresh = ''fresh''"
| "context_name Context_fork = ''fork''"

fun task_status_name :: "task_status \<Rightarrow> string" where
  "task_status_name Task_pending = ''pending''"
| "task_status_name Task_in_progress = ''in_progress''"
| "task_status_name Task_completed = ''completed''"
| "task_status_name Task_deleted = ''deleted''"

fun delivery_name :: "message_delivery \<Rightarrow> string" where
  "delivery_name Delivery_quiet = ''quiet''"
| "delivery_name Delivery_wakeup = ''wakeup''"

definition names_of :: "('a \<Rightarrow> string) \<Rightarrow> 'a list \<Rightarrow> (string \<times> 'a) list" where
  "names_of name xs = map (\<lambda>x. (name x, x)) xs"

definition z_phase :: "json option \<Rightarrow> member_phase option" where
  "z_phase = z_enum (names_of member_phase_name [Provisioning, Active, Failed])"

definition z_context :: "json option \<Rightarrow> member_context option" where
  "z_context = z_enum (names_of context_name [Context_fresh, Context_fork])"

definition z_status :: "json option \<Rightarrow> task_status option" where
  "z_status = z_enum (names_of task_status_name [Task_pending, Task_in_progress, Task_completed, Task_deleted])"

definition z_delivery :: "json option \<Rightarrow> message_delivery option" where
  "z_delivery = z_enum (names_of delivery_name [Delivery_quiet, Delivery_wakeup])"

definition z_object :: "string list \<Rightarrow> json option \<Rightarrow> (string \<times> json) list option" where
  "z_object keys v =
     (case v of Some (JObj fs) \<Rightarrow> if only_keys keys fs then Some fs else None | _ \<Rightarrow> None)"

definition z_member :: "json option \<Rightarrow> team_member option" where
  "z_member v =
     do {
       fs \<leftarrow> z_object [''id'', ''name'', ''description'', ''provider'', ''context'', ''phase'', ''error''] v;
       i \<leftarrow> z_text (map_of fs ''id'');
       name \<leftarrow> z_string (map_of fs ''name'');
       description \<leftarrow> z_string (map_of fs ''description'');
       provider \<leftarrow> z_string (map_of fs ''provider'');
       context' \<leftarrow> z_context (map_of fs ''context'');
       phase \<leftarrow> z_phase (map_of fs ''phase'');
       failure \<leftarrow> z_optional z_string (map_of fs ''error'');
       Some \<lparr>tm_id = i, tm_name = name, tm_description = description, tm_provider = provider,
             tm_context = context', tm_phase = phase, tm_error = failure\<rparr>
     }"

definition z_task :: "json option \<Rightarrow> team_task option" where
  "z_task v =
     do {
       fs \<leftarrow> z_object [''id'', ''revision'', ''subject'', ''description'', ''status'', ''ownerId'',
                    ''blockedBy'', ''writeScopes''] v;
       i \<leftarrow> z_task_id (map_of fs ''id'');
       revision \<leftarrow> z_positive (map_of fs ''revision'');
       subject \<leftarrow> z_string (map_of fs ''subject'');
       description \<leftarrow> z_string (map_of fs ''description'');
       status \<leftarrow> z_status (map_of fs ''status'');
       owner \<leftarrow> z_optional z_text (map_of fs ''ownerId'');
       blockers \<leftarrow> z_array z_task_id (map_of fs ''blockedBy'');
       scopes \<leftarrow> z_array z_string (map_of fs ''writeScopes'');
       Some \<lparr>tt_id = i, tt_revision = revision, tt_subject = subject, tt_description = description,
             tt_status = status, tt_ownerId = owner, tt_blockedBy = blockers, tt_writeScopes = scopes\<rparr>
     }"

definition z_message :: "json option \<Rightarrow> team_message option" where
  "z_message v =
     do {
       fs \<leftarrow> z_object [''id'', ''senderId'', ''senderName'', ''targetId'', ''delivery'', ''content''] v;
       i \<leftarrow> z_text (map_of fs ''id'');
       sender \<leftarrow> z_text (map_of fs ''senderId'');
       name \<leftarrow> z_string (map_of fs ''senderName'');
       target \<leftarrow> z_text (map_of fs ''targetId'');
       delivery \<leftarrow> z_delivery (map_of fs ''delivery'');
       content \<leftarrow> z_array z_content_block (map_of fs ''content'');
       Some \<lparr>tg_id = i, tg_senderId = sender, tg_senderName = name, tg_targetId = target,
             tg_delivery = delivery, tg_content = content\<rparr>
     }"

definition team_event_types :: "string list" where
  "team_event_types = [''team/member'', ''team/task'', ''team/message/queued'', ''team/message/delivered'']"

definition is_team_event :: "session_event \<Rightarrow> bool" where
  "is_team_event e \<longleftrightarrow> ev_type e \<in> set team_event_types"

text \<open>The version and team of a team event; a loose object, so the other properties are not looked at.\<close>

definition read_selector :: "json \<Rightarrow> (nat \<times> string) option" where
  "read_selector d =
     (case d of
        JObj fs \<Rightarrow> do { version \<leftarrow> z_natural (map_of fs ''version''); team \<leftarrow> z_text (map_of fs ''teamId'');
                      Some (version, team) }
      | _ \<Rightarrow> None)"

definition z_envelope :: "string list \<Rightarrow> json \<Rightarrow> (string \<times> (string \<times> json) list) option" where
  "z_envelope keys d =
     do {
       fs \<leftarrow> z_object ([''version'', ''teamId''] @ keys) (Some d);
       (if map_of fs ''version'' = Some (JNum 1) then Some () else None);
       team \<leftarrow> z_text (map_of fs ''teamId'');
       Some (team, fs)
     }"

definition parse_current_team_event :: "string \<Rightarrow> json \<Rightarrow> (string \<times> team_record) option" where
  "parse_current_team_event type d =
     (if type = ''team/member'' then
        do { (team, fs) \<leftarrow> z_envelope [''member''] d; m \<leftarrow> z_member (map_of fs ''member'');
             Some (team, Member_record m) }
      else if type = ''team/task'' then
        do { (team, fs) \<leftarrow> z_envelope [''task''] d; t \<leftarrow> z_task (map_of fs ''task'');
             Some (team, Task_record t) }
      else if type = ''team/message/queued'' then
        do { (team, fs) \<leftarrow> z_envelope [''message''] d; m \<leftarrow> z_message (map_of fs ''message'');
             Some (team, Queued_record m) }
      else
        do { (team, fs) \<leftarrow> z_envelope [''messageId'', ''targetId''] d;
             message \<leftarrow> z_text (map_of fs ''messageId''); target \<leftarrow> z_text (map_of fs ''targetId'');
             Some (team, Delivered_record message target) })"

section \<open>The task graph\<close>

datatype graph_error =
    Blocks_itself string
  | Repeats_blocker string string
  | Missing_blocker string string
  | Cycle_includes string

datatype graph_violation = Violation_missing | Violation_duplicate | Violation_cycle

fun violation_of :: "graph_error \<Rightarrow> graph_violation" where
  "violation_of (Blocks_itself _) = Violation_cycle"
| "violation_of (Repeats_blocker _ _) = Violation_duplicate"
| "violation_of (Missing_blocker _ _) = Violation_missing"
| "violation_of (Cycle_includes _) = Violation_cycle"

definition task_deleted :: "(string \<times> team_task) list \<Rightarrow> string \<Rightarrow> bool" where
  "task_deleted tasks i =
     (case map_of tasks i of None \<Rightarrow> True | Some t \<Rightarrow> tt_status t = Task_deleted)"

fun check_blockers :: "(string \<times> team_task) list \<Rightarrow> string \<Rightarrow> string list \<Rightarrow> string list \<Rightarrow> graph_error + unit" where
  "check_blockers tasks i seen [] = Inr ()"
| "check_blockers tasks i seen (b # bs) =
     (if b = i then Inl (Blocks_itself i)
      else if b \<in> set seen then Inl (Repeats_blocker i b)
      else if task_deleted tasks b then Inl (Missing_blocker b i)
      else check_blockers tasks i (b # seen) bs)"

fun check_all_blockers :: "(string \<times> team_task) list \<Rightarrow> team_task list \<Rightarrow> graph_error + unit" where
  "check_all_blockers tasks [] = Inr ()"
| "check_all_blockers tasks (t # ts) =
     (if tt_status t = Task_deleted then check_all_blockers tasks ts
      else and_then (check_blockers tasks (tt_id t) [] (tt_blockedBy t)) (\<lambda>_. check_all_blockers tasks ts))"

record task_search =
  sv_visiting :: "string list"
  sv_visited :: "string list"

text \<open>
  The closure \<open>visit\<close>: \<open>None\<close> is lack of fuel, \<open>Inl\<close> the thrown error. Every nested call enters a
  task that is not being visited, so one more unit of fuel than there are tasks is enough.
\<close>

definition fold_throwing :: "('a \<Rightarrow> 's \<Rightarrow> ('e + 's) option) \<Rightarrow> 'a list \<Rightarrow> 's \<Rightarrow> ('e + 's) option" where
  "fold_throwing f xs s =
     fold_opt (\<lambda>x r. case r of Inl e \<Rightarrow> Some (Inl e) | Inr u \<Rightarrow> f x u) xs (Inr s)"

primrec visit_task ::
    "nat \<Rightarrow> (string \<times> team_task) list \<Rightarrow> string \<Rightarrow> task_search \<Rightarrow> (graph_error + task_search) option" where
  "visit_task 0 tasks i st = None"
| "visit_task (Suc fuel) tasks i st =
     (if i \<in> set (sv_visiting st) then Some (Inl (Cycle_includes i))
      else if i \<in> set (sv_visited st) then Some (Inr st)
      else (case map_of tasks i of
              None \<Rightarrow> Some (Inr st)
            | Some t \<Rightarrow>
                if tt_status t = Task_deleted then Some (Inr st)
                else (case fold_throwing (visit_task fuel tasks) (tt_blockedBy t)
                             (st\<lparr>sv_visiting := i # sv_visiting st\<rparr>) of
                        None \<Rightarrow> None
                      | Some (Inl e) \<Rightarrow> Some (Inl e)
                      | Some (Inr u) \<Rightarrow>
                          Some (Inr (u\<lparr>sv_visiting := removeAll i (sv_visiting u),
                                       sv_visited := i # sv_visited u\<rparr>)))))"

definition search_cycles :: "(string \<times> team_task) list \<Rightarrow> (graph_error + task_search) option" where
  "search_cycles tasks =
     fold_throwing (visit_task (Suc (length tasks)) tasks) (map tt_id (js_values tasks))
       \<lparr>sv_visiting = [], sv_visited = []\<rparr>"

definition assert_task_graph :: "(string \<times> team_task) list \<Rightarrow> team_task \<Rightarrow> (graph_error + unit) option" where
  "assert_task_graph current candidate =
     (let tasks = js_set (tt_id candidate) candidate current
      in (case check_all_blockers tasks (js_values tasks) of
            Inl e \<Rightarrow> Some (Inl e)
          | Inr _ \<Rightarrow> map_option (map_sum id (\<lambda>_. ())) (search_cycles tasks)))"

section \<open>The replay fold\<close>

datatype team_fault =
    Invalid_payload string
  | Unsupported_team_version nat
  | Name_reused string
  | Must_begin_provisioning string
  | Identity_changed string
  | Invalid_member_transition string member_phase member_phase
  | Must_begin_at_one string
  | Not_contiguous string
  | Task_graph graph_error
  | Search_exhausted
  | Queued_twice string
  | Delivered_before_queueing string
  | Message_target_changed string
  | Delivered_twice string

record team_state =
  ts_id :: string
  ts_members :: "(string \<times> team_member) list"
  ts_memberIdsByName :: "(string \<times> string) list"
  ts_tasks :: "(string \<times> team_task) list"
  ts_messages :: "(string \<times> team_message) list"
  ts_delivered :: "string list"
  ts_nextTaskNumber :: nat

definition empty_team_state :: "string \<Rightarrow> team_state" where
  "empty_team_state rootId =
     \<lparr>ts_id = rootId, ts_members = [], ts_memberIdsByName = [], ts_tasks = [], ts_messages = [],
      ts_delivered = [], ts_nextTaskNumber = 1\<rparr>"

definition apply_member :: "team_state \<Rightarrow> team_member \<Rightarrow> team_fault + team_state" where
  "apply_member state m =
     (let prior = map_of (ts_members state) (tm_id m);
          named = map_of (ts_memberIdsByName state) (tm_name m)
      in if named \<noteq> None \<and> named \<noteq> Some (tm_id m) then Inl (Name_reused (tm_name m))
         else (case prior of
             None \<Rightarrow>
               if tm_phase m \<noteq> Provisioning then Inl (Must_begin_provisioning (tm_name m))
               else Inr (state\<lparr>ts_memberIdsByName := js_set (tm_name m) (tm_id m) (ts_memberIdsByName state),
                               ts_members := js_set (tm_id m) m (ts_members state)\<rparr>)
           | Some p \<Rightarrow>
               if tm_name p \<noteq> tm_name m \<or> tm_provider p \<noteq> tm_provider m \<or> tm_context p \<noteq> tm_context m
               then Inl (Identity_changed (tm_id m))
               else if tm_phase p \<noteq> Provisioning \<or> tm_phase m = Provisioning
               then Inl (Invalid_member_transition (tm_name m) (tm_phase p) (tm_phase m))
               else Inr (state\<lparr>ts_members := js_set (tm_id m) m (ts_members state)\<rparr>)))"

definition next_task_number :: "string \<Rightarrow> nat \<Rightarrow> nat" where
  "next_task_number i current =
     (case task_number i of
        None \<Rightarrow> current
      | Some n \<Rightarrow> max current (if int n = max_safe then n else n + 1))"

definition apply_task :: "team_state \<Rightarrow> team_task \<Rightarrow> team_fault + team_state" where
  "apply_task state t =
     (let prior = map_of (ts_tasks state) (tt_id t)
      in if prior = None \<and> tt_revision t \<noteq> 1 then Inl (Must_begin_at_one (tt_id t))
         else if prior \<noteq> None \<and> tt_revision t \<noteq> tt_revision (the prior) + 1 then Inl (Not_contiguous (tt_id t))
         else (case assert_task_graph (ts_tasks state) t of
             None \<Rightarrow> Inl Search_exhausted
           | Some (Inl e) \<Rightarrow> Inl (Task_graph e)
           | Some (Inr _) \<Rightarrow>
               Inr (state\<lparr>ts_nextTaskNumber := next_task_number (tt_id t) (ts_nextTaskNumber state),
                          ts_tasks := js_set (tt_id t) t (ts_tasks state)\<rparr>)))"

definition apply_queued :: "team_state \<Rightarrow> team_message \<Rightarrow> team_fault + team_state" where
  "apply_queued state m =
     (if js_has (ts_messages state) (tg_id m) then Inl (Queued_twice (tg_id m))
      else Inr (state\<lparr>ts_messages := js_set (tg_id m) m (ts_messages state)\<rparr>))"

definition apply_delivered :: "team_state \<Rightarrow> string \<Rightarrow> string \<Rightarrow> team_fault + team_state" where
  "apply_delivered state messageId targetId =
     (case map_of (ts_messages state) messageId of
        None \<Rightarrow> Inl (Delivered_before_queueing messageId)
      | Some queued \<Rightarrow>
          if tg_targetId queued \<noteq> targetId then Inl (Message_target_changed messageId)
          else if messageId \<in> set (ts_delivered state) then Inl (Delivered_twice messageId)
          else Inr (state\<lparr>ts_delivered := ts_delivered state @ [messageId]\<rparr>))"

fun apply_team_record :: "team_state \<Rightarrow> team_record \<Rightarrow> team_fault + team_state" where
  "apply_team_record state (Member_record m) = apply_member state m"
| "apply_team_record state (Task_record t) = apply_task state t"
| "apply_team_record state (Queued_record m) = apply_queued state m"
| "apply_team_record state (Delivered_record i t) = apply_delivered state i t"

definition apply_team_event :: "team_state \<Rightarrow> session_event \<Rightarrow> team_fault + team_state" where
  "apply_team_event state e =
     (case ev_data e of
        PluginEvent type d \<Rightarrow>
          if type \<notin> set team_event_types then Inr state
          else (case read_selector d of
             None \<Rightarrow> Inl (Invalid_payload type)
           | Some (version, team) \<Rightarrow>
               if version \<noteq> 1 then
                 (if team \<noteq> ts_id state then Inr state else Inl (Unsupported_team_version version))
               else (case parse_current_team_event type d of
                  None \<Rightarrow> Inl (Invalid_payload type)
                | Some (team', r) \<Rightarrow> if team' \<noteq> ts_id state then Inr state else apply_team_record state r))
      | _ \<Rightarrow> Inr state)"

definition fold_team :: "string \<Rightarrow> session_event list \<Rightarrow> team_fault + team_state" where
  "fold_team rootId es = replay apply_team_event (empty_team_state rootId) es"

section \<open>Writing events\<close>

text \<open>The JSON objects the team services append; no reader depends on the order of their properties.\<close>

definition encode_member :: "team_member \<Rightarrow> json" where
  "encode_member m =
     JObj ([(''id'', JStr (tm_id m)), (''name'', JStr (tm_name m)), (''description'', JStr (tm_description m)),
            (''provider'', JStr (tm_provider m)), (''context'', JStr (context_name (tm_context m))),
            (''phase'', JStr (member_phase_name (tm_phase m)))]
           @ optional ''error'' (map_option JStr (tm_error m)))"

definition encode_task :: "team_task \<Rightarrow> json" where
  "encode_task t =
     JObj ([(''id'', JStr (tt_id t)), (''revision'', json_nat (tt_revision t)), (''subject'', JStr (tt_subject t)),
            (''description'', JStr (tt_description t)), (''status'', JStr (task_status_name (tt_status t))),
            (''blockedBy'', JArr (map JStr (tt_blockedBy t))), (''writeScopes'', JArr (map JStr (tt_writeScopes t)))]
           @ optional ''ownerId'' (map_option JStr (tt_ownerId t)))"

definition encode_team_message :: "team_message \<Rightarrow> json" where
  "encode_team_message m =
     JObj [(''id'', JStr (tg_id m)), (''senderId'', JStr (tg_senderId m)), (''senderName'', JStr (tg_senderName m)),
           (''targetId'', JStr (tg_targetId m)), (''delivery'', JStr (delivery_name (tg_delivery m))),
           (''content'', JArr (tg_content m))]"

fun record_type :: "team_record \<Rightarrow> string" where
  "record_type (Member_record _) = ''team/member''"
| "record_type (Task_record _) = ''team/task''"
| "record_type (Queued_record _) = ''team/message/queued''"
| "record_type (Delivered_record _ _) = ''team/message/delivered''"

fun record_fields :: "team_record \<Rightarrow> (string \<times> json) list" where
  "record_fields (Member_record m) = [(''member'', encode_member m)]"
| "record_fields (Task_record t) = [(''task'', encode_task t)]"
| "record_fields (Queued_record m) = [(''message'', encode_team_message m)]"
| "record_fields (Delivered_record i t) = [(''messageId'', JStr i), (''targetId'', JStr t)]"

definition encode_record :: "string \<Rightarrow> team_record \<Rightarrow> json" where
  "encode_record rootId r = JObj ([(''version'', JNum 1), (''teamId'', JStr rootId)] @ record_fields r)"

end
