(* ===== verification/TeamBoard.thy ===== *)
theory TeamBoard
  imports TeamFold SessionLog
begin

text \<open>
  The shared task board of an agent team (\<open>experimental/agent-team/src/task-board.ts\<close>) with what it uses:
  the journal over the lead's session log (\<open>journal.ts\<close>), the input normalization (\<open>validation.ts\<close>) and
  the resolution of member names (\<open>roster.ts\<close>, \<open>resolveActiveMember\<close>).

  \<open>team_host\<close> holds the lead: its id, its session and the number of change notifications sent to the
  waiters (\<open>onCommit\<close>). The journal runs the operations of one lead one after the other, and an operation
  reads, checks and appends before its first await: it is one step here. \<open>team_env\<close> says how the session
  reacts: its vetoing listeners, the clock and the outcome of the flush.
\<close>

section \<open>Errors\<close>

datatype team_error =
    Text_empty string
  | Text_too_long string nat
  | Invalid_write_scope string
  | Task_limit_reached nat
  | Task_ids_exhausted
  | Task_not_found string
  | Stale_task_revision string js_number nat
  | Task_is_deleted string
  | Task_unauthorized
  | Task_already_claimed string
  | Task_not_ready string
  | Release_not_in_progress
  | Edit_without_fields
  | Dependencies_missing
  | Complete_not_in_progress
  | Reopen_not_completed
  | Lead_required string
  | Reassign_wrong_status
  | Task_blocked string
  | Has_dependents string string
  | Self_dependency
  | Duplicate_blocker string
  | Blocker_not_found string
  | Graph_rejected graph_error
  | Member_not_found string
  | Not_a_member string
  | Invalid_member_name
  | Member_name_taken string
  | Member_limit_reached nat
  | Member_disappeared string
  | Became_active string
  | Reconciled_as_failed string
  | Invalid_target
  | Self_message
  | Mailbox_full string nat
  | Message_too_large nat
  | Service_disposed
  | Invalid_timeout
  | Invalid_limit string

fun graph_error_code :: "graph_violation \<Rightarrow> string" where
  "graph_error_code Violation_missing = ''TEAM_TASK_NOT_FOUND''"
| "graph_error_code Violation_duplicate = ''TEAM_INVALID_ARGUMENT''"
| "graph_error_code Violation_cycle = ''TEAM_TASK_DEPENDENCY_CYCLE''"

fun team_error_code :: "team_error \<Rightarrow> string" where
  "team_error_code (Text_empty _) = ''TEAM_INVALID_ARGUMENT''"
| "team_error_code (Text_too_long _ _) = ''TEAM_INVALID_ARGUMENT''"
| "team_error_code (Invalid_write_scope _) = ''TEAM_INVALID_WRITE_SCOPE''"
| "team_error_code (Task_limit_reached _) = ''TEAM_TASK_LIMIT''"
| "team_error_code Task_ids_exhausted = ''TEAM_TASK_LIMIT''"
| "team_error_code (Task_not_found _) = ''TEAM_TASK_NOT_FOUND''"
| "team_error_code (Stale_task_revision _ _ _) = ''TEAM_TASK_STALE_REVISION''"
| "team_error_code (Task_is_deleted _) = ''TEAM_TASK_DELETED''"
| "team_error_code Task_unauthorized = ''TEAM_TASK_UNAUTHORIZED''"
| "team_error_code (Task_already_claimed _) = ''TEAM_TASK_ALREADY_CLAIMED''"
| "team_error_code (Task_not_ready _) = ''TEAM_TASK_BLOCKED''"
| "team_error_code Release_not_in_progress = ''TEAM_TASK_INVALID_TRANSITION''"
| "team_error_code Edit_without_fields = ''TEAM_INVALID_ARGUMENT''"
| "team_error_code Dependencies_missing = ''TEAM_INVALID_ARGUMENT''"
| "team_error_code Complete_not_in_progress = ''TEAM_TASK_INVALID_TRANSITION''"
| "team_error_code Reopen_not_completed = ''TEAM_TASK_INVALID_TRANSITION''"
| "team_error_code (Lead_required _) = ''TEAM_LEAD_REQUIRED''"
| "team_error_code Reassign_wrong_status = ''TEAM_TASK_INVALID_TRANSITION''"
| "team_error_code (Task_blocked _) = ''TEAM_TASK_BLOCKED''"
| "team_error_code (Has_dependents _ _) = ''TEAM_TASK_HAS_DEPENDENTS''"
| "team_error_code Self_dependency = ''TEAM_TASK_DEPENDENCY_CYCLE''"
| "team_error_code (Duplicate_blocker _) = ''TEAM_INVALID_ARGUMENT''"
| "team_error_code (Blocker_not_found _) = ''TEAM_TASK_NOT_FOUND''"
| "team_error_code (Graph_rejected e) = graph_error_code (violation_of e)"
| "team_error_code (Member_not_found _) = ''TEAM_MEMBER_NOT_FOUND''"
| "team_error_code (Not_a_member _) = ''TEAM_NOT_MEMBER''"
| "team_error_code Invalid_member_name = ''TEAM_INVALID_MEMBER_NAME''"
| "team_error_code (Member_name_taken _) = ''TEAM_MEMBER_NAME_TAKEN''"
| "team_error_code (Member_limit_reached _) = ''TEAM_MEMBER_LIMIT''"
| "team_error_code (Member_disappeared _) = ''TEAM_PROVISIONING_CONFLICT''"
| "team_error_code (Became_active _) = ''TEAM_PROVISIONING_CONFLICT''"
| "team_error_code (Reconciled_as_failed _) = ''TEAM_PROVISIONING_CONFLICT''"
| "team_error_code Invalid_target = ''TEAM_INVALID_TARGET''"
| "team_error_code Self_message = ''TEAM_SELF_MESSAGE''"
| "team_error_code (Mailbox_full _ _) = ''TEAM_MAILBOX_FULL''"
| "team_error_code (Message_too_large _) = ''TEAM_MESSAGE_TOO_LARGE''"
| "team_error_code Service_disposed = ''TEAM_DISPOSED''"
| "team_error_code Invalid_timeout = ''TEAM_INVALID_TIMEOUT''"
| "team_error_code (Invalid_limit _) = ''TEAM_INVALID_CONFIG''"

datatype team_failure =
    Team_rejected team_error
  | Team_faulted team_fault
  | Team_append_failed session_error
  | Team_flush_failed string
  | Team_aborted string

section \<open>The journal\<close>

record team_host =
  th_rootId :: string
  th_session :: session
  th_notified :: nat

record team_env =
  te_veto :: "session_event \<Rightarrow> string + unit"
  te_now :: int
  te_flush :: "string + unit"

definition journal_state :: "team_host \<Rightarrow> team_failure + team_state" where
  "journal_state h = map_error Team_faulted (fold_team (th_rootId h) (sn_log (th_session h)))"

definition append_and_flush ::
    "team_env \<Rightarrow> team_record \<Rightarrow> team_host \<Rightarrow> (team_failure + unit) \<times> team_host" where
  "append_and_flush env r h =
     (case session_append (te_veto env) (te_now env)
             (PluginEvent (record_type r) (encode_record (th_rootId h) r)) None None (th_session h) of
        (Inl e, s) \<Rightarrow> (Inl (Team_append_failed e), h\<lparr>th_session := s\<rparr>)
      | (Inr _, s) \<Rightarrow>
          (case te_flush env of
             Inl msg \<Rightarrow> (Inl (Team_flush_failed msg), h\<lparr>th_session := s\<rparr>)
           | Inr _ \<Rightarrow> (Inr (), h\<lparr>th_session := s, th_notified := th_notified h + 1\<rparr>)))"

text \<open>A transaction: decide on the folded state what to append, append it, and build the result.\<close>

definition transact_append ::
    "team_env \<Rightarrow> team_record \<Rightarrow> 'a \<Rightarrow> team_host \<Rightarrow> (team_failure + 'a) \<times> team_host" where
  "transact_append env r result h =
     (case append_and_flush env r h of (Inl e, h') \<Rightarrow> (Inl e, h') | (Inr _, h') \<Rightarrow> (Inr result, h'))"

section \<open>Input normalization\<close>

definition required_text :: "string \<Rightarrow> string \<Rightarrow> nat \<Rightarrow> team_error + string" where
  "required_text v field maxLength =
     (let text = js_trim v
      in if text = [] then Inl (Text_empty field)
         else if maxLength < js_length text then Inl (Text_too_long field maxLength)
         else Inr text)"

fun split_on :: "char \<Rightarrow> string \<Rightarrow> string list" where
  "split_on c [] = [[]]"
| "split_on c (x # xs) =
     (if x = c then [] # split_on c xs
      else (case split_on c xs of [] \<Rightarrow> [[x]] | s # ss \<Rightarrow> (x # s) # ss))"

definition slashes :: "string \<Rightarrow> string" where
  "slashes s = map (\<lambda>c. if c = CHR 0x5C then CHR ''/'' else c) s"

definition drop_dot_slash :: "string \<Rightarrow> string" where
  "drop_dot_slash s = (if starts_with ''./'' s then drop 2 s else s)"

definition drop_trailing_slashes :: "string \<Rightarrow> string" where
  "drop_trailing_slashes s = rev (dropWhile (\<lambda>c. c = CHR ''/'') (rev s))"

text \<open>
  \<open>/^[a-z]:/iu\<close>. Case folding adds the long s (U+017F) and the Kelvin sign (U+212A) to the letters.
\<close>

definition drive_prefix :: "string \<Rightarrow> bool" where
  "drive_prefix s =
     (starts_with (bytes [0xC5, 0xBF, 58]) s \<or> starts_with (bytes [0xE2, 0x84, 0xAA, 58]) s
      \<or> (case s of c # d # _ \<Rightarrow>
           (let b = (of_char c :: nat) in (97 \<le> b \<and> b \<le> 122 \<or> 65 \<le> b \<and> b \<le> 90) \<and> d = CHR '':'')
         | _ \<Rightarrow> False))"

definition write_scope :: "string \<Rightarrow> team_error + string" where
  "write_scope v =
     (let normalized = drop_trailing_slashes (drop_dot_slash (slashes v))
      in if normalized = [] \<or> starts_with ''/'' normalized \<or> drive_prefix normalized
            \<or> list_ex (\<lambda>s. s \<in> {[], ''.'', ''..''}) (split_on (CHR ''/'') normalized)
         then Inl (Invalid_write_scope v) else Inr normalized)"

definition write_scopes :: "string list \<Rightarrow> team_error + string list" where
  "write_scopes vs = and_then (traverse write_scope vs) (\<lambda>ss. Inr (dedup ss))"

section \<open>Members\<close>

datatype team_role = Role_lead | Role_teammate

record team_membership =
  mb_rootId :: string
  mb_role :: team_role
  mb_name :: string

definition resolve_active_member :: "string \<Rightarrow> team_state \<Rightarrow> string \<Rightarrow> team_error + (string \<times> string)" where
  "resolve_active_member rootId st rawName =
     (let name = js_trim rawName
      in if name = ''lead'' then Inr (rootId, name)
         else (case Option.bind (map_of (ts_memberIdsByName st) name) (map_of (ts_members st)) of
             None \<Rightarrow> Inl (Member_not_found name)
           | Some m \<Rightarrow> if tm_phase m \<noteq> Active then Inl (Member_not_found name) else Inr (tm_id m, name)))"

section \<open>Tasks\<close>

record create_task_request =
  ct_subject :: string
  ct_description :: string
  ct_blockedBy :: "string list option"
  ct_writeScopes :: "string list option"

datatype task_action =
  Claim | Release | Edit | Set_dependencies | Complete | Reopen | Reassign | Delete

record update_task_request =
  ut_taskId :: string
  ut_expectedRevision :: js_number
  ut_action :: task_action
  ut_subject :: "string option"
  ut_description :: "string option"
  ut_blockedBy :: "string list option"
  ut_writeScopes :: "string list option"
  ut_owner :: "string option"

record team_task_view =
  tv_id :: string
  tv_revision :: nat
  tv_subject :: string
  tv_description :: string
  tv_status :: task_status
  tv_blockedBy :: "string list"
  tv_writeScopes :: "string list"
  tv_ownerName :: "string option"
  tv_ready :: bool
  tv_writeScopeWarnings :: "string list"

definition scopes_overlap :: "string \<Rightarrow> string \<Rightarrow> bool" where
  "scopes_overlap left right \<longleftrightarrow>
     left = right \<or> starts_with (right @ ''/'') left \<or> starts_with (left @ ''/'') right"

fun dependencies :: "team_state \<Rightarrow> string option \<Rightarrow> string list \<Rightarrow> string list \<Rightarrow> team_error + string list" where
  "dependencies st self seen [] = Inr (rev seen)"
| "dependencies st self seen (i # is) =
     (if self = Some i then Inl Self_dependency
      else if i \<in> set seen then Inl (Duplicate_blocker i)
      else if task_deleted (ts_tasks st) i then Inl (Blocker_not_found i)
      else dependencies st self (i # seen) is)"

definition task_ready :: "team_state \<Rightarrow> team_task \<Rightarrow> bool" where
  "task_ready st t =
     list_all (\<lambda>i. map_option tt_status (map_of (ts_tasks st) i) = Some Task_completed) (tt_blockedBy t)"

definition board_assert_graph :: "team_state \<Rightarrow> team_task \<Rightarrow> team_failure + unit" where
  "board_assert_graph st t =
     (case assert_task_graph (ts_tasks st) t of
        None \<Rightarrow> Inl (Team_faulted Search_exhausted)
      | Some (Inl e) \<Rightarrow> Inl (Team_rejected (Graph_rejected e))
      | Some (Inr _) \<Rightarrow> Inr ())"

definition owner_name :: "string \<Rightarrow> team_state \<Rightarrow> team_task \<Rightarrow> string option" where
  "owner_name rootId st t =
     (case tt_ownerId t of
        None \<Rightarrow> None
      | Some i \<Rightarrow> if i = rootId then Some ''lead'' else map_option tm_name (map_of (ts_members st) i))"

definition overlap_warnings :: "team_state \<Rightarrow> team_task \<Rightarrow> string list" where
  "overlap_warnings st t =
     dedup (map (\<lambda>u. ''write scopes overlap with '' @ tt_id u)
       (filter (\<lambda>u. tt_id u \<noteq> tt_id t \<and> tt_status u = Task_in_progress
            \<and> list_ex (\<lambda>l. list_ex (scopes_overlap l) (tt_writeScopes u)) (tt_writeScopes t))
          (js_values (ts_tasks st))))"

definition task_view :: "string \<Rightarrow> team_state \<Rightarrow> team_task \<Rightarrow> team_task_view" where
  "task_view rootId st t =
     \<lparr>tv_id = tt_id t, tv_revision = tt_revision t, tv_subject = tt_subject t, tv_description = tt_description t,
      tv_status = tt_status t, tv_blockedBy = tt_blockedBy t, tv_writeScopes = tt_writeScopes t,
      tv_ownerName = owner_name rootId st t, tv_ready = (tt_status t = Task_pending \<and> task_ready st t),
      tv_writeScopeWarnings = overlap_warnings st t\<rparr>"

definition active_tasks :: "team_state \<Rightarrow> team_task list" where
  "active_tasks st = filter (\<lambda>t. tt_status t \<noteq> Task_deleted) (js_values (ts_tasks st))"

definition or_empty :: "'a list option \<Rightarrow> 'a list" where
  "or_empty v = (case v of None \<Rightarrow> [] | Some xs \<Rightarrow> xs)"

definition new_task :: "nat \<Rightarrow> team_state \<Rightarrow> create_task_request \<Rightarrow> team_failure + team_task" where
  "new_task maxTasks st q =
     (let i = ''task-'' @ str_of_nat (ts_nextTaskNumber st)
      in and_then (throw_if (maxTasks \<le> length (active_tasks st)) (Team_rejected (Task_limit_reached maxTasks))) (\<lambda>_.
         and_then (throw_if (js_has (ts_tasks st) i) (Team_rejected Task_ids_exhausted)) (\<lambda>_.
         and_then (map_error Team_rejected (required_text (ct_subject q) ''subject'' 200)) (\<lambda>subject.
         and_then (map_error Team_rejected (required_text (ct_description q) ''description'' 16384)) (\<lambda>description.
         and_then (map_error Team_rejected (dependencies st None [] (or_empty (ct_blockedBy q)))) (\<lambda>blockers.
         and_then (map_error Team_rejected (write_scopes (or_empty (ct_writeScopes q)))) (\<lambda>scopes.
         let t = \<lparr>tt_id = i, tt_revision = 1, tt_subject = subject, tt_description = description,
                  tt_status = Task_pending, tt_ownerId = None, tt_blockedBy = blockers, tt_writeScopes = scopes\<rparr>
         in and_then (board_assert_graph st t) (\<lambda>_. Inr t))))))))"

definition board_create ::
    "nat \<Rightarrow> team_env \<Rightarrow> create_task_request \<Rightarrow> team_host \<Rightarrow> (team_failure + team_task_view) \<times> team_host" where
  "board_create maxTasks env q h =
     (case journal_state h of
        Inl e \<Rightarrow> (Inl e, h)
      | Inr st \<Rightarrow>
          (case new_task maxTasks st q of
             Inl e \<Rightarrow> (Inl e, h)
           | Inr t \<Rightarrow> transact_append env (Task_record t) (task_view (th_rootId h) st t) h))"

definition board_get :: "string \<Rightarrow> team_host \<Rightarrow> team_failure + team_task_view" where
  "board_get i h =
     and_then (journal_state h) (\<lambda>st.
       case map_of (ts_tasks st) i of
         None \<Rightarrow> Inl (Team_rejected (Task_not_found i))
       | Some t \<Rightarrow> Inr (task_view (th_rootId h) st t))"

definition board_list :: "team_host \<Rightarrow> team_failure + team_task_view list" where
  "board_list h = and_then (journal_state h) (\<lambda>st. Inr (map (task_view (th_rootId h) st) (active_tasks st)))"

definition without_owner :: "team_task \<Rightarrow> team_task" where
  "without_owner t = t\<lparr>tt_ownerId := None\<rparr>"

text \<open>\<open>authorizeOwner\<close> of an update by \<open>callerId\<close> in the given role.\<close>

definition authorize_owner :: "team_role \<Rightarrow> string \<Rightarrow> team_task \<Rightarrow> team_error + unit" where
  "authorize_owner role callerId current =
     throw_if (role \<noteq> Role_lead \<and> tt_ownerId current \<noteq> Some callerId) Task_unauthorized"

definition edit_task :: "update_task_request \<Rightarrow> team_task \<Rightarrow> team_error + team_task" where
  "edit_task q current =
     and_then (case ut_subject q of None \<Rightarrow> Inr (tt_subject current) | Some s \<Rightarrow> required_text s ''subject'' 200) (\<lambda>subject.
     and_then (case ut_description q of None \<Rightarrow> Inr (tt_description current)
               | Some s \<Rightarrow> required_text s ''description'' 16384) (\<lambda>description.
     and_then (case ut_writeScopes q of None \<Rightarrow> Inr (tt_writeScopes current) | Some ss \<Rightarrow> write_scopes ss) (\<lambda>scopes.
       Inr (current\<lparr>tt_subject := subject, tt_description := description, tt_writeScopes := scopes\<rparr>))))"

definition reassign_task ::
    "string \<Rightarrow> team_role \<Rightarrow> team_state \<Rightarrow> update_task_request \<Rightarrow> team_task \<Rightarrow> team_error + team_task" where
  "reassign_task rootId role st q current =
     (if role \<noteq> Role_lead then Inl (Lead_required ''reassign'')
      else if tt_status current \<noteq> Task_pending \<and> tt_status current \<noteq> Task_in_progress then Inl Reassign_wrong_status
      else (case ut_owner q of
          None \<Rightarrow> Inr (without_owner (current\<lparr>tt_status := Task_pending\<rparr>))
        | Some owner \<Rightarrow>
            if js_trim owner = [] then Inr (without_owner (current\<lparr>tt_status := Task_pending\<rparr>))
            else if \<not> task_ready st current then Inl (Task_blocked (tt_id current))
            else and_then (resolve_active_member rootId st owner) (\<lambda>(i, name).
                   Inr (current\<lparr>tt_status := Task_in_progress, tt_ownerId := Some i\<rparr>))))"

definition dependent_of :: "team_state \<Rightarrow> team_task \<Rightarrow> team_task option" where
  "dependent_of st current =
     find (\<lambda>t. tt_status t \<noteq> Task_deleted \<and> tt_id t \<noteq> tt_id current \<and> tt_id current \<in> set (tt_blockedBy t))
       (js_values (ts_tasks st))"

definition next_task ::
    "string \<Rightarrow> team_role \<Rightarrow> string \<Rightarrow> team_state \<Rightarrow> update_task_request \<Rightarrow> team_task \<Rightarrow> team_error + team_task" where
  "next_task rootId role callerId st q current =
     (case ut_action q of
        Claim \<Rightarrow>
          if tt_ownerId current \<noteq> None \<and> tt_ownerId current \<noteq> Some callerId
          then Inl (Task_already_claimed (tt_id current))
          else if tt_status current \<noteq> Task_pending \<or> \<not> task_ready st current then Inl (Task_not_ready (tt_id current))
          else Inr (current\<lparr>tt_status := Task_in_progress, tt_ownerId := Some callerId\<rparr>)
      | Release \<Rightarrow>
          and_then (authorize_owner role callerId current) (\<lambda>_.
            if tt_status current \<noteq> Task_in_progress then Inl Release_not_in_progress
            else Inr (without_owner (current\<lparr>tt_status := Task_pending\<rparr>)))
      | Edit \<Rightarrow>
          and_then (authorize_owner role callerId current) (\<lambda>_.
            if ut_subject q = None \<and> ut_description q = None \<and> ut_writeScopes q = None then Inl Edit_without_fields
            else edit_task q current)
      | Set_dependencies \<Rightarrow>
          and_then (authorize_owner role callerId current) (\<lambda>_.
            case ut_blockedBy q of
              None \<Rightarrow> Inl Dependencies_missing
            | Some bs \<Rightarrow> and_then (dependencies st (Some (tt_id current)) [] bs) (\<lambda>ds.
                           Inr (current\<lparr>tt_blockedBy := ds\<rparr>)))
      | Complete \<Rightarrow>
          and_then (authorize_owner role callerId current) (\<lambda>_.
            if tt_status current \<noteq> Task_in_progress then Inl Complete_not_in_progress
            else Inr (current\<lparr>tt_status := Task_completed\<rparr>))
      | Reopen \<Rightarrow>
          and_then (authorize_owner role callerId current) (\<lambda>_.
            if tt_status current \<noteq> Task_completed then Inl Reopen_not_completed
            else Inr (without_owner (current\<lparr>tt_status := Task_pending\<rparr>)))
      | Reassign \<Rightarrow> reassign_task rootId role st q current
      | Delete \<Rightarrow>
          and_then (authorize_owner role callerId current) (\<lambda>_.
            case dependent_of st current of
              Some d \<Rightarrow> Inl (Has_dependents (tt_id current) (tt_id d))
            | None \<Rightarrow> Inr (current\<lparr>tt_status := Task_deleted\<rparr>)))"

definition updated_task ::
    "string \<Rightarrow> team_role \<Rightarrow> string \<Rightarrow> team_state \<Rightarrow> update_task_request \<Rightarrow> team_failure + team_task" where
  "updated_task rootId role callerId st q =
     (case map_of (ts_tasks st) (ut_taskId q) of
        None \<Rightarrow> Inl (Team_rejected (Task_not_found (ut_taskId q)))
      | Some current \<Rightarrow>
          if ut_expectedRevision q \<noteq> Finite (of_nat (tt_revision current))
          then Inl (Team_rejected (Stale_task_revision (tt_id current) (ut_expectedRevision q) (tt_revision current)))
          else if tt_status current = Task_deleted then Inl (Team_rejected (Task_is_deleted (tt_id current)))
          else and_then (map_error Team_rejected (next_task rootId role callerId st q current)) (\<lambda>next'.
               let t = next'\<lparr>tt_revision := tt_revision current + 1\<rparr>
               in and_then (board_assert_graph st t) (\<lambda>_. Inr t)))"

definition board_update ::
    "team_env \<Rightarrow> string \<Rightarrow> team_role \<Rightarrow> update_task_request \<Rightarrow> team_host
      \<Rightarrow> (team_failure + team_task_view) \<times> team_host" where
  "board_update env callerId role q h =
     (case journal_state h of
        Inl e \<Rightarrow> (Inl e, h)
      | Inr st \<Rightarrow>
          (case updated_task (th_rootId h) role callerId st q of
             Inl e \<Rightarrow> (Inl e, h)
           | Inr t \<Rightarrow> transact_append env (Task_record t) (task_view (th_rootId h) st t) h))"

end
