(* ===== verification/SubagentDescriptor.thy ===== *)
theory SubagentDescriptor
  imports SessionEvents SessionSeed
begin

text \<open>
  The descriptor of a session-backed subagent (\<open>subagent/subagent/src/descriptor.ts\<close>): the versioned event
  that tells a child session from an independent one and keeps what a resume needs. The parser of the stored
  value, the writer and the fold that takes the first descriptor of a log; and that the parser inverts the
  writer.
\<close>

datatype descriptor_fault =
    Descriptor_not_object | Descriptor_version | Descriptor_mode | Descriptor_unknown_field string string
  | Descriptor_provider | Descriptor_label | Descriptor_string string
  | Filter_not_object | Filter_strings string | Filter_empty

fun descriptor_fault_message :: "descriptor_fault \<Rightarrow> string" where
  "descriptor_fault_message Descriptor_not_object = ''persisted subagent descriptor payload must be an object''"
| "descriptor_fault_message Descriptor_version = ''persisted subagent descriptor version must be a number''"
| "descriptor_fault_message Descriptor_mode =
     ''persisted subagent descriptor mode must be '' @ quoted ''one-shot'' @ '' or '' @ quoted ''continuable''"
| "descriptor_fault_message (Descriptor_unknown_field p k) =
     ''persisted subagent descriptor '' @ p @ '' has unknown field '' @ quoted k"
| "descriptor_fault_message Descriptor_provider = ''persisted subagent descriptor provider must be a string''"
| "descriptor_fault_message Descriptor_label = ''persisted subagent descriptor label must be a string''"
| "descriptor_fault_message (Descriptor_string k) = ''persisted subagent descriptor '' @ k @ '' must be a string''"
| "descriptor_fault_message Filter_not_object = ''persisted subagent descriptor toolFilter must be an object''"
| "descriptor_fault_message (Filter_strings k) =
     ''persisted subagent descriptor toolFilter.'' @ k @ '' must be an array of strings''"
| "descriptor_fault_message Filter_empty = ''persisted subagent descriptor toolFilter must declare allow and/or deny''"

record tool_restriction =
  tf_allow :: "string list option"
  tf_deny :: "string list option"

record continuable_options =
  cd_label :: string
  cd_agentProvider :: "string option"
  cd_agentModel :: "string option"
  cd_persona :: "string option"
  cd_toolFilter :: "tool_restriction option"

datatype subagent_descriptor =
    One_shot string "string option"
  | Continuable string continuable_options

fun descriptor_provider :: "subagent_descriptor \<Rightarrow> string" where
  "descriptor_provider (One_shot p _) = p"
| "descriptor_provider (Continuable p _) = p"

definition descriptor_version :: rat where
  "descriptor_version = 2"

definition descriptor_base_keys :: "string list" where
  "descriptor_base_keys = [''version'', ''mode'', ''provider'', ''label'']"

definition continuable_keys :: "string list" where
  "continuable_keys = descriptor_base_keys @ [''agentProvider'', ''agentModel'', ''persona'', ''toolFilter'']"

definition assert_known_keys :: "(string \<times> json) list \<Rightarrow> string list \<Rightarrow> string \<Rightarrow> descriptor_fault + unit" where
  "assert_known_keys fs ks path =
     (case find (\<lambda>k. k \<notin> set ks) (map fst fs) of
        Some k \<Rightarrow> Inl (Descriptor_unknown_field path k)
      | None \<Rightarrow> Inr ())"

definition optional_string :: "(string \<times> json) list \<Rightarrow> string \<Rightarrow> descriptor_fault + string option" where
  "optional_string fs k =
     (case map_of fs k of
        None \<Rightarrow> Inr None
      | Some (JStr s) \<Rightarrow> Inr (Some s)
      | Some _ \<Rightarrow> Inl (Descriptor_string k))"

fun all_strings :: "json list \<Rightarrow> string list option" where
  "all_strings [] = Some []"
| "all_strings (JStr s # xs) = map_option ((#) s) (all_strings xs)"
| "all_strings (_ # xs) = None"

definition optional_string_array :: "(string \<times> json) list \<Rightarrow> string \<Rightarrow> descriptor_fault + string list option" where
  "optional_string_array fs k =
     (case map_of fs k of
        None \<Rightarrow> Inr None
      | Some (JArr xs) \<Rightarrow> (case all_strings xs of Some ss \<Rightarrow> Inr (Some ss) | None \<Rightarrow> Inl (Filter_strings k))
      | Some _ \<Rightarrow> Inl (Filter_strings k))"

definition parse_tool_filter :: "json \<Rightarrow> descriptor_fault + tool_restriction" where
  "parse_tool_filter v =
     (case v of
        JObj fs \<Rightarrow>
          and_then (assert_known_keys fs [''allow'', ''deny''] ''toolFilter'') (\<lambda>_.
          and_then (optional_string_array fs ''allow'') (\<lambda>allow.
          and_then (optional_string_array fs ''deny'') (\<lambda>deny.
          and_then (throw_if (allow = None \<and> deny = None) Filter_empty) (\<lambda>_.
            Inr \<lparr>tf_allow = allow, tf_deny = deny\<rparr>))))
      | _ \<Rightarrow> Inl Filter_not_object)"

definition parse_continuable :: "string \<Rightarrow> (string \<times> json) list \<Rightarrow> descriptor_fault + subagent_descriptor" where
  "parse_continuable provider fs =
     (case map_of fs ''label'' of
        Some (JStr label) \<Rightarrow>
          and_then (optional_string fs ''agentProvider'') (\<lambda>agentProvider.
          and_then (optional_string fs ''agentModel'') (\<lambda>agentModel.
          and_then (optional_string fs ''persona'') (\<lambda>persona.
          and_then (case map_of fs ''toolFilter'' of
                      None \<Rightarrow> Inr None
                    | Some v \<Rightarrow> and_then (parse_tool_filter v) (\<lambda>f. Inr (Some f))) (\<lambda>toolFilter.
            Inr (Continuable provider \<lparr>cd_label = label, cd_agentProvider = agentProvider, cd_agentModel = agentModel,
                   cd_persona = persona, cd_toolFilter = toolFilter\<rparr>)))))
      | _ \<Rightarrow> Inl Descriptor_label)"

definition parse_subagent_descriptor :: "json \<Rightarrow> descriptor_fault + subagent_descriptor option" where
  "parse_subagent_descriptor v =
     (case v of
        JObj fs \<Rightarrow>
          (case map_of fs ''version'' of
             Some (JNum version) \<Rightarrow>
               if version \<noteq> descriptor_version then Inr None
               else
                 let mode = map_of fs ''mode'' in
                 if mode \<noteq> Some (JStr ''one-shot'') \<and> mode \<noteq> Some (JStr ''continuable'') then Inl Descriptor_mode
                 else
                   and_then (assert_known_keys fs
                       (if mode = Some (JStr ''one-shot'') then descriptor_base_keys else continuable_keys) ''payload'') (\<lambda>_.
                   (case map_of fs ''provider'' of
                      Some (JStr provider) \<Rightarrow>
                        if mode = Some (JStr ''one-shot'')
                        then and_then (optional_string fs ''label'') (\<lambda>label. Inr (Some (One_shot provider label)))
                        else and_then (parse_continuable provider fs) (\<lambda>d. Inr (Some d))
                    | _ \<Rightarrow> Inl Descriptor_provider))
           | _ \<Rightarrow> Inl Descriptor_version)
      | _ \<Rightarrow> Inl Descriptor_not_object)"

definition strings_value :: "string list \<Rightarrow> json" where
  "strings_value ss = JArr (map JStr ss)"

definition filter_value :: "tool_restriction \<Rightarrow> json" where
  "filter_value f =
     JObj (optional ''allow'' (map_option strings_value (tf_allow f))
           @ optional ''deny'' (map_option strings_value (tf_deny f)))"

text \<open>\<open>snapshotSubagentDescriptor\<close>; the values of the model are JSON already.\<close>

fun snapshot_subagent_descriptor :: "subagent_descriptor \<Rightarrow> json" where
  "snapshot_subagent_descriptor (One_shot provider label) =
     JObj ([(''version'', JNum descriptor_version), (''mode'', JStr ''one-shot''), (''provider'', JStr provider)]
           @ optional ''label'' (map_option JStr label))"
| "snapshot_subagent_descriptor (Continuable provider c) =
     JObj ([(''version'', JNum descriptor_version), (''mode'', JStr ''continuable''), (''provider'', JStr provider),
            (''label'', JStr (cd_label c))]
           @ optional ''agentProvider'' (map_option JStr (cd_agentProvider c))
           @ optional ''agentModel'' (map_option JStr (cd_agentModel c))
           @ optional ''persona'' (map_option JStr (cd_persona c))
           @ optional ''toolFilter'' (map_option filter_value (cd_toolFilter c)))"

definition fold_subagent_descriptor :: "session_event list \<Rightarrow> descriptor_fault + subagent_descriptor option" where
  "fold_subagent_descriptor es =
     (case find (\<lambda>e. ev_type e = ''subagent/descriptor'') es of
        None \<Rightarrow> Inr None
      | Some e \<Rightarrow> parse_subagent_descriptor (encode_data (ev_data e)))"

section \<open>The parser inverts the writer\<close>

definition filter_wf :: "tool_restriction \<Rightarrow> bool" where
  "filter_wf f \<longleftrightarrow> tf_allow f \<noteq> None \<or> tf_deny f \<noteq> None"

fun descriptor_wf :: "subagent_descriptor \<Rightarrow> bool" where
  "descriptor_wf (One_shot _ _) = True"
| "descriptor_wf (Continuable _ c) = (case cd_toolFilter c of None \<Rightarrow> True | Some f \<Rightarrow> filter_wf f)"

lemma all_strings_encoded [simp]: "all_strings (map JStr ss) = Some ss"
  by (induction ss) simp_all

lemmas reader_defs =
  assert_known_keys_def optional_string_def optional_string_array_def optional_def strings_value_def

lemma parse_filter_value: "filter_wf f \<Longrightarrow> parse_tool_filter (filter_value f) = Inr f"
  by (cases f; cases "tf_allow f"; cases "tf_deny f")
    (simp_all add: parse_tool_filter_def filter_value_def filter_wf_def reader_defs)

lemma parse_written_continuable:
  assumes "descriptor_wf (Continuable p c)"
  shows "parse_subagent_descriptor (snapshot_subagent_descriptor (Continuable p c)) = Inr (Some (Continuable p c))"
proof (cases c)
  case (fields l a m q f)
  with assms parse_filter_value have "f = Some g \<Longrightarrow> parse_tool_filter (filter_value g) = Inr g" for g by simp
  then show ?thesis unfolding fields
    by (cases a; cases m; cases q; cases f)
      (simp_all add: parse_subagent_descriptor_def parse_continuable_def continuable_keys_def descriptor_base_keys_def
        Let_def reader_defs)
qed

text \<open>
  A subagent's descriptor, once written, is what the fold of its session reads back, whatever events come before (other
  than descriptors) and after it; a later descriptor changes nothing.
\<close>

theorem descriptor_roundtrip:
  assumes "descriptor_wf d" "ev_data e = PluginEvent ''subagent/descriptor'' (snapshot_subagent_descriptor d)"
    "\<forall>x \<in> set es. ev_type x \<noteq> ''subagent/descriptor''"
  shows "fold_subagent_descriptor (es @ e # fs) = Inr (Some d)"
proof -
  have "find (\<lambda>x. ev_type x = ''subagent/descriptor'') (es @ e # fs) = Some e"
    using assms(3) by (induction es) (simp_all add: ev_type_def assms(2))
  moreover have "parse_subagent_descriptor (snapshot_subagent_descriptor d) = Inr (Some d)"
  proof (cases d)
    case (One_shot p l)
    then show ?thesis
      by (cases l) (simp_all add: parse_subagent_descriptor_def descriptor_base_keys_def Let_def reader_defs)
  next
    case (Continuable p c)
    with assms(1) parse_written_continuable show ?thesis by simp
  qed
  ultimately show ?thesis using assms(2) by (simp add: fold_subagent_descriptor_def)
qed

definition sample_descriptor :: subagent_descriptor where
  "sample_descriptor = Continuable ''local'' \<lparr>cd_label = ''tester'', cd_agentProvider = None, cd_agentModel = Some ''m'',
     cd_persona = None, cd_toolFilter = Some \<lparr>tf_allow = Some [''read''], tf_deny = None\<rparr>\<rparr>"

definition sample_descriptor_event :: session_event where
  "sample_descriptor_event =
     \<lparr>ev_seq = 0, ev_time = 0, ev_data = PluginEvent ''subagent/descriptor'' (snapshot_subagent_descriptor sample_descriptor),
      ev_ignorable = False, ev_surfaceOp = None, ev_sources = None\<rparr>"

theorem descriptor_roundtrip_witness:
  "fold_subagent_descriptor ([] @ sample_descriptor_event # []) = Inr (Some sample_descriptor)"
  by (rule descriptor_roundtrip) (simp_all add: sample_descriptor_def sample_descriptor_event_def filter_wf_def)

end
