(* ===== verification/TeamRoster.thy ===== *)
theory TeamRoster
  imports TeamBoard AgentInbox SubagentDescriptor
begin

text \<open>
  The roster of an agent team (\<open>experimental/agent-team/src/roster.ts\<close>, \<open>session-message.ts\<close>): who is a member
  of which team, the list of members, and the provisioning of teammates: the first event, the settlement
  by the creator and the reconciliation after a restart.

  The registry of live agents maps ids to agents; \<open>ag_instance\<close> stands for the identity of the agent object.
  Starting and stopping a child session are operations of the subagent service: their outcomes are arguments.
  Between its two transactions \<open>spawn\<close> waits, so it is two steps, \<open>spawn_provision\<close> and
  \<open>spawn_finish\<close>.
\<close>

section \<open>Accepted messages\<close>

definition pending_inbox_messages :: "session_event list \<Rightarrow> message list" where
  "pending_inbox_messages es =
     (let ib = foldl (\<lambda>ib e. case ev_data e of InboxSpliced sp \<Rightarrow> splice_inbox sp ib | _ \<Rightarrow> ib) empty_inbox es
      in ib_nextTurn ib @ ib_nextStep ib)"

definition message_accepted :: "session_event list \<Rightarrow> (message \<Rightarrow> bool) \<Rightarrow> bool" where
  "message_accepted es P \<longleftrightarrow>
     list_ex (\<lambda>e. case ev_data e of UserMessage m \<Rightarrow> P m | _ \<Rightarrow> False) es \<or> list_ex P (pending_inbox_messages es)"

section \<open>Membership\<close>

record team_agent =
  ag_id :: string
  ag_instance :: nat
  ag_session :: session
  ag_running :: bool
  ag_model :: "string option"

type_synonym agent_registry = "(string \<times> team_agent) list"

definition parent_session :: "session \<Rightarrow> string option" where
  "parent_session s = z_string (json_field ''parentSession'' (sn_header s))"

definition agent_host :: "team_agent \<Rightarrow> team_host" where
  "agent_host a = \<lparr>th_rootId = ag_id a, th_session = ag_session a, th_notified = 0\<rparr>"

definition subagent_descriptor_of :: "team_agent \<Rightarrow> descriptor_fault + bool" where
  "subagent_descriptor_of a =
     map_sum id (\<lambda>d. d \<noteq> None) (fold_subagent_descriptor (own_suffix (ag_session a)))"

definition lead_unless_child :: "team_agent \<Rightarrow> team_membership option" where
  "lead_unless_child a =
     (case subagent_descriptor_of a of
        Inr False \<Rightarrow> Some \<lparr>mb_rootId = ag_id a, mb_role = Role_lead, mb_name = ''lead''\<rparr>
      | _ \<Rightarrow> None)"

definition try_membership :: "agent_registry \<Rightarrow> team_agent \<Rightarrow> team_membership option" where
  "try_membership reg a =
     (if map_option ag_instance (map_of reg (ag_id a)) \<noteq> Some (ag_instance a) then None
      else (case Option.bind (parent_session (ag_session a)) (map_of reg) of
          None \<Rightarrow> lead_unless_child a
        | Some lead \<Rightarrow>
            (case journal_state (agent_host lead) of
               Inl _ \<Rightarrow> None
             | Inr st \<Rightarrow>
                 (case map_of (ts_members st) (ag_id a) of
                    Some m \<Rightarrow>
                      if tm_phase m = Active \<or> tm_phase m = Provisioning
                      then Some \<lparr>mb_rootId = ag_id lead, mb_role = Role_teammate, mb_name = tm_name m\<rparr>
                      else lead_unless_child a
                  | None \<Rightarrow> lead_unless_child a))))"

definition membership :: "agent_registry \<Rightarrow> team_agent \<Rightarrow> team_failure + team_membership" where
  "membership reg a = of_option (Team_rejected (Not_a_member (ag_id a))) (try_membership reg a)"

section \<open>Views\<close>

datatype member_status = View_running | View_idle | View_inactive | View_provisioning | View_failed

record team_member_view =
  mv_id :: string
  mv_name :: string
  mv_role :: team_role
  mv_status :: member_status
  mv_description :: "string option"
  mv_provider :: "string option"
  mv_context :: "member_context option"
  mv_model :: "string option"
  mv_diagnostics :: "string list"

definition live_status :: "team_agent option \<Rightarrow> member_status" where
  "live_status a = (case a of None \<Rightarrow> View_inactive | Some x \<Rightarrow> if ag_running x then View_running else View_idle)"

definition lead_view :: "team_agent \<Rightarrow> team_member_view" where
  "lead_view lead =
     \<lparr>mv_id = ag_id lead, mv_name = ''lead'', mv_role = Role_lead, mv_status = live_status (Some lead),
      mv_description = None, mv_provider = None, mv_context = None, mv_model = ag_model lead, mv_diagnostics = []\<rparr>"

definition roster_row :: "agent_registry \<Rightarrow> team_agent \<Rightarrow> team_member \<Rightarrow> team_member_view" where
  "roster_row reg lead m =
     \<lparr>mv_id = tm_id m, mv_name = tm_name m, mv_role = Role_teammate,
      mv_status =
        (case tm_phase m of
           Failed \<Rightarrow> View_failed
         | Provisioning \<Rightarrow> View_provisioning
         | Active \<Rightarrow> live_status (map_of reg (tm_id m))),
      mv_description = Some (tm_description m), mv_provider = Some (tm_provider m),
      mv_context = Some (tm_context m),
      mv_model =
        (case Option.bind (map_of reg (tm_id m)) ag_model of
           Some model \<Rightarrow> Some model
         | None \<Rightarrow> ag_model lead),
      mv_diagnostics = (case tm_error m of None \<Rightarrow> [] | Some e \<Rightarrow> [e])\<rparr>"

definition roster_list :: "agent_registry \<Rightarrow> team_agent \<Rightarrow> team_failure + team_member_view list" where
  "roster_list reg lead =
     and_then (journal_state (agent_host lead)) (\<lambda>st.
       Inr (lead_view lead # map (roster_row reg lead) (js_values (ts_members st))))"

text \<open>The row of a member that has just become active.\<close>

definition member_view :: "agent_registry \<Rightarrow> team_member \<Rightarrow> team_member_view" where
  "member_view reg m =
     \<lparr>mv_id = tm_id m, mv_name = tm_name m, mv_role = Role_teammate, mv_status = live_status (map_of reg (tm_id m)),
      mv_description = Some (tm_description m), mv_provider = Some (tm_provider m),
      mv_context = Some (tm_context m), mv_model = Option.bind (map_of reg (tm_id m)) ag_model,
      mv_diagnostics = []\<rparr>"

definition roster_interrupt ::
    "agent_registry \<Rightarrow> team_agent \<Rightarrow> string \<Rightarrow> team_failure + (member_status \<times> string option)" where
  "roster_interrupt reg caller targetName =
     and_then (membership reg caller) (\<lambda>m.
     and_then (throw_if (mb_role m \<noteq> Role_lead) (Team_rejected (Lead_required ''interrupt''))) (\<lambda>_.
     and_then (of_option (Team_rejected (Not_a_member (ag_id caller))) (map_of reg (mb_rootId m))) (\<lambda>lead.
     and_then (journal_state (agent_host lead)) (\<lambda>st.
     and_then (map_sum Team_rejected id (resolve_active_member (ag_id lead) st targetName)) (\<lambda>(i, name).
     and_then (throw_if (i = ag_id lead) (Team_rejected Invalid_target)) (\<lambda>_.
       case map_of reg i of
         None \<Rightarrow> Inr (View_inactive, None)
       | Some live \<Rightarrow> Inr (live_status (Some live), Some i)))))))"

definition roster_child :: "agent_registry \<Rightarrow> team_agent \<Rightarrow> team_failure + string option" where
  "roster_child reg a =
     (case Option.bind (parent_session (ag_session a)) (map_of reg) of
        None \<Rightarrow> Inr None
      | Some lead \<Rightarrow>
          and_then (journal_state (agent_host lead)) (\<lambda>st.
            Inr (if js_has (ts_members st) (ag_id a) then Some (ag_id lead) else None)))"

fun group_children ::
    "agent_registry \<Rightarrow> team_agent list \<Rightarrow> (string \<times> string list) list \<Rightarrow> team_failure + (string \<times> string list) list" where
  "group_children reg [] teams = Inr teams"
| "group_children reg (a # as) teams =
     and_then (roster_child reg a) (\<lambda>lead.
       group_children reg as
         (case lead of
            None \<Rightarrow> teams
          | Some l \<Rightarrow> js_set l (or_empty (map_of teams l) @ [ag_id a]) teams))"

definition live_children_by_root :: "agent_registry \<Rightarrow> team_failure + (string \<times> string list) list" where
  "live_children_by_root reg = group_children reg (js_values reg) []"

section \<open>Creating a teammate\<close>

record spawn_request =
  sq_name :: string
  sq_description :: string
  sq_context :: member_context
  sq_provider :: string

definition is_member_name :: "string \<Rightarrow> bool" where
  "is_member_name v \<longleftrightarrow> kebab False v \<and> js_length v \<le> 64 \<and> v \<noteq> ''lead''"

definition spawn_member :: "spawn_request \<Rightarrow> string \<Rightarrow> team_error + team_member" where
  "spawn_member q childId =
     and_then (throw_if (\<not> is_member_name (sq_name q)) Invalid_member_name) (\<lambda>_.
     and_then (required_text (sq_description q) ''description'' 200) (\<lambda>description.
     and_then (required_text (sq_provider q) ''provider'' 200) (\<lambda>provider.
       Inr \<lparr>tm_id = childId, tm_name = sq_name q, tm_description = description, tm_provider = provider,
            tm_context = sq_context q, tm_phase = Provisioning, tm_error = None\<rparr>)))"

text \<open>\<open>aborted\<close> is the reason of the request's or the service's cancellation, if there is one.\<close>

definition spawn_provision ::
    "nat \<Rightarrow> team_env \<Rightarrow> team_role \<Rightarrow> string option \<Rightarrow> spawn_request \<Rightarrow> string \<Rightarrow> team_host
      \<Rightarrow> (team_failure + team_member) \<times> team_host" where
  "spawn_provision maxMembers env role aborted q childId h =
     (if role \<noteq> Role_lead then (Inl (Team_rejected (Lead_required ''spawn'')), h)
      else (case aborted of
          Some reason \<Rightarrow> (Inl (Team_aborted reason), h)
        | None \<Rightarrow>
            (case spawn_member q childId of
               Inl e \<Rightarrow> (Inl (Team_rejected e), h)
             | Inr m \<Rightarrow>
                 (case journal_state h of
                    Inl e \<Rightarrow> (Inl e, h)
                  | Inr st \<Rightarrow>
                      if js_has (ts_memberIdsByName st) (tm_name m)
                      then (Inl (Team_rejected (Member_name_taken (tm_name m))), h)
                      else if maxMembers \<le> length (ts_members st)
                      then (Inl (Team_rejected (Member_limit_reached maxMembers)), h)
                      else transact_append env (Member_record m) m h))))"

definition settle_provisioning ::
    "team_env \<Rightarrow> team_member \<Rightarrow> team_host \<Rightarrow> (team_failure + member_phase) \<times> team_host" where
  "settle_provisioning env terminal h =
     (case journal_state h of
        Inl e \<Rightarrow> (Inl e, h)
      | Inr st \<Rightarrow>
          (case map_of (ts_members st) (tm_id terminal) of
             None \<Rightarrow> (Inl (Team_rejected (Member_disappeared (tm_id terminal))), h)
           | Some current \<Rightarrow>
               if tm_phase current \<noteq> Provisioning then (Inr (tm_phase current), h)
               else transact_append env (Member_record terminal)
                      (if tm_phase terminal = Active then Active else Failed) h))"

datatype spawn_failure =
    Start_failed string
  | Start_and_recording_failed string team_failure
  | Start_and_stop_failed string string
  | Settlement_failed team_failure
  | Conflict_and_stop_failed team_error string

text \<open>
  The end of a creation: \<open>started\<close> says whether the child was started and durably accepted its first
  prompt, \<open>stopped\<close> whether releasing it succeeded where that is tried.
\<close>

definition spawn_finish ::
    "team_env \<Rightarrow> agent_registry \<Rightarrow> string + unit \<Rightarrow> string + unit \<Rightarrow> team_member \<Rightarrow> team_host
      \<Rightarrow> (spawn_failure + team_member_view) \<times> team_host" where
  "spawn_finish env reg started stopped m h =
     (case started of
        Inl msg \<Rightarrow>
          (case settle_provisioning env (m\<lparr>tm_phase := Failed, tm_error := Some msg\<rparr>) h of
             (Inl e, h') \<Rightarrow> (Inl (Start_and_recording_failed msg e), h')
           | (Inr phase, h') \<Rightarrow>
               (case stopped of
                  Inl stopMsg \<Rightarrow> (Inl (Start_and_stop_failed msg stopMsg), h')
                | Inr _ \<Rightarrow>
                    if phase = Active
                    then (Inl (Start_and_recording_failed msg (Team_rejected (Became_active (tm_name m)))), h')
                    else (Inl (Start_failed msg), h')))
      | Inr _ \<Rightarrow>
          (case settle_provisioning env (m\<lparr>tm_phase := Active\<rparr>) h of
             (Inl e, h') \<Rightarrow> (Inl (Settlement_failed e), h')
           | (Inr phase, h') \<Rightarrow>
               if phase = Failed then
                 (case stopped of
                    Inl stopMsg \<Rightarrow> (Inl (Conflict_and_stop_failed (Reconciled_as_failed (tm_name m)) stopMsg), h')
                  | Inr _ \<Rightarrow> (Inl (Settlement_failed (Team_rejected (Reconciled_as_failed (tm_name m)))), h'))
               else (Inr (member_view reg (m\<lparr>tm_phase := Active\<rparr>)), h')))"

section \<open>Reconciliation\<close>

record stored_session =
  so_parentSession :: "string option"
  so_seedLength :: "nat option"
  so_events :: "session_event list"

definition stored_suffix :: "stored_session \<Rightarrow> session_event list" where
  "stored_suffix s = drop (case so_seedLength s of None \<Rightarrow> 0 | Some n \<Rightarrow> n) (so_events s)"

definition from_user :: "message \<Rightarrow> bool" where
  "from_user m \<longleftrightarrow> msg_source m = UserSource"

text \<open>The phase a provisioning member is settled in, and the failure to record with it.\<close>

definition reconciled_phase ::
    "string \<Rightarrow> team_member \<Rightarrow> string + stored_session \<Rightarrow> member_phase \<times> string option" where
  "reconciled_phase rootId m inspected =
     (case inspected of
        Inl msg \<Rightarrow> (Failed, Some (''child Session recovery failed: '' @ msg))
      | Inr loaded \<Rightarrow>
          (case fold_subagent_descriptor (stored_suffix loaded) of
             Inl f \<Rightarrow> (Failed, Some (''child Session recovery failed: '' @ descriptor_fault_message f))
           | Inr d \<Rightarrow>
               if so_parentSession loaded = Some rootId
                  \<and> (case d of Some (Continuable p _) \<Rightarrow> p = tm_provider m | _ \<Rightarrow> False)
                  \<and> message_accepted (stored_suffix loaded) from_user
               then (Active, None)
               else (Failed, Some ''persisted child Session does not match the provisioned continuation'')))"

definition reconcile_member ::
    "team_env \<Rightarrow> agent_registry \<Rightarrow> string + stored_session \<Rightarrow> team_member \<Rightarrow> team_host
      \<Rightarrow> (team_failure + unit) \<times> team_host" where
  "reconcile_member env reg inspected m h =
     (if js_has reg (tm_id m) then (Inr (), h)
      else (case reconciled_phase (th_rootId h) m inspected of
          (phase, failure) \<Rightarrow>
            (case journal_state h of
               Inl e \<Rightarrow> (Inl e, h)
             | Inr st \<Rightarrow>
                 (case map_of (ts_members st) (tm_id m) of
                    None \<Rightarrow> (Inr (), h)
                  | Some current \<Rightarrow>
                      if tm_phase current \<noteq> Provisioning then (Inr (), h)
                      else transact_append env
                             (Member_record (current\<lparr>tm_phase := phase,
                                tm_error := (if phase = Failed then failure else tm_error current)\<rparr>)) () h))))"

fun reconcile_members ::
    "team_env \<Rightarrow> agent_registry \<Rightarrow> (string \<Rightarrow> string + stored_session) \<Rightarrow> team_member list \<Rightarrow> team_host
      \<Rightarrow> (team_failure + unit) \<times> team_host" where
  "reconcile_members env reg inspect [] h = (Inr (), h)"
| "reconcile_members env reg inspect (m # ms) h =
     (case reconcile_member env reg (inspect (tm_id m)) m h of
        (Inl e, h') \<Rightarrow> (Inl e, h')
      | (Inr _, h') \<Rightarrow> reconcile_members env reg inspect ms h')"

definition reconcile_provisioning ::
    "team_env \<Rightarrow> agent_registry \<Rightarrow> (string \<Rightarrow> string + stored_session) \<Rightarrow> team_host
      \<Rightarrow> (team_failure + unit) \<times> team_host" where
  "reconcile_provisioning env reg inspect h =
     (case journal_state h of
        Inl e \<Rightarrow> (Inl e, h)
      | Inr st \<Rightarrow>
          reconcile_members env reg inspect (filter (\<lambda>m. tm_phase m = Provisioning) (js_values (ts_members st))) h)"

end
