(* ===== verification/TeamMailbox.thy ===== *)
theory TeamMailbox
  imports TeamRoster
begin

text \<open>
  The durable mailbox of an agent team (\<open>experimental/agent-team/src/mailbox.ts\<close>): the admission of a
  peer message to the lead's log, the acknowledgement of a delivery once the target session has durably
  recorded the message, the order of messages, and what a restart tries again. The delivery itself
  (\<open>dispatchOnce\<close>) hands the message to the agent loop, which is not modelled; whatever it does to the
  target session, \<open>checkpoint_delivered\<close> looks at that session afterwards.

  \<open>num_text\<close> is the text of a JavaScript number, on which the size of a message depends.
\<close>

section \<open>The content of a message\<close>

definition text_block :: "string \<Rightarrow> json" where
  "text_block t = JObj [(''type'', JStr ''text''), (''text'', JStr t)]"

text \<open>\<open>deliveryContent\<close>: the content framed with its sender and identity.\<close>

definition delivery_content :: "team_message \<Rightarrow> json list" where
  "delivery_content m =
     text_block (''Team message '' @ tg_id m @ '' from '' @ tg_senderName m @ '':'') # tg_content m"

section \<open>Admission\<close>

record send_request =
  sr_target :: string
  sr_content :: "json list"
  sr_delivery :: message_delivery

record mailbox_limits =
  ml_maxPendingPerMember :: nat
  ml_maxMessageBytes :: nat

definition pending_for :: "team_state \<Rightarrow> string \<Rightarrow> team_message list" where
  "pending_for st targetId =
     filter (\<lambda>m. tg_targetId m = targetId \<and> tg_id m \<notin> set (ts_delivered st)) (js_values (ts_messages st))"

definition admit_message ::
    "mailbox_limits \<Rightarrow> (rat \<Rightarrow> string) \<Rightarrow> string \<Rightarrow> string \<Rightarrow> string \<Rightarrow> team_state \<Rightarrow> send_request \<Rightarrow> string
      \<Rightarrow> team_error + team_message" where
  "admit_message limits num_text rootId callerId callerName st q messageId =
     and_then (resolve_active_member rootId st (sr_target q)) (\<lambda>(targetId, targetName).
     and_then (throw_if (targetId = callerId) Self_message) (\<lambda>_.
     and_then (throw_if (ml_maxPendingPerMember limits \<le> length (pending_for st targetId))
         (Mailbox_full targetName (length (pending_for st targetId)))) (\<lambda>_.
     let m = \<lparr>tg_id = messageId, tg_senderId = callerId, tg_senderName = callerName, tg_targetId = targetId,
              tg_delivery = sr_delivery q, tg_content = sr_content q\<rparr>
     in and_then (throw_if (ml_maxMessageBytes limits < length (json_stringify num_text (JArr (delivery_content m))))
            (Message_too_large (ml_maxMessageBytes limits))) (\<lambda>_. Inr m))))"

text \<open>The transaction of \<open>sendAdmitted\<close>; \<open>messageId\<close> is \<open>team-message-\<close> with a random UUID.\<close>

definition mailbox_enqueue ::
    "mailbox_limits \<Rightarrow> (rat \<Rightarrow> string) \<Rightarrow> team_env \<Rightarrow> string option \<Rightarrow> string \<Rightarrow> string \<Rightarrow> send_request \<Rightarrow> string
      \<Rightarrow> team_host \<Rightarrow> (team_failure + team_message) \<times> team_host" where
  "mailbox_enqueue limits num_text env aborted callerId callerName q messageId h =
     (case aborted of
        Some reason \<Rightarrow> (Inl (Team_aborted reason), h)
      | None \<Rightarrow>
          (case journal_state h of
             Inl e \<Rightarrow> (Inl e, h)
           | Inr st \<Rightarrow>
               (case admit_message limits num_text (th_rootId h) callerId callerName st q messageId of
                  Inl e \<Rightarrow> (Inl (Team_rejected e), h)
                | Inr m \<Rightarrow> transact_append env (Queued_record m) m h)))"

section \<open>Acknowledgement\<close>

definition mark_delivered ::
    "team_env \<Rightarrow> string \<Rightarrow> string \<Rightarrow> team_host \<Rightarrow> (team_failure + unit) \<times> team_host" where
  "mark_delivered env messageId targetId h =
     (case journal_state h of
        Inl e \<Rightarrow> (Inl e, h)
      | Inr st \<Rightarrow>
          if messageId \<in> set (ts_delivered st) then (Inr (), h)
          else (case map_of (ts_messages st) messageId of
              None \<Rightarrow> (Inr (), h)
            | Some queued \<Rightarrow>
                if tg_targetId queued \<noteq> targetId then (Inr (), h)
                else transact_append env (Delivered_record messageId targetId) () h))"

definition is_team_message :: "string \<Rightarrow> message \<Rightarrow> bool" where
  "is_team_message messageId m \<longleftrightarrow>
     (case msg_source m of
        MergedSource kind fs \<Rightarrow> kind = ''team-message'' \<and> map_of fs ''messageId'' = Some (JStr messageId)
      | _ \<Rightarrow> False)"

definition target_recorded :: "session \<Rightarrow> string \<Rightarrow> bool" where
  "target_recorded s messageId \<longleftrightarrow> message_accepted (own_suffix s) (is_team_message messageId)"

text \<open>\<open>flushed\<close> is the outcome of the flush of the target session, \<open>target\<close> that session after it.\<close>

definition checkpoint_delivered ::
    "team_env \<Rightarrow> string + unit \<Rightarrow> session \<Rightarrow> string \<Rightarrow> string \<Rightarrow> team_host \<Rightarrow> (team_failure + bool) \<times> team_host" where
  "checkpoint_delivered env flushed target targetId messageId h =
     (case flushed of
        Inl msg \<Rightarrow> (Inl (Team_flush_failed msg), h)
      | Inr _ \<Rightarrow>
          if \<not> target_recorded target messageId then (Inr False, h)
          else (case mark_delivered env messageId targetId h of
              (Inl e, h') \<Rightarrow> (Inl e, h')
            | (Inr _, h') \<Rightarrow> (Inr True, h')))"

text \<open>The inspection of an inactive target: \<open>None\<close> when it is not known what the target has recorded.\<close>

definition persisted_target_recorded :: "string + stored_session \<Rightarrow> string \<Rightarrow> bool option" where
  "persisted_target_recorded inspected messageId =
     (case inspected of
        Inl _ \<Rightarrow> None
      | Inr stored \<Rightarrow> Some (message_accepted (stored_suffix stored) (is_team_message messageId)))"

section \<open>Order and recovery\<close>

definition message_precedes :: "team_host \<Rightarrow> string \<Rightarrow> string \<Rightarrow> team_failure + bool" where
  "message_precedes h left right =
     and_then (journal_state h) (\<lambda>st.
       let index = (\<lambda>i. case find_index (\<lambda>k. k = i) (js_keys (ts_messages st)) of Some n \<Rightarrow> int n | None \<Rightarrow> - 1)
       in Inr (index left < index right))"

text \<open>The messages a started member tries to deliver again, in the order of the mailbox.\<close>

definition recovery_messages ::
    "agent_registry \<Rightarrow> team_agent \<Rightarrow> team_membership \<Rightarrow> team_state \<Rightarrow> team_message list" where
  "recovery_messages reg a m st =
     filter (\<lambda>g. \<not> (mb_role m = Role_lead \<and> tg_delivery g = Delivery_quiet
                   \<and> tg_targetId g \<noteq> mb_rootId m \<and> map_of reg (tg_targetId g) = None))
       (filter (\<lambda>g. tg_id g \<notin> set (ts_delivered st) \<and> (mb_role m = Role_lead \<or> tg_targetId g = ag_id a))
          (js_values (ts_messages st)))"

end
