(* ===== verification/TeamGraph.thy ===== *)
theory TeamGraph
  imports TeamFold
begin

text \<open>
  The validation of the task graph: its depth-first search always ends, and a candidate is accepted
  exactly when the graph it would make is well formed: no blocker twice, none missing or deleted,
  no cycle.
\<close>

section \<open>What a well-formed graph is\<close>

definition live_tasks :: "(string \<times> team_task) list \<Rightarrow> string set" where
  "live_tasks tasks = {i. \<not> task_deleted tasks i}"

definition task_succs :: "(string \<times> team_task) list \<Rightarrow> string \<Rightarrow> string list" where
  "task_succs tasks i = (case map_of tasks i of None \<Rightarrow> [] | Some t \<Rightarrow> tt_blockedBy t)"

definition task_graph_ok :: "(string \<times> team_task) list \<Rightarrow> bool" where
  "task_graph_ok tasks \<longleftrightarrow>
     (\<forall>i \<in> live_tasks tasks. distinct (task_succs tasks i) \<and> set (task_succs tasks i) \<subseteq> live_tasks tasks)
     \<and> acyclic (edges (task_succs tasks) (live_tasks tasks))"

text \<open>Each task stands under its own id, once.\<close>

definition keyed :: "('a \<Rightarrow> 'k) \<Rightarrow> ('k \<times> 'a) list \<Rightarrow> bool" where
  "keyed key m \<longleftrightarrow> distinct (map fst m) \<and> (\<forall>(k, x) \<in> set m. key x = k)"

lemma keyed_Nil [simp]: "keyed key []"
  by (simp add: keyed_def)

lemma keyed_get: "keyed key m \<Longrightarrow> map_of m k = Some x \<Longrightarrow> key x = k"
  by (auto simp: keyed_def dest: map_of_SomeD)

lemma keyed_in: "keyed key m \<Longrightarrow> x \<in> set (map snd m) \<Longrightarrow> map_of m (key x) = Some x"
  by (auto simp: keyed_def)

lemma keyed_set:
  assumes "keyed key m"
  shows "keyed key (AList.update (key x) x m)"
proof -
  have "distinct (map fst (AList.update (key x) x m))"
    using assms by (simp add: keyed_def distinct_update)
  moreover have "key y = k" if "(k, y) \<in> set (AList.update (key x) x m)" for k y
  proof -
    from map_of_is_SomeI [OF calculation that] have "map_of (AList.update (key x) x m) k = Some y" .
    then show ?thesis using keyed_get [OF assms] by (auto split: if_splits)
  qed
  ultimately show ?thesis by (auto simp: keyed_def)
qed

lemma finite_live_tasks [simp]: "finite (live_tasks tasks)"
  and card_live_tasks: "card (live_tasks tasks) \<le> length tasks"
proof -
  have sub: "live_tasks tasks \<subseteq> fst ` set tasks"
    by (force simp: live_tasks_def task_deleted_def split: option.splits dest: map_of_SomeD)
  then show "finite (live_tasks tasks)" by (rule finite_subset) simp
  have "card (fst ` set tasks) \<le> length tasks" by (metis card_image_le card_length le_trans List.finite_set)
  with card_mono [OF _ sub] show "card (live_tasks tasks) \<le> length tasks" by simp
qed

lemma live_taskE:
  assumes "i \<in> live_tasks tasks"
  obtains t where "map_of tasks i = Some t" "tt_status t \<noteq> Task_deleted" "task_succs tasks i = tt_blockedBy t"
  using assms by (auto simp: live_tasks_def task_deleted_def task_succs_def split: option.splits)

lemma task_deleted_cases:
  "map_of tasks i = None \<Longrightarrow> i \<notin> live_tasks tasks"
  "map_of tasks i = Some t \<Longrightarrow> i \<in> live_tasks tasks \<longleftrightarrow> tt_status t \<noteq> Task_deleted"
  by (simp_all add: live_tasks_def task_deleted_def)

section \<open>The checks on blockers\<close>

lemma check_blockers_iff:
  "check_blockers tasks i seen bs = Inr () \<longleftrightarrow>
     i \<notin> set bs \<and> distinct bs \<and> set seen \<inter> set bs = {} \<and> set bs \<subseteq> live_tasks tasks"
  by (induction bs arbitrary: seen) (auto simp: live_tasks_def)

lemma check_all_blockers_iff:
  "check_all_blockers tasks ts = Inr () \<longleftrightarrow>
     (\<forall>t \<in> set ts. tt_status t = Task_deleted \<or> check_blockers tasks (tt_id t) [] (tt_blockedBy t) = Inr ())"
  by (induction ts) (auto simp: res_simps)

section \<open>Throwing folds\<close>

lemma fold_throwing_simps [simp]:
  "fold_throwing f [] s = Some (Inr s)"
  "fold_throwing f (x # xs) s =
     (case f x s of
        None \<Rightarrow> None
      | Some (Inl e) \<Rightarrow> Some (Inl e)
      | Some (Inr u) \<Rightarrow> fold_throwing f xs u)"
proof -
  have stuck: "fold_opt (\<lambda>x r. case r of Inl e \<Rightarrow> Some (Inl e) | Inr u \<Rightarrow> f x u) xs (Inl e) = Some (Inl e)" for e
    by (induction xs) auto
  show "fold_throwing f [] s = Some (Inr s)" by (simp add: fold_throwing_def)
  show "fold_throwing f (x # xs) s =
     (case f x s of
        None \<Rightarrow> None
      | Some (Inl e) \<Rightarrow> Some (Inl e)
      | Some (Inr u) \<Rightarrow> fold_throwing f xs u)"
    by (auto simp: fold_throwing_def stuck split: option.splits sum.splits)
qed

lemma fold_throwing_total:
  assumes "\<And>x u. x \<in> set xs \<Longrightarrow> I u \<Longrightarrow> \<exists>r. f x u = Some r \<and> (\<forall>v. r = Inr v \<longrightarrow> I v)" "I s"
  shows "\<exists>r. fold_throwing f xs s = Some r \<and> (\<forall>v. r = Inr v \<longrightarrow> I v)"
  using assms
proof (induction xs arbitrary: s)
  case (Cons x xs)
  from Cons.prems(1) [OF _ Cons.prems(2), of x] obtain r
    where r: "f x s = Some r" "\<forall>v. r = Inr v \<longrightarrow> I v" by auto
  show ?case
  proof (cases r)
    case (Inr u)
    with r have "I u" by simp
    from Cons.IH [OF _ this] Cons.prems(1) r Inr show ?thesis by simp
  qed (use r in simp)
qed simp

lemma fold_throwing_throws:
  assumes "fold_throwing f xs s = Some (Inl e)" "I s"
    and "\<And>x u v. x \<in> set xs \<Longrightarrow> I u \<Longrightarrow> f x u = Some (Inr v) \<Longrightarrow> I v"
  shows "\<exists>x u. x \<in> set xs \<and> I u \<and> f x u = Some (Inl e)"
  using assms
proof (induction xs arbitrary: s)
  case (Cons x xs)
  show ?case
  proof (cases "f x s")
    case None
    with Cons.prems(1) show ?thesis by simp
  next
    case (Some r)
    show ?thesis
    proof (cases r)
      case (Inl e')
      with Some Cons.prems(1,2) show ?thesis by auto
    next
      case (Inr u)
      with Some Cons.prems have "fold_throwing f xs u = Some (Inl e)" "I u" by auto
      from Cons.IH [OF this] Cons.prems(3)
      obtain y w where "y \<in> set xs" "I w" "f y w = Some (Inl e)" by (metis list.set_intros(2))
      then show ?thesis by auto
    qed
  qed
qed simp

section \<open>The search\<close>

lemma visit_task_total:
  assumes "card (live_tasks tasks - set (sv_visiting st)) < fuel"
  shows "\<exists>r. visit_task fuel tasks i st = Some r \<and> (\<forall>u. r = Inr u \<longrightarrow> sv_visiting u = sv_visiting st)"
  using assms
proof (induction fuel arbitrary: i st)
  case (Suc fuel)
  show ?case
  proof (cases "i \<in> set (sv_visiting st) \<or> i \<in> set (sv_visited st) \<or> i \<notin> live_tasks tasks")
    case True
    then show ?thesis by (elim disjE) (auto simp: live_tasks_def task_deleted_def split: option.splits)
  next
    case False
    then obtain t where t: "map_of tasks i = Some t" "tt_status t \<noteq> Task_deleted" using live_taskE by metis
    let ?vs = "i # sv_visiting st"
    have "live_tasks tasks - set ?vs \<subset> live_tasks tasks - set (sv_visiting st)" using False by auto
    then have card: "card (live_tasks tasks - set ?vs) < fuel"
      using Suc.prems psubset_card_mono [of "live_tasks tasks - set (sv_visiting st)"] by fastforce
    have "\<exists>r. fold_throwing (visit_task fuel tasks) (tt_blockedBy t) (st\<lparr>sv_visiting := ?vs\<rparr>) = Some r
        \<and> (\<forall>v. r = Inr v \<longrightarrow> sv_visiting v = ?vs)"
    proof (rule fold_throwing_total)
      fix u :: task_search and x assume u: "sv_visiting u = ?vs"
      show "\<exists>r. visit_task fuel tasks x u = Some r \<and> (\<forall>v. r = Inr v \<longrightarrow> sv_visiting v = ?vs)"
        using Suc.IH [of u x] u card by simp
    qed simp
    then obtain r where r: "fold_throwing (visit_task fuel tasks) (tt_blockedBy t) (st\<lparr>sv_visiting := ?vs\<rparr>) = Some r"
      "\<forall>v. r = Inr v \<longrightarrow> sv_visiting v = ?vs" by blast
    have new: "i \<notin> set (sv_visiting st)" "i \<notin> set (sv_visited st)" using False by simp_all
    show ?thesis
    proof (cases r)
      case (Inl e)
      with r(1) t new show ?thesis by simp
    next
      case (Inr u)
      with r(2) new have "removeAll i (sv_visiting u) = sv_visiting st" by simp
      with Inr r(1) t new show ?thesis by simp
    qed
  qed
qed simp

definition task_quiet :: "(string \<times> team_task) list \<Rightarrow> task_search \<Rightarrow> bool" where
  "task_quiet tasks st \<longleftrightarrow>
     finishing_order (task_succs tasks) (live_tasks tasks) (sv_visited st)
     \<and> set (sv_visiting st) \<inter> set (sv_visited st) = {}"

lemma visit_task_quiet:
  assumes "visit_task fuel tasks i st = Some (Inr st')" "task_quiet tasks st"
  shows "task_quiet tasks st' \<and> {i} \<inter> live_tasks tasks \<subseteq> set (sv_visited st')
    \<and> set (sv_visited st) \<subseteq> set (sv_visited st') \<and> sv_visiting st' = sv_visiting st"
  using assms
proof (induction fuel arbitrary: i st st')
  case (Suc fuel)
  let ?f = "visit_task fuel tasks"
  show ?case
  proof (cases "i \<in> set (sv_visited st) \<or> i \<notin> live_tasks tasks")
    case True
    with Suc.prems show ?thesis by (auto simp: task_deleted_cases split: if_splits option.splits)
  next
    case False
    then obtain t where t: "map_of tasks i = Some t" "tt_status t \<noteq> Task_deleted"
      "task_succs tasks i = tt_blockedBy t" by (auto elim!: live_taskE)
    let ?vs = "i # sv_visiting st"
    from Suc.prems(1) t False obtain u where new: "i \<notin> set (sv_visiting st)"
      and u: "fold_throwing ?f (tt_blockedBy t) (st\<lparr>sv_visiting := ?vs\<rparr>) = Some (Inr u)"
      and st': "st' = u\<lparr>sv_visiting := removeAll i (sv_visiting u), sv_visited := i # sv_visited u\<rparr>"
      by (auto split: if_splits option.splits sum.splits)
    have fold: "fold_throwing ?f ds a = Some (Inr b) \<Longrightarrow> task_quiet tasks a \<Longrightarrow>
        task_quiet tasks b \<and> set ds \<inter> live_tasks tasks \<subseteq> set (sv_visited b)
        \<and> set (sv_visited a) \<subseteq> set (sv_visited b) \<and> sv_visiting b = sv_visiting a" for ds a b
    proof (induction ds arbitrary: a)
      case (Cons d ds)
      then obtain c where c: "?f d a = Some (Inr c)" "fold_throwing ?f ds c = Some (Inr b)"
        by (auto split: option.splits sum.splits)
      from Suc.IH [OF c(1) Cons.prems(2)] Cons.IH [OF c(2)] show ?case by auto
    qed simp
    have "task_quiet tasks (st\<lparr>sv_visiting := ?vs\<rparr>)" using Suc.prems(2) False by (auto simp: task_quiet_def)
    from fold [OF u this] new t st' show ?thesis by (auto simp: task_quiet_def)
  qed
qed simp

lemma visit_task_throws:
  assumes "visit_task fuel tasks i st = Some (Inl e)"
    "active_path (task_succs tasks) (live_tasks tasks) (sv_visiting st)"
    "sv_visiting st = [] \<or> i \<in> set (task_succs tasks (hd (sv_visiting st)))"
  shows "\<not> acyclic (edges (task_succs tasks) (live_tasks tasks)) \<and> (\<exists>j. e = Cycle_includes j)"
  using assms
proof (induction fuel arbitrary: i st)
  case (Suc fuel)
  let ?f = "visit_task fuel tasks"
  show ?case
  proof (cases "i \<in> set (sv_visiting st)")
    case True
    then obtain x xs where vs: "sv_visiting st = x # xs" by (cases "sv_visiting st") auto
    then have "\<not> acyclic (edges (task_succs tasks) (live_tasks tasks))"
      using active_path_cycle [of "task_succs tasks" "live_tasks tasks" x xs i] True Suc.prems(2,3) by auto
    with True Suc.prems(1) show ?thesis by auto
  next
    case False
    with Suc.prems(1) have "i \<in> live_tasks tasks"
      by (auto simp: task_deleted_cases split: if_splits option.splits)
    then obtain t where t: "map_of tasks i = Some t" "tt_status t \<noteq> Task_deleted"
      "task_succs tasks i = tt_blockedBy t" by (auto elim!: live_taskE)
    let ?vs = "i # sv_visiting st"
    from Suc.prems(1) t False
    have fold: "fold_throwing ?f (tt_blockedBy t) (st\<lparr>sv_visiting := ?vs\<rparr>) = Some (Inl e)"
      by (auto split: if_splits option.splits sum.splits)
    have path: "active_path (task_succs tasks) (live_tasks tasks) ?vs"
      using Suc.prems(2,3) \<open>i \<in> live_tasks tasks\<close> by (cases "sv_visiting st") auto
    have keeps: "sv_visiting v = sv_visiting u" if "?f x u = Some (Inr v)" for x u v
      using that
    proof (induction fuel arbitrary: x u v)
      case (Suc fuel)
      have *: "fold_throwing (visit_task fuel tasks) ds a = Some (Inr b) \<Longrightarrow> sv_visiting b = sv_visiting a" for ds a b
        using Suc.IH by (induction ds arbitrary: a) (auto split: option.splits sum.splits)
      show ?case using Suc.prems * by (auto split: if_splits option.splits sum.splits)
    qed simp
    have "\<exists>x u. x \<in> set (tt_blockedBy t) \<and> sv_visiting u = ?vs \<and> ?f x u = Some (Inl e)"
    proof (rule fold_throwing_throws [OF fold])
      fix x u v assume "sv_visiting u = ?vs" "?f x u = Some (Inr v)"
      then show "sv_visiting v = ?vs" using keeps by simp
    qed simp
    then obtain x and u :: task_search
      where xu: "x \<in> set (tt_blockedBy t)" "sv_visiting u = ?vs" "?f x u = Some (Inl e)" by blast
    from Suc.IH [OF xu(3)] path xu t show ?thesis by simp
  qed
qed simp

lemma search_cycles_total: "\<exists>r. search_cycles tasks = Some r"
proof -
  let ?f = "visit_task (Suc (length tasks)) tasks"
  have "\<exists>r. fold_throwing ?f (map tt_id (js_values tasks)) \<lparr>sv_visiting = [], sv_visited = []\<rparr> = Some r
      \<and> (\<forall>v. r = Inr v \<longrightarrow> sv_visiting v = [])"
  proof (rule fold_throwing_total)
    fix x and u :: task_search assume "sv_visiting u = []"
    then show "\<exists>r. ?f x u = Some r \<and> (\<forall>v. r = Inr v \<longrightarrow> sv_visiting v = [])"
      using visit_task_total [of tasks u "Suc (length tasks)" x] card_live_tasks [of tasks] by simp
  qed simp
  then show ?thesis unfolding search_cycles_def by blast
qed

lemma search_cycles_accepts:
  assumes "search_cycles tasks = Some (Inr st)" "keyed tt_id tasks"
  shows "acyclic (edges (task_succs tasks) (live_tasks tasks))"
proof -
  let ?f = "visit_task (Suc (length tasks)) tasks"
  have fold: "fold_throwing ?f ds a = Some (Inr b) \<Longrightarrow> task_quiet tasks a \<Longrightarrow>
      task_quiet tasks b \<and> set ds \<inter> live_tasks tasks \<subseteq> set (sv_visited b)
      \<and> set (sv_visited a) \<subseteq> set (sv_visited b)" for ds a b
  proof (induction ds arbitrary: a)
    case (Cons d ds)
    then obtain c where c: "?f d a = Some (Inr c)" "fold_throwing ?f ds c = Some (Inr b)"
      by (auto simp del: visit_task.simps split: option.splits sum.splits)
    from visit_task_quiet [OF c(1) Cons.prems(2)] Cons.IH [OF c(2)] show ?case by auto
  qed simp
  have "task_quiet tasks \<lparr>sv_visiting = [], sv_visited = []\<rparr>" by (simp add: task_quiet_def)
  from fold [OF assms(1) [unfolded search_cycles_def] this]
  have "task_quiet tasks st" "set (map tt_id (map snd tasks)) \<inter> live_tasks tasks \<subseteq> set (sv_visited st)" by simp_all
  moreover have "live_tasks tasks \<subseteq> set (map tt_id (map snd tasks))"
  proof
    fix i assume "i \<in> live_tasks tasks"
    then obtain t where t: "map_of tasks i = Some t" by (rule live_taskE)
    from map_of_SomeD [OF t] keyed_get [OF assms(2) t] show "i \<in> set (map tt_id (map snd tasks))" by force
  qed
  ultimately have "live_tasks tasks \<subseteq> set (sv_visited st)" by blast
  with \<open>task_quiet tasks st\<close> show ?thesis unfolding task_quiet_def by (blast intro: finishing_order_acyclic)
qed

lemma search_cycles_throws:
  assumes "search_cycles tasks = Some (Inl e)"
  shows "\<not> acyclic (edges (task_succs tasks) (live_tasks tasks)) \<and> (\<exists>j. e = Cycle_includes j)"
proof -
  let ?f = "visit_task (Suc (length tasks)) tasks"
  have "\<exists>x u. x \<in> set (map tt_id (map snd tasks)) \<and> sv_visiting u = [] \<and> ?f x u = Some (Inl e)"
  proof (rule fold_throwing_throws [OF assms [unfolded search_cycles_def]])
    fix x u v assume "sv_visiting u = []" "?f x u = Some (Inr v)"
    then show "sv_visiting v = []"
      using visit_task_total [of tasks u "Suc (length tasks)" x] card_live_tasks [of tasks] by force
  qed simp
  then obtain x and u :: task_search where "sv_visiting u = []" "?f x u = Some (Inl e)" by blast
  with visit_task_throws [OF this(2)] show ?thesis by simp
qed

section \<open>The check decides the specification\<close>

lemma blockers_live_iff:
  assumes "keyed tt_id tasks"
  shows "check_all_blockers tasks (js_values tasks) = Inr () \<longleftrightarrow>
    (\<forall>i \<in> live_tasks tasks. i \<notin> set (task_succs tasks i) \<and> distinct (task_succs tasks i)
       \<and> set (task_succs tasks i) \<subseteq> live_tasks tasks)"
    (is "?L \<longleftrightarrow> ?R")
proof
  assume L: ?L
  show ?R
  proof
    fix i assume "i \<in> live_tasks tasks"
    then obtain t where t: "map_of tasks i = Some t" "tt_status t \<noteq> Task_deleted" "task_succs tasks i = tt_blockedBy t"
      by (rule live_taskE)
    have "t \<in> set (map snd tasks)" "tt_id t = i" using map_of_SomeD [OF t(1)] keyed_get [OF assms t(1)] by force+
    with L t show "i \<notin> set (task_succs tasks i) \<and> distinct (task_succs tasks i)
        \<and> set (task_succs tasks i) \<subseteq> live_tasks tasks"
      unfolding check_all_blockers_iff check_blockers_iff by auto
  qed
next
  assume R: ?R
  have "tt_status t = Task_deleted \<or> check_blockers tasks (tt_id t) [] (tt_blockedBy t) = Inr ()"
    if "t \<in> set (map snd tasks)" for t
  proof (cases "tt_status t = Task_deleted")
    case False
    have t: "map_of tasks (tt_id t) = Some t" by (rule keyed_in [OF assms that])
    with False have "tt_id t \<in> live_tasks tasks" by (simp add: task_deleted_cases)
    with R have "tt_id t \<notin> set (task_succs tasks (tt_id t)) \<and> distinct (task_succs tasks (tt_id t))
        \<and> set (task_succs tasks (tt_id t)) \<subseteq> live_tasks tasks" by blast
    with t show ?thesis by (simp add: check_blockers_iff task_succs_def)
  qed simp
  then show ?L by (simp add: check_all_blockers_iff)
qed

lemma self_edge_cyclic:
  assumes "i \<in> live_tasks tasks" "i \<in> set (task_succs tasks i)"
  shows "\<not> acyclic (edges (task_succs tasks) (live_tasks tasks))"
proof -
  have "(i, i) \<in> (edges (task_succs tasks) (live_tasks tasks))\<^sup>+" using assms by (auto simp: edges_def)
  then show ?thesis by (auto simp: acyclic_def)
qed

lemma assert_task_graph_total: "\<exists>r. assert_task_graph current candidate = Some r"
proof -
  obtain r where "search_cycles (js_set (tt_id candidate) candidate current) = Some r"
    using search_cycles_total by blast
  then show ?thesis by (auto simp: assert_task_graph_def Let_def split: sum.splits)
qed

lemma assert_task_graph_iff:
  assumes "keyed tt_id current"
  shows "assert_task_graph current candidate = Some (Inr ()) \<longleftrightarrow>
    task_graph_ok (js_set (tt_id candidate) candidate current)"
proof -
  let ?tasks = "js_set (tt_id candidate) candidate current"
  have k: "keyed tt_id ?tasks" using assms by (rule keyed_set)
  obtain r where r: "search_cycles ?tasks = Some r" using search_cycles_total by blast
  have cyc: "(\<exists>u. r = Inr u) \<longleftrightarrow> acyclic (edges (task_succs ?tasks) (live_tasks ?tasks))"
  proof (cases r)
    case (Inl e)
    with search_cycles_throws [of ?tasks e] r show ?thesis by simp
  next
    case (Inr u)
    with search_cycles_accepts [of ?tasks u] r k show ?thesis by simp
  qed
  have "assert_task_graph current candidate = Some (Inr ()) \<longleftrightarrow>
      check_all_blockers ?tasks (js_values ?tasks) = Inr () \<and> (\<exists>u. r = Inr u)"
    using r by (cases r) (auto simp: assert_task_graph_def Let_def split: sum.splits)
  also have "\<dots> \<longleftrightarrow> task_graph_ok ?tasks"
    unfolding cyc blockers_live_iff [OF k] task_graph_ok_def using self_edge_cyclic by blast
  finally show ?thesis .
qed

end
