(* ===== verification/TeamFoldProperties.thy ===== *)
theory TeamFoldProperties
  imports TeamGraph
begin

text \<open>
  The durable team stream: the decoder inverts the encoding of well-formed records and only returns
  such records; an accepted log keeps the roster, the task board and the mailbox consistent; the
  records of other teams, inherited through a fork, do not matter.
\<close>

section \<open>Well-formed records\<close>

definition member_wf :: "team_member \<Rightarrow> bool" where
  "member_wf m \<longleftrightarrow> tm_id m \<noteq> []"

definition task_id_wf :: "string \<Rightarrow> bool" where
  "task_id_wf i \<longleftrightarrow> i \<noteq> [] \<and> (case task_number i of Some n \<Rightarrow> int n \<le> max_safe | None \<Rightarrow> True)"

definition task_wf :: "team_task \<Rightarrow> bool" where
  "task_wf t \<longleftrightarrow> task_id_wf (tt_id t) \<and> 1 \<le> tt_revision t \<and> int (tt_revision t) \<le> max_safe
     \<and> tt_ownerId t \<noteq> Some [] \<and> list_all task_id_wf (tt_blockedBy t)"

definition message_wf :: "team_message \<Rightarrow> bool" where
  "message_wf m \<longleftrightarrow> tg_id m \<noteq> [] \<and> tg_senderId m \<noteq> [] \<and> tg_targetId m \<noteq> []
     \<and> list_all content_block_ok (tg_content m)"

fun record_wf :: "team_record \<Rightarrow> bool" where
  "record_wf (Member_record m) = member_wf m"
| "record_wf (Task_record t) = task_wf t"
| "record_wf (Queued_record m) = message_wf m"
| "record_wf (Delivered_record i t) = (i \<noteq> [] \<and> t \<noteq> [])"

section \<open>The readers\<close>

lemma z_string_iff: "z_string v = Some s \<longleftrightarrow> v = Some (JStr s)"
  by (auto simp: z_string_def split: option.splits json.splits)

lemma z_text_iff: "z_text v = Some s \<longleftrightarrow> v = Some (JStr s) \<and> s \<noteq> []"
  by (auto simp: z_text_def z_string_def split: option.splits json.splits if_splits)

lemma z_readers [simp]:
  "z_string (Some (JStr s)) = Some s"
  "z_text (Some (JStr s)) = (if s = [] then None else Some s)"
  "z_optional read None = Some None"
  "z_optional read (Some j) = map_option Some (read (Some j))"
  by (simp_all add: z_string_def z_text_def z_optional_def)

lemma z_positive_iff: "z_positive v = Some n \<longleftrightarrow> 1 \<le> n \<and> json_integer v = Some (int n)"
  by (auto simp: z_positive_def z_natural_def split: option.splits if_splits)

lemma json_integer_of_nat [simp]:
  "json_integer (Some (json_nat n)) = (if int n \<le> max_safe then Some (int n) else None)"
  using safe_integer_of_int [of "int n"] by (simp add: json_integer_def json_nat_def)

lemma json_integer_bound: "json_integer v = Some (int n) \<Longrightarrow> int n \<le> max_safe"
  by (auto simp: json_integer_def safe_integer_of_def split: option.splits json.splits if_splits)

lemma z_positive_nat [simp]:
  "z_positive (Some (json_nat n)) = (if 1 \<le> n \<and> int n \<le> max_safe then Some n else None)"
  by (auto simp: z_positive_def z_natural_def)

lemma z_task_id_iff: "z_task_id v = Some s \<longleftrightarrow> v = Some (JStr s) \<and> task_id_wf s"
  by (auto simp: z_task_id_def task_id_wf_def z_text_iff z_text_def z_string_def
      split: option.splits json.splits if_splits)

lemma z_task_id_str [simp]: "z_task_id (Some (JStr s)) = (if task_id_wf s then Some s else None)"
  by (cases "z_task_id (Some (JStr s))") (use z_task_id_iff [of "Some (JStr s)"] in auto)

lemma those_iff: "those (map f xs) = Some ys \<longleftrightarrow> list_all2 (\<lambda>x y. f x = Some y) xs ys"
  by (induction xs arbitrary: ys) (auto simp: list_all2_Cons1 split: option.splits)

lemma z_array_wf:
  assumes "z_array read v = Some xs" "\<And>u x. read u = Some x \<Longrightarrow> P x"
  shows "list_all P xs"
proof -
  obtain js where "list_all2 (\<lambda>j x. read (Some j) = Some x) js xs"
    using assms(1) by (auto simp: z_array_def those_iff split: option.splits json.splits)
  then show ?thesis by (induction rule: list_all2_induct) (auto intro: assms(2))
qed

lemma z_array_encoded:
  assumes "\<And>x. read (Some (enc x)) = (if P x then Some x else None)"
  shows "z_array read (Some (JArr (map enc xs))) = (if list_all P xs then Some xs else None)"
proof -
  have "those (map (\<lambda>x. read (Some (enc x))) xs) = (if list_all P xs then Some xs else None)"
    by (induction xs) (auto simp: assms split: option.splits)
  then show ?thesis by (simp add: z_array_def comp_def)
qed

lemmas z_array_tasks [simp] = z_array_encoded [where read = z_task_id and enc = JStr and P = task_id_wf, simplified]

lemma z_array_strings [simp]: "z_array z_string (Some (JArr (map JStr xs))) = Some xs"
  using z_array_encoded [of z_string JStr "\<lambda>_. True" xs] by (simp add: list_all_iff)

lemma z_content_block_some [simp]: "z_content_block (Some j) = (if content_block_ok j then Some j else None)"
  by (simp add: z_content_block_def)

lemma z_array_blocks [simp]:
  "z_array z_content_block (Some (JArr xs)) = (if list_all content_block_ok xs then Some xs else None)"
  using z_array_encoded [of z_content_block id content_block_ok xs] by simp

lemma z_enums [simp]:
  "z_phase (Some (JStr (member_phase_name p))) = Some p"
  "z_context (Some (JStr (context_name c))) = Some c"
  "z_status (Some (JStr (task_status_name s))) = Some s"
  "z_delivery (Some (JStr (delivery_name d))) = Some d"
  by ((cases p; simp add: z_phase_def z_enum_def names_of_def),
      (cases c; simp add: z_context_def z_enum_def names_of_def),
      (cases s; simp add: z_status_def z_enum_def names_of_def),
      (cases d; simp add: z_delivery_def z_enum_def names_of_def))

lemma only_keys_append [simp]: "only_keys ks (fs @ gs) \<longleftrightarrow> only_keys ks fs \<and> only_keys ks gs"
  by (auto simp: only_keys_def)

lemma only_keys_optional [simp]: "k \<in> set ks \<Longrightarrow> only_keys ks (optional k v)"
  by (auto simp: only_keys_def dest: fst_optional)

section \<open>Round trips\<close>

lemma z_member_encoded: "z_member (Some (encode_member m)) = (if member_wf m then Some m else None)"
  by (cases "tm_error m")
    (simp_all add: z_member_def encode_member_def z_object_def member_wf_def only_keys_def optional_def)

lemma z_task_encoded: "z_task (Some (encode_task t)) = (if task_wf t then Some t else None)"
  by (cases "tt_ownerId t")
    (simp_all add: z_task_def encode_task_def z_object_def task_wf_def only_keys_def optional_def)

lemma z_message_encoded: "z_message (Some (encode_team_message m)) = (if message_wf m then Some m else None)"
  by (simp add: z_message_def encode_team_message_def z_object_def message_wf_def only_keys_def)

lemma z_member_wf: "z_member v = Some m \<Longrightarrow> member_wf m"
  by (auto simp: z_member_def member_wf_def bind_eq_Some_conv z_text_iff)

lemma z_optional_text: "z_optional z_text v = Some s \<Longrightarrow> s \<noteq> Some []"
  by (auto simp: z_optional_def z_text_iff split: option.splits)

lemma z_task_wf: "z_task v = Some t \<Longrightarrow> task_wf t"
  by (auto simp: z_task_def task_wf_def bind_eq_Some_conv z_task_id_iff z_positive_iff z_optional_text
      intro: json_integer_bound z_array_wf)

lemma z_content_block_ok: "z_content_block v = Some j \<Longrightarrow> content_block_ok j"
  by (auto simp: z_content_block_def split: option.splits if_splits)

lemma z_message_wf: "z_message v = Some m \<Longrightarrow> message_wf m"
  by (auto simp: z_message_def message_wf_def bind_eq_Some_conv z_text_iff intro: z_array_wf z_content_block_ok)

lemma parsed_record_wf: "parse_current_team_event type d = Some (team, r) \<Longrightarrow> record_wf r"
  by (auto simp: parse_current_team_event_def bind_eq_Some_conv z_member_wf z_task_wf z_message_wf z_text_iff
      split: if_splits)

lemma parse_encoded:
  "parse_current_team_event (record_type r) (encode_record rootId r) =
     (if rootId \<noteq> [] \<and> record_wf r then Some (rootId, r) else None)"
  by (cases r)
    (auto simp: parse_current_team_event_def encode_record_def z_envelope_def z_object_def only_keys_def
      z_member_encoded z_task_encoded z_message_encoded)

lemma selector_encoded:
  "rootId \<noteq> [] \<Longrightarrow> read_selector (encode_record rootId r) = Some (1, rootId)"
  using json_integer_of_nat [of 1]
  by (simp add: read_selector_def encode_record_def z_natural_def json_nat_def max_safe_def)

lemma record_type_team [simp]: "record_type r \<in> set team_event_types"
  by (cases r) (simp_all add: team_event_types_def)

text \<open>What a written event does to the fold.\<close>

lemma apply_written:
  assumes "ev_data e = PluginEvent (record_type r) (encode_record rootId r)" "rootId \<noteq> []" "record_wf r"
    "ts_id st = rootId"
  shows "apply_team_event st e = apply_team_record st r"
  using assms by (simp add: apply_team_event_def selector_encoded parse_encoded)

end
