(* ===== verification/TeamStream.thy ===== *)
theory TeamStream
  imports TeamFoldProperties
begin

text \<open>
  Accepted team logs: the invariant of the fold (as the strict-log contract), the histories of
  members, tasks and messages an accepted log consists of, and the insignificance of the records
  of other teams.
\<close>

section \<open>The records of one team\<close>

definition own_record :: "string \<Rightarrow> session_event \<Rightarrow> team_record option" where
  "own_record rootId e =
     (case ev_data e of
        PluginEvent type d \<Rightarrow>
          if type \<notin> set team_event_types then None
          else (case parse_current_team_event type d of
             None \<Rightarrow> None
           | Some (team, r) \<Rightarrow> if team = rootId then Some r else None)
      | _ \<Rightarrow> None)"

definition team_records :: "string \<Rightarrow> session_event list \<Rightarrow> team_record list" where
  "team_records rootId es = List.map_filter (own_record rootId) es"

lemma team_records_simps [simp]:
  "team_records rootId [] = []"
  "team_records rootId (es @ [e]) =
     team_records rootId es @ (case own_record rootId e of None \<Rightarrow> [] | Some r \<Rightarrow> [r])"
  by (auto simp: team_records_def List.map_filter_def split: option.splits)

lemma z_envelope_selector: "z_envelope keys d = Some (team, fs) \<Longrightarrow> read_selector d = Some (1, team)"
  by (auto simp: z_envelope_def z_object_def read_selector_def bind_eq_Some_conv z_natural_def json_integer_def
      safe_integer_of_def max_safe_def split: option.splits json.splits if_splits)

lemma parse_selector: "parse_current_team_event type d = Some (team, r) \<Longrightarrow> read_selector d = Some (1, team)"
  by (auto simp: parse_current_team_event_def bind_eq_Some_conv dest: z_envelope_selector split: if_splits)

lemma own_record_wf: "own_record rootId e = Some r \<Longrightarrow> record_wf r"
  by (auto simp: own_record_def intro: parsed_record_wf split: event_data.splits option.splits if_splits)

lemma apply_own: "own_record (ts_id st) e = Some r \<Longrightarrow> apply_team_event st e = apply_team_record st r"
  by (auto simp: own_record_def apply_team_event_def dest: parse_selector
      split: event_data.splits option.splits if_splits)

lemma apply_foreign: "own_record (ts_id st) e = None \<Longrightarrow> apply_team_event st e = Inr st' \<Longrightarrow> st' = st"
  by (auto simp: own_record_def apply_team_event_def split: event_data.splits option.splits if_splits)

lemma apply_team_event_cases:
  assumes "apply_team_event st e = Inr st'"
  obtains (other) "own_record (ts_id st) e = None" "st' = st"
    | (own) r where "own_record (ts_id st) e = Some r" "record_wf r" "apply_team_record st r = Inr st'"
  using assms apply_own [of st e] apply_foreign [of st e st'] own_record_wf by (cases "own_record (ts_id st) e") auto

section \<open>The invariant\<close>

definition roster_ok :: "team_state \<Rightarrow> bool" where
  "roster_ok st \<longleftrightarrow>
     keyed tm_id (ts_members st) \<and> list_all member_wf (map snd (ts_members st))
     \<and> distinct (map fst (ts_memberIdsByName st))
     \<and> (\<forall>n i. map_of (ts_memberIdsByName st) n = Some i \<longleftrightarrow>
          (\<exists>m. map_of (ts_members st) i = Some m \<and> tm_name m = n))"

definition board_ok :: "team_state \<Rightarrow> bool" where
  "board_ok st \<longleftrightarrow>
     keyed tt_id (ts_tasks st) \<and> list_all task_wf (map snd (ts_tasks st)) \<and> task_graph_ok (ts_tasks st)
     \<and> 1 \<le> ts_nextTaskNumber st \<and> int (ts_nextTaskNumber st) \<le> max_safe
     \<and> (\<forall>i n. js_has (ts_tasks st) i \<longrightarrow> task_number i = Some n \<longrightarrow>
          n < ts_nextTaskNumber st \<or> int n = max_safe \<and> int (ts_nextTaskNumber st) = max_safe)"

definition mailbox_ok :: "team_state \<Rightarrow> bool" where
  "mailbox_ok st \<longleftrightarrow>
     keyed tg_id (ts_messages st) \<and> list_all message_wf (map snd (ts_messages st))
     \<and> distinct (ts_delivered st) \<and> set (ts_delivered st) \<subseteq> set (map fst (ts_messages st))"

definition team_ok :: "team_state \<Rightarrow> bool" where
  "team_ok st \<longleftrightarrow> roster_ok st \<and> board_ok st \<and> mailbox_ok st"

lemma apply_member_cases:
  assumes "apply_member st m = Inr st'"
  obtains (provision) "map_of (ts_members st) (tm_id m) = None" "tm_phase m = Provisioning"
      "map_of (ts_memberIdsByName st) (tm_name m) = None \<or> map_of (ts_memberIdsByName st) (tm_name m) = Some (tm_id m)"
      "st' = st\<lparr>ts_memberIdsByName := js_set (tm_name m) (tm_id m) (ts_memberIdsByName st),
                ts_members := js_set (tm_id m) m (ts_members st)\<rparr>"
    | (settle) p where "map_of (ts_members st) (tm_id m) = Some p" "tm_name p = tm_name m"
      "tm_provider p = tm_provider m" "tm_context p = tm_context m" "tm_phase p = Provisioning"
      "tm_phase m \<noteq> Provisioning" "st' = st\<lparr>ts_members := js_set (tm_id m) m (ts_members st)\<rparr>"
  using assms by (auto simp: apply_member_def Let_def split: option.splits if_splits)

lemma apply_task_cases:
  assumes "apply_task st t = Inr st'"
  obtains "tt_revision t = (case map_of (ts_tasks st) (tt_id t) of None \<Rightarrow> 1 | Some p \<Rightarrow> tt_revision p + 1)"
    "assert_task_graph (ts_tasks st) t = Some (Inr ())"
    "st' = st\<lparr>ts_nextTaskNumber := next_task_number (tt_id t) (ts_nextTaskNumber st),
              ts_tasks := js_set (tt_id t) t (ts_tasks st)\<rparr>"
  using assms by (cases "map_of (ts_tasks st) (tt_id t)")
    (auto simp: apply_task_def Let_def split: option.splits if_splits sum.splits)

lemma apply_queued_cases:
  assumes "apply_queued st m = Inr st'"
  obtains "map_of (ts_messages st) (tg_id m) = None" "st' = st\<lparr>ts_messages := ts_messages st @ [(tg_id m, m)]\<rparr>"
  using assms by (auto simp: apply_queued_def js_set_new split: if_splits)

lemma apply_delivered_cases:
  assumes "apply_delivered st i t = Inr st'"
  obtains m where "map_of (ts_messages st) i = Some m" "tg_targetId m = t" "i \<notin> set (ts_delivered st)"
    "st' = st\<lparr>ts_delivered := ts_delivered st @ [i]\<rparr>"
  using assms by (auto simp: apply_delivered_def split: option.splits if_splits)

lemma js_set_list_all: "list_all P (map snd m) \<Longrightarrow> P v \<Longrightarrow> list_all P (map snd (AList.update k v m))"
  by (induction m) (auto split: if_splits)

lemma apply_member_ok:
  assumes "apply_member st m = Inr st'" "member_wf m" "roster_ok st"
  shows "roster_ok st'"
  using assms(1)
proof (cases rule: apply_member_cases)
  case provision
  note ok = assms(3) [unfolded roster_ok_def]
  have fresh: "map_of (ts_memberIdsByName st) (tm_name m) = None"
    using provision(1,3) ok by auto
  have names: "map_of (ts_memberIdsByName st) n = Some i \<longleftrightarrow>
      (\<exists>p. map_of (ts_members st) i = Some p \<and> tm_name p = n)" for n i using ok by blast
  have new: "map_of (js_set (tm_name m) (tm_id m) (ts_memberIdsByName st)) n = Some i \<longleftrightarrow>
      (\<exists>p. map_of (js_set (tm_id m) m (ts_members st)) i = Some p \<and> tm_name p = n)" for n i
  proof (cases "i = tm_id m")
    case True
    with names [of n i] provision(1) show ?thesis by auto
  next
    case False
    with names [of n i] fresh show ?thesis by auto
  qed
  have "keyed tm_id (js_set (tm_id m) m (ts_members st))" using ok by (intro keyed_set) blast
  moreover have "list_all member_wf (map snd (js_set (tm_id m) m (ts_members st)))"
    using ok assms(2) by (intro js_set_list_all) blast+
  moreover have "distinct (map fst (js_set (tm_name m) (tm_id m) (ts_memberIdsByName st)))"
    using ok by (intro distinct_update) blast
  ultimately show ?thesis unfolding provision(4) roster_ok_def using new by simp
next
  case (settle p)
  note ok = assms(3) [unfolded roster_ok_def]
  have names: "map_of (ts_memberIdsByName st) n = Some i \<longleftrightarrow>
      (\<exists>p. map_of (ts_members st) i = Some p \<and> tm_name p = n)" for n i using ok by blast
  have new: "map_of (ts_memberIdsByName st) n = Some i \<longleftrightarrow>
      (\<exists>p. map_of (js_set (tm_id m) m (ts_members st)) i = Some p \<and> tm_name p = n)" for n i
    using names [of n i] settle(1,2) by auto
  have "keyed tm_id (js_set (tm_id m) m (ts_members st))" using ok by (intro keyed_set) blast
  moreover have "list_all member_wf (map snd (js_set (tm_id m) m (ts_members st)))"
    using ok assms(2) by (intro js_set_list_all) blast+
  ultimately show ?thesis unfolding settle(7) roster_ok_def using ok new by simp
qed

lemma next_task_number_bound:
  assumes "int current \<le> max_safe" "1 \<le> current" "task_id_wf i"
  shows "int (next_task_number i current) \<le> max_safe" "current \<le> next_task_number i current"
    "task_number i = Some n \<Longrightarrow> n < next_task_number i current
       \<or> int n = max_safe \<and> int (next_task_number i current) = max_safe"
  using assms by (auto simp: next_task_number_def task_id_wf_def split: option.splits)

lemma apply_task_ok:
  assumes "apply_task st t = Inr st'" "task_wf t" "board_ok st"
  shows "board_ok st'"
  using assms(1)
proof (cases rule: apply_task_cases)
  case 1
  let ?n = "next_task_number (tt_id t) (ts_nextTaskNumber st)"
  note ok = assms(3) [unfolded board_ok_def]
  have b: "int ?n \<le> max_safe" "ts_nextTaskNumber st \<le> ?n"
    "\<And>n. task_number (tt_id t) = Some n \<Longrightarrow> n < ?n \<or> int n = max_safe \<and> int ?n = max_safe"
    using next_task_number_bound [of "ts_nextTaskNumber st" "tt_id t"] ok assms(2) by (auto simp: task_wf_def)
  have graph: "task_graph_ok (js_set (tt_id t) t (ts_tasks st))"
    using 1(2) ok assert_task_graph_iff by blast
  have wf: "list_all task_wf (map snd (AList.update (tt_id t) t (ts_tasks st)))"
    using ok assms(2) by (simp add: js_set_list_all)
  have num: "n < ?n \<or> int n = max_safe \<and> int ?n = max_safe"
    if "js_has (js_set (tt_id t) t (ts_tasks st)) i" "task_number i = Some n" for i n
  proof (cases "i = tt_id t")
    case True
    with b(3) that show ?thesis by simp
  next
    case False
    with that have "js_has (ts_tasks st) i" by simp
    with ok that(2) have "n < ts_nextTaskNumber st \<or> int n = max_safe \<and> int (ts_nextTaskNumber st) = max_safe" by blast
    with b(1,2) show ?thesis by auto
  qed
  show ?thesis unfolding 1(3) board_ok_def
    using ok graph wf b num keyed_set [of tt_id "ts_tasks st" t] by simp
qed

lemma apply_queued_ok:
  assumes "apply_queued st m = Inr st'" "message_wf m" "mailbox_ok st"
  shows "mailbox_ok st'"
  using assms(1)
proof (cases rule: apply_queued_cases)
  case 1
  with assms(2,3) show ?thesis
    by (auto simp: mailbox_ok_def keyed_def map_of_eq_None_iff)
qed

lemma apply_delivered_ok:
  assumes "apply_delivered st i t = Inr st'" "mailbox_ok st"
  shows "mailbox_ok st'"
  using assms(1)
proof (cases rule: apply_delivered_cases)
  case (1 m)
  with assms(2) map_of_SomeD [OF 1(1)] show ?thesis by (force simp: mailbox_ok_def)
qed

lemma frames:
  "apply_member st m = Inr st' \<Longrightarrow> board_ok st' = board_ok st \<and> mailbox_ok st' = mailbox_ok st \<and> ts_id st' = ts_id st"
  "apply_task st t = Inr st' \<Longrightarrow> roster_ok st' = roster_ok st \<and> mailbox_ok st' = mailbox_ok st \<and> ts_id st' = ts_id st"
  "apply_queued st g = Inr st' \<Longrightarrow> roster_ok st' = roster_ok st \<and> board_ok st' = board_ok st \<and> ts_id st' = ts_id st"
  "apply_delivered st i j = Inr st' \<Longrightarrow> roster_ok st' = roster_ok st \<and> board_ok st' = board_ok st \<and> ts_id st' = ts_id st"
  by ((erule apply_member_cases; simp add: board_ok_def mailbox_ok_def),
     (erule apply_task_cases; simp add: roster_ok_def mailbox_ok_def),
     (erule apply_queued_cases; simp add: roster_ok_def board_ok_def),
     (erule apply_delivered_cases; simp add: roster_ok_def board_ok_def))

lemma apply_team_record_ok:
  assumes "apply_team_record st r = Inr st'" "record_wf r" "team_ok st"
  shows "team_ok st'"
  using assms frames apply_member_ok apply_task_ok apply_queued_ok apply_delivered_ok
  by (cases r) (auto simp: team_ok_def)

lemma apply_team_record_id: "apply_team_record st r = Inr st' \<Longrightarrow> ts_id st' = ts_id st"
  by (cases r) (auto dest: frames)

interpretation team_log: strict_log apply_team_event team_ok
proof
  fix st e st' assume "team_ok st" "apply_team_event st e = Inr st'"
  then show "team_ok st'" by (auto elim!: apply_team_event_cases intro: apply_team_record_ok)
qed

lemma task_graph_ok_empty [simp]: "task_graph_ok []"
proof -
  have "edges (task_succs []) (live_tasks []) = {}" by (auto simp: edges_def live_tasks_def task_deleted_def)
  then show ?thesis by (simp add: task_graph_ok_def live_tasks_def task_deleted_def acyclic_def)
qed

lemma empty_team_ok: "team_ok (empty_team_state rootId)"
  by (simp add: team_ok_def roster_ok_def board_ok_def mailbox_ok_def empty_team_state_def max_safe_def)

lemma fold_team_ok: "fold_team rootId es = Inr st \<Longrightarrow> team_ok st"
  unfolding fold_team_def using empty_team_ok by (rule team_log.replay_inv)

lemma replay_team_id: "replay apply_team_event st es = Inr st' \<Longrightarrow> ts_id st' = ts_id st"
  by (induction es arbitrary: st) (auto simp: res_simps elim!: apply_team_event_cases dest: apply_team_record_id)

lemma fold_team_id: "fold_team rootId es = Inr st \<Longrightarrow> ts_id st = rootId"
  by (auto simp: fold_team_def empty_team_state_def dest: replay_team_id)

section \<open>Histories\<close>

definition member_history :: "string \<Rightarrow> session_event list \<Rightarrow> string \<Rightarrow> team_member list" where
  "member_history rootId es i =
     List.map_filter (\<lambda>r. case r of Member_record m \<Rightarrow> if tm_id m = i then Some m else None | _ \<Rightarrow> None)
       (team_records rootId es)"

definition task_history :: "string \<Rightarrow> session_event list \<Rightarrow> string \<Rightarrow> team_task list" where
  "task_history rootId es i =
     List.map_filter (\<lambda>r. case r of Task_record t \<Rightarrow> if tt_id t = i then Some t else None | _ \<Rightarrow> None)
       (team_records rootId es)"

definition queued_history :: "string \<Rightarrow> session_event list \<Rightarrow> team_message list" where
  "queued_history rootId es =
     List.map_filter (\<lambda>r. case r of Queued_record m \<Rightarrow> Some m | _ \<Rightarrow> None) (team_records rootId es)"

definition delivered_history :: "string \<Rightarrow> session_event list \<Rightarrow> (string \<times> string) list" where
  "delivered_history rootId es =
     List.map_filter (\<lambda>r. case r of Delivered_record i t \<Rightarrow> Some (i, t) | _ \<Rightarrow> None) (team_records rootId es)"

lemmas history_defs = member_history_def task_history_def queued_history_def delivered_history_def

lemma map_filter_snoc [simp]:
  "List.map_filter f (xs @ [x]) = List.map_filter f xs @ (case f x of None \<Rightarrow> [] | Some y \<Rightarrow> [y])"
  by (auto simp: List.map_filter_def split: option.splits)

lemma map_filter_nil [simp]: "List.map_filter f [] = []"
  by (simp add: List.map_filter_def)

lemma fold_team_snoc:
  assumes "fold_team rootId (es @ [e]) = Inr st'"
  obtains st where "fold_team rootId es = Inr st" "apply_team_event st e = Inr st'"
  using assms by (auto simp: fold_team_def replay_snoc res_simps)

definition phases_of :: "member_phase \<Rightarrow> member_phase list" where
  "phases_of p = (if p = Provisioning then [Provisioning] else [Provisioning, p])"

lemma phases_of_in: "phases_of p \<in> {[], [Provisioning], [Provisioning, Active], [Provisioning, Failed]}"
  by (cases p) (simp_all add: phases_of_def)

text \<open>The state is what the histories say: the invariant by which the properties of histories are proved.\<close>

definition histories_ok :: "string \<Rightarrow> session_event list \<Rightarrow> team_state \<Rightarrow> bool" where
  "histories_ok rootId es st \<longleftrightarrow>
     (\<forall>i. map tm_phase (member_history rootId es i)
            = (case map_of (ts_members st) i of None \<Rightarrow> [] | Some m \<Rightarrow> phases_of (tm_phase m)))
     \<and> (\<forall>i m. map_of (ts_members st) i = Some m \<longrightarrow> last (member_history rootId es i) = m)
     \<and> (\<forall>i. map tt_revision (task_history rootId es i)
            = (case map_of (ts_tasks st) i of None \<Rightarrow> [] | Some t \<Rightarrow> [1..<Suc (tt_revision t)]))
     \<and> (\<forall>i t. map_of (ts_tasks st) i = Some t \<longrightarrow> last (task_history rootId es i) = t)
     \<and> ts_messages st = map (\<lambda>m. (tg_id m, m)) (queued_history rootId es)
     \<and> ts_delivered st = map fst (delivered_history rootId es)
     \<and> (\<forall>(i, t) \<in> set (delivered_history rootId es).
          \<exists>m \<in> set (queued_history rootId es). tg_id m = i \<and> tg_targetId m = t)"

lemma histories_member:
  assumes "histories_ok rootId es st" "own_record rootId e = Some (Member_record m)" "apply_member st m = Inr st'"
  shows "histories_ok rootId (es @ [e]) st'"
  using assms(3)
proof (cases rule: apply_member_cases)
  case provision
  with assms(1,2) show ?thesis by (auto simp: histories_ok_def history_defs phases_of_def)
next
  case (settle p)
  with assms(1,2) show ?thesis by (auto simp: histories_ok_def history_defs phases_of_def)
qed

lemma histories_task:
  assumes "histories_ok rootId es st" "own_record rootId e = Some (Task_record t)" "apply_task st t = Inr st'"
  shows "histories_ok rootId (es @ [e]) st'"
  using assms(3)
proof (cases rule: apply_task_cases)
  case 1
  with assms(1,2) show ?thesis
    by (cases "map_of (ts_tasks st) (tt_id t)") (auto simp: histories_ok_def history_defs)
qed

lemma histories_queued:
  assumes "histories_ok rootId es st" "own_record rootId e = Some (Queued_record m)" "apply_queued st m = Inr st'"
  shows "histories_ok rootId (es @ [e]) st'"
  using assms(3)
proof (cases rule: apply_queued_cases)
  case 1
  with assms(1,2) show ?thesis by (auto simp: histories_ok_def history_defs)
qed

lemma histories_delivered:
  assumes "histories_ok rootId es st" "own_record rootId e = Some (Delivered_record i t)"
    "apply_delivered st i t = Inr st'"
  shows "histories_ok rootId (es @ [e]) st'"
  using assms(3)
proof (cases rule: apply_delivered_cases)
  case (1 m)
  note h = assms(1) [unfolded histories_ok_def]
  have "m \<in> set (queued_history rootId es)" "tg_id m = i" using map_of_SomeD [OF 1(1)] h by auto
  then have "\<exists>m \<in> set (queued_history rootId es). tg_id m = i \<and> tg_targetId m = t" using 1(2) by blast
  with assms(1,2) 1(4) show ?thesis by (simp add: histories_ok_def history_defs)
qed

lemma histories_foreign:
  assumes "histories_ok rootId es st" "own_record rootId e = None"
  shows "histories_ok rootId (es @ [e]) st"
proof -
  have eq: "team_records rootId (es @ [e]) = team_records rootId es" using assms(2) by simp
  have "histories_ok rootId (es @ [e]) st = histories_ok rootId es st"
    unfolding histories_ok_def history_defs eq ..
  with assms(1) show ?thesis by simp
qed

lemma fold_histories: "fold_team rootId es = Inr st \<Longrightarrow> histories_ok rootId es st"
proof (induction es arbitrary: st rule: rev_induct)
  case Nil
  then show ?case by (auto simp: fold_team_def histories_ok_def history_defs empty_team_state_def)
next
  case (snoc e es)
  from snoc.prems obtain s where s: "fold_team rootId es = Inr s" "apply_team_event s e = Inr st"
    by (rule fold_team_snoc)
  note id = fold_team_id [OF s(1)]
  from s(2) show ?case
  proof (cases rule: apply_team_event_cases)
    case other
    with snoc.IH [OF s(1)] id histories_foreign show ?thesis by simp
  next
    case (own r)
    with id snoc.IH [OF s(1)] show ?thesis
      by (cases r) (auto intro: histories_member histories_task histories_queued histories_delivered)
  qed
qed

text \<open>
  C20: In a log the fold accepts, every member goes from provisioning to at most one final phase, the
  revisions of every task are consecutive from one, no message is queued twice, and every
  acknowledgement is for a queued message, names its target and comes once.
\<close>

theorem team_log_histories:
  assumes "fold_team rootId es = Inr st"
  shows "map tm_phase (member_history rootId es i)
      \<in> {[], [Provisioning], [Provisioning, Active], [Provisioning, Failed]}
    \<and> (\<exists>n. map tt_revision (task_history rootId es j) = [1..<Suc n])
    \<and> distinct (map tg_id (queued_history rootId es))
    \<and> distinct (map fst (delivered_history rootId es))
    \<and> (\<forall>(k, target) \<in> set (delivered_history rootId es).
         \<exists>m \<in> set (queued_history rootId es). tg_id m = k \<and> tg_targetId m = target)"
proof -
  note h = fold_histories [OF assms, unfolded histories_ok_def]
  note ok = fold_team_ok [OF assms, unfolded team_ok_def mailbox_ok_def keyed_def]
  have "map tm_phase (member_history rootId es i)
      \<in> {[], [Provisioning], [Provisioning, Active], [Provisioning, Failed]}"
    using h phases_of_in by (auto split: option.splits)
  moreover have "\<exists>n. map tt_revision (task_history rootId es j) = [1..<Suc n]"
  proof (cases "map_of (ts_tasks st) j")
    case None
    with h have "map tt_revision (task_history rootId es j) = [1..<Suc 0]" by simp
    then show ?thesis by blast
  qed (use h in auto)
  moreover have "distinct (map tg_id (queued_history rootId es))"
    using h ok by (simp add: comp_def)
  moreover have "distinct (map fst (delivered_history rootId es))" using h ok by simp
  moreover have "\<forall>(k, target) \<in> set (delivered_history rootId es).
      \<exists>m \<in> set (queued_history rootId es). tg_id m = k \<and> tg_targetId m = target" using h by simp
  ultimately show ?thesis by simp
qed

text \<open>
  The folded board and roster are consistent: the tasks form a well-formed graph, a name belongs to one
  member, and the number for the next task is free unless the numbers are exhausted.
\<close>

lemma task_number_str [simp]: "task_number (''task-'' @ str_of_nat n) = Some n"
  using str_of_nat_digits [of "str_of_nat n" n] by (simp add: task_number_def)

theorem team_state_consistent:
  assumes "fold_team rootId es = Inr st"
  shows "task_graph_ok (ts_tasks st)
    \<and> inj_on (\<lambda>i. map_option tm_name (map_of (ts_members st) i)) (set (map fst (ts_members st)))
    \<and> (map_of (ts_tasks st) (''task-'' @ str_of_nat (ts_nextTaskNumber st)) = None
       \<or> int (ts_nextTaskNumber st) = max_safe)"
proof -
  note ok = fold_team_ok [OF assms, unfolded team_ok_def roster_ok_def board_ok_def]
  have "map_of (ts_memberIdsByName st) (tm_name m) = Some i" if "map_of (ts_members st) i = Some m" for i m
    using ok that by blast
  then have "inj_on (\<lambda>i. map_option tm_name (map_of (ts_members st) i)) (set (map fst (ts_members st)))"
    by (intro inj_onI) (metis (no_types, lifting) map_of_eq_None_iff option.exhaust_sel option.inject
        option.simps(9) set_map)
  moreover have "map_of (ts_tasks st) (''task-'' @ str_of_nat (ts_nextTaskNumber st)) = None
      \<or> int (ts_nextTaskNumber st) = max_safe"
    using ok task_number_str by blast
  ultimately show ?thesis using ok by blast
qed

section \<open>Other teams' records\<close>

text \<open>The team a team event is addressed to.\<close>

definition event_team :: "session_event \<Rightarrow> string option" where
  "event_team e =
     (case ev_data e of
        PluginEvent type d \<Rightarrow> if type \<in> set team_event_types then map_option snd (read_selector d) else None
      | _ \<Rightarrow> None)"

lemma foreign_event:
  assumes "apply_team_event s e = Inr s'" "event_team e \<noteq> Some (ts_id t)"
  shows "apply_team_event t e = Inr t"
  using assms by (auto simp: apply_team_event_def event_team_def dest: parse_selector
      split: event_data.splits option.splits if_splits prod.splits)

text \<open>
  A session that starts with the log of another one (a fork), in which nothing is addressed to it, has
  the team its own events make: the inherited records of other teams do not matter.
\<close>

theorem inherited_records_ignored:
  assumes "fold_team other es1 = Inr st" "\<forall>e \<in> set es1. event_team e \<noteq> Some rootId"
  shows "fold_team rootId (es1 @ es2) = fold_team rootId es2"
proof -
  have "replay apply_team_event t es1 = Inr t"
    if "replay apply_team_event s es1 = Inr s'" "\<forall>e \<in> set es1. event_team e \<noteq> Some (ts_id t)" for s s' t
    using that
  proof (induction es1 arbitrary: s)
    case (Cons e es)
    then obtain u where u: "apply_team_event s e = Inr u" "replay apply_team_event u es = Inr s'"
      by (auto simp: res_simps)
    from foreign_event [OF u(1)] Cons.IH [OF u(2)] Cons.prems(2) show ?case by simp
  qed simp
  from this [of "empty_team_state other" st "empty_team_state rootId"] assms
  have "replay apply_team_event (empty_team_state rootId) es1 = Inr (empty_team_state rootId)"
    by (simp add: fold_team_def empty_team_state_def)
  then show ?thesis by (simp add: fold_team_def replay_append)
qed

section \<open>A sample log\<close>

definition written :: "string \<Rightarrow> nat \<times> team_record \<Rightarrow> session_event" where
  "written rootId p =
     \<lparr>ev_seq = fst p, ev_time = 0, ev_data = PluginEvent (record_type (snd p)) (encode_record rootId (snd p)),
      ev_ignorable = False, ev_surfaceOp = None, ev_sources = None\<rparr>"

lemma replay_written:
  assumes "ts_id st = rootId" "rootId \<noteq> []" "list_all record_wf (map snd ps)"
  shows "replay apply_team_event st (map (written rootId) ps) = replay apply_team_record st (map snd ps)"
  using assms
proof (induction ps arbitrary: st)
  case (Cons p ps)
  have step: "apply_team_event st (written rootId p) = apply_team_record st (snd p)"
    using Cons.prems by (intro apply_written) (simp_all add: written_def)
  show ?case
  proof (cases "apply_team_record st (snd p)")
    case (Inr s)
    from apply_team_record_id [OF this] Cons.prems have "ts_id s = rootId" by simp
    from Cons.IH [OF this] Cons.prems step Inr show ?thesis by simp
  qed (use step in simp)
qed simp

definition sample_member :: "member_phase \<Rightarrow> team_member" where
  "sample_member p =
     \<lparr>tm_id = ''m1'', tm_name = ''tester'', tm_description = ''runs the tests'', tm_provider = ''local'',
      tm_context = Context_fresh, tm_phase = p, tm_error = None\<rparr>"

definition sample_task :: "string \<Rightarrow> nat \<Rightarrow> task_status \<Rightarrow> string list \<Rightarrow> team_task" where
  "sample_task i n s bs =
     \<lparr>tt_id = i, tt_revision = n, tt_subject = ''s'', tt_description = ''d'', tt_status = s, tt_ownerId = None,
      tt_blockedBy = bs, tt_writeScopes = []\<rparr>"

definition sample_mail :: team_message where
  "sample_mail =
     \<lparr>tg_id = ''q1'', tg_senderId = ''r'', tg_senderName = ''lead'', tg_targetId = ''m1'',
      tg_delivery = Delivery_quiet, tg_content = []\<rparr>"

definition sample_records :: "team_record list" where
  "sample_records =
     [Member_record (sample_member Provisioning), Member_record (sample_member Active),
      Task_record (sample_task ''task-1'' 1 Task_pending []),
      Task_record (sample_task ''task-2'' 1 Task_pending [''task-1'']),
      Task_record (sample_task ''task-1'' 2 Task_completed []),
      Queued_record sample_mail, Delivered_record ''q1'' ''m1'']"

definition sample_team :: team_state where
  "sample_team =
     \<lparr>ts_id = ''r'', ts_members = [(''m1'', sample_member Active)], ts_memberIdsByName = [(''tester'', ''m1'')],
      ts_tasks = [(''task-1'', sample_task ''task-1'' 2 Task_completed []),
                  (''task-2'', sample_task ''task-2'' 1 Task_pending [''task-1''])],
      ts_messages = [(''q1'', sample_mail)], ts_delivered = [''q1''], ts_nextTaskNumber = 3\<rparr>"

definition sample_team_log :: "session_event list" where
  "sample_team_log = map (written ''r'') (enumerate 0 sample_records)"

lemma sample_records_wf: "list_all record_wf sample_records"
  by code_simp

lemma sample_records_replay: "replay apply_team_record (empty_team_state ''r'') sample_records = Inr sample_team"
  by code_simp

lemma sample_team_fold: "fold_team ''r'' sample_team_log = Inr sample_team"
  using replay_written [of "empty_team_state ''r''" "''r''" "enumerate 0 sample_records"]
    sample_records_wf sample_records_replay
  by (simp add: fold_team_def sample_team_log_def empty_team_state_def)

lemma sample_own_record: "rootId \<noteq> [] \<Longrightarrow> record_wf (snd p) \<Longrightarrow> own_record rootId (written rootId p) = Some (snd p)"
  by (simp add: own_record_def written_def parse_encoded)

lemma sample_event_team: "rootId \<noteq> [] \<Longrightarrow> event_team (written rootId p) = Some rootId"
  by (simp add: event_team_def written_def selector_encoded)

end
