(* ===== verification/TeamBoardProperties.thy ===== *)
theory TeamBoardProperties
  imports TeamBoard TeamStream SessionLogProperties
begin

text \<open>
  The task board over an accepted log: what a transaction does to the log and to the folded state, which
  tasks the operations write, that the fold accepts them, and the view they return.
\<close>

section \<open>Transactions\<close>

definition team_log :: "team_host \<Rightarrow> session_event list" where
  "team_log h = sn_log (th_session h)"

definition team_fold :: "team_host \<Rightarrow> team_fault + team_state" where
  "team_fold h = fold_team (th_rootId h) (team_log h)"

lemma journal_state_iff: "journal_state h = Inr st \<longleftrightarrow> team_fold h = Inr st"
  by (auto simp: journal_state_def team_fold_def team_log_def map_error_def split: sum.splits)

text \<open>The log grew by the one event that carries the record, and the fold accepted it.\<close>

definition recorded :: "team_host \<Rightarrow> team_record \<Rightarrow> team_state \<Rightarrow> team_host \<Rightarrow> bool" where
  "recorded h r st' h' \<longleftrightarrow>
     (\<exists>e. team_log h' = team_log h @ [e] \<and> own_record (th_rootId h) e = Some r)
     \<and> th_rootId h' = th_rootId h \<and> team_fold h' = Inr st'"

definition unrecorded :: "team_host \<Rightarrow> team_host \<Rightarrow> bool" where
  "unrecorded h h' \<longleftrightarrow> team_log h' = team_log h \<and> th_rootId h' = th_rootId h"

lemma unrecorded_fold: "unrecorded h h' \<Longrightarrow> team_fold h' = team_fold h"
  by (simp add: unrecorded_def team_fold_def)

lemma unrecorded_refl [simp]: "unrecorded h h"
  by (simp add: unrecorded_def)

lemma append_and_flush_cases:
  assumes run: "append_and_flush env r h = (out, h')" and fold: "team_fold h = Inr st"
    and wf: "record_wf r" "th_rootId h \<noteq> []" and app: "apply_team_record st r = Inr st'"
  obtains (refused) e where "out = Inl (Team_append_failed e)" "unrecorded h h'"
    | (unflushed) msg where "out = Inl (Team_flush_failed msg)" "recorded h r st' h'"
    | (committed) "out = Inr ()" "recorded h r st' h'" "th_notified h' = th_notified h + 1"
proof -
  let ?d = "PluginEvent (record_type r) (encode_record (th_rootId h) r)"
  obtain q s where ap: "session_append (te_veto env) (te_now env) ?d None None (th_session h) = (q, s)" by fastforce
  from session_append_log [OF ap] show thesis
  proof (elim disjE exE conjE)
    fix e assume "q = Inl e" "sn_log s = sn_log (th_session h)"
    with run ap show thesis by (intro refused [of e]) (auto simp: append_and_flush_def unrecorded_def team_log_def)
  next
    let ?e = "candidate (th_session h) (te_now env) ?d None None"
    assume e: "q = Inr ?e" "sn_log s = sn_log (th_session h) @ [?e]"
    note id = fold_team_id [OF fold [unfolded team_fold_def]]
    have "apply_team_event st ?e = Inr st'"
      using apply_written [of ?e r "th_rootId h" st] wf id app by (simp add: candidate_def)
    then have f: "fold_team (th_rootId h) (sn_log s) = Inr st'"
      using fold e(2) by (simp add: team_fold_def team_log_def fold_team_def replay_snoc)
    have own: "own_record (th_rootId h) ?e = Some r"
      using wf by (simp add: own_record_def candidate_def parse_encoded)
    have rec: "recorded h r st' (h\<lparr>th_session := s\<rparr>)" "recorded h r st' (h\<lparr>th_session := s, th_notified := n\<rparr>)" for n
      using e(2) f own by (auto simp: recorded_def team_log_def team_fold_def)
    show thesis
    proof (cases "te_flush env")
      case (Inl msg)
      with run ap e(1) rec show thesis by (intro unflushed [of msg]) (auto simp: append_and_flush_def)
    next
      case (Inr u)
      with run ap e(1) rec show thesis by (intro committed) (auto simp: append_and_flush_def)
    qed
  qed
qed

lemma transact_cases:
  assumes run: "transact_append env r x h = (out, h')" and fold: "team_fold h = Inr st"
    and wf: "record_wf r" "th_rootId h \<noteq> []" and app: "apply_team_record st r = Inr st'"
  obtains (refused) e where "out = Inl (Team_append_failed e)" "unrecorded h h'"
    | (unflushed) msg where "out = Inl (Team_flush_failed msg)" "recorded h r st' h'"
    | (committed) "out = Inr x" "recorded h r st' h'" "th_notified h' = th_notified h + 1"
proof -
  obtain o1 h1 where one: "append_and_flush env r h = (o1, h1)" by fastforce
  from one fold wf app show thesis
    by (cases rule: append_and_flush_cases) (use run one refused unflushed committed in \<open>auto simp: transact_append_def\<close>)
qed

section \<open>The tasks the board writes\<close>

lemma map_of_value: "map_of m k = Some x \<Longrightarrow> x \<in> set (map snd m)"
  by (induction m) (auto split: if_splits)

lemma board_get: "board_ok st \<Longrightarrow> map_of (ts_tasks st) i = Some t \<Longrightarrow> tt_id t = i \<and> task_wf t"
  unfolding board_ok_def list_all_iff by (blast dest: keyed_get map_of_value)

lemma roster_get: "roster_ok st \<Longrightarrow> map_of (ts_members st) i = Some m \<Longrightarrow> tm_id m = i \<and> i \<noteq> []"
  unfolding roster_ok_def list_all_iff member_wf_def by (blast dest: keyed_get map_of_value)

lemma dependencies_live:
  assumes "dependencies st self seen is = Inr ds" "\<forall>i \<in> set seen. \<not> task_deleted (ts_tasks st) i"
  shows "\<forall>i \<in> set ds. \<not> task_deleted (ts_tasks st) i"
  using assms by (induction st self seen "is" rule: dependencies.induct) (auto split: if_splits)

lemma live_task_wf:
  assumes "board_ok st" "\<not> task_deleted (ts_tasks st) i"
  shows "task_id_wf i"
proof -
  from assms(2) obtain t where t: "map_of (ts_tasks st) i = Some t" by (auto simp: task_deleted_def split: option.splits)
  with board_get [OF assms(1)] have "tt_id t = i" "task_wf t" by simp_all
  then show ?thesis by (simp add: task_wf_def)
qed

lemma dependencies_wf: "board_ok st \<Longrightarrow> dependencies st self [] is = Inr ds \<Longrightarrow> list_all task_id_wf ds"
  using dependencies_live [of st self "[]" "is" ds] live_task_wf by (auto simp: list_all_iff)

lemma graph_accepted: "board_assert_graph st t = Inr () \<Longrightarrow> assert_task_graph (ts_tasks st) t = Some (Inr ())"
  by (auto simp: board_assert_graph_def split: option.splits sum.splits)

text \<open>The state after a task has been written.\<close>

definition with_task :: "team_state \<Rightarrow> team_task \<Rightarrow> team_state" where
  "with_task st t =
     st\<lparr>ts_nextTaskNumber := next_task_number (tt_id t) (ts_nextTaskNumber st),
        ts_tasks := js_set (tt_id t) t (ts_tasks st)\<rparr>"

lemma new_task_facts:
  assumes "new_task maxTasks st q = Inr t" "board_ok st"
  shows "task_wf t" "apply_task st t = Inr (with_task st t)" "tt_status t = Task_pending"
    "map_of (ts_tasks st) (tt_id t) = None" "length (active_tasks st) < maxTasks" "tt_ownerId t = None"
proof -
  from assms(1) have t: "tt_id t = ''task-'' @ str_of_nat (ts_nextTaskNumber st)" "tt_revision t = 1"
      "tt_ownerId t = None" "tt_status t = Task_pending" "length (active_tasks st) < maxTasks"
      "map_of (ts_tasks st) (tt_id t) = None" "board_assert_graph st t = Inr ()"
      "dependencies st None [] (or_empty (ct_blockedBy q)) = Inr (tt_blockedBy t)"
    by (auto simp: new_task_def Let_def res_simps map_error_def split: sum.splits)
  have "task_number (tt_id t) = Some (ts_nextTaskNumber st)" "tt_id t \<noteq> []"
    unfolding t(1) by (rule task_number_str) simp
  with assms(2) have "task_id_wf (tt_id t)" by (simp add: task_id_wf_def board_ok_def)
  with t dependencies_wf [OF assms(2) t(8)] show "task_wf t" by (simp add: task_wf_def max_safe_def)
  from t(2,6) graph_accepted [OF t(7)] show "apply_task st t = Inr (with_task st t)"
    by (simp add: apply_task_def with_task_def)
  show "tt_status t = Task_pending" "map_of (ts_tasks st) (tt_id t) = None" "length (active_tasks st) < maxTasks"
    "tt_ownerId t = None" using t by simp_all
qed

definition authorized :: "team_role \<Rightarrow> string \<Rightarrow> team_task \<Rightarrow> bool" where
  "authorized role callerId current \<longleftrightarrow> role = Role_lead \<or> tt_ownerId current = Some callerId"

lemma authorize_owner_iff: "authorize_owner role callerId current = Inr () \<longleftrightarrow> authorized role callerId current"
  by (simp add: authorize_owner_def authorized_def res_simps)

lemma next_task_cases:
  assumes "next_task rootId role callerId st q current = Inr t"
  obtains (claim) "ut_action q = Claim" "tt_ownerId current \<in> {None, Some callerId}" "tt_status current = Task_pending"
      "task_ready st current" "t = current\<lparr>tt_status := Task_in_progress, tt_ownerId := Some callerId\<rparr>"
    | (release) "ut_action q = Release \<and> tt_status current = Task_in_progress
        \<or> ut_action q = Reopen \<and> tt_status current = Task_completed" "authorized role callerId current"
      "t = current\<lparr>tt_status := Task_pending, tt_ownerId := None\<rparr>"
    | (edit) a b c where "ut_action q = Edit" "authorized role callerId current"
      "t = current\<lparr>tt_subject := a, tt_description := b, tt_writeScopes := c\<rparr>"
    | (depend) bs ds where "ut_action q = Set_dependencies" "authorized role callerId current" "ut_blockedBy q = Some bs"
      "dependencies st (Some (tt_id current)) [] bs = Inr ds" "t = current\<lparr>tt_blockedBy := ds\<rparr>"
    | (complete) "ut_action q = Complete" "authorized role callerId current" "tt_status current = Task_in_progress"
      "t = current\<lparr>tt_status := Task_completed\<rparr>"
    | (unassign) "ut_action q = Reassign" "role = Role_lead" "tt_status current \<in> {Task_pending, Task_in_progress}"
      "t = current\<lparr>tt_status := Task_pending, tt_ownerId := None\<rparr>"
    | (assign) owner i where "ut_action q = Reassign" "role = Role_lead"
      "tt_status current \<in> {Task_pending, Task_in_progress}" "task_ready st current" "ut_owner q = Some owner"
      "resolve_active_member rootId st owner = Inr (i, js_trim owner)"
      "t = current\<lparr>tt_status := Task_in_progress, tt_ownerId := Some i\<rparr>"
    | (delete) "ut_action q = Delete" "authorized role callerId current" "dependent_of st current = None"
      "t = current\<lparr>tt_status := Task_deleted\<rparr>"
proof (cases "ut_action q")
  case Claim
  with assms show thesis by (intro claim) (auto simp: next_task_def split: if_splits)
next
  case Release
  with assms show thesis
    by (intro release) (auto simp: next_task_def res_simps authorize_owner_iff without_owner_def split: if_splits)
next
  case Edit
  with assms have "authorized role callerId current" "\<exists>a b c. t = current\<lparr>tt_subject := a, tt_description := b, tt_writeScopes := c\<rparr>"
    by (auto simp: next_task_def edit_task_def res_simps authorize_owner_iff split: if_splits)
  with Edit show thesis by (elim exE) (rule edit)
next
  case Set_dependencies
  with assms show thesis
    by (cases "ut_blockedBy q") (auto simp: next_task_def res_simps authorize_owner_iff intro: depend)
next
  case Complete
  with assms show thesis
    by (intro complete) (auto simp: next_task_def res_simps authorize_owner_iff split: if_splits)
next
  case Reopen
  with assms show thesis
    by (intro release) (auto simp: next_task_def res_simps authorize_owner_iff without_owner_def split: if_splits)
next
  case Reassign
  with assms have re: "reassign_task rootId role st q current = Inr t" by (simp add: next_task_def)
  then have lead: "role = Role_lead" "tt_status current \<in> {Task_pending, Task_in_progress}"
    by (auto simp: reassign_task_def split: if_splits)
  show thesis
  proof (cases "\<exists>owner. ut_owner q = Some owner \<and> js_trim owner \<noteq> []")
    case False
    with re lead have "t = current\<lparr>tt_status := Task_pending, tt_ownerId := None\<rparr>"
      by (auto simp: reassign_task_def without_owner_def split: option.splits if_splits)
    with Reassign lead show thesis by (rule unassign)
  next
    case True
    then obtain owner where o: "ut_owner q = Some owner" "js_trim owner \<noteq> []" by blast
    from re lead o have "task_ready st current" by (auto simp: reassign_task_def split: if_splits)
    moreover from re lead o calculation obtain p where p: "resolve_active_member rootId st owner = Inr p"
      "t = current\<lparr>tt_status := Task_in_progress, tt_ownerId := Some (fst p)\<rparr>"
      by (auto simp: reassign_task_def res_simps split: if_splits)
    moreover have "snd p = js_trim owner"
      using p(1) by (auto simp: resolve_active_member_def Let_def split: if_splits option.splits)
    ultimately show thesis using assign [of owner "fst p"] Reassign lead o(1) by (metis prod.collapse)
  qed
next
  case Delete
  with assms have "authorized role callerId current" "dependent_of st current = None" "t = current\<lparr>tt_status := Task_deleted\<rparr>"
    by (auto simp: next_task_def res_simps authorize_owner_iff split: option.splits)
  with Delete show thesis by (rule delete)
qed

lemma resolved_member:
  assumes "resolve_active_member rootId st rawName = Inr (i, name)" "roster_ok st"
  shows "i = rootId \<or> (\<exists>m. map_of (ts_members st) i = Some m \<and> tm_phase m = Active)"
proof (cases "js_trim rawName = ''lead''")
  case False
  with assms(1) obtain j m where "map_of (ts_memberIdsByName st) (js_trim rawName) = Some j"
    "map_of (ts_members st) j = Some m" "tm_phase m = Active" "i = tm_id m"
    by (auto simp: resolve_active_member_def Let_def bind_eq_Some_conv split: option.splits if_splits)
  with roster_get [OF assms(2)] show ?thesis by blast
qed (use assms(1) in \<open>simp add: resolve_active_member_def\<close>)

lemma next_task_wf:
  assumes "next_task rootId role callerId st q current = Inr t" "team_ok st" "task_wf current" "rootId \<noteq> []" "callerId \<noteq> []"
  shows "tt_id t = tt_id current \<and> tt_ownerId t \<noteq> Some [] \<and> list_all task_id_wf (tt_blockedBy t)"
  using assms(1)
proof (cases rule: next_task_cases)
  case (depend bs ds)
  with assms(2,3) dependencies_wf show ?thesis by (auto simp: task_wf_def team_ok_def)
next
  case (assign owner i)
  have "i \<noteq> []" using resolved_member [OF assign(6)] roster_get assms(2,4) by (auto simp: team_ok_def)
  with assign(7) assms(3) show ?thesis by (simp add: task_wf_def)
qed (use assms(3,5) in \<open>simp_all add: task_wf_def\<close>)

lemma updated_task_cases:
  assumes "updated_task rootId role callerId st q = Inr t"
  obtains current next' where "map_of (ts_tasks st) (ut_taskId q) = Some current"
    "ut_expectedRevision q = Finite (of_nat (tt_revision current))" "tt_status current \<noteq> Task_deleted"
    "next_task rootId role callerId st q current = Inr next'" "t = next'\<lparr>tt_revision := tt_revision current + 1\<rparr>"
    "board_assert_graph st t = Inr ()"
  using assms
  by (auto simp: updated_task_def Let_def res_simps map_error_def split: option.splits if_splits sum.splits)

lemma updated_task_facts:
  assumes "updated_task rootId role callerId st q = Inr t" "team_ok st" "rootId \<noteq> []" "callerId \<noteq> []"
    "\<forall>u \<in> set (map snd (ts_tasks st)). int (tt_revision u) < max_safe"
  shows "task_wf t" "apply_task st t = Inr (with_task st t)" "tt_id t = ut_taskId q"
  using assms(1)
proof (atomize (full), cases rule: updated_task_cases)
  case (1 current next')
  from assms(2) have "board_ok st" by (simp add: team_ok_def)
  with board_get 1(1) have cur: "tt_id current = ut_taskId q" "task_wf current" by blast+
  have "int (tt_revision current) < max_safe" using assms(5) map_of_value [OF 1(1)] by blast
  with cur(2) next_task_wf [OF 1(4) assms(2) cur(2) assms(3,4)] 1(5) cur(1)
  have "task_wf t" and id: "tt_id t = tt_id current" by (simp_all add: task_wf_def)
  moreover have "apply_task st t = Inr (with_task st t)"
    using graph_accepted [OF 1(6)] id cur(1) 1(1,5) by (simp add: apply_task_def with_task_def)
  ultimately show "task_wf t \<and> apply_task st t = Inr (with_task st t) \<and> tt_id t = ut_taskId q" using id cur(1) by simp
qed

section \<open>Reading what was written\<close>

lemma filter_js_set:
  assumes "\<forall>(k, u) \<in> set m. tt_id u = k"
  shows "filter (\<lambda>u. tt_id u \<noteq> tt_id t \<and> P u) (map snd (AList.update (tt_id t) t m))
    = filter (\<lambda>u. tt_id u \<noteq> tt_id t \<and> P u) (map snd m)"
  using assms by (induction m) auto

lemma own_blockers:
  assumes "task_graph_ok (js_set (tt_id t) t tasks)" "tt_status t \<noteq> Task_deleted"
  shows "tt_id t \<notin> set (tt_blockedBy t)"
proof
  let ?tasks = "js_set (tt_id t) t tasks"
  assume "tt_id t \<in> set (tt_blockedBy t)"
  then have "tt_id t \<in> set (task_succs ?tasks (tt_id t))" by (simp add: task_succs_def)
  moreover have "tt_id t \<in> live_tasks ?tasks" using assms(2) by (simp add: live_tasks_def task_deleted_def)
  ultimately have "\<not> acyclic (edges (task_succs ?tasks) (live_tasks ?tasks))" by (rule self_edge_cyclic [rotated])
  with assms(1) show False by (simp add: task_graph_ok_def)
qed

lemma task_view_after:
  assumes "board_ok st" "board_ok (with_task st t)"
  shows "task_view rootId (with_task st t) t = task_view rootId st t"
proof -
  have "task_ready (with_task st t) t = task_ready st t" if "tt_status t = Task_pending"
  proof -
    have "tt_id t \<notin> set (tt_blockedBy t)"
      using own_blockers [of t "ts_tasks st"] assms(2) that by (simp add: board_ok_def with_task_def)
    then show ?thesis by (auto simp: task_ready_def with_task_def list_all_iff split: if_splits)
  qed
  moreover have "overlap_warnings (with_task st t) t = overlap_warnings st t"
    using filter_js_set [of "ts_tasks st" t] assms(1)
    by (simp add: overlap_warnings_def with_task_def board_ok_def keyed_def)
  moreover have "owner_name rootId (with_task st t) t = owner_name rootId st t"
  proof -
    have "ts_members (with_task st t) = ts_members st" by (simp add: with_task_def)
    then show ?thesis unfolding owner_name_def by (rule arg_cong)
  qed
  ultimately show ?thesis by (auto simp: task_view_def)
qed

section \<open>The board's requests\<close>

datatype board_request =
    Create_task create_task_request
  | Update_task string team_role update_task_request

fun board_perform ::
    "nat \<Rightarrow> team_env \<Rightarrow> board_request \<Rightarrow> team_host \<Rightarrow> (team_failure + team_task_view) \<times> team_host" where
  "board_perform maxTasks env (Create_task q) h = board_create maxTasks env q h"
| "board_perform maxTasks env (Update_task callerId role q) h = board_update env callerId role q h"

fun board_decision :: "nat \<Rightarrow> string \<Rightarrow> team_state \<Rightarrow> board_request \<Rightarrow> team_failure + team_task" where
  "board_decision maxTasks rootId st (Create_task q) = new_task maxTasks st q"
| "board_decision maxTasks rootId st (Update_task callerId role q) = updated_task rootId role callerId st q"

lemma board_perform_decides:
  assumes "team_fold h = Inr st"
  shows "board_perform maxTasks env q h =
    (case board_decision maxTasks (th_rootId h) st q of
       Inl e \<Rightarrow> (Inl e, h)
     | Inr t \<Rightarrow> transact_append env (Task_record t) (task_view (th_rootId h) st t) h)"
  using assms [folded journal_state_iff] by (cases q) (simp_all add: board_create_def board_update_def)

text \<open>What a caller must bring: an identity, and a board on which no revision has reached the last safe integer.\<close>

fun request_ok :: "team_state \<Rightarrow> board_request \<Rightarrow> bool" where
  "request_ok st (Create_task q) = True"
| "request_ok st (Update_task callerId role q) =
     (callerId \<noteq> [] \<and> (\<forall>u \<in> set (map snd (ts_tasks st)). int (tt_revision u) < max_safe))"

lemma board_decision_facts:
  assumes "board_decision maxTasks rootId st q = Inr t" "team_ok st" "rootId \<noteq> []" "request_ok st q"
  shows "task_wf t" "apply_task st t = Inr (with_task st t)"
proof -
  have "task_wf t \<and> apply_task st t = Inr (with_task st t)"
  proof (cases q)
    case (Create_task c)
    with assms(1,2) new_task_facts(1,2) show ?thesis by (simp add: team_ok_def)
  next
    case (Update_task callerId role u)
    from assms(1) Update_task have u: "updated_task rootId role callerId st u = Inr t" by simp
    have "callerId \<noteq> []" "\<forall>u \<in> set (map snd (ts_tasks st)). int (tt_revision u) < max_safe"
      using assms(4) unfolding Update_task request_ok.simps by blast+
    from updated_task_facts(1,2) [OF u assms(2,3) this] show ?thesis by blast
  qed
  then show "task_wf t" "apply_task st t = Inr (with_task st t)" by simp_all
qed

text \<open>
  A request of the board either leaves the log alone and fails, or the log grows by one task event that the fold
  accepts; what it then returns is what a reader of the new state sees.
\<close>

lemma board_perform_cases:
  assumes run: "board_perform maxTasks env q h = (out, h')" and fold: "team_fold h = Inr st"
    and id: "th_rootId h \<noteq> []" and ok: "request_ok st q"
  obtains (rejected) e where "board_decision maxTasks (th_rootId h) st q = Inl e" "out = Inl e" "h' = h"
    | (refused) t e where "board_decision maxTasks (th_rootId h) st q = Inr t" "out = Inl (Team_append_failed e)"
        "unrecorded h h'"
    | (written) t where "board_decision maxTasks (th_rootId h) st q = Inr t"
        "recorded h (Task_record t) (with_task st t) h'"
        "out = Inr (task_view (th_rootId h) (with_task st t) t) \<or> (\<exists>msg. out = Inl (Team_flush_failed msg))"
proof (cases "board_decision maxTasks (th_rootId h) st q")
  case (Inl e)
  from run have "out = Inl e" "h' = h" unfolding board_perform_decides [OF fold] Inl by simp_all
  with Inl show thesis by (rule rejected)
next
  case (Inr t)
  have team: "team_ok st" using fold by (simp add: team_fold_def fold_team_ok)
  note facts = board_decision_facts [OF Inr team id ok]
  have "team_ok (with_task st t)" using apply_team_record_ok [of st "Task_record t"] facts team by simp
  then have view: "task_view (th_rootId h) (with_task st t) t = task_view (th_rootId h) st t"
    using team by (intro task_view_after) (simp_all add: team_ok_def)
  have tr: "transact_append env (Task_record t) (task_view (th_rootId h) st t) h = (out, h')"
    using run unfolding board_perform_decides [OF fold] Inr by simp
  have wf: "record_wf (Task_record t)" and app: "apply_team_record st (Task_record t) = Inr (with_task st t)"
    using facts by simp_all
  from tr fold wf id app show thesis
  proof (cases rule: transact_cases)
    case refused
    show thesis by (rule that(2) [OF Inr refused])
  next
    case unflushed
    with Inr show thesis by (intro that(3)) simp_all
  next
    case committed
    have "out = Inr (task_view (th_rootId h) (with_task st t) t)" unfolding view by (rule committed(1))
    with Inr committed(2) show thesis by (intro that(3)) simp_all
  qed
qed

end
