(* ===== verification/TeamBoardSafety.thy ===== *)
theory TeamBoardSafety
  imports TeamBoardProperties
begin

text \<open>
  The properties of the shared task board, each applied to a small team: a lead, one active teammate,
  and two tasks of which the second depends on the completed first.
\<close>

section \<open>Revisions only grow\<close>

lemma task_revision_grows:
  assumes "fold_team rootId es = Inr st" "fold_team rootId (es @ fs) = Inr st'" "map_of (ts_tasks st) i = Some t"
  shows "\<exists>t'. map_of (ts_tasks st') i = Some t' \<and> tt_revision t \<le> tt_revision t'"
  using assms(2)
proof (induction fs arbitrary: st' rule: rev_induct)
  case Nil
  with assms(1,3) show ?case by simp
next
  case (snoc e fs)
  from snoc.prems [folded append_assoc] obtain s where s: "fold_team rootId (es @ fs) = Inr s"
    "apply_team_event s e = Inr st'" by (rule fold_team_snoc)
  from snoc.IH [OF s(1)] obtain u where u: "map_of (ts_tasks s) i = Some u" "tt_revision t \<le> tt_revision u" by blast
  from s(2) show ?case
  proof (cases rule: apply_team_event_cases)
    case (own r)
    show ?thesis
    proof (cases r)
      case (Task_record v)
      with own(3) have "apply_task s v = Inr st'" by simp
      then show ?thesis by (cases rule: apply_task_cases) (use u in auto)
    qed (use own(3) u in \<open>auto elim!: apply_member_cases apply_queued_cases apply_delivered_cases\<close>)
  qed (use u in auto)
qed

lemma with_task_get: "map_of (ts_tasks (with_task st t)) (tt_id t) = Some t"
  by (simp add: with_task_def)

lemma recorded_fold: "recorded h r st' h' \<Longrightarrow> team_fold h' = Inr st' \<and> th_rootId h' = th_rootId h"
  by (simp add: recorded_def)

lemma recorded_grows: "recorded h r st' h' \<Longrightarrow> team_log h' \<noteq> team_log h"
  by (auto simp: recorded_def)

section \<open>The board keeps its log\<close>

text \<open>
  C17: Every request of the board, whatever the session answers, either leaves the log as it was and fails, or
  appends one event with the task it decided on: the fold accepts it and installs exactly that task. A view it returns
  is the one a reader gets from then on.
\<close>

theorem board_request_refines:
  assumes "board_perform maxTasks env q h = (out, h')" "team_fold h = Inr st" "th_rootId h \<noteq> []" "request_ok st q"
  shows "(\<exists>e. out = Inl e) \<and> team_log h' = team_log h
    \<or> (\<exists>t. board_decision maxTasks (th_rootId h) st q = Inr t \<and> recorded h (Task_record t) (with_task st t) h'
         \<and> (\<forall>v. out = Inr v \<longrightarrow> board_get (tt_id t) h' = Inr v))"
  using assms
proof (cases rule: board_perform_cases)
  case (written t)
  have "board_get (tt_id t) h' = Inr (task_view (th_rootId h) (with_task st t) t)"
    using recorded_fold [OF written(2)] with_task_get [of st t]
    by (simp add: board_get_def journal_state_iff [THEN iffD2])
  with written show ?thesis by auto
qed (auto simp: unrecorded_def)

lemma board_update_writes:
  assumes "board_update env callerId role q h = (out, h')" "team_fold h = Inr st" "th_rootId h \<noteq> []"
    "request_ok st (Update_task callerId role q)" "team_log h' \<noteq> team_log h"
  obtains current next' t where "map_of (ts_tasks st) (ut_taskId q) = Some current"
    "ut_expectedRevision q = Finite (of_nat (tt_revision current))" "tt_status current \<noteq> Task_deleted"
    "next_task (th_rootId h) role callerId st q current = Inr next'"
    "t = next'\<lparr>tt_revision := tt_revision current + 1\<rparr>" "tt_id t = ut_taskId q"
    "recorded h (Task_record t) (with_task st t) h'"
proof -
  have run: "board_perform 0 env (Update_task callerId role q) h = (out, h')" using assms(1) by simp
  from run assms(2-4) show thesis
  proof (cases rule: board_perform_cases)
    case (written t)
    then have up: "updated_task (th_rootId h) role callerId st q = Inr t" by simp
    have team: "team_ok st" using assms(2) by (simp add: team_fold_def fold_team_ok)
    from up show thesis
    proof (cases rule: updated_task_cases)
      case (1 current next')
      have "tt_id current = ut_taskId q" using team board_get 1(1) by (auto simp: team_ok_def)
      moreover have "tt_id next' = tt_id current"
        using 1(4) by (cases rule: next_task_cases) simp_all
      ultimately have "tt_id t = ut_taskId q" using 1(5) by simp
      from that [OF 1(1-5) this written(2)] show thesis .
    qed
  qed (use assms(5) in \<open>auto simp: unrecorded_def\<close>)
qed

section \<open>Compare-and-set\<close>

text \<open>
  C18: Once an update that expects a revision of a task has been written, no update that expects the same revision of that
  task succeeds any more, whoever asks and whatever has happened in between: it is refused as stale and leaves
  everything alone.
\<close>

theorem task_update_wins_once:
  assumes "board_update env callerId role q h = (out, h1)" "team_fold h = Inr st" "th_rootId h \<noteq> []"
    "request_ok st (Update_task callerId role q)" "team_log h1 \<noteq> team_log h"
    and "team_log h2 = team_log h1 @ es" "th_rootId h2 = th_rootId h1" "team_fold h2 = Inr st2"
    and "ut_taskId q' = ut_taskId q" "ut_expectedRevision q' = ut_expectedRevision q"
  shows "\<exists>n. board_update env' callerId' role' q' h2
    = (Inl (Team_rejected (Stale_task_revision (ut_taskId q) (ut_expectedRevision q) n)), h2)"
  using assms(1-5)
proof (cases rule: board_update_writes)
  case (1 current next' t)
  have f1: "fold_team (th_rootId h1) (team_log h1) = Inr (with_task st t)"
    using conjunct1 [OF recorded_fold [OF 1(7)]] unfolding team_fold_def .
  have f2: "fold_team (th_rootId h1) (team_log h1 @ es) = Inr st2"
    using assms(6-8) by (simp add: team_fold_def)
  from task_revision_grows [OF f1 f2 with_task_get] 1(5,6) obtain u where
    u: "map_of (ts_tasks st2) (ut_taskId q) = Some u" "tt_revision current + 1 \<le> tt_revision u" by auto
  have "board_ok st2" using fold_team_ok [OF assms(8) [unfolded team_fold_def]] by (simp add: team_ok_def)
  with board_get u(1) have "tt_id u = ut_taskId q" by blast
  moreover have "ut_expectedRevision q \<noteq> Finite (of_nat (tt_revision u))" using 1(2) u(2) by simp
  ultimately show ?thesis
    using u(1) assms(9,10) journal_state_iff [THEN iffD2, OF assms(8)] by (simp add: board_update_def updated_task_def)
qed

section \<open>Who may change what\<close>

text \<open>
  C19: An update that was written had the right to be: its caller is the lead or the task's owner, or claims a task
  nobody owns. A task that is newly taken up had all its blockers completed, and is owned by its claimer, or, when the
  lead assigned it, by the lead or an active member; a deleted task blocks no other.
\<close>

theorem task_changes_authorized:
  assumes "board_update env callerId role q h = (out, h')" "team_fold h = Inr st" "th_rootId h \<noteq> []"
    "request_ok st (Update_task callerId role q)" "team_log h' \<noteq> team_log h"
  shows "\<exists>current t. map_of (ts_tasks st) (ut_taskId q) = Some current \<and> recorded h (Task_record t) (with_task st t) h'
    \<and> (role = Role_lead \<or> tt_ownerId current = Some callerId
       \<or> tt_ownerId current = None \<and> ut_action q = Claim \<and> tt_ownerId t = Some callerId)
    \<and> (tt_status t = Task_in_progress \<and> tt_status current \<noteq> Task_in_progress \<longrightarrow>
         task_ready st t \<and> (\<exists>i. tt_ownerId t = Some i \<and> (i = callerId \<or> role = Role_lead
           \<and> (i = th_rootId h \<or> map_option tm_phase (map_of (ts_members st) i) = Some Active))))
    \<and> (tt_status t = Task_deleted \<longrightarrow>
         (\<forall>u \<in> set (active_tasks st). tt_id u \<noteq> tt_id t \<longrightarrow> tt_id t \<notin> set (tt_blockedBy u)))"
  using assms
proof (cases rule: board_update_writes)
  case (1 current next' t)
  have roster: "roster_ok st" using assms(2) by (simp add: team_fold_def fold_team_ok [unfolded team_ok_def])
  have fields: "tt_status t = tt_status next'" "tt_ownerId t = tt_ownerId next'" "tt_blockedBy t = tt_blockedBy next'"
    "tt_id t = tt_id next'" using 1(5) by simp_all
  have "(role = Role_lead \<or> tt_ownerId current = Some callerId
       \<or> tt_ownerId current = None \<and> ut_action q = Claim \<and> tt_ownerId t = Some callerId)
    \<and> (tt_status t = Task_in_progress \<and> tt_status current \<noteq> Task_in_progress \<longrightarrow>
         task_ready st t \<and> (\<exists>i. tt_ownerId t = Some i \<and> (i = callerId \<or> role = Role_lead
           \<and> (i = th_rootId h \<or> map_option tm_phase (map_of (ts_members st) i) = Some Active))))
    \<and> (tt_status t = Task_deleted \<longrightarrow>
         (\<forall>u \<in> set (active_tasks st). tt_id u \<noteq> tt_id t \<longrightarrow> tt_id t \<notin> set (tt_blockedBy u)))"
    using 1(4)
  proof (cases rule: next_task_cases)
    case claim
    with fields show ?thesis by (auto simp: task_ready_def)
  next
    case (assign owner i)
    from resolved_member [OF assign(6) roster] assign fields show ?thesis by (auto simp: task_ready_def)
  next
    case delete
    with fields show ?thesis by (auto simp: authorized_def dependent_of_def active_tasks_def find_None_iff)
  qed (use fields 1(3) in \<open>auto simp: authorized_def\<close>)
  with 1(1,7) show ?thesis by blast
qed

section \<open>A sample board\<close>

definition sample_team_host :: team_host where
  "sample_team_host =
     \<lparr>th_rootId = ''r'', th_session = empty_session\<lparr>sn_log := sample_team_log\<rparr>, th_notified = 0\<rparr>"

definition calm :: team_env where
  "calm = \<lparr>te_veto = (\<lambda>_. Inr ()), te_now = 0, te_flush = Inr ()\<rparr>"

definition sample_claim :: update_task_request where
  "sample_claim =
     \<lparr>ut_taskId = ''task-2'', ut_expectedRevision = Finite 1, ut_action = Claim, ut_subject = None,
      ut_description = None, ut_blockedBy = None, ut_writeScopes = None, ut_owner = None\<rparr>"

definition sample_claimed :: team_host where
  "sample_claimed = snd (board_update calm ''m1'' Role_teammate sample_claim sample_team_host)"

definition sample_claim_view :: team_task_view where
  "sample_claim_view =
     \<lparr>tv_id = ''task-2'', tv_revision = 2, tv_subject = ''s'', tv_description = ''d'', tv_status = Task_in_progress,
      tv_blockedBy = [''task-1''], tv_writeScopes = [], tv_ownerName = Some ''tester'', tv_ready = False,
      tv_writeScopeWarnings = []\<rparr>"

lemma sample_host_fold: "team_fold sample_team_host = Inr sample_team"
  by (simp add: team_fold_def team_log_def sample_team_host_def sample_team_fold)

lemma sample_host_id: "th_rootId sample_team_host = ''r''"
  by (simp add: sample_team_host_def)

lemma sample_request_ok: "request_ok sample_team (Update_task ''m1'' Role_teammate sample_claim)"
  by code_simp

lemma sample_claim_returns:
  "fst (board_update calm ''m1'' Role_teammate sample_claim sample_team_host) = Inr sample_claim_view"
  by code_simp

lemma sample_claim_run:
  "board_update calm ''m1'' Role_teammate sample_claim sample_team_host = (Inr sample_claim_view, sample_claimed)"
  using sample_claim_returns by (metis sample_claimed_def prod.collapse)

lemma sample_claim_log: "team_log sample_claimed \<noteq> team_log sample_team_host"
proof -
  have run: "board_perform 0 calm (Update_task ''m1'' Role_teammate sample_claim) sample_team_host
      = (Inr sample_claim_view, sample_claimed)" using sample_claim_run by simp
  from run sample_host_fold _ sample_request_ok show ?thesis
    by (cases rule: board_perform_cases) (use sample_host_id in \<open>simp_all add: recorded_grows\<close>)
qed

lemma sample_claimed_fold: "\<exists>st. team_fold sample_claimed = Inr st"
proof -
  have run: "board_perform 0 calm (Update_task ''m1'' Role_teammate sample_claim) sample_team_host
      = (Inr sample_claim_view, sample_claimed)" using sample_claim_run by simp
  from run sample_host_fold _ sample_request_ok show ?thesis
    by (cases rule: board_perform_cases) (use sample_host_id recorded_fold in auto)
qed

theorem board_request_refines_witness:
  "\<exists>t. board_decision 0 ''r'' sample_team (Update_task ''m1'' Role_teammate sample_claim) = Inr t
    \<and> board_get (tt_id t) sample_claimed = Inr sample_claim_view"
  using board_request_refines [of 0 calm "Update_task ''m1'' Role_teammate sample_claim" sample_team_host
      "Inr sample_claim_view" sample_claimed sample_team]
    sample_claim_run sample_host_fold sample_request_ok by (auto simp: sample_host_id)

theorem task_update_wins_once_witness:
  "\<exists>n. board_update calm ''r'' Role_lead sample_claim sample_claimed
    = (Inl (Team_rejected (Stale_task_revision ''task-2'' (Finite 1) n)), sample_claimed)"
proof -
  obtain st where st: "team_fold sample_claimed = Inr st" using sample_claimed_fold by blast
  show ?thesis
    using task_update_wins_once [OF sample_claim_run sample_host_fold _ sample_request_ok sample_claim_log
        append_Nil2 [symmetric] refl st refl refl]
    by (simp add: sample_host_id sample_claim_def)
qed

theorem task_changes_authorized_witness:
  "\<exists>current t. map_of (ts_tasks sample_team) ''task-2'' = Some current \<and> tt_ownerId current = None
    \<and> recorded sample_team_host (Task_record t) (with_task sample_team t) sample_claimed \<and> tt_ownerId t = Some ''m1''"
  using task_changes_authorized [OF sample_claim_run sample_host_fold _ sample_request_ok sample_claim_log]
  by (auto simp: sample_host_id sample_claim_def sample_team_def sample_task_def)

end
