(* ===== verification/TeamService.thy ===== *)
theory TeamService
  imports TeamMailbox TeamBoardSafety
begin

text \<open>
  The team service as a whole (\<open>experimental/agent-team/src/index.ts\<close>): its limits, the operations the roster,
  the board and the mailbox run on the log of one lead, in any order, together with the appends of
  other components, and what holds in every state they reach: the log stays accepted and the deployment
  limits are kept.
\<close>

section \<open>Configuration\<close>

record team_config =
  tc_maxMembers :: nat
  tc_maxTasks :: nat
  tc_maxPendingMessagesPerMember :: nat
  tc_maxMessageBytes :: nat
  tc_disposalTimeoutMs :: nat

definition positive_limit :: "string \<Rightarrow> js_number option \<Rightarrow> nat \<Rightarrow> team_error + nat" where
  "positive_limit name v fallback =
     (case safe_integer_of (case v of None \<Rightarrow> Finite (of_nat fallback) | Some x \<Rightarrow> x) of
        None \<Rightarrow> Inl (Invalid_limit name)
      | Some k \<Rightarrow> if k < 1 then Inl (Invalid_limit name) else Inr (nat k))"

definition resolve_team_config ::
    "js_number option \<Rightarrow> js_number option \<Rightarrow> js_number option \<Rightarrow> js_number option \<Rightarrow> js_number option
      \<Rightarrow> team_error + team_config" where
  "resolve_team_config members tasks pending messageBytes timeout =
     and_then (positive_limit ''maxMembers'' members 8) (\<lambda>maxMembers.
     and_then (positive_limit ''maxTasks'' tasks 256) (\<lambda>maxTasks.
     and_then (positive_limit ''maxPendingMessagesPerMember'' pending 64) (\<lambda>maxPending.
     and_then (positive_limit ''maxMessageBytes'' messageBytes 65536) (\<lambda>maxBytes.
     and_then (positive_limit ''disposalTimeoutMs'' timeout 5000) (\<lambda>disposal.
       Inr \<lparr>tc_maxMembers = maxMembers, tc_maxTasks = maxTasks, tc_maxPendingMessagesPerMember = maxPending,
            tc_maxMessageBytes = maxBytes, tc_disposalTimeoutMs = disposal\<rparr>)))))"

definition mailbox_limits_of :: "team_config \<Rightarrow> mailbox_limits" where
  "mailbox_limits_of c =
     \<lparr>ml_maxPendingPerMember = tc_maxPendingMessagesPerMember c, ml_maxMessageBytes = tc_maxMessageBytes c\<rparr>"

section \<open>What one record does\<close>

lemma transact_outcome:
  assumes "transact_append env r x h = (out, h')" "team_fold h = Inr st" "record_wf r" "th_rootId h \<noteq> []"
    "apply_team_record st r = Inr st'"
  shows "unrecorded h h' \<or> recorded h r st' h'"
  using assms by (cases rule: transact_cases) simp_all

text \<open>The members, tasks and pending messages a team has, within the limits.\<close>

definition within_limits :: "team_config \<Rightarrow> team_state \<Rightarrow> bool" where
  "within_limits c st \<longleftrightarrow>
     length (ts_members st) \<le> tc_maxMembers c \<and> length (active_tasks st) \<le> tc_maxTasks c
     \<and> (\<forall>i. length (pending_for st i) \<le> tc_maxPendingMessagesPerMember c)"

lemma filter_update_known:
  "map_of m k = Some u \<Longrightarrow> P u \<or> \<not> P v \<Longrightarrow>
    length (filter P (map snd (AList.update k v m))) \<le> length (filter P (map snd m))"
  by (induction m) (auto split: if_splits)

lemma length_update_known: "map_of m k = Some u \<Longrightarrow> length (AList.update k v m) = length m"
  by (induction m) auto

lemma limits_with_task:
  assumes "within_limits c st"
    "map_of (ts_tasks st) (tt_id t) = None \<and> length (active_tasks st) < tc_maxTasks c
     \<or> (\<exists>u. map_of (ts_tasks st) (tt_id t) = Some u \<and> tt_status u \<noteq> Task_deleted)"
  shows "within_limits c (with_task st t)"
proof -
  have "length (active_tasks (with_task st t)) \<le> tc_maxTasks c"
    using assms(2)
  proof
    assume "map_of (ts_tasks st) (tt_id t) = None \<and> length (active_tasks st) < tc_maxTasks c"
    then show ?thesis by (simp add: active_tasks_def with_task_def js_set_new)
  next
    assume "\<exists>u. map_of (ts_tasks st) (tt_id t) = Some u \<and> tt_status u \<noteq> Task_deleted"
    then obtain u where "map_of (ts_tasks st) (tt_id t) = Some u" "tt_status u \<noteq> Task_deleted" by blast
    then have "length (active_tasks (with_task st t)) \<le> length (active_tasks st)"
      using filter_update_known [of "ts_tasks st" "tt_id t" u "\<lambda>t. tt_status t \<noteq> Task_deleted" t]
      by (simp add: active_tasks_def with_task_def)
    with assms(1) show ?thesis by (simp add: within_limits_def)
  qed
  with assms(1) show ?thesis by (simp add: within_limits_def with_task_def pending_for_def)
qed

lemma limits_frame:
  "ts_members st' = ts_members st \<Longrightarrow> ts_tasks st' = ts_tasks st \<Longrightarrow> ts_messages st' = ts_messages st \<Longrightarrow>
    ts_delivered st' = ts_delivered st \<Longrightarrow> within_limits c st' = within_limits c st"
  by (simp add: within_limits_def active_tasks_def pending_for_def)

lemma limits_queued:
  assumes "within_limits c st" "mailbox_ok st" "map_of (ts_messages st) (tg_id m) = None"
    "length (pending_for st (tg_targetId m)) < tc_maxPendingMessagesPerMember c"
  shows "within_limits c (st\<lparr>ts_messages := ts_messages st @ [(tg_id m, m)]\<rparr>)"
proof -
  let ?st = "st\<lparr>ts_messages := ts_messages st @ [(tg_id m, m)]\<rparr>"
  have step: "length (pending_for ?st i) \<le> length (pending_for st i) + (if tg_targetId m = i then 1 else 0)" for i
    by (simp add: pending_for_def)
  have old: "length (pending_for st i) \<le> tc_maxPendingMessagesPerMember c" for i
    using assms(1) unfolding within_limits_def by blast
  have "length (pending_for ?st i) \<le> tc_maxPendingMessagesPerMember c" for i
  proof (cases "tg_targetId m = i")
    case True
    with step [of i] assms(4) show ?thesis by simp
  next
    case False
    with step [of i] old [of i] show ?thesis by simp
  qed
  with assms(1) show ?thesis by (simp add: within_limits_def active_tasks_def)
qed

lemma length_filter_mono: "(\<And>x. P x \<Longrightarrow> Q x) \<Longrightarrow> length (filter P xs) \<le> length (filter Q xs)"
  by (induction xs) (auto simp: le_Suc_eq)

lemma limits_delivered:
  assumes "within_limits c st"
  shows "within_limits c (st\<lparr>ts_delivered := ts_delivered st @ [i]\<rparr>)"
proof -
  have "length (pending_for (st\<lparr>ts_delivered := ts_delivered st @ [i]\<rparr>) j) \<le> length (pending_for st j)" for j
    by (simp add: pending_for_def) (rule length_filter_mono, auto)
  then have "length (pending_for (st\<lparr>ts_delivered := ts_delivered st @ [i]\<rparr>) j) \<le> tc_maxPendingMessagesPerMember c" for j
    using assms unfolding within_limits_def by (meson le_trans)
  with assms show ?thesis by (simp add: within_limits_def active_tasks_def)
qed

section \<open>Steps of the service\<close>

definition appended_by_others :: "team_host \<Rightarrow> team_host \<Rightarrow> bool" where
  "appended_by_others h h' \<longleftrightarrow>
     (\<exists>veto now d op sources. event_type_of d \<notin> set team_event_types
        \<and> h' = h\<lparr>th_session := snd (session_append veto now d op sources (th_session h))\<rparr>)"

text \<open>
  The identities the service generates (random UUIDs) are new; a creation ends with the member it began with; message
  contents are content blocks.
\<close>

inductive team_step :: "team_config \<Rightarrow> team_host \<Rightarrow> team_host \<Rightarrow> bool" for c where
  ts_board: "team_fold h = Inr st \<Longrightarrow> request_ok st q \<Longrightarrow> board_perform (tc_maxTasks c) env q h = (out, h') \<Longrightarrow>
    team_step c h h'"
| ts_provision: "team_fold h = Inr st \<Longrightarrow> map_of (ts_members st) childId = None \<Longrightarrow> childId \<noteq> [] \<Longrightarrow>
    spawn_provision (tc_maxMembers c) env role aborted q childId h = (out', h') \<Longrightarrow> team_step c h h'"
| ts_finish: "m \<in> set (member_history (th_rootId h) (team_log h) (tm_id m)) \<Longrightarrow>
    spawn_finish env reg started stopped m h = (out'', h') \<Longrightarrow> team_step c h h'"
| ts_reconcile: "reconcile_member env reg inspected m h = (out3, h') \<Longrightarrow> team_step c h h'"
| ts_enqueue: "team_fold h = Inr st \<Longrightarrow> map_of (ts_messages st) messageId = None \<Longrightarrow> messageId \<noteq> [] \<Longrightarrow> callerId \<noteq> [] \<Longrightarrow>
    list_all content_block_ok (sr_content q') \<Longrightarrow>
    mailbox_enqueue (mailbox_limits_of c) num_text env aborted callerId callerName q' messageId h = (out4, h') \<Longrightarrow>
    team_step c h h'"
| ts_delivered: "messageId \<noteq> [] \<Longrightarrow> targetId \<noteq> [] \<Longrightarrow>
    checkpoint_delivered env flushed target targetId messageId h = (out5, h') \<Longrightarrow> team_step c h h'"
| ts_other: "appended_by_others h h' \<Longrightarrow> team_step c h h'"

inductive team_reach :: "team_config \<Rightarrow> team_host \<Rightarrow> bool" for c where
  tr_start: "team_fold h = Inr st \<Longrightarrow> within_limits c st \<Longrightarrow> th_rootId h \<noteq> [] \<Longrightarrow> team_reach c h"
| tr_step: "team_reach c h \<Longrightarrow> team_step c h h' \<Longrightarrow> team_reach c h'"

definition service_ok :: "team_config \<Rightarrow> team_host \<Rightarrow> bool" where
  "service_ok c h \<longleftrightarrow> th_rootId h \<noteq> [] \<and> (\<exists>st. team_fold h = Inr st \<and> within_limits c st)"

lemma service_ok_unrecorded: "unrecorded h h' \<Longrightarrow> service_ok c h \<Longrightarrow> service_ok c h'"
  using unrecorded_fold [of h h'] by (auto simp: service_ok_def unrecorded_def)

lemma service_ok_recorded: "recorded h r st' h' \<Longrightarrow> within_limits c st' \<Longrightarrow> service_ok c h \<Longrightarrow> service_ok c h'"
  by (auto simp: service_ok_def recorded_def)

lemma service_ok_transact:
  assumes "transact_append env r x h = (out, h')" "service_ok c h" "team_fold h = Inr st" "record_wf r"
    "apply_team_record st r = Inr st'" "within_limits c st'"
  shows "service_ok c h'"
  using transact_outcome [OF assms(1,3,4) _ assms(5)] assms(2,6) service_ok_unrecorded service_ok_recorded
  by (auto simp: service_ok_def)

lemma service_ok_fold: "service_ok c h \<Longrightarrow> team_fold h = Inr st \<Longrightarrow> within_limits c st \<and> team_ok st \<and> th_rootId h \<noteq> []"
  by (auto simp: service_ok_def team_fold_def fold_team_ok)

section \<open>Every step keeps the service well\<close>

lemma board_step_ok:
  assumes "service_ok c h" "team_fold h = Inr st" "request_ok st q"
    "board_perform (tc_maxTasks c) env q h = (out, h')"
  shows "service_ok c h'"
proof -
  note s = service_ok_fold [OF assms(1,2)]
  then have id: "th_rootId h \<noteq> []" by blast
  from assms(4,2) id assms(3) show ?thesis
  proof (cases rule: board_perform_cases)
    case (written t)
    have "map_of (ts_tasks st) (tt_id t) = None \<and> length (active_tasks st) < tc_maxTasks c
        \<or> (\<exists>u. map_of (ts_tasks st) (tt_id t) = Some u \<and> tt_status u \<noteq> Task_deleted)"
    proof (cases q)
      case (Create_task r)
      with written(1) s new_task_facts(4,5) show ?thesis by (auto simp: team_ok_def)
    next
      case (Update_task callerId role r)
      with written(1) have up: "updated_task (th_rootId h) role callerId st r = Inr t" by simp
      have "callerId \<noteq> []" "\<forall>u \<in> set (map snd (ts_tasks st)). int (tt_revision u) < max_safe"
        using assms(3) unfolding Update_task request_ok.simps by blast+
      from updated_task_facts(3) [OF up _ id this] s have "tt_id t = ut_taskId r" by blast
      with up show ?thesis by (auto elim: updated_task_cases)
    qed
    with s have "within_limits c (with_task st t)" by (blast intro: limits_with_task)
    from service_ok_recorded [OF written(2) this assms(1)] show ?thesis .
  qed (use assms(1) service_ok_unrecorded in auto)
qed

lemma provision_step_ok:
  assumes "service_ok c h" "team_fold h = Inr st" "map_of (ts_members st) childId = None" "childId \<noteq> []"
    "spawn_provision (tc_maxMembers c) env role aborted q childId h = (out, h')"
  shows "service_ok c h'"
proof (cases "h' = h")
  case False
  note s = service_ok_fold [OF assms(1,2)]
  from assms(5) False obtain m where m: "spawn_member q childId = Inr m"
    "\<not> js_has (ts_memberIdsByName st) (tm_name m)" "length (ts_members st) < tc_maxMembers c"
    "transact_append env (Member_record m) m h = (out, h')"
    using journal_state_iff [THEN iffD2, OF assms(2)]
    by (auto simp: spawn_provision_def split: if_splits option.splits sum.splits)
  from m(1) have f: "tm_id m = childId" "tm_phase m = Provisioning"
    by (auto simp: spawn_member_def res_simps)
  let ?st = "st\<lparr>ts_memberIdsByName := js_set (tm_name m) (tm_id m) (ts_memberIdsByName st),
                ts_members := js_set (tm_id m) m (ts_members st)\<rparr>"
  have "apply_team_record st (Member_record m) = Inr ?st"
    using m(2) f assms(3) by (simp add: apply_member_def)
  moreover have "within_limits c ?st"
    using s m(3) f(1) assms(3) by (simp add: within_limits_def active_tasks_def pending_for_def js_set_new)
  ultimately show ?thesis
    using service_ok_transact [OF m(4) assms(1,2)] f(1) assms(4) by (simp add: member_wf_def)
qed (use assms(1) in simp)

lemma settle_ok:
  assumes "service_ok c h" "team_fold h = Inr st" "map_of (ts_members st) (tm_id m) = Some p"
    "tm_phase p = Provisioning" "tm_name p = tm_name m" "tm_provider p = tm_provider m" "tm_context p = tm_context m"
    "tm_phase m \<noteq> Provisioning" "transact_append env (Member_record m) x h = (out, h')"
  shows "service_ok c h'"
proof -
  note s = service_ok_fold [OF assms(1,2)]
  let ?st = "st\<lparr>ts_members := js_set (tm_id m) m (ts_members st)\<rparr>"
  have "map_of (ts_memberIdsByName st) (tm_name m) = Some (tm_id m)"
    using s assms(3,5) by (auto simp: team_ok_def roster_ok_def)
  then have "apply_team_record st (Member_record m) = Inr ?st" using assms(3-8) by (simp add: apply_member_def)
  moreover have "within_limits c ?st"
    using s assms(3) by (simp add: within_limits_def active_tasks_def pending_for_def length_update_known)
  moreover have "tm_id m \<noteq> []" using s roster_get assms(3) by (auto simp: team_ok_def)
  ultimately show ?thesis using service_ok_transact [OF assms(9,1,2)] by (simp add: member_wf_def)
qed

text \<open>The identity of a member never changes, so the member a creation began with still names the current one.\<close>

lemma member_identity_fixed:
  "fold_team rootId es = Inr st \<Longrightarrow> m \<in> set (member_history rootId es i) \<Longrightarrow>
    \<exists>p. map_of (ts_members st) i = Some p \<and> tm_id m = i \<and> tm_name p = tm_name m \<and> tm_provider p = tm_provider m
      \<and> tm_context p = tm_context m"
proof (induction es arbitrary: st rule: rev_induct)
  case (snoc e es)
  from snoc.prems(1) obtain s where s: "fold_team rootId es = Inr s" "apply_team_event s e = Inr st"
    by (rule fold_team_snoc)
  note id = fold_team_id [OF s(1)]
  from s(2) show ?case
  proof (cases rule: apply_team_event_cases)
    case other
    with id snoc.prems(2) have "m \<in> set (member_history rootId es i)" by (simp add: member_history_def)
    with snoc.IH [OF s(1)] other(2) show ?thesis by simp
  next
    case (own r)
    note old = snoc.IH [OF s(1)]
    show ?thesis
    proof (cases r)
      case (Member_record u)
      have app: "apply_member s u = Inr st" using own(3) Member_record by simp
      have hist: "set (member_history rootId (es @ [e]) i)
          = set (member_history rootId es i) \<union> (if tm_id u = i then {u} else {})"
        using own(1) id Member_record by (auto simp: member_history_def)
      from app show ?thesis
      proof (cases rule: apply_member_cases)
        case provision
        with hist snoc.prems(2) old show ?thesis by (auto split: if_splits)
      next
        case (settle p)
        with hist snoc.prems(2) old show ?thesis by (auto split: if_splits)
      qed
    next
      case (Task_record u)
      with own id snoc.prems(2) old show ?thesis by (auto simp: member_history_def elim!: apply_task_cases)
    next
      case (Queued_record u)
      with own id snoc.prems(2) old show ?thesis by (auto simp: member_history_def elim!: apply_queued_cases)
    next
      case (Delivered_record a b)
      with own id snoc.prems(2) old show ?thesis by (auto simp: member_history_def elim!: apply_delivered_cases)
    qed
  qed
qed (simp add: member_history_def)

lemma settle_provisioning_ok:
  assumes "service_ok c h" "m \<in> set (member_history (th_rootId h) (team_log h) (tm_id m))"
    "tm_phase t \<noteq> Provisioning" "tm_id t = tm_id m" "tm_name t = tm_name m" "tm_provider t = tm_provider m"
    "tm_context t = tm_context m" "settle_provisioning env t h = (out, h')"
  shows "service_ok c h'"
proof (cases "h' = h")
  case False
  from assms(1) obtain st where st: "team_fold h = Inr st" by (auto simp: service_ok_def)
  from member_identity_fixed [OF st [unfolded team_fold_def] assms(2)] obtain p where
    p: "map_of (ts_members st) (tm_id m) = Some p" "tm_name p = tm_name m" "tm_provider p = tm_provider m"
      "tm_context p = tm_context m" by blast
  from assms(8) False p(1) assms(4) have tr: "tm_phase p = Provisioning"
    "transact_append env (Member_record t) (if tm_phase t = Active then Active else Failed) h = (out, h')"
    using journal_state_iff [THEN iffD2, OF st] by (auto simp: settle_provisioning_def split: if_splits)
  show ?thesis
    by (rule settle_ok [OF assms(1) st _ tr(1) _ _ _ assms(3) tr(2)]) (use p assms(4-7) in simp_all)
qed (use assms(1) in simp)

lemma finish_step_ok:
  assumes "service_ok c h" "m \<in> set (member_history (th_rootId h) (team_log h) (tm_id m))"
    "spawn_finish env reg started stopped m h = (out, h')"
  shows "service_ok c h'"
proof -
  define t where "t = (case started of Inl msg \<Rightarrow> m\<lparr>tm_phase := Failed, tm_error := Some msg\<rparr> | Inr _ \<Rightarrow> m\<lparr>tm_phase := Active\<rparr>)"
  obtain o1 where "settle_provisioning env t h = (o1, h')"
    using assms(3) by (cases started) (auto simp: spawn_finish_def t_def split: prod.splits sum.splits if_splits)
  then show ?thesis
    by (rule settle_provisioning_ok [OF assms(1,2), rotated -1]) (simp_all add: t_def split: sum.splits)
qed

lemma reconcile_step_ok:
  assumes "service_ok c h" "reconcile_member env reg inspected m h = (out, h')"
  shows "service_ok c h'"
proof (cases "h' = h")
  case False
  from assms(1) obtain st where st: "team_fold h = Inr st" by (auto simp: service_ok_def)
  note s = service_ok_fold [OF assms(1) st]
  obtain phase failure where ph: "reconciled_phase (th_rootId h) m inspected = (phase, failure)" by fastforce
  then have "phase \<noteq> Provisioning" by (auto simp: reconciled_phase_def split: sum.splits if_splits)
  from assms(2) False ph obtain p where p: "map_of (ts_members st) (tm_id m) = Some p" "tm_phase p = Provisioning"
    "transact_append env (Member_record (p\<lparr>tm_phase := phase,
       tm_error := (if phase = Failed then failure else tm_error p)\<rparr>)) () h = (out, h')"
    using journal_state_iff [THEN iffD2, OF st] by (auto simp: reconcile_member_def split: if_splits option.splits)
  have "tm_id p = tm_id m" using s roster_get p(1) by (auto simp: team_ok_def)
  then show ?thesis
    by (intro settle_ok [OF assms(1) st _ p(2) _ _ _ _ p(3)]) (use p(1) \<open>phase \<noteq> Provisioning\<close> in simp_all)
qed (use assms(1) in simp)

lemma enqueue_step_ok:
  assumes "service_ok c h" "team_fold h = Inr st" "map_of (ts_messages st) messageId = None" "messageId \<noteq> []"
    "callerId \<noteq> []" "list_all content_block_ok (sr_content q)"
    "mailbox_enqueue (mailbox_limits_of c) num_text env aborted callerId callerName q messageId h = (out, h')"
  shows "service_ok c h'"
proof (cases "h' = h")
  case False
  note s = service_ok_fold [OF assms(1,2)]
  from assms(7) False obtain m where
    m: "admit_message (mailbox_limits_of c) num_text (th_rootId h) callerId callerName st q messageId = Inr m"
      "transact_append env (Queued_record m) m h = (out, h')"
    using journal_state_iff [THEN iffD2, OF assms(2)]
    by (auto simp: mailbox_enqueue_def split: option.splits sum.splits)
  from m(1) obtain i name where
    i: "resolve_active_member (th_rootId h) st (sr_target q) = Inr (i, name)"
      "length (pending_for st i) < tc_maxPendingMessagesPerMember c" "tg_id m = messageId" "tg_targetId m = i"
      "tg_senderId m = callerId" "tg_content m = sr_content q"
    by (auto simp: admit_message_def mailbox_limits_of_def Let_def res_simps)
  have "i \<noteq> []" using resolved_member [OF i(1)] s roster_get by (auto simp: team_ok_def)
  then have wf: "record_wf (Queued_record m)" using i assms(4-6) by (simp add: message_wf_def)
  have app: "apply_team_record st (Queued_record m) = Inr (st\<lparr>ts_messages := ts_messages st @ [(tg_id m, m)]\<rparr>)"
    using assms(3) i(3) by (simp add: apply_queued_def js_set_new)
  have "within_limits c (st\<lparr>ts_messages := ts_messages st @ [(tg_id m, m)]\<rparr>)"
    using s assms(3) i by (intro limits_queued) (auto simp: team_ok_def)
  with service_ok_transact [OF m(2) assms(1,2) wf app] show ?thesis .
qed (use assms(1) in simp)

lemma delivered_step_ok:
  assumes "service_ok c h" "messageId \<noteq> []" "targetId \<noteq> []"
    "checkpoint_delivered env flushed target targetId messageId h = (out, h')"
  shows "service_ok c h'"
proof (cases "h' = h")
  case False
  from assms(1) obtain st where st: "team_fold h = Inr st" by (auto simp: service_ok_def)
  note s = service_ok_fold [OF assms(1) st]
  from assms(4) False obtain o1 where "mark_delivered env messageId targetId h = (o1, h')"
    by (auto simp: checkpoint_delivered_def split: sum.splits if_splits prod.splits)
  with False obtain g where g: "messageId \<notin> set (ts_delivered st)" "map_of (ts_messages st) messageId = Some g"
    "tg_targetId g = targetId" "transact_append env (Delivered_record messageId targetId) () h = (o1, h')"
    using journal_state_iff [THEN iffD2, OF st]
    by (auto simp: mark_delivered_def split: if_splits option.splits)
  have "apply_team_record st (Delivered_record messageId targetId)
      = Inr (st\<lparr>ts_delivered := ts_delivered st @ [messageId]\<rparr>)"
    using g by (simp add: apply_delivered_def)
  from service_ok_transact [OF g(4) assms(1) st _ this] assms(2,3) s limits_delivered show ?thesis by simp
qed (use assms(1) in simp)

lemma other_step_ok:
  assumes "service_ok c h" "appended_by_others h h'"
  shows "service_ok c h'"
proof -
  from assms(2) obtain veto now d op sources where d: "event_type_of d \<notin> set team_event_types"
    and h': "h' = h\<lparr>th_session := snd (session_append veto now d op sources (th_session h))\<rparr>"
    by (auto simp: appended_by_others_def)
  obtain r s where ap: "session_append veto now d op sources (th_session h) = (r, s)" by fastforce
  from session_append_log [OF ap] have "team_fold h' = team_fold h"
  proof (elim disjE exE conjE)
    assume "sn_log s = sn_log (th_session h)"
    with h' ap show ?thesis by (simp add: team_fold_def team_log_def)
  next
    let ?e = "candidate (th_session h) now d op sources"
    assume e: "sn_log s = sn_log (th_session h) @ [?e]"
    have "apply_team_event st ?e = Inr st" for st
      using d by (auto simp: apply_team_event_def candidate_def split: event_data.splits)
    with e h' ap show ?thesis
      by (cases "fold_team (th_rootId h) (sn_log (th_session h))")
        (simp_all add: team_fold_def team_log_def fold_team_def replay_snoc)
  qed
  with assms(1) h' show ?thesis by (simp add: service_ok_def)
qed

lemma team_step_ok: "team_step c h h' \<Longrightarrow> service_ok c h \<Longrightarrow> service_ok c h'"
  by (cases rule: team_step.cases)
    (auto intro: board_step_ok provision_step_ok finish_step_ok reconcile_step_ok enqueue_step_ok delivered_step_ok
      other_step_ok)

text \<open>
  C26: The deployment limits hold in every reachable state, and the log always replays: at most so many members (whatever
  their phase), so many tasks that are not deleted, and so many undelivered messages for any one target.
\<close>

theorem team_limits_hold:
  assumes "team_reach c h"
  shows "\<exists>st. team_fold h = Inr st \<and> length (ts_members st) \<le> tc_maxMembers c
    \<and> length (active_tasks st) \<le> tc_maxTasks c
    \<and> (\<forall>target. length (pending_for st target) \<le> tc_maxPendingMessagesPerMember c)"
proof -
  from assms have "service_ok c h"
  proof (induction rule: team_reach.induct)
    case (tr_start h st)
    then show ?case by (auto simp: service_ok_def)
  next
    case (tr_step h h')
    then show ?case by (blast intro: team_step_ok)
  qed
  then show ?thesis by (auto simp: service_ok_def within_limits_def)
qed

end
