(* ===== verification/TeamProperties.thy ===== *)
theory TeamProperties
  imports TeamService
begin

text \<open>
  Properties that span the team components: the exact meaning of the graph check and of the record decoder, the
  acknowledgement of messages, the uniqueness of teammate names, and the concrete runs that show the team
  theorems can be applied.
\<close>

text \<open>
  C21: The check of a changed task graph always returns, on any tasks whatever, and accepts exactly the changes that
  leave a graph without missing, deleted or repeated blockers and without cycles.
\<close>

theorem task_graph_check_exact:
  assumes "keyed tt_id tasks"
  shows "(\<exists>r. assert_task_graph tasks t = Some r)
    \<and> (assert_task_graph tasks t = Some (Inr ()) \<longleftrightarrow> task_graph_ok (js_set (tt_id t) t tasks))"
  using assert_task_graph_total assert_task_graph_iff [OF assms] by blast

theorem task_graph_check_exact_witness:
  "assert_task_graph [(''task-1'', sample_task ''task-1'' 1 Task_pending [])]
      (sample_task ''task-2'' 1 Task_pending [''task-1'']) = Some (Inr ())
    \<and> task_graph_ok (js_set ''task-2'' (sample_task ''task-2'' 1 Task_pending [''task-1''])
        [(''task-1'', sample_task ''task-1'' 1 Task_pending [])])"
proof -
  have "keyed tt_id [(''task-1'', sample_task ''task-1'' 1 Task_pending [])]" by (simp add: keyed_def sample_task_def)
  from task_graph_check_exact [OF this, of "sample_task ''task-2'' 1 Task_pending [''task-1'']"]
  have iff: "assert_task_graph [(''task-1'', sample_task ''task-1'' 1 Task_pending [])]
        (sample_task ''task-2'' 1 Task_pending [''task-1'']) = Some (Inr ())
      \<longleftrightarrow> task_graph_ok (js_set ''task-2'' (sample_task ''task-2'' 1 Task_pending [''task-1''])
        [(''task-1'', sample_task ''task-1'' 1 Task_pending [])])" by (simp add: sample_task_def)
  have "assert_task_graph [(''task-1'', sample_task ''task-1'' 1 Task_pending [])]
      (sample_task ''task-2'' 1 Task_pending [''task-1'']) = Some (Inr ())" by code_simp
  with iff show ?thesis by blast
qed

text \<open>
  C32: The decoder of stored team records returns what the writer was given, for exactly the records that have
  identities and numbers the code can write; a record of a team without a root is never read.
\<close>

theorem team_record_roundtrip:
  "parse_current_team_event (record_type r) (encode_record rootId r) =
     (if rootId \<noteq> [] \<and> record_wf r then Some (rootId, r) else None)"
  by (rule parse_encoded)

section \<open>Runs of the sample team\<close>

theorem team_log_histories_witness:
  "map tm_phase (member_history ''r'' sample_team_log ''m1'')
      \<in> {[], [Provisioning], [Provisioning, Active], [Provisioning, Failed]}
    \<and> (\<exists>n. map tt_revision (task_history ''r'' sample_team_log ''task-1'') = [1..<Suc n])
    \<and> distinct (map tg_id (queued_history ''r'' sample_team_log))
    \<and> distinct (map fst (delivered_history ''r'' sample_team_log))"
  using team_log_histories [OF sample_team_fold, of "''m1''" "''task-1''"] by blast

theorem team_state_consistent_witness:
  "task_graph_ok (ts_tasks sample_team) \<and> map_of (ts_tasks sample_team) ''task-3'' = None"
proof -
  from team_state_consistent [OF sample_team_fold] have "task_graph_ok (ts_tasks sample_team)" by blast
  moreover have "map_of (ts_tasks sample_team) ''task-3'' = None" by code_simp
  ultimately show ?thesis by blast
qed

theorem inherited_records_ignored_witness:
  "fold_team ''s'' (sample_team_log @ map (written ''s'') (enumerate 0 sample_records))
    = fold_team ''s'' (map (written ''s'') (enumerate 0 sample_records))"
proof -
  have "\<forall>e \<in> set sample_team_log. event_team e \<noteq> Some ''s''" by (auto simp: sample_team_log_def sample_event_team)
  from inherited_records_ignored [OF sample_team_fold this] show ?thesis .
qed

definition sample_config :: team_config where
  "sample_config =
     \<lparr>tc_maxMembers = 8, tc_maxTasks = 256, tc_maxPendingMessagesPerMember = 64, tc_maxMessageBytes = 65536,
      tc_disposalTimeoutMs = 5000\<rparr>"

lemma sample_within_limits: "within_limits sample_config sample_team"
proof -
  have "length (ts_members sample_team) \<le> tc_maxMembers sample_config"
    by (simp add: sample_team_def sample_config_def)
  moreover have "length (active_tasks sample_team) \<le> tc_maxTasks sample_config"
    by (simp add: sample_team_def sample_config_def active_tasks_def sample_task_def)
  moreover have "pending_for sample_team i = []" for i by (simp add: pending_for_def sample_team_def sample_mail_def)
  ultimately show ?thesis by (simp add: within_limits_def)
qed

lemma sample_host_reach: "team_reach sample_config sample_team_host"
  by (rule tr_start [OF sample_host_fold sample_within_limits]) (simp add: sample_host_id)

theorem team_limits_hold_witness:
  "resolve_team_config None None None None None = Inr sample_config
    \<and> (\<exists>st. team_fold sample_team_host = Inr st \<and> length (ts_members st) \<le> 8 \<and> length (active_tasks st) \<le> 256)"
proof -
  have "resolve_team_config None None None None None = Inr sample_config"
    by (simp add: resolve_team_config_def positive_limit_def safe_integer_of_def max_safe_def sample_config_def)
  with team_limits_hold [OF sample_host_reach] show ?thesis by (auto simp: sample_config_def)
qed

section \<open>Messages and names\<close>


text \<open>
  C25: A name a team has ever used is never given to another teammate: a creation that succeeds has a name no member of
  the log ever had, whatever became of that member.
\<close>

theorem teammate_names_unique:
  assumes "spawn_provision maxMembers env role aborted q childId h = (Inr m, h')"
    "old \<in> set (member_history (th_rootId h) (team_log h) i)"
  shows "tm_name m \<noteq> tm_name old \<and> tm_phase m = Provisioning \<and> role = Role_lead"
proof -
  from assms(1) obtain m' st where st: "role = Role_lead" "spawn_member q childId = Inr m'" "journal_state h = Inr st"
    "\<not> js_has (ts_memberIdsByName st) (tm_name m')" "transact_append env (Member_record m') m' h = (Inr m, h')"
    by (auto simp: spawn_provision_def split: if_splits option.splits sum.splits)
  have m: "m = m'" using st(5) by (auto simp: transact_append_def split: prod.splits sum.splits)
  have f: "fold_team (th_rootId h) (team_log h) = Inr st" using st(3) journal_state_iff by (simp add: team_fold_def)
  from member_identity_fixed [OF f assms(2)] obtain p where
    p: "map_of (ts_members st) i = Some p" "tm_name p = tm_name old" by blast
  have "map_of (ts_memberIdsByName st) (tm_name old) = Some i"
    using fold_team_ok [OF f] p unfolding team_ok_def roster_ok_def by blast
  with st(4) m have "tm_name m \<noteq> tm_name old" by auto
  moreover have "tm_phase m = Provisioning" using st(2) m by (auto simp: spawn_member_def res_simps)
  ultimately show ?thesis using st(1) by blast
qed

section \<open>A delivery and a creation\<close>

definition undelivered_host :: team_host where
  "undelivered_host = sample_team_host\<lparr>th_session := empty_session
     \<lparr>sn_log := map (written ''r'') (enumerate 0 (butlast sample_records))\<rparr>\<rparr>"

definition undelivered_team :: team_state where
  "undelivered_team = sample_team\<lparr>ts_delivered := []\<rparr>"

definition receiving_session :: session where
  "receiving_session = empty_session\<lparr>sn_log := [\<lparr>ev_seq = 0, ev_time = 0,
     ev_data = UserMessage \<lparr>msg_id = ''u1'', msg_role = Role_user, msg_content = [],
       msg_source = MergedSource ''team-message'' [(''messageId'', JStr ''q1'')]\<rparr>,
     ev_ignorable = False, ev_surfaceOp = None, ev_sources = None\<rparr>]\<rparr>"

definition acknowledged_host :: team_host where
  "acknowledged_host = snd (checkpoint_delivered calm (Inr ()) receiving_session ''m1'' ''q1'' undelivered_host)"

lemma undelivered_fold: "team_fold undelivered_host = Inr undelivered_team"
proof -
  have wf: "list_all record_wf (butlast sample_records)" by code_simp
  have run: "replay apply_team_record (empty_team_state ''r'') (butlast sample_records) = Inr undelivered_team" by code_simp
  from replay_written [of "empty_team_state ''r''" "''r''" "enumerate 0 (butlast sample_records)"] wf run
  show ?thesis
    by (simp add: team_fold_def team_log_def fold_team_def undelivered_host_def sample_host_id empty_team_state_def)
qed

lemma acknowledged_run:
  "fst (checkpoint_delivered calm (Inr ()) receiving_session ''m1'' ''q1'' undelivered_host) = Inr True"
  by code_simp


definition reviewer_request :: spawn_request where
  "reviewer_request =
     \<lparr>sq_name = ''reviewer'', sq_description = ''reviews'', sq_context = Context_fresh, sq_provider = ''local''\<rparr>"

definition reviewer :: team_member where
  "reviewer =
     \<lparr>tm_id = ''m2'', tm_name = ''reviewer'', tm_description = ''reviews'', tm_provider = ''local'',
      tm_context = Context_fresh, tm_phase = Provisioning, tm_error = None\<rparr>"

lemma reviewer_run:
  "fst (spawn_provision 8 calm Role_lead None reviewer_request ''m2'' sample_team_host) = Inr reviewer"
  by code_simp

lemma sample_member_history:
  "sample_member Active \<in> set (member_history (th_rootId sample_team_host) (team_log sample_team_host) ''m1'')"
proof -
  have log: "team_log sample_team_host = sample_team_log" by (simp add: team_log_def sample_team_host_def)
  have st: "map_of (ts_members sample_team) ''m1'' = Some (sample_member Active)" by (simp add: sample_team_def)
  have h: "map tm_phase (member_history ''r'' sample_team_log ''m1'') = [Provisioning, Active]"
    "last (member_history ''r'' sample_team_log ''m1'') = sample_member Active"
    using fold_histories [OF sample_team_fold] st by (simp_all add: histories_ok_def phases_of_def sample_member_def)
  then have "member_history ''r'' sample_team_log ''m1'' \<noteq> []" by auto
  with last_in_set h(2) show ?thesis unfolding log sample_host_id by metis
qed

theorem teammate_names_unique_witness:
  "tm_name reviewer \<noteq> tm_name (sample_member Active)"
  using teammate_names_unique [OF _ sample_member_history] reviewer_run by (metis prod.collapse)

end
