(* ===== verification/TeamActivity.thy ===== *)
theory TeamActivity
  imports TeamBoard "HOL-Library.Multiset"
begin

text \<open>
  The waiters for team changes (\<open>experimental/agent-team/src/activity.ts\<close>, class \<open>TeamActivity\<close>): a wait ends by
  a change of its team, by its timeout or by its caller's abort, whichever comes first. A waiter is named by a
  number no other waiter has had; \<open>av_settled\<close> lists the ended waits with their outcomes. The timer and the
  abort signal are events from outside, \<open>activity_finish\<close>.
\<close>

datatype wait_outcome = Changed | Timed_out | Wait_aborted string

record activity =
  av_waiters :: "(string \<times> nat list) list"
  av_closed :: bool
  av_settled :: "(nat \<times> wait_outcome) list"

datatype wait_start = Waiting nat | Returned bool

definition new_activity :: activity where
  "new_activity = \<lparr>av_waiters = [], av_closed = False, av_settled = []\<rparr>"

definition valid_timeout :: "js_number \<Rightarrow> bool" where
  "valid_timeout t = (case safe_integer_of t of Some k \<Rightarrow> 10000 \<le> k \<and> k \<le> 3600000 | None \<Rightarrow> False)"

definition waiters_of :: "activity \<Rightarrow> string \<Rightarrow> nat list" where
  "waiters_of a team = or_empty (map_of (av_waiters a) team)"

definition activity_wait ::
    "string \<Rightarrow> js_number \<Rightarrow> string option \<Rightarrow> nat \<Rightarrow> activity \<Rightarrow> (team_failure + wait_start) \<times> activity" where
  "activity_wait team timeoutMs aborted w a =
     (if \<not> valid_timeout timeoutMs then (Inl (Team_rejected Invalid_timeout), a)
      else (case aborted of
          Some reason \<Rightarrow> (Inl (Team_aborted reason), a)
        | None \<Rightarrow>
            if av_closed a then (Inr (Returned False), a)
            else (Inr (Waiting w), a\<lparr>av_waiters := js_set team (waiters_of a team @ [w]) (av_waiters a)\<rparr>)))"

text \<open>\<open>finish\<close>: the first outcome of a waiter settles it and takes it off its team's list.\<close>

definition activity_finish :: "string \<Rightarrow> nat \<Rightarrow> wait_outcome \<Rightarrow> activity \<Rightarrow> activity" where
  "activity_finish team w outcome a =
     (if w \<notin> set (waiters_of a team) then a
      else
        let rest = removeAll w (waiters_of a team)
        in a\<lparr>av_waiters := (if rest = [] then js_delete team (av_waiters a) else js_set team rest (av_waiters a)),
             av_settled := av_settled a @ [(w, outcome)]\<rparr>)"

definition activity_notify :: "string \<Rightarrow> activity \<Rightarrow> activity" where
  "activity_notify team a =
     (case map_of (av_waiters a) team of
        None \<Rightarrow> a
      | Some ws \<Rightarrow>
          a\<lparr>av_waiters := js_delete team (av_waiters a), av_settled := av_settled a @ map (\<lambda>w. (w, Changed)) ws\<rparr>)"

definition activity_close :: "activity \<Rightarrow> activity" where
  "activity_close a =
     a\<lparr>av_closed := True, av_waiters := [],
       av_settled := av_settled a @ map (\<lambda>w. (w, Changed)) (concat (js_values (av_waiters a)))\<rparr>"

section \<open>Every waiter ends at most once\<close>

definition waiting :: "activity \<Rightarrow> nat list" where
  "waiting a = concat (js_values (av_waiters a))"

inductive activity_reach :: "nat list \<Rightarrow> activity \<Rightarrow> bool" where
  ar_new: "activity_reach [] new_activity"
| ar_wait: "activity_reach ws a \<Longrightarrow> w \<notin> set ws \<Longrightarrow> activity_wait team t aborted w a = (Inr (Waiting w), a') \<Longrightarrow>
    activity_reach (ws @ [w]) a'"
| ar_finish: "activity_reach ws a \<Longrightarrow> activity_reach ws (activity_finish team w outcome a)"
| ar_notify: "activity_reach ws a \<Longrightarrow> activity_reach ws (activity_notify team a)"
| ar_close: "activity_reach ws a \<Longrightarrow> activity_reach ws (activity_close a)"

lemma mset_delete:
  "distinct (map fst m) \<Longrightarrow> map_of m k = Some v \<Longrightarrow>
    mset (concat (map snd m)) = mset v + mset (concat (map snd (AList.delete k m)))"
proof (induction m)
  case (Cons p m)
  show ?case
  proof (cases "fst p = k")
    case True
    with Cons.prems(1) have "k \<notin> fst ` set m" by auto
    then have "AList.delete k m = m" by simp
    with True Cons.prems(2) show ?thesis by (cases p) simp
  next
    case False
    with Cons show ?thesis by (cases p) (simp add: ac_simps)
  qed
qed simp

lemma mset_set_new:
  "mset (concat (map snd (AList.update k (or_empty (map_of m k) @ [w]) m))) = mset (concat (map snd m)) + {#w#}"
  by (induction m) (auto simp: or_empty_def split: option.splits)

lemma mset_set:
  "distinct (map fst m) \<Longrightarrow> map_of m k = Some v \<Longrightarrow>
    mset (concat (map snd (AList.update k v' m))) + mset v = mset (concat (map snd m)) + mset v'"
  by (induction m) (auto simp: ac_simps)

definition activity_ok :: "nat list \<Rightarrow> activity \<Rightarrow> bool" where
  "activity_ok ws a \<longleftrightarrow> distinct ws \<and> distinct (map fst (av_waiters a))
     \<and> mset ws = mset (waiting a) + mset (map fst (av_settled a)) \<and> (av_closed a \<longrightarrow> av_waiters a = [])"

lemma activity_wait_ok:
  assumes "activity_ok ws a" "w \<notin> set ws" "activity_wait team t aborted w a = (Inr (Waiting w), a')"
  shows "activity_ok (ws @ [w]) a'"
proof -
  from assms(3) have a': "a' = a\<lparr>av_waiters := js_set team (waiters_of a team @ [w]) (av_waiters a)\<rparr>"
    and "\<not> av_closed a" by (auto simp: activity_wait_def split: if_splits option.splits)
  with assms(1,2) show ?thesis
    using mset_set_new [of team "av_waiters a" w]
    by (simp add: activity_ok_def waiting_def waiters_of_def distinct_update)
qed

lemma waiters_waiting:
  assumes "w \<in> set (waiters_of a team)"
  obtains ws where "map_of (av_waiters a) team = Some ws" "waiters_of a team = ws" "w \<in> set (waiting a)"
proof -
  from assms obtain ws where ws: "map_of (av_waiters a) team = Some ws" "waiters_of a team = ws"
    by (cases "map_of (av_waiters a) team") (simp_all add: waiters_of_def or_empty_def)
  with assms map_of_SomeD [OF ws(1)] show thesis by (intro that [OF ws]) (force simp: waiting_def)
qed

lemma mset_part_distinct: "mset xs = mset ys + mset zs \<Longrightarrow> distinct xs \<Longrightarrow> distinct ys"
  by (metis distinct_append mset_append mset_eq_imp_distinct_iff)

lemma concat_part_distinct: "distinct (concat (map snd m)) \<Longrightarrow> map_of m k = Some ws \<Longrightarrow> distinct ws"
  by (induction m) (auto split: if_splits)

lemma activity_finish_ok:
  assumes "activity_ok ws a"
  shows "activity_ok ws (activity_finish team w outcome a)"
proof (cases "w \<in> set (waiters_of a team)")
  case True
  then obtain xs where xs: "map_of (av_waiters a) team = Some xs" "waiters_of a team = xs" by (rule waiters_waiting)
  note ok = assms [unfolded activity_ok_def]
  have "distinct (waiting a)" using ok mset_part_distinct by blast
  then have "distinct xs" using concat_part_distinct [OF _ xs(1)] by (simp add: waiting_def)
  with True xs(2) have part: "mset xs = mset (removeAll w xs) + {#w#}"
    by (simp add: distinct_remove1_removeAll [symmetric] mset_remove1)
  have "av_waiters a \<noteq> []" using xs(1) by auto
  with ok have "\<not> av_closed a" by blast
  show ?thesis
  proof (cases "removeAll w xs = []")
    case empty: True
    with True xs mset_delete [OF _ xs(1)] ok part \<open>\<not> av_closed a\<close> show ?thesis
      by (simp add: activity_finish_def activity_ok_def waiting_def distinct_delete)
  next
    case False
    from mset_set [OF _ xs(1), of "removeAll w xs"] ok part
    have "mset (concat (map snd (js_set team (removeAll w xs) (av_waiters a)))) + {#w#} = mset (waiting a)"
      by (simp add: waiting_def)
    with True False xs ok \<open>\<not> av_closed a\<close> show ?thesis
      by (simp add: activity_finish_def activity_ok_def waiting_def distinct_update)
  qed
qed (use assms in \<open>simp add: activity_finish_def\<close>)

lemma activity_notify_ok:
  assumes "activity_ok ws a"
  shows "activity_ok ws (activity_notify team a)"
proof (cases "map_of (av_waiters a) team")
  case (Some xs)
  have "av_waiters a \<noteq> []" using Some by auto
  with Some mset_delete [OF _ Some] assms show ?thesis
    by (auto simp: activity_notify_def activity_ok_def waiting_def distinct_delete comp_def)
qed (use assms in \<open>simp add: activity_notify_def\<close>)

lemma activity_close_ok: "activity_ok ws a \<Longrightarrow> activity_ok ws (activity_close a)"
  by (simp add: activity_close_def activity_ok_def waiting_def comp_def)


definition sample_activity :: activity where
  "sample_activity = activity_notify ''t'' (snd (activity_wait ''t'' (Finite 10000) None 7 new_activity))"


end
