(* ===== verification/Calendar.thy ===== *)
theory Calendar
  imports Prelude
begin

text \<open>
  What the schedules use of JavaScript's \<open>Date\<close>: epoch milliseconds, the proleptic Gregorian calendar of the
  language's specification (\<open>DayFromYear\<close>, \<open>YearFromTime\<close>, \<open>MakeDay\<close>), and the ISO form of an instant. The conversions
  between epochs and calendar fields are inverse to each other, and so are writing and reading the ISO form.
\<close>

section \<open>Days and years\<close>

definition ms_per_day :: int where
  "ms_per_day = 86400000"

definition day_from_year :: "int \<Rightarrow> int" where
  "day_from_year y = 365 * (y - 1970) + (y - 1969) div 4 - (y - 1901) div 100 + (y - 1601) div 400"

definition leap_year :: "int \<Rightarrow> bool" where
  "leap_year y \<longleftrightarrow> y mod 4 = 0 \<and> (y mod 100 \<noteq> 0 \<or> y mod 400 = 0)"

text \<open>The largest year that does not start after the day, found from an estimate that is at most one off.\<close>

definition year_of_day :: "int \<Rightarrow> int" where
  "year_of_day d =
     (let y = 1970 + (400 * d) div 146097
      in if d < day_from_year y then y - 1 else if day_from_year (y + 1) \<le> d then y + 1 else y)"

definition month_lengths :: "bool \<Rightarrow> int list" where
  "month_lengths leap = [31, if leap then 29 else 28, 31, 30, 31, 30, 31, 31, 30, 31, 30, 31]"

fun split_days :: "int list \<Rightarrow> int \<Rightarrow> int \<times> int" where
  "split_days [] n = (0, n)"
| "split_days (l # ls) n = (if n < l then (0, n) else let (m, r) = split_days ls (n - l) in (m + 1, r))"

definition month_start :: "bool \<Rightarrow> int \<Rightarrow> int" where
  "month_start leap m = sum_list (take (nat m) (month_lengths leap))"

text \<open>\<open>MakeDay\<close> with a zero-based month, which may lie outside of the year.\<close>

definition make_day :: "int \<Rightarrow> int \<Rightarrow> int \<Rightarrow> int" where
  "make_day y m dt =
     (let ym = y + m div 12 in day_from_year ym + month_start (leap_year ym) (m mod 12) + dt - 1)"

lemma div_step:
  fixes x n :: int
  assumes "0 < n"
  shows "(x + 1) div n = x div n + (if (x + 1) mod n = 0 then 1 else 0)"
proof -
  have r: "0 \<le> x mod n" "x mod n < n" using assms by simp_all
  have x: "x + 1 = n * (x div n) + (x mod n + 1)" using mult_div_mod_eq [of n x] by simp
  show ?thesis
  proof (cases "x mod n + 1 = n")
    case True
    then have "x + 1 = n * (x div n + 1)" using x by (simp add: distrib_left)
    then show ?thesis using assms by simp
  next
    case False
    then have s: "0 \<le> x mod n + 1" "x mod n + 1 < n" using r by simp_all
    have "(x + 1) div n = x div n" "(x + 1) mod n = x mod n + 1"
      using s int_div_pos_eq [OF x s] int_mod_pos_eq [OF x s] by simp_all
    then show ?thesis using r(1) by simp
  qed
qed

lemma day_from_year_step: "day_from_year (y + 1) = day_from_year y + (if leap_year y then 366 else 365)"
proof -
  have four: "(y + 1 - 1969) div 4 = (y - 1969) div 4 + (if y mod 4 = 0 then 1 else 0)"
    using div_step [of 4 "y - 1969"] mod_mult_self1 [of y "- 492" 4] by simp
  have hundred: "(y + 1 - 1901) div 100 = (y - 1901) div 100 + (if y mod 100 = 0 then 1 else 0)"
    using div_step [of 100 "y - 1901"] mod_mult_self1 [of y "- 19" 100] by simp
  have four_hundred: "(y + 1 - 1601) div 400 = (y - 1601) div 400 + (if y mod 400 = 0 then 1 else 0)"
    using div_step [of 400 "y - 1601"] mod_mult_self1 [of y "- 4" 400] by simp
  have "400 dvd y \<Longrightarrow> 100 dvd y" "100 dvd y \<Longrightarrow> 4 dvd y" by (erule dvd_trans [rotated], simp)+
  then have "y mod 400 = 0 \<Longrightarrow> y mod 100 = 0" "y mod 100 = 0 \<Longrightarrow> y mod 4 = 0" by (simp_all only: mod_eq_0_iff_dvd)
  moreover define a b c where "a = (y - 1969) div 4" and "b = (y - 1901) div 100" and "c = (y - 1601) div 400"
  moreover define p q r where "p \<longleftrightarrow> y mod 4 = 0" and "q \<longleftrightarrow> y mod 100 = 0" and "r \<longleftrightarrow> y mod 400 = 0"
  ultimately have imps: "r \<Longrightarrow> q" "q \<Longrightarrow> p" by (simp_all only:)
  have "day_from_year (y + 1)
      = 365 * (y + 1 - 1970) + (a + (if p then 1 else 0)) - (b + (if q then 1 else 0)) + (c + (if r then 1 else 0))"
    unfolding day_from_year_def four hundred four_hundred a_def b_def c_def p_def q_def r_def ..
  also have "\<dots> = 365 * (y - 1970) + a - b + c + (if p \<and> (\<not> q \<or> r) then 366 else 365)"
    using imps by (cases p; cases q; cases r; simp)
  finally show ?thesis unfolding day_from_year_def leap_year_def a_def b_def c_def p_def q_def r_def .
qed

lemma div_bounds:
  fixes x n :: int
  assumes "0 < n"
  shows "n * (x div n) \<le> x" "x < n * (x div n) + n"
  using mult_div_mod_eq [of n x] pos_mod_bound [OF assms, of x] pos_mod_sign [OF assms, of x] by linarith+

lemma day_from_year_less: "x < y \<Longrightarrow> day_from_year x < day_from_year y"
  by (induction y rule: int_gr_induct) (auto simp: day_from_year_step split: if_splits intro: less_trans)

lemma day_from_year_le: "x \<le> y \<Longrightarrow> day_from_year x \<le> day_from_year y"
  using day_from_year_less [of x y] by (cases "x = y") auto

lemma year_of_day_bounds: "day_from_year (year_of_day d) \<le> d \<and> d < day_from_year (year_of_day d + 1)"
proof -
  define y where "y = 1970 + (400 * d) div 146097"
  have q: "146097 * (y - 1970) \<le> 400 * d" "400 * d < 146097 * (y - 1970) + 146097"
    using div_bounds [of 146097 "400 * d"] unfolding y_def by simp_all
  have est: "146097 * (x - 1970) - 506 \<le> 400 * day_from_year x" "400 * day_from_year x \<le> 146097 * (x - 1970) + 592" for x
  proof -
    define a b c where "a = (x - 1969) div 4" and "b = (x - 1901) div 100" and "c = (x - 1601) div 400"
    have r: "4 * a \<le> x - 1969" "x - 1969 < 4 * a + 4" "100 * b \<le> x - 1901" "x - 1901 < 100 * b + 100"
      "400 * c \<le> x - 1601" "x - 1601 < 400 * c + 400"
      unfolding a_def b_def c_def by (simp_all add: div_bounds)
    have s: "100 * x - 197200 \<le> 400 * a" "400 * a \<le> 100 * x - 196900" using r(1,2) by linarith+
    have t: "4 * x - 8000 \<le> 400 * b" "400 * b \<le> 4 * x - 7604" using r(3,4) by linarith+
    have f: "400 * day_from_year x = 146000 * x - 287620000 + 400 * a - 400 * b + 400 * c"
      by (simp add: day_from_year_def a_def b_def c_def)
    have g: "146097 * (x - 1970) = 146097 * x - 287811090" by simp
    show "146097 * (x - 1970) - 506 \<le> 400 * day_from_year x" unfolding f g using r(6) s(1) t(2) by linarith
    show "400 * day_from_year x \<le> 146097 * (x - 1970) + 592" unfolding f g using r(5) s(2) t(1) by linarith
  qed
  have "146097 * (y - 1 - 1970) = 146097 * (y - 1970) - 146097" "146097 * (y + 2 - 1970) = 146097 * (y - 1970) + 292194"
    by simp_all
  with est(2) [of "y - 1"] est(1) [of "y + 2"] q have "400 * day_from_year (y - 1) \<le> 400 * d" "400 * d < 400 * day_from_year (y + 2)"
    by simp_all
  then have lo: "day_from_year (y - 1) \<le> d" and hi: "d < day_from_year (y + 2)" by simp_all
  from lo hi show ?thesis unfolding year_of_day_def Let_def y_def [symmetric] by (simp add: add.assoc)
qed

lemma year_of_day_unique: "day_from_year y \<le> d \<Longrightarrow> d < day_from_year (y + 1) \<Longrightarrow> year_of_day d = y"
proof -
  assume y: "day_from_year y \<le> d" "d < day_from_year (y + 1)"
  note b = year_of_day_bounds [of d]
  have "\<not> year_of_day d < y" using day_from_year_le [of "year_of_day d + 1" y] b y by auto
  moreover have "\<not> y < year_of_day d" using day_from_year_le [of "y + 1" "year_of_day d"] b y by auto
  ultimately show ?thesis by simp
qed

lemma day_of_year: "0 \<le> d - day_from_year (year_of_day d)"
  "d - day_from_year (year_of_day d) < (if leap_year (year_of_day d) then 366 else 365)"
  using year_of_day_bounds [of d] by (simp_all add: day_from_year_step)

section \<open>Months\<close>

lemma split_days_sum:
  "list_all (\<lambda>l. 0 < l) ls \<Longrightarrow> 0 \<le> n \<Longrightarrow> n < sum_list ls \<Longrightarrow> split_days ls n = (m, r) \<Longrightarrow>
    0 \<le> m \<and> m < int (length ls) \<and> 0 \<le> r \<and> r < ls ! nat m \<and> n = sum_list (take (nat m) ls) + r"
proof (induction ls arbitrary: n m r)
  case (Cons l ls)
  show ?case
  proof (cases "n < l")
    case True
    with Cons.prems show ?thesis by simp
  next
    case False
    with Cons.prems obtain m' where m': "split_days ls (n - l) = (m', r)" "m = m' + 1" by (auto split: prod.splits)
    from Cons.IH [OF _ _ _ m'(1)] Cons.prems False
    have "0 \<le> m'" "m' < int (length ls)" "0 \<le> r" "r < ls ! nat m'" "n - l = sum_list (take (nat m') ls) + r" by auto
    with m'(2) show ?thesis by (simp add: nat_add_distrib)
  qed
qed simp

lemma split_days_unique:
  "list_all (\<lambda>l. 0 < l) ls \<Longrightarrow> k < length ls \<Longrightarrow> 0 \<le> r \<Longrightarrow> r < ls ! k \<Longrightarrow>
    split_days ls (sum_list (take k ls) + r) = (int k, r)"
proof (induction ls arbitrary: k)
  case (Cons l ls)
  show ?case
  proof (cases k)
    case (Suc j)
    have "0 \<le> sum_list (take j ls)"
      using Cons.prems(1) by (intro sum_list_nonneg) (fastforce simp: list_all_iff dest: in_set_takeD)
    with Cons Suc show ?thesis by simp
  qed (use Cons.prems in simp)
qed simp

lemma month_lengths_facts:
  "list_all (\<lambda>l. 0 < l) (month_lengths leap)" "length (month_lengths leap) = 12"
  "sum_list (month_lengths leap) = (if leap then 366 else 365)"
  "\<forall>l \<in> set (month_lengths leap). l \<le> 31"
  by (simp_all add: month_lengths_def)

section \<open>Calendar fields\<close>

record calendar_parts =
  cp_year :: int
  cp_month :: int
  cp_day :: int
  cp_hour :: int
  cp_minute :: int
  cp_second :: int
  cp_millisecond :: int

definition epoch_of_parts :: "calendar_parts \<Rightarrow> int" where
  "epoch_of_parts p =
     make_day (cp_year p) (cp_month p - 1) (cp_day p) * ms_per_day
     + cp_hour p * 3600000 + cp_minute p * 60000 + cp_second p * 1000 + cp_millisecond p"

text \<open>\<open>getUTCFullYear\<close> and its companions.\<close>

definition parts_of_epoch :: "int \<Rightarrow> calendar_parts" where
  "parts_of_epoch t =
     (let d = t div ms_per_day; w = t mod ms_per_day; y = year_of_day d;
          (m, r) = split_days (month_lengths (leap_year y)) (d - day_from_year y)
      in \<lparr>cp_year = y, cp_month = m + 1, cp_day = r + 1, cp_hour = w div 3600000, cp_minute = w div 60000 mod 60,
          cp_second = w div 1000 mod 60, cp_millisecond = w mod 1000\<rparr>)"

definition valid_parts :: "calendar_parts \<Rightarrow> bool" where
  "valid_parts p \<longleftrightarrow>
     1 \<le> cp_month p \<and> cp_month p \<le> 12
     \<and> 1 \<le> cp_day p \<and> cp_day p \<le> month_lengths (leap_year (cp_year p)) ! nat (cp_month p - 1)
     \<and> 0 \<le> cp_hour p \<and> cp_hour p < 24 \<and> 0 \<le> cp_minute p \<and> cp_minute p < 60
     \<and> 0 \<le> cp_second p \<and> cp_second p < 60 \<and> 0 \<le> cp_millisecond p \<and> cp_millisecond p < 1000"

lemma time_split:
  assumes "0 \<le> w" "w < ms_per_day"
  shows "w = w div 3600000 * 3600000 + w div 60000 mod 60 * 60000 + w div 1000 mod 60 * 1000 + w mod 1000"
    "0 \<le> w div 3600000" "w div 3600000 < 24"
proof -
  have "w div 60000 div 60 = w div 3600000" "w div 1000 div 60 = w div 60000" by (simp_all add: zdiv_zmult2_eq)
  then have h: "w div 60000 = 60 * (w div 3600000) + w div 60000 mod 60"
    and m: "w div 1000 = 60 * (w div 60000) + w div 1000 mod 60"
    using mult_div_mod_eq [of 60 "w div 60000"] mult_div_mod_eq [of 60 "w div 1000"] by simp_all
  have "w = 1000 * (w div 1000) + w mod 1000" using mult_div_mod_eq [of 1000 w] by simp
  with h m show "w = w div 3600000 * 3600000 + w div 60000 mod 60 * 60000 + w div 1000 mod 60 * 1000 + w mod 1000"
    by linarith
  show "0 \<le> w div 3600000" "w div 3600000 < 24" using assms by (simp_all add: ms_per_day_def div_less_iff_less_mult)
qed

lemma parts_of_epoch_valid: "valid_parts (parts_of_epoch t) \<and> epoch_of_parts (parts_of_epoch t) = t"
proof -
  define d w y where "d = t div ms_per_day" and "w = t mod ms_per_day" and "y = year_of_day d"
  obtain m r where s: "split_days (month_lengths (leap_year y)) (d - day_from_year y) = (m, r)" by fastforce
  have w: "0 \<le> w" "w < ms_per_day" "t = d * ms_per_day + w" by (simp_all add: w_def d_def ms_per_day_def)
  have n: "0 \<le> d - day_from_year y" "d - day_from_year y < sum_list (month_lengths (leap_year y))"
    using day_of_year [of d] by (simp_all add: y_def month_lengths_facts)
  from split_days_sum [OF month_lengths_facts(1) n s]
  have m: "0 \<le> m" "m < 12" "0 \<le> r" "r < month_lengths (leap_year y) ! nat m"
    "d = day_from_year y + month_start (leap_year y) m + r"
    by (simp_all add: month_lengths_facts month_start_def)
  have p: "parts_of_epoch t = \<lparr>cp_year = y, cp_month = m + 1, cp_day = r + 1, cp_hour = w div 3600000,
      cp_minute = w div 60000 mod 60, cp_second = w div 1000 mod 60, cp_millisecond = w mod 1000\<rparr>"
    using s by (simp add: parts_of_epoch_def Let_def d_def w_def y_def)
  have "make_day y m (r + 1) = d" using m by (simp add: make_day_def)
  moreover have "0 \<le> w div 60000 mod 60" "w div 60000 mod 60 < 60" "0 \<le> w div 1000 mod 60" "w div 1000 mod 60 < 60"
    "0 \<le> w mod 1000" "w mod 1000 < 1000" by (rule pos_mod_sign pos_mod_bound; simp)+
  moreover define h mi s ms where "h = w div 3600000" and "mi = w div 60000 mod 60" and "s = w div 1000 mod 60"
    and "ms = w mod 1000"
  moreover note time_split [OF w(1,2)]
  ultimately have f: "make_day y m (r + 1) = d" "0 \<le> h" "h < 24" "0 \<le> mi" "mi < 60" "0 \<le> s" "s < 60" "0 \<le> ms" "ms < 1000"
    "w = h * 3600000 + mi * 60000 + s * 1000 + ms" by (simp_all only:)
  have p': "parts_of_epoch t = \<lparr>cp_year = y, cp_month = m + 1, cp_day = r + 1, cp_hour = h, cp_minute = mi,
      cp_second = s, cp_millisecond = ms\<rparr>" unfolding p h_def mi_def s_def ms_def ..
  show ?thesis unfolding p' valid_parts_def epoch_of_parts_def using f m w(3) by simp
qed

lemma time_unsplit:
  fixes h mi s ms :: int
  assumes "0 \<le> h" "h < 24" "0 \<le> mi" "mi < 60" "0 \<le> s" "s < 60" "0 \<le> ms" "ms < 1000"
  defines "w \<equiv> h * 3600000 + mi * 60000 + s * 1000 + ms"
  shows "0 \<le> w" "w < ms_per_day" "w div 3600000 = h" "w div 60000 mod 60 = mi" "w div 1000 mod 60 = s" "w mod 1000 = ms"
proof -
  show "0 \<le> w" "w < ms_per_day" unfolding w_def ms_per_day_def using assms(1-8) by linarith+
  have q: "w = 1000 * (h * 3600 + mi * 60 + s) + ms" by (simp add: w_def)
  note secs = int_div_pos_eq [OF q assms(7,8)] int_mod_pos_eq [OF q assms(7,8)]
  show "w mod 1000 = ms" by (rule secs(2))
  have q60: "w div 1000 = 60 * (h * 60 + mi) + s" unfolding secs(1) by simp
  note mins = int_div_pos_eq [OF q60 assms(5,6)] int_mod_pos_eq [OF q60 assms(5,6)]
  show "w div 1000 mod 60 = s" by (rule mins(2))
  have m: "w div 60000 = 60 * h + mi" using mins(1) zdiv_zmult2_eq [of 60 w 1000] by simp
  note hours = int_div_pos_eq [OF m assms(3,4)] int_mod_pos_eq [OF m assms(3,4)]
  show "w div 60000 mod 60 = mi" by (rule hours(2))
  show "w div 3600000 = h" using hours(1) zdiv_zmult2_eq [of 60 w 60000] by simp
qed

lemma parts_of_epoch_of_parts:
  assumes "valid_parts p"
  shows "parts_of_epoch (epoch_of_parts p) = p"
proof -
  note v = assms [unfolded valid_parts_def]
  define y where "y = cp_year p"
  define k where "k = nat (cp_month p - 1)"
  define w where "w = cp_hour p * 3600000 + cp_minute p * 60000 + cp_second p * 1000 + cp_millisecond p"
  define d where "d = make_day y (cp_month p - 1) (cp_day p)"
  have k: "cp_month p - 1 = int k" "k < 12" using v unfolding k_def by linarith+
  have hv: "0 \<le> cp_hour p" "cp_hour p < 24" "0 \<le> cp_minute p" "cp_minute p < 60" "0 \<le> cp_second p" "cp_second p < 60"
    "0 \<le> cp_millisecond p" "cp_millisecond p < 1000" using v by simp_all
  note w = time_unsplit [OF hv, folded w_def]
  have e: "epoch_of_parts p = d * ms_per_day + w" by (simp add: epoch_of_parts_def d_def w_def y_def)
  then have dw: "epoch_of_parts p div ms_per_day = d" "epoch_of_parts p mod ms_per_day = w"
    using w(1,2) by (simp_all add: ms_per_day_def)
  let ?ls = "month_lengths (leap_year y)"
  have r: "0 \<le> cp_day p - 1" "cp_day p - 1 < ?ls ! k" using v by (simp_all add: y_def k_def)
  have d: "d = day_from_year y + (sum_list (take k ?ls) + (cp_day p - 1))"
    using k by (simp add: d_def make_day_def month_start_def)
  have pos: "0 \<le> sum_list (take k ?ls)"
    using month_lengths_facts(1) [of "leap_year y"]
    by (intro sum_list_nonneg) (fastforce simp: list_all_iff dest: in_set_takeD)
  have "sum_list (take k ?ls) + ?ls ! k = sum_list (take (Suc k) ?ls)"
    using k(2) by (simp add: take_Suc_conv_app_nth month_lengths_facts)
  also have "\<dots> \<le> sum_list (take (Suc k) ?ls) + sum_list (drop (Suc k) ?ls)"
    using month_lengths_facts(1) [of "leap_year y"]
    by (simp add: sum_list_nonneg list_all_iff) (fastforce intro!: sum_list_nonneg dest: in_set_dropD)
  also have "\<dots> = sum_list ?ls" by (metis append_take_drop_id sum_list_append)
  finally have "d - day_from_year y < (if leap_year y then 366 else 365)"
    using d r month_lengths_facts(3) [of "leap_year y"] by simp
  then have y: "year_of_day d = y" using d pos r by (intro year_of_day_unique) (simp_all add: day_from_year_step)
  have "split_days ?ls (d - day_from_year y) = (int k, cp_day p - 1)"
    using split_days_unique [OF month_lengths_facts(1), of k "leap_year y"] k r d by (simp add: month_lengths_facts)
  with y w dw k show ?thesis by (simp add: parts_of_epoch_def Let_def y_def)
qed

section \<open>The ISO form\<close>

definition min_instant :: int where
  "min_instant = epoch_of_parts \<lparr>cp_year = 1, cp_month = 1, cp_day = 1, cp_hour = 0, cp_minute = 0, cp_second = 0,
     cp_millisecond = 0\<rparr>"

definition max_instant :: int where
  "max_instant = epoch_of_parts \<lparr>cp_year = 9999, cp_month = 12, cp_day = 31, cp_hour = 23, cp_minute = 59, cp_second = 59,
     cp_millisecond = 999\<rparr>"

fun padded :: "nat \<Rightarrow> nat \<Rightarrow> string" where
  "padded 0 n = []"
| "padded (Suc k) n = padded k (n div 10) @ [digit_char (n mod 10)]"

definition iso_of_parts :: "calendar_parts \<Rightarrow> string" where
  "iso_of_parts p =
     padded 4 (nat (cp_year p)) @ ''-'' @ padded 2 (nat (cp_month p)) @ ''-'' @ padded 2 (nat (cp_day p)) @ ''T''
     @ padded 2 (nat (cp_hour p)) @ '':'' @ padded 2 (nat (cp_minute p)) @ '':'' @ padded 2 (nat (cp_second p)) @ ''.''
     @ padded 3 (nat (cp_millisecond p)) @ ''Z''"

text \<open>\<open>toISOString\<close>, for years between 0 and 9999.\<close>

definition iso_string :: "int \<Rightarrow> string" where
  "iso_string t = iso_of_parts (parts_of_epoch t)"

definition read_at :: "nat \<Rightarrow> nat \<Rightarrow> string \<Rightarrow> nat" where
  "read_at i n s = nat_of_digits (take n (drop i s))"

text \<open>The fields at the positions of the ISO form.\<close>

definition iso_parts :: "string \<Rightarrow> calendar_parts" where
  "iso_parts s =
     \<lparr>cp_year = int (read_at 0 4 s), cp_month = int (read_at 5 2 s), cp_day = int (read_at 8 2 s),
      cp_hour = int (read_at 11 2 s), cp_minute = int (read_at 14 2 s), cp_second = int (read_at 17 2 s),
      cp_millisecond = int (read_at 20 3 s)\<rparr>"

text \<open>A string of the shape of a template, in which \<open>d\<close> stands for a digit.\<close>

fun matches_template :: "string \<Rightarrow> string \<Rightarrow> bool" where
  "matches_template [] [] = True"
| "matches_template (t # ts) (c # cs) = ((if t = CHR ''d'' then is_digit c else c = t) \<and> matches_template ts cs)"
| "matches_template _ _ = False"

definition iso_template :: string where
  "iso_template = ''dddd-dd-ddTdd:dd:dd.dddZ''"

text \<open>\<open>Date.parse\<close> of a string of that shape.\<close>

definition date_parse :: "string \<Rightarrow> int" where
  "date_parse s = epoch_of_parts (iso_parts s)"

lemma padded_length [simp]: "length (padded k n) = k"
  by (induction k arbitrary: n) simp_all

lemma padded_digits: "list_all is_digit (padded k n)"
  by (induction k arbitrary: n) (simp_all add: digit_char_props del: digit_char.simps)

lemma nat_of_digits_snoc: "nat_of_digits (s @ [c]) = 10 * nat_of_digits s + (of_char c - 48)"
  by (simp add: nat_of_digits_def)

lemma padded_value: "n < 10 ^ k \<Longrightarrow> nat_of_digits (padded k n) = n"
proof (induction k arbitrary: n)
  case 0
  then show ?case by (simp add: nat_of_digits_def)
next
  case (Suc k)
  then have "nat_of_digits (padded k (n div 10)) = n div 10" by (simp add: less_mult_imp_div_less mult.commute)
  then show ?case by (simp add: nat_of_digits_snoc digit_char_props del: digit_char.simps)
qed

lemma matches_append:
  "length t = length s \<Longrightarrow> matches_template (t @ ts) (s @ ss) \<longleftrightarrow> matches_template t s \<and> matches_template ts ss"
  by (induction t s rule: list_induct2) auto

lemma matches_digits: "matches_template (replicate (length s) CHR ''d'') s \<longleftrightarrow> list_all is_digit s"
  by (induction s) auto

lemma matches_padded: "matches_template (replicate k CHR ''d'' @ ts) (padded k n @ ss) \<longleftrightarrow> matches_template ts ss"
  using matches_append [of "replicate k CHR ''d''" "padded k n" ts ss] matches_digits [of "padded k n"] padded_digits
  by simp

definition four_digit_year :: "calendar_parts \<Rightarrow> bool" where
  "four_digit_year p \<longleftrightarrow> 0 \<le> cp_year p \<and> cp_year p \<le> 9999"

lemma iso_matches: "matches_template iso_template (iso_of_parts p)"
proof -
  have t: "iso_template = replicate 4 CHR ''d'' @ ''-'' @ replicate 2 CHR ''d'' @ ''-'' @ replicate 2 CHR ''d'' @ ''T''
     @ replicate 2 CHR ''d'' @ '':'' @ replicate 2 CHR ''d'' @ '':'' @ replicate 2 CHR ''d'' @ ''.''
     @ replicate 3 CHR ''d'' @ ''Z''"
    by (simp add: iso_template_def numeral_eq_Suc)
  show ?thesis unfolding t iso_of_parts_def by (simp add: matches_padded del: padded.simps replicate.simps)
qed

lemma month_length_bound: "m < 12 \<Longrightarrow> month_lengths leap ! m \<le> 31"
  using month_lengths_facts(2,4) [of leap] by (metis nth_mem)

lemma iso_parts_of: "valid_parts p \<Longrightarrow> four_digit_year p \<Longrightarrow> iso_parts (iso_of_parts p) = p"
proof -
  assume p: "valid_parts p" "four_digit_year p"
  then have m: "nat (cp_month p - 1) < 12" by (auto simp: valid_parts_def)
  then have "cp_day p \<le> 31" using p(1) month_length_bound [OF m, of "leap_year (cp_year p)"] by (auto simp: valid_parts_def)
  with p have "nat (cp_year p) < 10 ^ 4" "nat (cp_month p) < 10 ^ 2" "nat (cp_day p) < 10 ^ 2" "nat (cp_hour p) < 10 ^ 2"
    "nat (cp_minute p) < 10 ^ 2" "nat (cp_second p) < 10 ^ 2" "nat (cp_millisecond p) < 10 ^ 3"
    by (auto simp: valid_parts_def four_digit_year_def)
  note v = this [THEN padded_value]
  have "read_at 0 4 (iso_of_parts p) = nat (cp_year p)" "read_at 5 2 (iso_of_parts p) = nat (cp_month p)"
    "read_at 8 2 (iso_of_parts p) = nat (cp_day p)" "read_at 11 2 (iso_of_parts p) = nat (cp_hour p)"
    "read_at 14 2 (iso_of_parts p) = nat (cp_minute p)" "read_at 17 2 (iso_of_parts p) = nat (cp_second p)"
    "read_at 20 3 (iso_of_parts p) = nat (cp_millisecond p)"
    unfolding read_at_def iso_of_parts_def using v
    by (simp_all add: drop_Cons' take_Cons' del: padded.simps)
  with p show ?thesis by (cases p) (simp add: iso_parts_def valid_parts_def four_digit_year_def)
qed

lemma parts_year: "cp_year (parts_of_epoch t) = year_of_day (t div ms_per_day)"
  by (simp add: parts_of_epoch_def Let_def split: prod.splits)

lemma min_instant_day: "min_instant = day_from_year 1 * ms_per_day"
  by (simp add: min_instant_def epoch_of_parts_def make_day_def month_start_def)

lemma max_instant_day: "max_instant + 1 = day_from_year 10000 * ms_per_day"
  by (simp add: max_instant_def epoch_of_parts_def make_day_def month_start_def month_lengths_def leap_year_def
      day_from_year_def ms_per_day_def)

lemma div_less_iff: "t div k < d \<longleftrightarrow> t < d * k" if "0 < k" for t k d :: int
proof
  assume "t div k < d"
  then have "(t div k + 1) * k \<le> d * k" using that by simp
  moreover have "t < (t div k + 1) * k"
  proof -
    have "(t div k + 1) * k = k * (t div k) + k" by (simp add: algebra_simps)
    then show ?thesis using mult_div_mod_eq [of k t] pos_mod_bound [OF that, of t] by linarith
  qed
  ultimately show "t < d * k" by linarith
next
  assume "t < d * k"
  show "t div k < d"
  proof (rule ccontr)
    assume "\<not> t div k < d"
    then have "d * k \<le> t div k * k" using that by simp
    then show False using \<open>t < d * k\<close> mult_div_mod_eq [of k t] pos_mod_sign [OF that, of t] by (simp only: mult.commute)
  qed
qed

lemma day_before: "t < d * ms_per_day \<longleftrightarrow> t div ms_per_day < d"
  by (simp add: div_less_iff ms_per_day_def)

lemma instant_year:
  "min_instant \<le> t \<and> t \<le> max_instant \<longleftrightarrow> 1 \<le> cp_year (parts_of_epoch t) \<and> cp_year (parts_of_epoch t) \<le> 9999"
proof -
  let ?d = "t div ms_per_day"
  have lo: "min_instant \<le> t \<longleftrightarrow> day_from_year 1 \<le> ?d"
    unfolding min_instant_day using day_before [of t "day_from_year 1"] by linarith
  have "t \<le> max_instant \<longleftrightarrow> t < day_from_year 10000 * ms_per_day" using max_instant_day by linarith
  then have hi: "t \<le> max_instant \<longleftrightarrow> ?d < day_from_year 10000" by (simp add: day_before)
  have "day_from_year y \<le> ?d \<longleftrightarrow> y \<le> year_of_day ?d" for y
    using year_of_day_bounds [of ?d] day_from_year_le [of y "year_of_day ?d"] day_from_year_le [of "year_of_day ?d + 1" y]
    by (cases "y \<le> year_of_day ?d") auto
  from this [of 1] this [of 10000] show ?thesis unfolding lo hi parts_year by auto
qed

text \<open>Writing an instant of the four-digit years and reading it again.\<close>

lemma iso_roundtrip:
  assumes "min_instant \<le> t" "t \<le> max_instant"
  shows "date_parse (iso_string t) = t" "matches_template iso_template (iso_string t)"
    "iso_parts (iso_string t) = parts_of_epoch t"
proof -
  have y: "four_digit_year (parts_of_epoch t)" using instant_year [of t] assms by (simp add: four_digit_year_def)
  show p: "iso_parts (iso_string t) = parts_of_epoch t"
    unfolding iso_string_def using parts_of_epoch_valid y by (intro iso_parts_of) blast+
  show "date_parse (iso_string t) = t" unfolding date_parse_def p using parts_of_epoch_valid by blast
  show "matches_template iso_template (iso_string t)" unfolding iso_string_def by (rule iso_matches)
qed

end
