(* ===== verification/Schedule.thy ===== *)
theory Schedule
  imports Calendar SessionLog
begin

text \<open>
  The durable reminders of a session (\<open>schedule/schedule/src/types.ts\<close>, \<open>domain.ts\<close>): the records and changes, their
  strict decoder, the arithmetic of fixed-rate reminders, and the fold of a session's log. Instants are the ISO
  strings of the source; \<open>Calendar\<close> models what \<open>Date\<close> makes of them.
\<close>

section \<open>Records and changes\<close>

datatype schedule_rule = After_rule int | At_rule | Every_rule int

record schedule =
  sd_id :: string
  sd_prompt :: string
  sd_rule :: schedule_rule
  sd_scheduledAt :: string

datatype schedule_change =
    Create_schedule schedule
  | Delete_schedule string
  | Dispatch_schedule string "string option"

definition min_every_interval_seconds :: int where
  "min_every_interval_seconds = 300"

text \<open>The messages of \<open>ScheduleLogError\<close>.\<close>

datatype schedule_fault =
    Id_invalid | Instant_format | Instant_unreal
  | After_fields | After_prompt | After_seconds
  | At_fields | At_prompt
  | Every_fields | Every_prompt | Every_seconds
  | Record_not_object | Kind_unknown
  | Change_not_object | Version_not_one | Create_fields | Delete_fields | Dispatch_fields | Operation_unknown
  | Accepted_range | Interval_range | Accepted_early | Occurrence_range
  | One_shot_accepted | Every_unaccepted
  | Seed_length | Id_reused string | Delete_inactive string | Dispatch_inactive string

section \<open>Decoding\<close>

text \<open>The pattern \<open>UTC_INSTANT\<close>.\<close>

definition utc_instant :: "string \<Rightarrow> bool" where
  "utc_instant s \<longleftrightarrow>
     matches_template iso_template s
     \<and> (let p = iso_parts s
        in cp_year p \<noteq> 0 \<and> 1 \<le> cp_month p \<and> cp_month p \<le> 12 \<and> 1 \<le> cp_day p \<and> cp_day p \<le> 31
           \<and> cp_hour p \<le> 23 \<and> cp_minute p \<le> 59 \<and> cp_second p \<le> 59)"

definition decode_id :: "json option \<Rightarrow> schedule_fault + string" where
  "decode_id v =
     (case v of
        Some (JStr s) \<Rightarrow> if s = [] \<or> js_trim s \<noteq> s then Inl Id_invalid else Inr s
      | _ \<Rightarrow> Inl Id_invalid)"

text \<open>A day that its month does not have makes the instant another one, which is written differently.\<close>

definition decode_instant :: "json option \<Rightarrow> schedule_fault + string" where
  "decode_instant v =
     (case v of
        Some (JStr s) \<Rightarrow>
          if \<not> utc_instant s then Inl Instant_format
          else if iso_string (date_parse s) \<noteq> s then Inl Instant_unreal
          else Inr s
      | _ \<Rightarrow> Inl Instant_format)"

definition decode_prompt :: "schedule_fault \<Rightarrow> json option \<Rightarrow> schedule_fault + string" where
  "decode_prompt fault v =
     (case v of
        Some (JStr s) \<Rightarrow> if s = [] \<or> js_trim s \<noteq> s then Inl fault else Inr s
      | _ \<Rightarrow> Inl fault)"

definition decode_after_record :: "(string \<times> json) list \<Rightarrow> schedule_fault + schedule" where
  "decode_after_record fs =
     and_then (throw_if (\<not> has_exact_keys fs [''id'', ''kind'', ''prompt'', ''afterSeconds'', ''scheduledAt'']) After_fields) (\<lambda>_.
     and_then (decode_prompt After_prompt (map_of fs ''prompt'')) (\<lambda>prompt.
     and_then (of_option After_seconds (json_integer (map_of fs ''afterSeconds''))) (\<lambda>n.
     and_then (throw_if (n \<le> 0) After_seconds) (\<lambda>_.
     and_then (decode_id (map_of fs ''id'')) (\<lambda>i.
     and_then (decode_instant (map_of fs ''scheduledAt'')) (\<lambda>t.
       Inr \<lparr>sd_id = i, sd_prompt = prompt, sd_rule = After_rule n, sd_scheduledAt = t\<rparr>))))))"

definition decode_at_record :: "(string \<times> json) list \<Rightarrow> schedule_fault + schedule" where
  "decode_at_record fs =
     and_then (throw_if (\<not> has_exact_keys fs [''id'', ''kind'', ''prompt'', ''scheduledAt'']) At_fields) (\<lambda>_.
     and_then (decode_prompt At_prompt (map_of fs ''prompt'')) (\<lambda>prompt.
     and_then (decode_id (map_of fs ''id'')) (\<lambda>i.
     and_then (decode_instant (map_of fs ''scheduledAt'')) (\<lambda>t.
       Inr \<lparr>sd_id = i, sd_prompt = prompt, sd_rule = At_rule, sd_scheduledAt = t\<rparr>))))"

text \<open>
  Products and sums of the source are computed in doubles and then tested against the safe range; they are exact
  inside of it and stay outside when rounded, so the tests are those of the exact integers.
\<close>

definition decode_every_record :: "(string \<times> json) list \<Rightarrow> schedule_fault + schedule" where
  "decode_every_record fs =
     and_then (throw_if (\<not> has_exact_keys fs [''id'', ''kind'', ''prompt'', ''everySeconds'', ''scheduledAt'']) Every_fields) (\<lambda>_.
     and_then (decode_prompt Every_prompt (map_of fs ''prompt'')) (\<lambda>prompt.
     and_then (of_option Every_seconds (json_integer (map_of fs ''everySeconds''))) (\<lambda>n.
     and_then (throw_if (n < min_every_interval_seconds \<or> max_safe < n * 1000) Every_seconds) (\<lambda>_.
     and_then (decode_id (map_of fs ''id'')) (\<lambda>i.
     and_then (decode_instant (map_of fs ''scheduledAt'')) (\<lambda>t.
       Inr \<lparr>sd_id = i, sd_prompt = prompt, sd_rule = Every_rule n, sd_scheduledAt = t\<rparr>))))))"

definition decode_schedule_record :: "json option \<Rightarrow> schedule_fault + schedule" where
  "decode_schedule_record v =
     (case v of
        Some (JObj fs) \<Rightarrow>
          if map_of fs ''kind'' = Some (JStr ''after'') then decode_after_record fs
          else if map_of fs ''kind'' = Some (JStr ''at'') then decode_at_record fs
          else if map_of fs ''kind'' = Some (JStr ''every'') then decode_every_record fs
          else Inl Kind_unknown
      | _ \<Rightarrow> Inl Record_not_object)"

definition decode_schedule_change :: "json \<Rightarrow> schedule_fault + schedule_change" where
  "decode_schedule_change v =
     (case v of
        JObj fs \<Rightarrow>
          if map_of fs ''version'' \<noteq> Some (JNum 1) then Inl Version_not_one
          else if map_of fs ''operation'' = Some (JStr ''create'') then
            and_then (throw_if (\<not> has_exact_keys fs [''version'', ''operation'', ''schedule'']) Create_fields) (\<lambda>_.
            and_then (decode_schedule_record (map_of fs ''schedule'')) (\<lambda>s. Inr (Create_schedule s)))
          else if map_of fs ''operation'' = Some (JStr ''delete'') then
            and_then (throw_if (\<not> has_exact_keys fs [''version'', ''operation'', ''id'']) Delete_fields) (\<lambda>_.
            and_then (decode_id (map_of fs ''id'')) (\<lambda>i. Inr (Delete_schedule i)))
          else if map_of fs ''operation'' = Some (JStr ''dispatch'') then
            (if has_exact_keys fs [''version'', ''operation'', ''id''] then
               and_then (decode_id (map_of fs ''id'')) (\<lambda>i. Inr (Dispatch_schedule i None))
             else if has_exact_keys fs [''version'', ''operation'', ''id'', ''acceptedAt''] then
               and_then (decode_id (map_of fs ''id'')) (\<lambda>i.
               and_then (decode_instant (map_of fs ''acceptedAt'')) (\<lambda>t. Inr (Dispatch_schedule i (Some t))))
             else Inl Dispatch_fields)
          else Inl Operation_unknown
      | _ \<Rightarrow> Inl Change_not_object)"

section \<open>Writing a change\<close>

fun rule_fields :: "schedule_rule \<Rightarrow> (string \<times> json) list" where
  "rule_fields (After_rule n) = [(''afterSeconds'', json_int n)]"
| "rule_fields At_rule = []"
| "rule_fields (Every_rule n) = [(''everySeconds'', json_int n)]"

fun rule_kind :: "schedule_rule \<Rightarrow> string" where
  "rule_kind (After_rule _) = ''after''"
| "rule_kind At_rule = ''at''"
| "rule_kind (Every_rule _) = ''every''"

definition encode_schedule :: "schedule \<Rightarrow> json" where
  "encode_schedule s =
     JObj ([(''id'', JStr (sd_id s)), (''kind'', JStr (rule_kind (sd_rule s))), (''prompt'', JStr (sd_prompt s))]
           @ rule_fields (sd_rule s) @ [(''scheduledAt'', JStr (sd_scheduledAt s))])"

fun encode_schedule_change :: "schedule_change \<Rightarrow> json" where
  "encode_schedule_change (Create_schedule s) =
     JObj [(''version'', JNum 1), (''operation'', JStr ''create''), (''schedule'', encode_schedule s)]"
| "encode_schedule_change (Delete_schedule i) =
     JObj [(''version'', JNum 1), (''operation'', JStr ''delete''), (''id'', JStr i)]"
| "encode_schedule_change (Dispatch_schedule i t) =
     JObj ([(''version'', JNum 1), (''operation'', JStr ''dispatch''), (''id'', JStr i)]
           @ optional ''acceptedAt'' (map_option JStr t))"

section \<open>Fixed-rate occurrences\<close>

record every_occurrence =
  eo_occurrenceAt :: string
  eo_nextScheduledAt :: "string option"

text \<open>
  \<open>resolveEveryOccurrence\<close> for a record with the interval \<open>everySeconds\<close>. The quotient of the source is one of doubles,
  of a difference below \<open>2 ^ 49\<close>: rounding it never reaches the next integer.
\<close>

definition resolve_every_occurrence :: "schedule \<Rightarrow> int \<Rightarrow> int \<Rightarrow> schedule_fault + every_occurrence" where
  "resolve_every_occurrence r everySeconds acceptedAt =
     (let target = date_parse (sd_scheduledAt r); interval = everySeconds * 1000
      in if max_safe < \<bar>acceptedAt\<bar> \<or> acceptedAt < min_instant \<or> max_instant < acceptedAt then Inl Accepted_range
         else if max_safe < interval \<or> interval \<le> 0 then Inl Interval_range
         else if acceptedAt < target then Inl Accepted_early
         else
           let steps = (acceptedAt - target) div interval;
               occurrence = target + steps * interval;
               nextTarget = occurrence + interval
           in if max_safe < \<bar>occurrence\<bar> \<or> occurrence < target \<or> acceptedAt < occurrence then Inl Occurrence_range
              else Inr \<lparr>eo_occurrenceAt = iso_string occurrence,
                        eo_nextScheduledAt =
                          if max_safe < \<bar>nextTarget\<bar> \<or> max_instant < nextTarget then None
                          else Some (iso_string nextTarget)\<rparr>)"

text \<open>\<open>dispatchedRecord\<close>: what a dispatch leaves of the record, if anything.\<close>

definition dispatched_record :: "schedule \<Rightarrow> string option \<Rightarrow> schedule_fault + schedule option" where
  "dispatched_record r acceptedAt =
     (case sd_rule r of
        Every_rule n \<Rightarrow>
          (case acceptedAt of
             None \<Rightarrow> Inl Every_unaccepted
           | Some t \<Rightarrow>
               and_then (resolve_every_occurrence r n (date_parse t)) (\<lambda>oc.
                 Inr (map_option (\<lambda>t'. r\<lparr>sd_scheduledAt := t'\<rparr>) (eo_nextScheduledAt oc))))
      | _ \<Rightarrow> if acceptedAt \<noteq> None then Inl One_shot_accepted else Inr None)"

section \<open>The fold\<close>

record schedule_state =
  ss_active :: "(string \<times> schedule) list"
  ss_seen :: "string list"

record folded_schedules =
  fd_active :: "schedule list"
  fd_seenIds :: "string list"

definition empty_schedule_state :: schedule_state where
  "empty_schedule_state = \<lparr>ss_active = [], ss_seen = []\<rparr>"

fun apply_schedule_change :: "schedule_state \<Rightarrow> schedule_change \<Rightarrow> schedule_fault + schedule_state" where
  "apply_schedule_change st (Create_schedule s) =
     (if sd_id s \<in> set (ss_seen st) then Inl (Id_reused (sd_id s))
      else Inr (st\<lparr>ss_seen := ss_seen st @ [sd_id s], ss_active := js_set (sd_id s) s (ss_active st)\<rparr>))"
| "apply_schedule_change st (Delete_schedule i) =
     (if \<not> js_has (ss_active st) i then Inl (Delete_inactive i)
      else Inr (st\<lparr>ss_active := js_delete i (ss_active st)\<rparr>))"
| "apply_schedule_change st (Dispatch_schedule i acceptedAt) =
     (case js_get (ss_active st) i of
        None \<Rightarrow> Inl (Dispatch_inactive i)
      | Some r \<Rightarrow>
          and_then (dispatched_record r acceptedAt) (\<lambda>next'.
            Inr (st\<lparr>ss_active := (case next' of
                                    None \<Rightarrow> js_delete i (ss_active st)
                                  | Some r' \<Rightarrow> js_set i r' (ss_active st))\<rparr>)))"

definition apply_schedule_event :: "schedule_state \<Rightarrow> session_event \<Rightarrow> schedule_fault + schedule_state" where
  "apply_schedule_event st e =
     (case ev_data e of
        PluginEvent t d \<Rightarrow>
          if t = ''schedule/change'' then and_then (decode_schedule_change d) (apply_schedule_change st) else Inr st
      | _ \<Rightarrow> Inr st)"

definition fold_schedule_state :: "session_event list \<Rightarrow> js_number \<Rightarrow> schedule_fault + schedule_state" where
  "fold_schedule_state events seedLength =
     (case safe_integer_of seedLength of
        None \<Rightarrow> Inl Seed_length
      | Some n \<Rightarrow>
          if n < 0 \<or> int (length events) < n then Inl Seed_length
          else replay apply_schedule_event empty_schedule_state (drop (nat n) events))"

definition fold_schedule_events :: "session_event list \<Rightarrow> js_number \<Rightarrow> schedule_fault + folded_schedules" where
  "fold_schedule_events events seedLength =
     and_then (fold_schedule_state events seedLength) (\<lambda>st.
       Inr \<lparr>fd_active = js_values (ss_active st), fd_seenIds = ss_seen st\<rparr>)"

text \<open>\<open>session.header.seedLength ?? 0\<close>; a header that is not a number fails the check of the fold.\<close>

definition header_seed_length :: "json \<Rightarrow> js_number" where
  "header_seed_length header =
     (case json_field ''seedLength'' header of
        None \<Rightarrow> Finite 0
      | Some JNull \<Rightarrow> Finite 0
      | Some (JNum r) \<Rightarrow> Finite r
      | _ \<Rightarrow> NaN)"

definition fold_session_schedules :: "session \<Rightarrow> schedule_fault + folded_schedules" where
  "fold_session_schedules s = fold_schedule_events (sn_log s) (header_seed_length (sn_header s))"

section \<open>Fresh identities\<close>

definition schedule_name :: "nat \<Rightarrow> string" where
  "schedule_name n = ''schedule-'' @ str_of_nat n"

lemma schedule_name_eq [simp]: "schedule_name m = schedule_name n \<longleftrightarrow> m = n"
  by (simp add: schedule_name_def)

function next_free_id :: "string list \<Rightarrow> nat \<Rightarrow> string" where
  "next_free_id seen n = (if schedule_name n \<in> set seen then next_free_id seen (n + 1) else schedule_name n)"
  by pat_completeness auto

text \<open>Every step of the loop leaves one seen name behind.\<close>

termination
proof (relation "measure (\<lambda>(seen, n). card {k. n \<le> k \<and> schedule_name k \<in> set seen})")
  fix seen n
  assume n: "schedule_name n \<in> set seen"
  have "finite {k. schedule_name k \<in> set seen}"
    using finite_vimageI [of "set seen" schedule_name] by (simp add: vimage_def inj_def)
  then have fin: "finite {k. n \<le> k \<and> schedule_name k \<in> set seen}" by (rule finite_subset [rotated]) blast
  have "{k. n + 1 \<le> k \<and> schedule_name k \<in> set seen} \<subset> {k. n \<le> k \<and> schedule_name k \<in> set seen}"
  proof
    show "{k. n + 1 \<le> k \<and> schedule_name k \<in> set seen} \<subseteq> {k. n \<le> k \<and> schedule_name k \<in> set seen}" by auto
    have "n \<in> {k. n \<le> k \<and> schedule_name k \<in> set seen}" "n \<notin> {k. n + 1 \<le> k \<and> schedule_name k \<in> set seen}"
      using n by simp_all
    then show "{k. n + 1 \<le> k \<and> schedule_name k \<in> set seen} \<noteq> {k. n \<le> k \<and> schedule_name k \<in> set seen}" by blast
  qed
  from psubset_card_mono [OF fin this]
  show "((seen, n + 1), (seen, n)) \<in> measure (\<lambda>(seen, n). card {k. n \<le> k \<and> schedule_name k \<in> set seen})" by simp
qed simp

declare next_free_id.simps [simp del]

definition allocate_schedule_id :: "folded_schedules \<Rightarrow> string" where
  "allocate_schedule_id folded = next_free_id (fd_seenIds folded) (length (dedup (fd_seenIds folded)) + 1)"

lemma next_free_id_props: "\<exists>k \<ge> n. next_free_id seen n = schedule_name k \<and> schedule_name k \<notin> set seen"
proof (induction seen n rule: next_free_id.induct)
  case (1 seen n)
  then show ?case by (subst (1) next_free_id.simps, cases "schedule_name n \<in> set seen") (auto intro: Suc_leD)
qed

end
