(* ===== verification/ScheduleFacts.thy ===== *)
theory ScheduleFacts
  imports ScheduleRules
begin

text \<open>
  Facts on single records and changes: which instants the decoder accepts, the round trip of changes, the exact
  occurrences of a fixed rate, and what a selector becomes.
\<close>

section \<open>Instants\<close>

definition instant_ok :: "string \<Rightarrow> bool" where
  "instant_ok s \<longleftrightarrow> (\<exists>t. min_instant \<le> t \<and> t \<le> max_instant \<and> s = iso_string t)"

lemma instant_ok_iso [intro]: "min_instant \<le> t \<Longrightarrow> t \<le> max_instant \<Longrightarrow> instant_ok (iso_string t)"
  by (auto simp: instant_ok_def)

lemma instant_ok_read:
  assumes "instant_ok s"
  shows "iso_string (date_parse s) = s" "min_instant \<le> date_parse s" "date_parse s \<le> max_instant"
  using assms iso_roundtrip(1) by (auto simp: instant_ok_def)

lemma instant_bounds: "- max_safe \<le> min_instant" "max_instant \<le> max_safe"
  by code_simp+

lemma month_room: "0 \<le> m \<Longrightarrow> m < 12 \<Longrightarrow> month_start leap m + 31 \<le> (if leap then 366 else 365)"
proof -
  assume "0 \<le> m" "m < 12"
  then have "m \<in> {0, 1, 2, 3, 4, 5, 6, 7, 8, 9, 10, 11}" unfolding insert_iff empty_iff by presburger
  then show ?thesis by (auto simp: month_start_def month_lengths_def)
qed

lemma month_start_pos: "0 \<le> month_start leap m"
  unfolding month_start_def using month_lengths_facts(1) [of leap]
  by (intro sum_list_nonneg) (fastforce simp: list_all_iff dest: in_set_takeD)

lemma utc_instant_iso:
  assumes "min_instant \<le> t" "t \<le> max_instant"
  shows "utc_instant (iso_string t)"
proof -
  let ?p = "parts_of_epoch t"
  have v: "valid_parts ?p" using parts_of_epoch_valid [of t] by blast
  then have m: "nat (cp_month ?p - 1) < 12" by (auto simp: valid_parts_def)
  have "cp_day ?p \<le> 31" using v month_length_bound [OF m, of "leap_year (cp_year ?p)"] by (auto simp: valid_parts_def)
  then show ?thesis
    using v instant_year [of t] assms
    unfolding utc_instant_def iso_roundtrip(3) [OF assms] Let_def
    by (auto simp: iso_roundtrip(2) valid_parts_def)
qed

lemma matches_length: "matches_template t s \<Longrightarrow> length s = length t"
  by (induction t s rule: matches_template.induct) (auto split: if_splits)

lemma matches_part: "matches_template t s \<Longrightarrow> matches_template (take k (drop i t)) (take k (drop i s))"
proof (induction t s arbitrary: i k rule: matches_template.induct)
  case (2 t ts c cs)
  then show ?case using "2.IH" [where i = 0] by (cases i; cases k) auto
qed auto

lemma nat_of_digits_bound: "list_all is_digit s \<Longrightarrow> nat_of_digits s < 10 ^ length s"
proof (induction s rule: rev_induct)
  case (snoc c s)
  then have "nat_of_digits s < 10 ^ length s" "of_char c - 48 < (10::nat)" by (auto simp: is_digit_def)
  then show ?case by (simp add: nat_of_digits_snoc)
qed (simp add: nat_of_digits_def)

lemma read_at_bound:
  assumes "matches_template t s" "take k (drop i t) = replicate k CHR ''d''"
  shows "read_at i k s < 10 ^ k"
proof -
  have m: "matches_template (replicate k CHR ''d'') (take k (drop i s))" using matches_part [OF assms(1)] assms(2) by metis
  then have "length (take k (drop i s)) = k" by (auto dest: matches_length)
  with m matches_digits [of "take k (drop i s)"] nat_of_digits_bound [of "take k (drop i s)"] show ?thesis
    by (simp add: read_at_def)
qed

lemma utc_instant_range:
  assumes "utc_instant s" "iso_string (date_parse s) = s"
  shows "min_instant \<le> date_parse s \<and> date_parse s \<le> max_instant"
proof -
  let ?p = "iso_parts s"
  define y m d where "y = cp_year ?p" and "m = cp_month ?p - 1" and "d = cp_day ?p"
  define w where "w = cp_hour ?p * 3600000 + cp_minute ?p * 60000 + cp_second ?p * 1000 + cp_millisecond ?p"
  from assms(1) have p: "cp_year ?p \<noteq> 0" "0 \<le> m" "m < 12" "1 \<le> d" "d \<le> 31" "cp_hour ?p \<le> 23" "cp_minute ?p \<le> 59"
    "cp_second ?p \<le> 59" by (simp_all add: utc_instant_def Let_def m_def d_def)
  have nn: "0 \<le> y" "0 \<le> cp_hour ?p" "0 \<le> cp_minute ?p" "0 \<le> cp_second ?p" "0 \<le> cp_millisecond ?p"
    by (simp_all add: iso_parts_def y_def)
  from assms(1) have tmpl: "matches_template iso_template s" by (simp add: utc_instant_def)
  have "read_at 0 4 s < 10 ^ 4" "read_at 20 3 s < 10 ^ 3"
    by (rule read_at_bound [OF tmpl], simp add: iso_template_def numeral_eq_Suc)+
  then have y: "1 \<le> y" "y \<le> 9999" and ms: "cp_millisecond ?p \<le> 999"
    using p(1) by (simp_all add: iso_parts_def y_def)
  have w: "0 \<le> w" "w < ms_per_day" unfolding w_def ms_per_day_def using nn p ms by linarith+
  have t: "date_parse s = make_day y m d * ms_per_day + w"
    by (simp add: date_parse_def epoch_of_parts_def w_def y_def m_def d_def)
  then have day: "date_parse s div ms_per_day = make_day y m d" using w by (simp add: ms_per_day_def)
  have "make_day y m d = day_from_year y + (month_start (leap_year y) m + d - 1)"
    using p(2,3) by (simp add: make_day_def div_pos_pos_trivial)
  then have "day_from_year y \<le> make_day y m d" "make_day y m d < day_from_year (y + 1)"
    using p(4,5) month_room [OF p(2,3), of "leap_year y"] month_start_pos [of "leap_year y" m]
    by (auto simp: day_from_year_step)
  then have "cp_year (parts_of_epoch (date_parse s)) = y"
    unfolding parts_year day by (rule year_of_day_unique)
  with y instant_year show ?thesis by simp
qed

lemma decode_instant_iff: "decode_instant v = Inr s \<longleftrightarrow> v = Some (JStr s) \<and> instant_ok s"
proof
  assume "decode_instant v = Inr s"
  then have d: "v = Some (JStr s)" "utc_instant s" "iso_string (date_parse s) = s"
    by (auto simp: decode_instant_def split: option.splits json.splits if_splits)
  with utc_instant_range [OF d(2,3)] show "v = Some (JStr s) \<and> instant_ok s"
    unfolding instant_ok_def by (intro conjI exI [of _ "date_parse s"]) simp_all
next
  assume "v = Some (JStr s) \<and> instant_ok s"
  then show "decode_instant v = Inr s"
    by (auto simp: decode_instant_def instant_ok_def utc_instant_iso iso_roundtrip(1))
qed

section \<open>Records and changes\<close>

definition trimmed :: "string \<Rightarrow> bool" where
  "trimmed s \<longleftrightarrow> s \<noteq> [] \<and> js_trim s = s"

fun rule_ok :: "schedule_rule \<Rightarrow> bool" where
  "rule_ok (After_rule n) \<longleftrightarrow> 0 < n \<and> n \<le> max_safe"
| "rule_ok At_rule \<longleftrightarrow> True"
| "rule_ok (Every_rule n) \<longleftrightarrow> min_every_interval_seconds \<le> n \<and> n * 1000 \<le> max_safe"

definition schedule_ok :: "schedule \<Rightarrow> bool" where
  "schedule_ok r \<longleftrightarrow> trimmed (sd_id r) \<and> trimmed (sd_prompt r) \<and> rule_ok (sd_rule r) \<and> instant_ok (sd_scheduledAt r)"

fun change_ok :: "schedule_change \<Rightarrow> bool" where
  "change_ok (Create_schedule r) \<longleftrightarrow> schedule_ok r"
| "change_ok (Delete_schedule i) \<longleftrightarrow> trimmed i"
| "change_ok (Dispatch_schedule i t) \<longleftrightarrow> trimmed i \<and> (case t of None \<Rightarrow> True | Some s \<Rightarrow> instant_ok s)"

lemma decode_id_iff: "decode_id v = Inr s \<longleftrightarrow> v = Some (JStr s) \<and> trimmed s"
  by (auto simp: decode_id_def trimmed_def split: option.splits json.splits if_splits)

lemma decode_prompt_iff: "decode_prompt f v = Inr s \<longleftrightarrow> v = Some (JStr s) \<and> trimmed s"
  by (auto simp: decode_prompt_def trimmed_def split: option.splits json.splits if_splits)

lemmas decode_iffs = decode_id_iff decode_prompt_iff decode_instant_iff json_integer_iff res_simps

lemma exact_equal:
  assumes "has_exact_keys fs (map fst gs)" "distinct (map fst gs)"
    "list_all (\<lambda>(k, x). \<exists>y. map_of fs k = Some y \<and> is_deep_equal_json x y) gs"
  shows "is_deep_equal_json (JObj gs) (JObj fs)"
proof (rule deep_equal_exact [OF assms(1,2) _ assms(2)])
  fix k x y
  assume "map_of gs k = Some x" "map_of fs k = Some y"
  then show "is_deep_equal_json x y"
    using assms(3) bspec [OF assms(3) [unfolded list_all_iff] map_of_SomeD] by fastforce
qed simp

lemma decode_record_sound:
  assumes "decode_schedule_record v = Inr r"
  shows "schedule_ok r \<and> (\<exists>fs. v = Some (JObj fs) \<and> is_deep_equal_json (encode_schedule r) (JObj fs))"
proof -
  from assms obtain fs where v: "v = Some (JObj fs)"
    by (auto simp: decode_schedule_record_def split: option.splits json.splits)
  from assms v consider
      (after) n where "map_of fs ''kind'' = Some (JStr ''after'')" "sd_rule r = After_rule n" "0 < n" "n \<le> max_safe"
        "has_exact_keys fs [''id'', ''kind'', ''prompt'', ''afterSeconds'', ''scheduledAt'']"
        "map_of fs ''afterSeconds'' = Some (json_int n)"
    | (at_instant) "map_of fs ''kind'' = Some (JStr ''at'')" "sd_rule r = At_rule"
        "has_exact_keys fs [''id'', ''kind'', ''prompt'', ''scheduledAt'']"
    | (every) n where "map_of fs ''kind'' = Some (JStr ''every'')" "sd_rule r = Every_rule n"
        "min_every_interval_seconds \<le> n" "n * 1000 \<le> max_safe"
        "has_exact_keys fs [''id'', ''kind'', ''prompt'', ''everySeconds'', ''scheduledAt'']"
        "map_of fs ''everySeconds'' = Some (json_int n)"
    by (auto simp: decode_schedule_record_def decode_after_record_def decode_at_record_def decode_every_record_def
        decode_iffs split: if_splits)
  note kinds = this
  from assms v have c: "map_of fs ''id'' = Some (JStr (sd_id r))" "map_of fs ''prompt'' = Some (JStr (sd_prompt r))"
    "map_of fs ''scheduledAt'' = Some (JStr (sd_scheduledAt r))" "trimmed (sd_id r)" "trimmed (sd_prompt r)"
    "instant_ok (sd_scheduledAt r)"
    by (auto simp: decode_schedule_record_def decode_after_record_def decode_at_record_def decode_every_record_def
        decode_iffs split: if_splits)
  from kinds show ?thesis
  proof cases
    case (after n)
    with c v show ?thesis unfolding schedule_ok_def encode_schedule_def
      by (intro conjI exI [of _ fs] exact_equal) (simp_all add: json_int_def)
  next
    case at_instant
    with c v show ?thesis unfolding schedule_ok_def encode_schedule_def
      by (intro conjI exI [of _ fs] exact_equal) simp_all
  next
    case (every n)
    with c v show ?thesis unfolding schedule_ok_def encode_schedule_def
      by (intro conjI exI [of _ fs] exact_equal) (simp_all add: json_int_def)
  qed
qed

lemma json_int_eq [simp]: "json_int a = json_int b \<longleftrightarrow> a = b"
  by (simp add: json_int_def)

lemma decode_written_record:
  assumes "schedule_ok r"
  shows "decode_schedule_record (Some (encode_schedule r)) = Inr r"
proof (cases "sd_rule r")
  case (After_rule n)
  with assms show ?thesis
    by (cases r)
      (simp add: decode_schedule_record_def encode_schedule_def decode_after_record_def decode_iffs schedule_ok_def has_exact_keys_def)
next
  case At_rule
  with assms show ?thesis
    by (simp add: decode_schedule_record_def encode_schedule_def decode_at_record_def decode_iffs schedule_ok_def has_exact_keys_def)
next
  case (Every_rule n)
  with assms have "\<bar>n\<bar> \<le> max_safe" by (auto simp: schedule_ok_def min_every_interval_seconds_def)
  with Every_rule assms show ?thesis
    by (cases r)
      (simp add: decode_schedule_record_def encode_schedule_def decode_every_record_def decode_iffs schedule_ok_def
        has_exact_keys_def not_less)
qed

lemma decode_written_change:
  assumes "change_ok c"
  shows "decode_schedule_change (encode_schedule_change c) = Inr c"
proof (cases c)
  case (Create_schedule r)
  with assms decode_written_record [of r] show ?thesis
    by (simp add: decode_schedule_change_def has_exact_keys_def)
next
  case (Delete_schedule i)
  with assms have "decode_id (Some (JStr i)) = Inr i" by (simp add: decode_id_iff)
  with Delete_schedule show ?thesis by (simp add: decode_schedule_change_def has_exact_keys_def)
next
  case (Dispatch_schedule i t)
  with assms have "decode_id (Some (JStr i)) = Inr i" "\<And>s. t = Some s \<Longrightarrow> decode_instant (Some (JStr s)) = Inr s"
    by (auto simp: decode_id_iff decode_instant_iff)
  with Dispatch_schedule show ?thesis
    by (cases t) (simp_all add: decode_schedule_change_def has_exact_keys_def optional_def)
qed

lemma decode_change_sound:
  assumes "decode_schedule_change v = Inr c"
  shows "change_ok c \<and> is_deep_equal_json (encode_schedule_change c) v"
proof -
  from assms obtain fs where v: "v = JObj fs" and ver: "map_of fs ''version'' = Some (JNum 1)"
    by (auto simp: decode_schedule_change_def split: json.splits if_splits)
  from assms v ver consider
      (create) r where "map_of fs ''operation'' = Some (JStr ''create'')" "c = Create_schedule r"
        "has_exact_keys fs [''version'', ''operation'', ''schedule'']"
        "decode_schedule_record (map_of fs ''schedule'') = Inr r"
    | (delete) i where "map_of fs ''operation'' = Some (JStr ''delete'')" "c = Delete_schedule i"
        "has_exact_keys fs [''version'', ''operation'', ''id'']" "decode_id (map_of fs ''id'') = Inr i"
    | (one_shot) i where "map_of fs ''operation'' = Some (JStr ''dispatch'')" "c = Dispatch_schedule i None"
        "has_exact_keys fs [''version'', ''operation'', ''id'']" "decode_id (map_of fs ''id'') = Inr i"
    | (every) i t where "map_of fs ''operation'' = Some (JStr ''dispatch'')" "c = Dispatch_schedule i (Some t)"
        "has_exact_keys fs [''version'', ''operation'', ''id'', ''acceptedAt'']" "decode_id (map_of fs ''id'') = Inr i"
        "decode_instant (map_of fs ''acceptedAt'') = Inr t"
    by (auto simp: decode_schedule_change_def res_simps split: if_splits)
  then show ?thesis
  proof cases
    case (create r)
    from decode_record_sound [OF create(4)] obtain gs where
      "schedule_ok r" "map_of fs ''schedule'' = Some (JObj gs)" "is_deep_equal_json (encode_schedule r) (JObj gs)" by blast
    with create ver show ?thesis unfolding v by (auto simp del: is_deep_equal_json.simps intro!: exact_equal)
  next
    case (delete i)
    with ver show ?thesis unfolding v
      by (auto simp: decode_id_iff simp del: is_deep_equal_json.simps intro!: exact_equal)
  next
    case (one_shot i)
    with ver show ?thesis unfolding v
      by (auto simp: decode_id_iff optional_def simp del: is_deep_equal_json.simps intro!: exact_equal)
  next
    case (every i t)
    with ver show ?thesis unfolding v
      by (auto simp: decode_id_iff decode_instant_iff optional_def simp del: is_deep_equal_json.simps intro!: exact_equal)
  qed
qed

section \<open>Fixed-rate occurrences\<close>

lemma resolve_every_value:
  assumes "instant_ok (sd_scheduledAt r)" "0 < n" "n * 1000 \<le> max_safe" "date_parse (sd_scheduledAt r) \<le> now" "now \<le> max_instant"
  defines "t \<equiv> date_parse (sd_scheduledAt r) + (now - date_parse (sd_scheduledAt r)) div (n * 1000) * (n * 1000)"
  shows "resolve_every_occurrence r n now =
      Inr \<lparr>eo_occurrenceAt = iso_string t,
           eo_nextScheduledAt = if max_instant < t + n * 1000 then None else Some (iso_string (t + n * 1000))\<rparr>"
    "date_parse (sd_scheduledAt r) \<le> t" "t \<le> now" "now < t + n * 1000" "min_instant \<le> t"
proof -
  let ?a = "date_parse (sd_scheduledAt r)"
  define k where "k = n * 1000"
  define q where "q = (now - ?a) div k"
  have k: "0 < k" "k \<le> max_safe" using assms(2,3) by (simp_all add: k_def)
  have b: "k * q \<le> now - ?a" "now - ?a < k * q + k" unfolding q_def by (rule div_bounds [OF k(1)])+
  have q: "0 \<le> q" unfolding q_def using assms(4) k by (simp add: pos_imp_zdiv_nonneg_iff)
  have t: "t = ?a + q * k" by (simp add: t_def q_def k_def)
  have kq: "0 \<le> q * k" "q * k = k * q" using q k by simp_all
  show t1: "?a \<le> t" "t \<le> now" "now < t + n * 1000" using b kq unfolding t k_def [symmetric] by linarith+
  note lo = instant_ok_read(2) [OF assms(1)]
  then show "min_instant \<le> t" using t1 by linarith
  have r1: "\<not> (max_safe < \<bar>now\<bar> \<or> now < min_instant \<or> max_instant < now)"
    and r2: "\<not> (max_safe < \<bar>t\<bar> \<or> t < ?a \<or> now < t)"
    and r3: "max_safe < \<bar>t + k\<bar> \<or> max_instant < t + k \<longleftrightarrow> max_instant < t + k"
    using assms(4,5) t1 lo instant_bounds k(1) by linarith+
  have "\<not> (max_safe < k \<or> k \<le> 0)" "\<not> now < ?a" using k assms(4) by simp_all
  with r1 r2 r3 show "resolve_every_occurrence r n now =
      Inr \<lparr>eo_occurrenceAt = iso_string t,
           eo_nextScheduledAt = if max_instant < t + n * 1000 then None else Some (iso_string (t + n * 1000))\<rparr>"
    unfolding resolve_every_occurrence_def Let_def k_def [symmetric] q_def [symmetric] t [symmetric] by simp
qed

lemma resolve_every_ok:
  assumes "resolve_every_occurrence r n now = Inr oc"
  shows "date_parse (sd_scheduledAt r) \<le> now" "now \<le> max_instant" "0 < n" "n * 1000 \<le> max_safe"
  using assms by (auto simp: resolve_every_occurrence_def Let_def split: if_splits)

text \<open>What a dispatch leaves of a well-formed record.\<close>

lemma dispatched_record_ok:
  assumes "schedule_ok r" "dispatched_record r t = Inr (Some r')"
  shows "schedule_ok r'" "sd_id r' = sd_id r" "sd_prompt r' = sd_prompt r" "sd_rule r' = sd_rule r"
    "\<exists>n s. sd_rule r = Every_rule n \<and> t = Some s \<and> date_parse s < date_parse (sd_scheduledAt r')
       \<and> (\<exists>k > 0. date_parse (sd_scheduledAt r') = date_parse (sd_scheduledAt r) + k * (n * 1000))"
proof -
  from assms(2) obtain n s oc t' where d: "sd_rule r = Every_rule n" "t = Some s"
    "resolve_every_occurrence r n (date_parse s) = Inr oc" "eo_nextScheduledAt oc = Some t'"
    "r' = r\<lparr>sd_scheduledAt := t'\<rparr>"
    by (auto simp: dispatched_record_def res_simps split: schedule_rule.splits option.splits if_splits)
  have inst: "instant_ok (sd_scheduledAt r)" using assms(1) by (simp add: schedule_ok_def)
  note ok = resolve_every_ok [OF d(3)]
  define q where "q = (date_parse s - date_parse (sd_scheduledAt r)) div (n * 1000)"
  note v = resolve_every_value [OF inst ok(3,4,1,2), folded q_def]
  let ?t = "date_parse (sd_scheduledAt r) + q * (n * 1000)"
  have t': "t' = iso_string (?t + n * 1000)" "?t + n * 1000 \<le> max_instant"
    using d(3,4) v(1) by (auto split: if_splits)
  have "min_instant \<le> ?t + n * 1000" using v(5) ok(3) by linarith
  note rt = iso_roundtrip(1) [OF this t'(2), folded t'(1)]
  show "schedule_ok r'" using assms(1) d(5) t' \<open>min_instant \<le> ?t + n * 1000\<close> by (auto simp: schedule_ok_def)
  show "sd_id r' = sd_id r" "sd_prompt r' = sd_prompt r" "sd_rule r' = sd_rule r" using d(5) by simp_all
  have "0 \<le> q" unfolding q_def using ok by (simp add: pos_imp_zdiv_nonneg_iff)
  then show "\<exists>n s. sd_rule r = Every_rule n \<and> t = Some s \<and> date_parse s < date_parse (sd_scheduledAt r')
       \<and> (\<exists>k > 0. date_parse (sd_scheduledAt r') = date_parse (sd_scheduledAt r) + k * (n * 1000))"
    using d v(4) rt by (intro exI [of _ n] exI [of _ s] conjI exI [of _ "q + 1"]) (simp_all add: algebra_simps)
qed

section \<open>Selectors\<close>

lemma future_instant_iff:
  "future_instant epoch now = Inr s \<longleftrightarrow>
     \<bar>now\<bar> \<le> max_safe \<and> min_instant \<le> epoch \<and> epoch \<le> max_instant \<and> now < epoch \<and> s = iso_string epoch"
  using instant_bounds utc_instant_iso [of epoch] by (auto simp: future_instant_def split: if_splits)

lemma future_instant_ok:
  assumes "future_instant epoch now = Inr s"
  shows "instant_ok s" "date_parse s = epoch" "now < epoch"
  using assms iso_roundtrip(1) by (auto simp: future_instant_iff)

lemma js_trim_ok: "js_trim s \<noteq> [] \<Longrightarrow> trimmed (js_trim s)"
  by (simp add: trimmed_def)

lemma create_after_ok:
  assumes "create_after i prompt x now = Inr r" "trimmed i"
  shows "schedule_ok r" "sd_id r = i" "sd_prompt r = js_trim prompt"
    "\<exists>n. safe_integer_of x = Some n \<and> sd_rule r = After_rule n \<and> date_parse (sd_scheduledAt r) = now + n * 1000"
    "now < date_parse (sd_scheduledAt r)"
  using assms future_instant_ok
  by (auto simp: create_after_def res_simps schedule_ok_def js_trim_ok safe_integer_of_def split: js_number.splits if_splits)

text \<open>The range of \<open>Date\<close>, in which every wall clock lies.\<close>

definition clock_ok :: "int \<Rightarrow> bool" where
  "clock_ok now \<longleftrightarrow> \<bar>now\<bar> \<le> 8640000000000000"

lemma create_every_ok:
  assumes "create_every i prompt x now = Inr r" "trimmed i" "clock_ok now"
  shows "schedule_ok r" "sd_id r = i" "sd_prompt r = js_trim prompt"
    "\<exists>n. safe_integer_of x = Some n \<and> sd_rule r = Every_rule n \<and> date_parse (sd_scheduledAt r) = now + n * 1000"
    "now < date_parse (sd_scheduledAt r)"
proof -
  from assms(1) obtain n t where n: "safe_integer_of x = Some n" "min_every_interval_seconds \<le> n"
    "js_trim prompt \<noteq> []" "future_instant (now + n * 1000) now = Inr t"
    and r: "r = \<lparr>sd_id = i, sd_prompt = js_trim prompt, sd_rule = Every_rule n, sd_scheduledAt = t\<rparr>"
    by (auto simp: create_every_def res_simps)
  note t = future_instant_ok [OF n(4)]
  have "now + n * 1000 \<le> max_instant" using n(4) by (simp add: future_instant_iff)
  moreover have "max_instant + 8640000000000000 \<le> max_safe" by code_simp
  ultimately have "n * 1000 \<le> max_safe" using assms(3) unfolding clock_ok_def by linarith
  then show "schedule_ok r" using n t(1) assms(2) by (simp add: r schedule_ok_def js_trim_ok)
  show "sd_id r = i" "sd_prompt r = js_trim prompt" "now < date_parse (sd_scheduledAt r)"
    "\<exists>n. safe_integer_of x = Some n \<and> sd_rule r = Every_rule n \<and> date_parse (sd_scheduledAt r) = now + n * 1000"
    using t n by (simp_all add: r)
qed

lemma create_at_ok:
  assumes "create_at il i prompt v now = Inr r" "trimmed i"
  shows "schedule_ok r" "sd_id r = i" "sd_prompt r = js_trim prompt" "sd_rule r = At_rule"
    "at_target il v = Inr (date_parse (sd_scheduledAt r))" "now < date_parse (sd_scheduledAt r)"
  using assms future_instant_ok
  by (auto simp: create_at_def res_simps schedule_ok_def js_trim_ok)

lemma calendar_epoch_iff: "calendar_epoch p = Inr t \<longleftrightarrow> t = epoch_of_parts p \<and> parts_of_epoch t = p"
  by (auto simp: calendar_epoch_def Let_def)

text \<open>The offset of a zone in milliseconds.\<close>

fun zone_offset :: "(bool \<times> int \<times> int) option \<Rightarrow> int" where
  "zone_offset None = 0"
| "zone_offset (Some (ahead, h, m)) = (if ahead then 1 else - 1) * (h * 60 + m) * 60000"

lemma parse_offset_ok:
  assumes "parse_offset_instant s = Inr t"
  shows "\<exists>p zone. offset_pattern s = Some (p, zone) \<and> cp_year p \<noteq> 0 \<and> parts_of_epoch (t + zone_offset zone) = p"
  using assms unfolding parse_offset_instant_def
  by (auto simp: res_simps calendar_epoch_iff out_of_clock_def split: option.splits prod.splits if_splits)

lemma traverse_Inr_list_all2: "traverse f xs = Inr ys \<Longrightarrow> list_all2 (\<lambda>x y. f x = Inr y) xs ys"
  by (induction xs arbitrary: ys) (auto simp: res_simps)

text \<open>The first of the instants that show the wanted local time, among those with one of the sampled offsets.\<close>

definition shown_at :: "intl \<Rightarrow> string \<Rightarrow> calendar_parts \<Rightarrow> int \<Rightarrow> bool" where
  "shown_at il zone p t \<longleftrightarrow> min_instant \<le> t \<and> t \<le> max_instant \<and> fst (il_project il zone t) = p"

lemma local_candidate_iff:
  assumes "local_candidate il zone p localEpoch offset = Inr c"
  shows "c = Some (t, True) \<longleftrightarrow> t = localEpoch - offset \<and> shown_at il zone p t"
  using assms
  by (auto simp: local_candidate_def local_projection_def shown_at_def res_simps Let_def
      split: if_splits prod.splits option.splits)

lemma found_candidates:
  "t \<in> set (map fst (filter snd (List.map_filter id found))) \<longleftrightarrow> Some (t, True) \<in> set found"
  by (induction found) (auto simp: List.map_filter_def image_iff)

lemma resolve_local_ok:
  assumes "resolve_local_instant il p zone = Inr t"
  obtains offsets where "traverse (sample_offset il zone (epoch_of_parts p)) sample_deltas = Inr offsets"
    "t \<in> (\<lambda>o'. epoch_of_parts p - o') ` set offsets" "shown_at il zone p t"
    "\<forall>t' \<in> (\<lambda>o'. epoch_of_parts p - o') ` set offsets. shown_at il zone p t' \<longrightarrow> t \<le> t'"
proof -
  from assms obtain offsets found where r: "traverse (sample_offset il zone (epoch_of_parts p)) sample_deltas = Inr offsets"
    "traverse (local_candidate il zone p (epoch_of_parts p)) (dedup offsets) = Inr found"
    and body: "(case sort (map fst (filter snd (List.map_filter id found))) of
        [] \<Rightarrow> if None \<in> set found then Inl out_of_range_error
              else Inl (Invalid_rule, ''The local at time does not exist in the selected time zone.'')
      | first # _ \<Rightarrow> Inr first) = Inr t"
    by (auto simp: resolve_local_instant_def res_simps calendar_epoch_iff)
  from body obtain ts where srt: "sort (map fst (filter snd (List.map_filter id found))) = t # ts"
    by (cases "sort (map fst (filter snd (List.map_filter id found)))") (simp_all split: if_splits)
  have "list_all2 (\<lambda>o' c. local_candidate il zone p (epoch_of_parts p) o' = Inr c) (dedup offsets) found"
    by (rule traverse_Inr_list_all2 [OF r(2)])
  then have mem: "Some (t', True) \<in> set found \<longleftrightarrow>
      t' \<in> (\<lambda>o'. epoch_of_parts p - o') ` set offsets \<and> shown_at il zone p t'" for t'
  proof -
    assume L: "list_all2 (\<lambda>o' c. local_candidate il zone p (epoch_of_parts p) o' = Inr c) (dedup offsets) found"
    have "Some (t', True) \<in> set found \<longleftrightarrow> (\<exists>o' \<in> set (dedup offsets). t' = epoch_of_parts p - o' \<and> shown_at il zone p t')"
      using L
    proof (induction rule: list_all2_induct)
      case (Cons o' os c cs)
      then show ?case using local_candidate_iff [OF Cons(1), of t'] by auto
    qed simp
    then show ?thesis by (auto simp: image_iff)
  qed
  have "set (t # ts) = {t'. Some (t', True) \<in> set found}"
    unfolding srt [symmetric] set_sort by (rule set_eqI) (simp only: found_candidates mem_Collect_eq)
  moreover have "\<forall>t' \<in> set (t # ts). t \<le> t'"
    using sorted_sort [of "map fst (filter snd (List.map_filter id found))"] unfolding srt by simp
  ultimately have least: "Some (t, True) \<in> set found" "\<And>t'. Some (t', True) \<in> set found \<Longrightarrow> t \<le> t'"
    by (metis list.set_intros(1) mem_Collect_eq)+
  show thesis
  proof (rule that [OF r(1)])
    show "t \<in> (\<lambda>o'. epoch_of_parts p - o') ` set offsets" "shown_at il zone p t" using least(1) mem by blast+
    show "\<forall>t' \<in> (\<lambda>o'. epoch_of_parts p - o') ` set offsets. shown_at il zone p t' \<longrightarrow> t \<le> t'"
      using least(2) mem by blast
  qed
qed

end
