(* ===== verification/ScheduleFoldProperties.thy ===== *)
theory ScheduleFoldProperties
  imports ScheduleFacts
begin

text \<open>
  What an accepted log of reminders consists of: the fold decides every identity on its own, keeps the records in
  the order of their creation, and moves a fixed-rate record only by whole intervals.
\<close>

section \<open>The changes of a log\<close>

definition schedule_payload :: "session_event \<Rightarrow> json option" where
  "schedule_payload e =
     (case ev_data e of PluginEvent t d \<Rightarrow> if t = ''schedule/change'' then Some d else None | _ \<Rightarrow> None)"

definition schedule_payloads :: "session_event list \<Rightarrow> json list" where
  "schedule_payloads es = List.map_filter schedule_payload es"

lemma apply_event_payload:
  "apply_schedule_event st e =
     (case schedule_payload e of None \<Rightarrow> Inr st | Some d \<Rightarrow> and_then (decode_schedule_change d) (apply_schedule_change st))"
  by (simp add: apply_schedule_event_def schedule_payload_def split: event_data.splits)

lemma schedule_payloads_simps [simp]:
  "schedule_payloads [] = []"
  "schedule_payloads (e # es) = (case schedule_payload e of None \<Rightarrow> [] | Some d \<Rightarrow> [d]) @ schedule_payloads es"
  "schedule_payloads (es @ es') = schedule_payloads es @ schedule_payloads es'"
  by (simp_all add: schedule_payloads_def List.map_filter_def split: option.splits)

lemma replay_changes:
  "replay apply_schedule_event st es = Inr st' \<longleftrightarrow>
     (\<exists>cs. traverse decode_schedule_change (schedule_payloads es) = Inr cs \<and> replay apply_schedule_change st cs = Inr st')"
proof (induction es arbitrary: st)
  case (Cons e es)
  show ?case
  proof (cases "schedule_payload e")
    case None
    with Cons.IH show ?thesis by (simp add: apply_event_payload [of _ e])
  next
    case (Some d)
    then show ?thesis by (auto simp: apply_event_payload [of _ e] res_simps Cons.IH)
  qed
qed simp

lemma traverse_image: "traverse f xs = Inr ys \<Longrightarrow> y \<in> set ys \<Longrightarrow> Inr y \<in> f ` set xs"
  by (induction xs arbitrary: ys) (auto simp: res_simps intro: rev_image_eqI)

lemma decoded_ok: "traverse decode_schedule_change js = Inr cs \<Longrightarrow> c \<in> set cs \<Longrightarrow> change_ok c"
  by (induction js arbitrary: cs) (auto simp: res_simps dest: decode_change_sound)

section \<open>The state\<close>

definition is_active :: "schedule_state \<Rightarrow> string \<Rightarrow> bool" where
  "is_active st i \<longleftrightarrow> js_has (ss_active st) i"

definition schedule_state_ok :: "schedule_state \<Rightarrow> bool" where
  "schedule_state_ok st \<longleftrightarrow>
     distinct (ss_seen st)
     \<and> js_keys (ss_active st) = filter (is_active st) (ss_seen st)
     \<and> (\<forall>(i, r) \<in> set (ss_active st). sd_id r = i \<and> schedule_ok r)"

lemma state_okD:
  assumes "schedule_state_ok st"
  shows "distinct (ss_seen st)" "js_keys (ss_active st) = filter (is_active st) (ss_seen st)"
    "\<And>i r. (i, r) \<in> set (ss_active st) \<Longrightarrow> sd_id r = i \<and> schedule_ok r"
  using assms unfolding schedule_state_ok_def by blast+

lemma state_ok_distinct: "schedule_state_ok st \<Longrightarrow> distinct (js_keys (ss_active st))"
  using state_okD(1) [of st] by (simp only: state_okD(2) distinct_filter)

lemma state_ok_get:
  assumes "schedule_state_ok st" "js_get (ss_active st) i = Some r"
  shows "sd_id r = i" "schedule_ok r" "i \<in> set (ss_seen st)"
proof -
  have "(i, r) \<in> set (ss_active st)" using assms(2) by (rule map_of_SomeD)
  with state_okD(3) [OF assms(1)] show "sd_id r = i" "schedule_ok r" by blast+
  from \<open>(i, r) \<in> set (ss_active st)\<close> have "i \<in> set (js_keys (ss_active st))" by force
  then show "i \<in> set (ss_seen st)" unfolding state_okD(2) [OF assms(1)] by simp
qed

lemma state_ok_values:
  assumes "schedule_state_ok st"
  shows "r \<in> set (js_values (ss_active st)) \<longleftrightarrow> js_get (ss_active st) (sd_id r) = Some r"
proof
  assume "r \<in> set (js_values (ss_active st))"
  then obtain i where i: "(i, r) \<in> set (ss_active st)" by auto
  with state_okD(3) [OF assms] have "sd_id r = i" by blast
  with i state_ok_distinct [OF assms] show "js_get (ss_active st) (sd_id r) = Some r" by simp
qed (auto dest!: map_of_SomeD intro: rev_image_eqI)

lemma js_delete_filter: "js_delete i m = filter (\<lambda>p. fst p \<noteq> i) m"
  by (induction m) auto

lemma js_delete_keys: "js_keys (js_delete i m) = filter (\<lambda>k. k \<noteq> i) (js_keys m)"
  by (simp add: js_delete_filter filter_map o_def)

lemma state_ok_delete:
  assumes "schedule_state_ok st"
  shows "schedule_state_ok (st\<lparr>ss_active := js_delete i (ss_active st)\<rparr>)"
proof -
  let ?st = "st\<lparr>ss_active := js_delete i (ss_active st)\<rparr>"
  have a: "is_active ?st = (\<lambda>k. k \<noteq> i \<and> is_active st k)" by (auto simp: is_active_def fun_eq_iff)
  have "js_keys (ss_active ?st) = filter (is_active ?st) (ss_seen ?st)"
    unfolding a using state_okD(2) [OF assms] by (simp add: js_delete_keys conj_commute)
  moreover have "\<forall>(k, r) \<in> set (ss_active ?st). sd_id r = k \<and> schedule_ok r"
    using state_okD(3) [OF assms] by (auto simp: js_delete_filter)
  ultimately show ?thesis using state_okD(1) [OF assms] unfolding schedule_state_ok_def by simp
qed

lemma state_ok_set:
  assumes "schedule_state_ok st" "is_active st i" "sd_id r = i" "schedule_ok r"
  shows "schedule_state_ok (st\<lparr>ss_active := js_set i r (ss_active st)\<rparr>)"
proof -
  let ?st = "st\<lparr>ss_active := js_set i r (ss_active st)\<rparr>"
  have a: "is_active ?st = is_active st" using assms(2) by (auto simp: is_active_def fun_eq_iff)
  have known: "map_of (ss_active st) i \<noteq> None" by (rule assms(2) [unfolded is_active_def])
  have "js_keys (ss_active ?st) = filter (is_active ?st) (ss_seen ?st)"
    unfolding a using state_okD(2) [OF assms(1)] js_set_keys_known [OF known] by simp
  moreover have "sd_id s = j \<and> schedule_ok s" if "(j, s) \<in> set (ss_active ?st)" for j s
  proof -
    have "distinct (js_keys (js_set i r (ss_active st)))"
      using state_ok_distinct [OF assms(1)] js_set_keys_known [OF known] by simp
    then have "map_of (js_set i r (ss_active st)) j = Some s" using that by (intro map_of_is_SomeI) simp_all
    then show ?thesis using assms(3,4) state_ok_get [OF assms(1)] by (auto split: if_splits)
  qed
  ultimately show ?thesis using state_okD(1) [OF assms(1)] unfolding schedule_state_ok_def by auto
qed

lemma state_ok_create:
  assumes "schedule_state_ok st" "sd_id r \<notin> set (ss_seen st)" "schedule_ok r"
  shows "js_set (sd_id r) r (ss_active st) = ss_active st @ [(sd_id r, r)]"
    "schedule_state_ok (st\<lparr>ss_seen := ss_seen st @ [sd_id r], ss_active := js_set (sd_id r) r (ss_active st)\<rparr>)"
proof -
  let ?st = "st\<lparr>ss_seen := ss_seen st @ [sd_id r], ss_active := js_set (sd_id r) r (ss_active st)\<rparr>"
  from assms(2) state_ok_get(3) [OF assms(1)] have none: "js_get (ss_active st) (sd_id r) = None"
    by (cases "js_get (ss_active st) (sd_id r)") auto
  then show app: "js_set (sd_id r) r (ss_active st) = ss_active st @ [(sd_id r, r)]" by (rule js_set_new)
  have a: "is_active ?st = (\<lambda>k. k = sd_id r \<or> is_active st k)" by (auto simp: is_active_def fun_eq_iff)
  have "filter (\<lambda>k. k = sd_id r \<or> is_active st k) (ss_seen st) = filter (is_active st) (ss_seen st)"
    using assms(2) by (intro filter_cong) auto
  then have "js_keys (ss_active ?st) = filter (is_active ?st) (ss_seen ?st)"
    unfolding a using state_okD(2) [OF assms(1)] app by simp
  moreover have "\<forall>(k, s) \<in> set (ss_active ?st). sd_id s = k \<and> schedule_ok s"
    using state_okD(3) [OF assms(1)] assms(3) app by auto
  ultimately show "schedule_state_ok ?st" using state_okD(1) [OF assms(1)] assms(2) unfolding schedule_state_ok_def by simp
qed

lemma apply_change_ok:
  assumes "schedule_state_ok st" "change_ok c" "apply_schedule_change st c = Inr st'"
  shows "schedule_state_ok st'"
proof (cases c)
  case (Create_schedule r)
  with assms(2,3) have "sd_id r \<notin> set (ss_seen st)" "schedule_ok r"
    "st' = st\<lparr>ss_seen := ss_seen st @ [sd_id r], ss_active := js_set (sd_id r) r (ss_active st)\<rparr>"
    by (simp_all split: if_splits)
  with state_ok_create(2) [OF assms(1)] show ?thesis by simp
next
  case (Delete_schedule i)
  with assms show ?thesis by (auto split: if_splits intro: state_ok_delete)
next
  case (Dispatch_schedule i t)
  with assms(3) obtain r q where r: "js_get (ss_active st) i = Some r" "dispatched_record r t = Inr q"
    and st': "st' = st\<lparr>ss_active := (case q of None \<Rightarrow> js_delete i (ss_active st) | Some r' \<Rightarrow> js_set i r' (ss_active st))\<rparr>"
    by (auto simp: res_simps split: option.splits)
  note ok = state_ok_get [OF assms(1) r(1)]
  show ?thesis
  proof (cases q)
    case None
    then show ?thesis using st' state_ok_delete [OF assms(1)] by simp
  next
    case (Some r')
    have "schedule_state_ok (st\<lparr>ss_active := js_set i r' (ss_active st)\<rparr>)"
      using r(2) Some ok dispatched_record_ok [OF ok(2)] r(1) by (intro state_ok_set [OF assms(1)]) (simp_all add: is_active_def)
    then show ?thesis using st' Some by simp
  qed
qed

interpretation schedule_log: strict_log apply_schedule_event schedule_state_ok
proof
  fix st e st'
  assume "schedule_state_ok st" "apply_schedule_event st e = Inr st'"
  then show "schedule_state_ok st'"
    by (auto simp: apply_event_payload res_simps split: option.splits dest: decode_change_sound intro: apply_change_ok)
qed

lemma empty_state_ok: "schedule_state_ok empty_schedule_state"
  by (simp add: schedule_state_ok_def empty_schedule_state_def)

section \<open>The fold of a session\<close>

lemma fold_state_iff:
  "fold_schedule_state es x = Inr st \<longleftrightarrow>
     (\<exists>n. safe_integer_of x = Some (int n) \<and> n \<le> length es
        \<and> replay apply_schedule_event empty_schedule_state (drop n es) = Inr st)"
proof
  assume "fold_schedule_state es x = Inr st"
  then obtain k where "safe_integer_of x = Some k" "0 \<le> k" "k \<le> int (length es)"
    "replay apply_schedule_event empty_schedule_state (drop (nat k) es) = Inr st"
    by (auto simp: fold_schedule_state_def split: option.splits if_splits)
  then show "\<exists>n. safe_integer_of x = Some (int n) \<and> n \<le> length es
        \<and> replay apply_schedule_event empty_schedule_state (drop n es) = Inr st"
    by (intro exI [of _ "nat k"]) auto
qed (auto simp: fold_schedule_state_def)

lemma fold_state_ok: "fold_schedule_state es x = Inr st \<Longrightarrow> schedule_state_ok st"
  using schedule_log.replay_inv [OF empty_state_ok] by (auto simp: fold_state_iff)

lemma fold_events_iff:
  "fold_schedule_events es x = Inr folded \<longleftrightarrow>
     (\<exists>st. fold_schedule_state es x = Inr st \<and> folded = \<lparr>fd_active = js_values (ss_active st), fd_seenIds = ss_seen st\<rparr>)"
  by (auto simp: fold_schedule_events_def res_simps)

text \<open>The fold of an extended log.\<close>

lemma fold_state_append:
  assumes "fold_schedule_state es x = Inr st"
  shows "fold_schedule_state (es @ es') x = replay apply_schedule_event st es'"
proof -
  from assms obtain n where n: "safe_integer_of x = Some (int n)" "n \<le> length es"
    "replay apply_schedule_event empty_schedule_state (drop n es) = Inr st" by (auto simp: fold_state_iff)
  then show ?thesis by (simp add: fold_schedule_state_def replay_append)
qed

section \<open>Lifelines\<close>

text \<open>The life of one identity, without the log's other records.\<close>

datatype life = Unborn | Alive schedule | Ended

fun change_id :: "schedule_change \<Rightarrow> string" where
  "change_id (Create_schedule r) = sd_id r"
| "change_id (Delete_schedule i) = i"
| "change_id (Dispatch_schedule i _) = i"

fun life_step :: "life \<Rightarrow> schedule_change \<Rightarrow> schedule_fault + life" where
  "life_step Unborn (Create_schedule r) = Inr (Alive r)"
| "life_step (Alive _) (Delete_schedule _) = Inr Ended"
| "life_step (Alive r) (Dispatch_schedule _ t) =
     and_then (dispatched_record r t) (\<lambda>q. Inr (case q of None \<Rightarrow> Ended | Some r' \<Rightarrow> Alive r'))"
| "life_step _ (Create_schedule r) = Inl (Id_reused (sd_id r))"
| "life_step _ (Delete_schedule i) = Inl (Delete_inactive i)"
| "life_step _ (Dispatch_schedule i _) = Inl (Dispatch_inactive i)"

definition lifeline :: "string \<Rightarrow> schedule_change list \<Rightarrow> schedule_fault + life" where
  "lifeline i cs = replay life_step Unborn (filter (\<lambda>c. change_id c = i) cs)"

lemma lifeline_nil [simp]: "lifeline i [] = Inr Unborn"
  by (simp add: lifeline_def)

lemma lifeline_snoc [simp]:
  "lifeline i (cs @ [c]) = (if change_id c = i then and_then (lifeline i cs) (\<lambda>l. life_step l c) else lifeline i cs)"
  by (simp add: lifeline_def replay_snoc)

definition life_of :: "schedule_state \<Rightarrow> string \<Rightarrow> life" where
  "life_of st i =
     (case js_get (ss_active st) i of Some r \<Rightarrow> Alive r | None \<Rightarrow> if i \<in> set (ss_seen st) then Ended else Unborn)"

lemma life_of_empty [simp]: "life_of empty_schedule_state i = Unborn"
  by (simp add: life_of_def empty_schedule_state_def)

text \<open>The fold moves the life of the changed identity as its lifeline does, and no other.\<close>

lemma apply_change_life:
  assumes "schedule_state_ok st"
  shows "apply_schedule_change st c = Inl f \<longleftrightarrow> life_step (life_of st (change_id c)) c = Inl f"
    "apply_schedule_change st c = Inr st' \<Longrightarrow>
       life_step (life_of st (change_id c)) c = Inr (life_of st' (change_id c)) \<and> (\<forall>i. i \<noteq> change_id c \<longrightarrow> life_of st' i = life_of st i)"
proof -
  note seen = state_ok_get(3) [OF assms]
  show "apply_schedule_change st c = Inl f \<longleftrightarrow> life_step (life_of st (change_id c)) c = Inl f"
    by (cases c) (auto simp: life_of_def res_simps dest: seen split: option.splits)
  show "apply_schedule_change st c = Inr st' \<Longrightarrow>
       life_step (life_of st (change_id c)) c = Inr (life_of st' (change_id c)) \<and> (\<forall>i. i \<noteq> change_id c \<longrightarrow> life_of st' i = life_of st i)"
  proof (cases c)
    case (Dispatch_schedule i t)
    assume "apply_schedule_change st c = Inr st'"
    with Dispatch_schedule obtain r q where r: "js_get (ss_active st) i = Some r" "dispatched_record r t = Inr q"
      and st': "st' = st\<lparr>ss_active := (case q of None \<Rightarrow> js_delete i (ss_active st) | Some r' \<Rightarrow> js_set i r' (ss_active st))\<rparr>"
      by (auto simp: res_simps split: option.splits)
    from r Dispatch_schedule seen [OF r(1)] show ?thesis unfolding st' by (cases q) (simp_all add: life_of_def)
  qed (auto simp: life_of_def dest: seen split: option.splits if_splits)
qed

lemma changes_state_ok:
  "schedule_state_ok st \<Longrightarrow> \<forall>c \<in> set cs. change_ok c \<Longrightarrow> replay apply_schedule_change st cs = Inr st' \<Longrightarrow> schedule_state_ok st'"
  by (induction cs arbitrary: st) (auto simp: res_simps intro: apply_change_ok)

lemma fold_lifelines:
  assumes "\<forall>c \<in> set cs. change_ok c"
  shows "case replay apply_schedule_change empty_schedule_state cs of
      Inl f \<Rightarrow> (\<exists>i. \<not> is_ok (lifeline i cs))
    | Inr st \<Rightarrow> (\<forall>i. lifeline i cs = Inr (life_of st i))"
  using assms
proof (induction cs rule: rev_induct)
  case (snoc c cs)
  show ?case
  proof (cases "replay apply_schedule_change empty_schedule_state cs")
    case (Inl f)
    with snoc obtain i where "\<not> is_ok (lifeline i cs)" by auto
    then have "\<not> is_ok (lifeline i (cs @ [c]))" by (cases "lifeline i cs") simp_all
    then show ?thesis using Inl by (simp add: replay_snoc del: lifeline_snoc) blast
  next
    case (Inr st)
    with snoc have l: "lifeline i cs = Inr (life_of st i)" for i by simp
    have "schedule_state_ok st" using changes_state_ok [OF empty_state_ok _ Inr] snoc.prems by simp
    note step = apply_change_life [OF this, of c]
    show ?thesis
    proof (cases "apply_schedule_change st c")
      case (Inl f)
      then have "life_step (life_of st (change_id c)) c = Inl f" using step(1) [of f] by simp
      then have "\<not> is_ok (lifeline (change_id c) (cs @ [c]))" by (simp add: l)
      then show ?thesis using Inl Inr by (simp add: replay_snoc del: lifeline_snoc) blast
    next
      case ok: (Inr st')
      with step(2) have "lifeline i (cs @ [c]) = Inr (life_of st' i)" for i by (auto simp: l)
      then show ?thesis using Inr ok by (simp add: replay_snoc)
    qed
  qed
qed simp

definition created_ids :: "schedule_change list \<Rightarrow> string list" where
  "created_ids cs = concat (map (\<lambda>c. case c of Create_schedule r \<Rightarrow> [sd_id r] | _ \<Rightarrow> []) cs)"

lemma seen_created:
  "replay apply_schedule_change st cs = Inr st' \<Longrightarrow> ss_seen st' = ss_seen st @ created_ids cs"
proof (induction cs arbitrary: st)
  case (Cons c cs)
  then obtain st1 where st1: "apply_schedule_change st c = Inr st1" "replay apply_schedule_change st1 cs = Inr st'"
    by (auto simp: res_simps)
  from st1(1) have "ss_seen st1 = ss_seen st @ created_ids [c]"
    by (cases c) (auto simp: created_ids_def res_simps split: if_splits option.splits)
  with Cons.IH [OF st1(2)] show ?case by (simp add: created_ids_def)
qed (simp add: created_ids_def)


text \<open>The origin of an active record, and how far its target has moved.\<close>

definition moved_from :: "schedule \<Rightarrow> schedule \<Rightarrow> bool" where
  "moved_from s r \<longleftrightarrow> sd_id r = sd_id s \<and> sd_prompt r = sd_prompt s \<and> sd_rule r = sd_rule s
     \<and> (case sd_rule s of
          Every_rule n \<Rightarrow> \<exists>k \<ge> 0. date_parse (sd_scheduledAt r) = date_parse (sd_scheduledAt s) + k * (n * 1000)
        | _ \<Rightarrow> sd_scheduledAt r = sd_scheduledAt s)"

lemma moved_from_refl: "moved_from s s"
  by (auto simp: moved_from_def split: schedule_rule.splits intro: exI [of _ 0])

lemma moved_from_dispatch:
  assumes "moved_from s r" "schedule_ok r" "dispatched_record r t = Inr (Some r')"
  shows "moved_from s r'"
proof -
  note d = dispatched_record_ok [OF assms(2,3)]
  from d(5) obtain n k where n: "sd_rule r = Every_rule n" "0 < k"
    "date_parse (sd_scheduledAt r') = date_parse (sd_scheduledAt r) + k * (n * 1000)" by blast
  with assms(1) have "sd_rule s = Every_rule n" by (simp add: moved_from_def)
  with assms(1) obtain k0 where "0 \<le> k0" "date_parse (sd_scheduledAt r) = date_parse (sd_scheduledAt s) + k0 * (n * 1000)"
    by (auto simp: moved_from_def)
  with n have "\<exists>k \<ge> 0. date_parse (sd_scheduledAt r') = date_parse (sd_scheduledAt s) + k * (n * 1000)"
    by (intro exI [of _ "k0 + k"]) (simp add: algebra_simps)
  with d assms(1) \<open>sd_rule s = Every_rule n\<close> show ?thesis by (simp add: moved_from_def)
qed

lemma life_origin:
  "\<forall>c \<in> set cs. change_ok c \<Longrightarrow> replay life_step (Alive r0) cs = Inr (Alive r) \<Longrightarrow> moved_from s r0 \<Longrightarrow> schedule_ok r0
    \<Longrightarrow> moved_from s r"
proof (induction cs arbitrary: r0)
  case (Cons c cs)
  from Cons.prems(2) obtain l where l: "life_step (Alive r0) c = Inr l" "replay life_step l cs = Inr (Alive r)"
    by (auto simp: res_simps)
  have "replay life_step Ended cs = Inr (Alive r) \<Longrightarrow> False"
  proof (cases cs)
    case (Cons d ds)
    assume "replay life_step Ended cs = Inr (Alive r)"
    with Cons show False by (cases d) simp_all
  qed simp
  with l obtain r1 i t where r1: "l = Alive r1" "c = Dispatch_schedule i t" "dispatched_record r0 t = Inr (Some r1)"
    by (cases c) (auto simp: res_simps split: option.splits)
  with Cons.IH [OF _ l(2) [unfolded r1(1)]] Cons.prems moved_from_dispatch dispatched_record_ok(1) show ?case
    by (metis list.set_intros(2))
qed simp

text \<open>
  C31: An active reminder is the one that was created under its identity: its prompt and rule never change, a one-shot
  keeps its target, and the target of a fixed rate has moved from the first one by a whole number of intervals.
\<close>

theorem reminder_keeps_anchor:
  assumes "fold_schedule_events es x = Inr folded" "r \<in> set (fd_active folded)"
  shows "\<exists>s. Inr (Create_schedule s) \<in> decode_schedule_change ` set (schedule_payloads es) \<and> moved_from s r"
proof -
  from assms(1) obtain st where st: "fold_schedule_state es x = Inr st" "fd_active folded = js_values (ss_active st)"
    by (auto simp: fold_events_iff)
  note ok = fold_state_ok [OF st(1)]
  have get: "js_get (ss_active st) (sd_id r) = Some r" using assms(2) st(2) state_ok_values [OF ok, of r] by simp
  from st(1) obtain n where "replay apply_schedule_event empty_schedule_state (drop n es) = Inr st" by (auto simp: fold_state_iff)
  then obtain cs where cs: "traverse decode_schedule_change (schedule_payloads (drop n es)) = Inr cs"
    "replay apply_schedule_change empty_schedule_state cs = Inr st" unfolding replay_changes by blast
  have cok: "\<forall>c \<in> set cs. change_ok c" using decoded_ok [OF cs(1)] by blast
  from fold_lifelines [OF this] cs(2) get have "lifeline (sd_id r) cs = Inr (Alive r)" by (simp add: life_of_def)
  then obtain c rest where c: "filter (\<lambda>c. change_id c = sd_id r) cs = c # rest"
    "and_then (life_step Unborn c) (\<lambda>l. replay life_step l rest) = Inr (Alive r)"
    unfolding lifeline_def by (cases "filter (\<lambda>c. change_id c = sd_id r) cs") simp_all
  then obtain s where s: "c = Create_schedule s" "replay life_step (Alive s) rest = Inr (Alive r)" by (cases c) simp_all
  have mem: "set (c # rest) \<subseteq> set cs" unfolding c(1) [symmetric] by auto
  with cok s(1) have "\<forall>c \<in> set rest. change_ok c" "schedule_ok s" by auto
  from life_origin [OF this(1) s(2) moved_from_refl this(2)] have "moved_from s r" .
  moreover have "Create_schedule s \<in> set cs" using mem s(1) by simp
  then have "Inr (Create_schedule s) \<in> decode_schedule_change ` set (schedule_payloads (drop n es))"
    by (rule traverse_image [OF cs(1)])
  then have "Inr (Create_schedule s) \<in> decode_schedule_change ` set (schedule_payloads es)"
    using schedule_payloads_simps(3) [of "take n es" "drop n es"] by auto
  ultimately show ?thesis by blast
qed

section \<open>Samples\<close>

definition sample_every :: schedule where
  "sample_every = \<lparr>sd_id = ''schedule-1'', sd_prompt = ''stretch'', sd_rule = Every_rule 300,
     sd_scheduledAt = ''2026-01-01T00:05:00.000Z''\<rparr>"

definition sample_moved :: schedule where
  "sample_moved = sample_every\<lparr>sd_scheduledAt := ''2026-01-01T00:20:00.000Z''\<rparr>"

definition schedule_sample_log :: "session_event list" where
  "schedule_sample_log = map (\<lambda>c. \<lparr>ev_seq = 0, ev_time = 0, ev_data = PluginEvent ''schedule/change'' (encode_schedule_change c),
       ev_ignorable = False, ev_surfaceOp = None, ev_sources = None\<rparr>)
     [Create_schedule sample_every, Dispatch_schedule ''schedule-1'' (Some ''2026-01-01T00:16:40.000Z'')]"


lemma schedule_sample_facts:
  "schedule_ok sample_every" "instant_ok ''2026-01-01T00:16:40.000Z''"
  "dispatched_record sample_every (Some ''2026-01-01T00:16:40.000Z'') = Inr (Some sample_moved)"
proof -
  have i: "decode_instant (Some (JStr ''2026-01-01T00:05:00.000Z'')) = Inr ''2026-01-01T00:05:00.000Z''"
    "decode_instant (Some (JStr ''2026-01-01T00:16:40.000Z'')) = Inr ''2026-01-01T00:16:40.000Z''" by code_simp+
  have t: "js_trim ''schedule-1'' = ''schedule-1''" "js_trim ''stretch'' = ''stretch''" by code_simp+
  show "schedule_ok sample_every"
    using i(1) t by (simp add: schedule_ok_def sample_every_def trimmed_def decode_instant_iff min_every_interval_seconds_def max_safe_def)
  show "instant_ok ''2026-01-01T00:16:40.000Z''" using i(2) by (simp add: decode_instant_iff)
  show "dispatched_record sample_every (Some ''2026-01-01T00:16:40.000Z'') = Inr (Some sample_moved)" by code_simp
qed

definition schedule_sample_state :: schedule_state where
  "schedule_sample_state = \<lparr>ss_active = [(''schedule-1'', sample_moved)], ss_seen = [''schedule-1'']\<rparr>"

lemma schedule_sample_fold: "fold_schedule_state schedule_sample_log (Finite (of_nat 0)) = Inr schedule_sample_state"
proof -
  have "trimmed ''schedule-1''" "sd_id sample_every = ''schedule-1''" using schedule_sample_facts(1) by (simp_all add: schedule_ok_def sample_every_def)
  then have d: "decode_schedule_change (encode_schedule_change (Create_schedule sample_every)) = Inr (Create_schedule sample_every)"
    "decode_schedule_change (encode_schedule_change (Dispatch_schedule ''schedule-1'' (Some ''2026-01-01T00:16:40.000Z'')))
      = Inr (Dispatch_schedule ''schedule-1'' (Some ''2026-01-01T00:16:40.000Z''))"
    using schedule_sample_facts by - (rule decode_written_change, simp)+
  have n: "safe_integer_of (Finite 0) = Some 0" using safe_integer_of_int [of 0] by (simp add: max_safe_def)
  show ?thesis using d n schedule_sample_facts(3) \<open>sd_id sample_every = ''schedule-1''\<close>
    by (simp add: fold_schedule_state_def schedule_sample_log_def apply_schedule_event_def empty_schedule_state_def schedule_sample_state_def
        del: encode_schedule_change.simps)
qed


theorem reminder_keeps_anchor_witness:
  "sample_moved \<in> set (fd_active \<lparr>fd_active = [sample_moved], fd_seenIds = [''schedule-1'']\<rparr>)
    \<and> (\<exists>s. Inr (Create_schedule s) \<in> decode_schedule_change ` set (schedule_payloads schedule_sample_log) \<and> moved_from s sample_moved)"
proof
  have "fold_schedule_events schedule_sample_log (Finite (of_nat 0)) = Inr \<lparr>fd_active = [sample_moved], fd_seenIds = [''schedule-1'']\<rparr>"
    using schedule_sample_fold by (simp add: fold_schedule_events_def schedule_sample_state_def)
  from reminder_keeps_anchor [OF this, of sample_moved]
  show "\<exists>s. Inr (Create_schedule s) \<in> decode_schedule_change ` set (schedule_payloads schedule_sample_log) \<and> moved_from s sample_moved"
    by simp
qed simp

end
