(* ===== verification/ScheduleService.thy ===== *)
theory ScheduleService
  imports ScheduleRules AgentInbox
begin

text \<open>
  The live part of the reminders: the decision what is due and the delivery of it (\<open>schedule/schedule/src/runtime.ts\<close>),
  and the three management tools (\<open>tools.ts\<close>). \<open>schedule_host\<close> holds the root agent's session with its inbox, and the fields
  of \<open>ScheduleRuntime\<close>; \<open>sh_timer\<close> is the delay of the armed timer, \<open>sh_idleWait\<close> whether the runtime waits for
  an idle agent. The transactions of an agent run one after the other (\<open>transaction.ts\<close>); what a transaction does between the awaits
  of a flush is one step. Log output is not modelled.
\<close>

record schedule_host =
  sh_inbox :: inbox_host
  sh_timer :: "int option"
  sh_idleWait :: bool
  sh_requested :: bool
  sh_stopping :: bool
  sh_faulted :: bool

abbreviation sh_session :: "schedule_host \<Rightarrow> session" where
  "sh_session h \<equiv> ih_session (sh_inbox h)"

definition set_session :: "session \<Rightarrow> schedule_host \<Rightarrow> schedule_host" where
  "set_session s h = h\<lparr>sh_inbox := (sh_inbox h)\<lparr>ih_session := s\<rparr>\<rparr>"

section \<open>What is due\<close>

datatype due_decision =
    One_shot_due schedule
  | Every_due "(schedule \<times> string) list" string
  | Wait_for "int option"

definition target_of :: "schedule \<Rightarrow> int" where
  "target_of r = date_parse (sd_scheduledAt r)"

definition is_every :: "schedule \<Rightarrow> bool" where
  "is_every r \<longleftrightarrow> (case sd_rule r of Every_rule _ \<Rightarrow> True | _ \<Rightarrow> False)"

definition interval_of :: "schedule \<Rightarrow> int" where
  "interval_of r = (case sd_rule r of Every_rule n \<Rightarrow> n | _ \<Rightarrow> 0)"

definition next_target :: "int \<Rightarrow> int option \<Rightarrow> schedule \<Rightarrow> int option" where
  "next_target now selected r =
     (let c = target_of r
      in if now < c \<and> (case selected of None \<Rightarrow> True | Some t \<Rightarrow> c < t) then Some c else selected)"

text \<open>
  \<open>dueDecision\<close>. Equal targets keep the order of creation, as \<open>sort_key\<close> does. A wall clock outside of the four-digit years
  throws, from the formatting of it or from the first record; the caller contains either.
\<close>

definition due_decision :: "folded_schedules \<Rightarrow> int \<Rightarrow> schedule_fault + due_decision" where
  "due_decision folded now =
     (case sort_key target_of (filter (\<lambda>r. \<not> is_every r \<and> target_of r \<le> now) (fd_active folded)) of
        r # _ \<Rightarrow> Inr (One_shot_due r)
      | [] \<Rightarrow>
          let every = sort_key target_of (filter (\<lambda>r. is_every r \<and> target_of r \<le> now) (fd_active folded))
          in if every \<noteq> [] then
               and_then (traverse (\<lambda>r. and_then (resolve_every_occurrence r (interval_of r) now)
                                         (\<lambda>oc. Inr (r, eo_occurrenceAt oc))) every) (\<lambda>reminders.
                 Inr (Every_due reminders (iso_string now)))
             else Inr (Wait_for (foldl (next_target now) None (fd_active folded))))"

section \<open>The runtime\<close>

definition max_timer_delay_ms :: int where
  "max_timer_delay_ms = 2147483647"

definition request_drive :: "schedule_host \<Rightarrow> schedule_host" where
  "request_drive h = (if sh_stopping h \<or> sh_faulted h then h else h\<lparr>sh_timer := None, sh_requested := True\<rparr>)"

definition arm :: "int \<Rightarrow> int \<Rightarrow> schedule_host \<Rightarrow> schedule_host" where
  "arm target now h = h\<lparr>sh_timer := Some (min (target - now) max_timer_delay_ms)\<rparr>"

definition arm_wait :: "int option \<Rightarrow> int \<Rightarrow> schedule_host \<Rightarrow> schedule_host" where
  "arm_wait target now h = (case target of None \<Rightarrow> h | Some t \<Rightarrow> arm t now h)"

text \<open>\<open>dispose\<close> before it awaits what is running.\<close>

definition dispose_runtime :: "schedule_host \<Rightarrow> schedule_host" where
  "dispose_runtime h = h\<lparr>sh_stopping := True, sh_requested := False, sh_timer := None\<rparr>"

record drive_env =
  de_live :: bool
  de_wakeNow :: int
  de_busy :: bool
  de_decisionNow :: int
  de_messageId :: string
  de_veto :: "session_event \<Rightarrow> string + unit"
  de_eventTime :: int

datatype drive_outcome =
    Drive_stopped
  | Drive_corrupt schedule_fault
  | Drive_undecided schedule_fault
  | Drive_waiting
  | Drive_busy
  | Followup_failed inbox_error
  | Dispatch_failed session_error
  | Dispatched

definition reminder_message :: "string \<Rightarrow> string \<Rightarrow> message" where
  "reminder_message i text =
     \<lparr>msg_id = i, msg_role = Role_user, msg_content = [TextBlock text], msg_source = PluginSource ''schedule'' (JObj [])\<rparr>"

text \<open>The dispatches of a decision and the text it delivers.\<close>

fun decision_changes :: "due_decision \<Rightarrow> schedule_change list" where
  "decision_changes (One_shot_due r) = [Dispatch_schedule (sd_id r) None]"
| "decision_changes (Every_due reminders acceptedAt) =
     map (\<lambda>(r, _). Dispatch_schedule (sd_id r) (Some acceptedAt)) reminders"
| "decision_changes (Wait_for _) = []"

fun decision_text :: "due_decision \<Rightarrow> string" where
  "decision_text (One_shot_due r) = render_reminder r"
| "decision_text (Every_due reminders _) = render_batch reminders"
| "decision_text (Wait_for _) = []"

definition append_change ::
    "(session_event \<Rightarrow> string + unit) \<Rightarrow> int \<Rightarrow> schedule_change \<Rightarrow> session \<Rightarrow> (session_error + session_event) \<times> session" where
  "append_change veto time c s =
     session_append veto time (PluginEvent ''schedule/change'' (encode_schedule_change c)) None None s"

fun append_changes ::
    "(session_event \<Rightarrow> string + unit) \<Rightarrow> int \<Rightarrow> schedule_change list \<Rightarrow> session \<Rightarrow> (session_error + unit) \<times> session" where
  "append_changes veto time [] s = (Inr (), s)"
| "append_changes veto time (c # cs) s =
     (case append_change veto time c s of
        (Inl e, s') \<Rightarrow> (Inl e, s')
      | (Inr _, s') \<Rightarrow> append_changes veto time cs s')"

text \<open>
  Delivering a decision inside the maintenance phase: \<open>followup\<close> puts the message behind the last one for the
  next turn, then the dispatches are appended.
\<close>

definition deliver :: "drive_env \<Rightarrow> due_decision \<Rightarrow> schedule_host \<Rightarrow> drive_outcome \<times> schedule_host" where
  "deliver env decision h =
     (case inbox_splice_op (de_veto env) (de_eventTime env) Next_turn PosInfinity (Finite 0)
             [reminder_message (de_messageId env) (decision_text decision)] (sh_inbox h) of
        (Inl e, ib) \<Rightarrow> (Followup_failed e, h\<lparr>sh_inbox := ib\<rparr>)
      | (Inr _, ib) \<Rightarrow>
          (case append_changes (de_veto env) (de_eventTime env) (decision_changes decision) (ih_session ib) of
             (Inl e, s) \<Rightarrow> (Dispatch_failed e, (set_session s (h\<lparr>sh_inbox := ib\<rparr>))\<lparr>sh_faulted := True, sh_timer := None\<rparr>)
           | (Inr _, s) \<Rightarrow> (Dispatched, set_session s (h\<lparr>sh_inbox := ib\<rparr>))))"

definition drive_maintenance :: "drive_env \<Rightarrow> schedule_host \<Rightarrow> drive_outcome \<times> schedule_host" where
  "drive_maintenance env h =
     (if sh_stopping h \<or> \<not> de_live env then (Drive_stopped, h)
      else (case fold_session_schedules (sh_session h) of
          Inl fault \<Rightarrow> (Drive_corrupt fault, h\<lparr>sh_faulted := True\<rparr>)
        | Inr claimed \<Rightarrow>
            (case due_decision claimed (de_decisionNow env) of
               Inl fault \<Rightarrow> (Drive_undecided fault, h)
             | Inr (Wait_for target) \<Rightarrow> (Drive_waiting, arm_wait target (de_decisionNow env) h)
             | Inr decision \<Rightarrow> deliver env decision h)))"

text \<open>\<open>driveOnce\<close> between its first and its second flush.\<close>

definition drive_main :: "drive_env \<Rightarrow> schedule_host \<Rightarrow> drive_outcome \<times> schedule_host" where
  "drive_main env h =
     (if sh_stopping h \<or> \<not> de_live env then (Drive_stopped, h)
      else (case fold_session_schedules (sh_session h) of
          Inl fault \<Rightarrow> (Drive_corrupt fault, h\<lparr>sh_faulted := True\<rparr>)
        | Inr folded \<Rightarrow>
            (case due_decision folded (de_wakeNow env) of
               Inl fault \<Rightarrow> (Drive_undecided fault, h)
             | Inr (Wait_for target) \<Rightarrow> (Drive_waiting, arm_wait target (de_wakeNow env) h)
             | Inr _ \<Rightarrow>
                 if de_busy env then (Drive_busy, h\<lparr>sh_idleWait := True\<rparr>) else drive_maintenance env h)))"

text \<open>The start of a requested run, until its first flush.\<close>

definition drive_begin :: "schedule_host \<Rightarrow> schedule_host" where
  "drive_begin h =
     (if sh_requested h \<and> \<not> sh_stopping h \<and> \<not> sh_faulted h then h\<lparr>sh_requested := False, sh_timer := None\<rparr> else h)"

text \<open>After the second flush.\<close>

definition drive_finish :: "bool \<Rightarrow> string + unit \<Rightarrow> schedule_host \<Rightarrow> schedule_host" where
  "drive_finish live flushed h =
     (case flushed of
        Inl _ \<Rightarrow> h
      | Inr _ \<Rightarrow> if sh_stopping h \<or> \<not> live then h else request_drive h)"

definition idle_reached :: "schedule_host \<Rightarrow> schedule_host" where
  "idle_reached h = request_drive (h\<lparr>sh_idleWait := False\<rparr>)"

section \<open>The tools\<close>

datatype persistence_operation = Op_create | Op_list | Op_delete

datatype tool_error =
    Input_rejected input_error
  | Invalid_selector
  | Delete_id_invalid
  | Corrupt_log
  | Persistence_uncertain persistence_operation "string option"
  | Internal_error

record create_args =
  ca_keys :: "string list"
  ca_prompt :: string
  ca_after_seconds :: "js_number option"
  ca_at :: "json option"
  ca_every_seconds :: "js_number option"

record tool_env =
  xe_owner :: bool
  xe_aborted :: bool
  xe_abortedLater :: bool
  xe_preflight :: "string + unit"
  xe_barrier :: "string + unit"
  xe_intl :: intl
  xe_now :: int
  xe_viewNow :: int
  xe_veto :: "session_event \<Rightarrow> string + unit"
  xe_eventTime :: int

definition present_selectors :: "create_args \<Rightarrow> nat" where
  "present_selectors a =
     of_bool (ca_after_seconds a \<noteq> None) + of_bool (ca_at a \<noteq> None) + of_bool (ca_every_seconds a \<noteq> None)"

definition validate_create_args :: "create_args \<Rightarrow> tool_error + unit" where
  "validate_create_args a =
     and_then (throw_if (list_ex (\<lambda>k. k \<notin> {''prompt'', ''after_seconds'', ''at'', ''every_seconds''}) (ca_keys a)
                 \<or> present_selectors a \<noteq> 1) Invalid_selector) (\<lambda>_.
     and_then (throw_if (js_trim (ca_prompt a) = []) (Input_rejected empty_prompt_error)) (\<lambda>_.
     and_then (case ca_after_seconds a of
                 None \<Rightarrow> Inr ()
               | Some x \<Rightarrow> throw_if (case safe_integer_of x of None \<Rightarrow> True | Some n \<Rightarrow> n \<le> 0)
                   (Input_rejected (Invalid_rule, ''after_seconds must be a positive safe integer.''))) (\<lambda>_.
     (case ca_every_seconds a of
        None \<Rightarrow> Inr ()
      | Some x \<Rightarrow>
          (case safe_integer_of x of
             None \<Rightarrow> Inl (Input_rejected (Invalid_rule, ''every_seconds must be a safe integer.''))
           | Some n \<Rightarrow> throw_if (n < min_every_interval_seconds)
               (Input_rejected (Frequency_too_high, ''every_seconds must be at least 300.'')))))))"

definition create_record :: "tool_env \<Rightarrow> create_args \<Rightarrow> string \<Rightarrow> input_error + schedule" where
  "create_record env a i =
     (case (ca_at a, ca_after_seconds a, ca_every_seconds a) of
        (Some v, _, _) \<Rightarrow> create_at (xe_intl env) i (ca_prompt a) v (xe_now env)
      | (None, Some x, _) \<Rightarrow> create_after i (ca_prompt a) x (xe_now env)
      | (None, None, x) \<Rightarrow> create_every i (ca_prompt a) (case x of None \<Rightarrow> NaN | Some y \<Rightarrow> y) (xe_now env))"

text \<open>
  What the tools share: the cancellation before the transaction, the preflight, and the fold. The preflight
  notifies the runtime.
\<close>

definition with_fold ::
    "tool_env \<Rightarrow> persistence_operation \<Rightarrow> string option \<Rightarrow> schedule_host
      \<Rightarrow> (folded_schedules \<Rightarrow> schedule_host \<Rightarrow> (tool_error + 'a) \<times> schedule_host) \<Rightarrow> (tool_error + 'a) \<times> schedule_host" where
  "with_fold env op i h body =
     (if xe_aborted env then (Inl Internal_error, h)
      else (case xe_preflight env of
          Inl _ \<Rightarrow> (Inl (Persistence_uncertain op i), h)
        | Inr _ \<Rightarrow>
            let h1 = request_drive h
            in (case fold_session_schedules (sh_session h1) of
                  Inl _ \<Rightarrow> (Inl Corrupt_log, h1)
                | Inr folded \<Rightarrow> body folded h1)))"

text \<open>Appending a change, the barrier behind it, and the notification.\<close>

definition commit_schedule_change ::
    "tool_env \<Rightarrow> persistence_operation \<Rightarrow> string \<Rightarrow> schedule_change \<Rightarrow> 'a \<Rightarrow> schedule_host \<Rightarrow> (tool_error + 'a) \<times> schedule_host" where
  "commit_schedule_change env op i c result h =
     (if xe_abortedLater env then (Inl Internal_error, h)
      else (case append_change (xe_veto env) (xe_eventTime env) c (sh_session h) of
          (Inl _, s) \<Rightarrow> (Inl Internal_error, set_session s h)
        | (Inr _, s) \<Rightarrow>
            (case xe_barrier env of
               Inl _ \<Rightarrow> (Inl (Persistence_uncertain op (Some i)), set_session s h)
             | Inr _ \<Rightarrow> (Inr result, request_drive (set_session s h)))))"

definition tool_create :: "tool_env \<Rightarrow> create_args \<Rightarrow> schedule_host \<Rightarrow> (tool_error + schedule_view) \<times> schedule_host" where
  "tool_create env a h =
     (if \<not> xe_owner env then (Inl Internal_error, h)
      else (case validate_create_args a of
          Inl e \<Rightarrow> (Inl e, h)
        | Inr _ \<Rightarrow>
            with_fold env Op_create None h (\<lambda>folded h1.
              let i = allocate_schedule_id folded
              in (case create_record env a i of
                    Inl e \<Rightarrow> (Inl (Input_rejected e), h1)
                  | Inr r \<Rightarrow>
                      commit_schedule_change env Op_create i (Create_schedule r) (view_schedule r (xe_viewNow env)) h1))))"

definition tool_list :: "tool_env \<Rightarrow> schedule_host \<Rightarrow> (tool_error + schedule_view list) \<times> schedule_host" where
  "tool_list env h =
     (if \<not> xe_owner env then (Inl Internal_error, h)
      else with_fold env Op_list None h (\<lambda>folded h1.
        (Inr (map (\<lambda>r. view_schedule r (xe_now env)) (fd_active folded)), h1)))"

text \<open>The result says whether an active reminder was deleted.\<close>

definition tool_delete :: "tool_env \<Rightarrow> string \<Rightarrow> schedule_host \<Rightarrow> (tool_error + string \<times> bool) \<times> schedule_host" where
  "tool_delete env i h =
     (if i = [] \<or> js_trim i \<noteq> i then (Inl Delete_id_invalid, h)
      else if \<not> xe_owner env then (Inl Internal_error, h)
      else with_fold env Op_delete (Some i) h (\<lambda>folded h1.
        if \<not> list_ex (\<lambda>r. sd_id r = i) (fd_active folded) then (Inr (i, False), h1)
        else commit_schedule_change env Op_delete i (Delete_schedule i) (i, True) h1))"

end
