(* ===== verification/ScheduleProperties.thy ===== *)
theory ScheduleProperties
  imports ScheduleFoldProperties ScheduleService AgentInboxProperties
begin

text \<open>
  Properties of the reminder service over its session: deliveries settle what they deliver, the tools append one
  accepted change or none, and the service never makes its own log unreadable.
\<close>

section \<open>Appending to the session\<close>

definition session_state :: "session \<Rightarrow> schedule_fault + schedule_state" where
  "session_state s = fold_schedule_state (sn_log s) (header_seed_length (sn_header s))"

definition folded_of :: "schedule_state \<Rightarrow> folded_schedules" where
  "folded_of st = \<lparr>fd_active = js_values (ss_active st), fd_seenIds = ss_seen st\<rparr>"

lemma fold_session_state: "fold_session_schedules s = and_then (session_state s) (\<lambda>st. Inr (folded_of st))"
  by (simp add: fold_session_schedules_def fold_schedule_events_def session_state_def folded_of_def)

lemma fold_session_iff:
  "fold_session_schedules s = Inr folded \<longleftrightarrow> (\<exists>st. session_state s = Inr st \<and> folded = folded_of st)"
  by (auto simp: fold_session_state res_simps)

lemma session_state_ok: "session_state s = Inr st \<Longrightarrow> schedule_state_ok st"
  unfolding session_state_def by (rule fold_state_ok)

lemma session_state_same:
  "sn_log s' = sn_log s \<Longrightarrow> sn_header s' = sn_header s \<Longrightarrow> session_state s' = session_state s"
  by (simp add: session_state_def)

lemma session_state_extend:
  assumes "session_state s = Inr st" "sn_log s' = sn_log s @ es" "sn_header s' = sn_header s"
  shows "session_state s' = replay apply_schedule_event st es"
  using fold_state_append [OF assms(1) [unfolded session_state_def]] assms(2,3) by (simp add: session_state_def)

lemma replay_foreign: "\<forall>e \<in> set es. schedule_payload e = None \<Longrightarrow> replay apply_schedule_event st es = Inr st"
  by (induction es) (simp_all add: apply_event_payload [of _ e for e])

lemma append_change_cases:
  assumes "append_change veto time c s = (r, s')" "session_state s = Inr st" "change_ok c"
  obtains (refused) e where "r = Inl e" "session_state s' = Inr st" "sn_log s' = sn_log s" "sn_header s' = sn_header s"
    | (appended) e where "r = Inr e" "sn_log s' = sn_log s @ [e]" "sn_header s' = sn_header s"
        "schedule_payload e = Some (encode_schedule_change c)" "session_state s' = apply_schedule_change st c"
proof -
  let ?e = "candidate s time (PluginEvent ''schedule/change'' (encode_schedule_change c)) None None"
  note hd = session_append_header [OF assms(1) [unfolded append_change_def]]
  from session_append_log [OF assms(1) [unfolded append_change_def]] show thesis
  proof (elim disjE exE conjE)
    fix e assume "r = Inl e" "sn_log s' = sn_log s"
    then show thesis using hd assms(2) session_state_same [of s' s] by (intro refused) simp_all
  next
    assume l: "r = Inr ?e" "sn_log s' = sn_log s @ [?e]"
    have p: "schedule_payload ?e = Some (encode_schedule_change c)" by (simp add: schedule_payload_def candidate_def)
    have "session_state s' = apply_schedule_change st c"
      using session_state_extend [OF assms(2) l(2) hd] p decode_written_change [OF assms(3)]
      by (simp add: apply_event_payload [of _ ?e])
    then show thesis using l hd p by (intro appended) simp_all
  qed
qed

lemma append_changes_state:
  assumes "append_changes veto time cs s = (r, s')" "session_state s = Inr st" "\<forall>c \<in> set cs. change_ok c"
    "replay apply_schedule_change st cs = Inr st'"
  shows "\<exists>st1. session_state s' = Inr st1 \<and> (r = Inr () \<longrightarrow> st1 = st')"
  using assms
proof (induction cs arbitrary: s st)
  case (Cons c cs)
  obtain q s1 where a: "append_change veto time c s = (q, s1)" by fastforce
  from Cons.prems(4) obtain st1 where st1: "apply_schedule_change st c = Inr st1" "replay apply_schedule_change st1 cs = Inr st'"
    by (auto simp: res_simps)
  have ok: "change_ok c" "\<forall>c \<in> set cs. change_ok c" using Cons.prems(3) by simp_all
  from a Cons.prems(2) ok(1) show ?case
  proof (cases rule: append_change_cases)
    case (refused e)
    then show ?thesis using a Cons.prems(1) by auto
  next
    case (appended e)
    then show ?thesis using a Cons.prems(1) Cons.IH [OF _ _ ok(2) st1(2)] st1(1) by simp
  qed
qed simp

lemma append_changes_inbox:
  "inbox_ok h \<Longrightarrow> append_changes veto time cs (ih_session h) = (r, s') \<Longrightarrow> inbox_ok (h\<lparr>ih_session := s'\<rparr>)"
proof (induction cs arbitrary: h)
  case (Cons c cs)
  obtain q s1 where a: "append_change veto time c (ih_session h) = (q, s1)" by fastforce
  have "appended_by_other h (h\<lparr>ih_session := s1\<rparr>)"
    unfolding appended_by_other_def using a [unfolded append_change_def]
    by (intro exI [of _ veto] exI [of _ time] exI [of _ "PluginEvent ''schedule/change'' (encode_schedule_change c)"]
        exI [of _ None]) simp
  from appended_by_other_ok [OF this Cons.prems(1)] have ok: "inbox_ok (h\<lparr>ih_session := s1\<rparr>)" .
  show ?case using Cons.prems(2) a ok Cons.IH [OF ok] by (cases q) auto
next
  case Nil
  then show ?case by (cases h) auto
qed

lemma followup_cases:
  assumes "inbox_splice_op veto time Next_turn PosInfinity (Finite 0) [m] h = (q, h')"
  obtains (failed) e where "q = Inl e" "session_state (ih_session h') = session_state (ih_session h)"
      "inbox_ok h \<Longrightarrow> inbox_ok h'"
    | (queued) ms where "q = Inr ms" "session_state (ih_session h) = Inr st \<Longrightarrow> session_state (ih_session h') = Inr st"
      "ib_nextTurn (ih_inbox h') = ib_nextTurn (ih_inbox h) @ [m]" "ib_nextStep (ih_inbox h') = ib_nextStep (ih_inbox h)"
      "inbox_ok h \<Longrightarrow> inbox_ok h'"
proof -
  note ok = mutate_ok [OF assms [unfolded inbox_splice_op_def]]
  from assms [unfolded inbox_splice_op_def] show thesis
  proof (cases rule: mutate_cases)
    case (failed e s)
    then show thesis using ok session_state_same [of s "ih_session h"] by (intro that(1)) simp_all
  next
    case (spliced sp s e removed)
    have "schedule_payload e = None" using spliced(8) by (simp add: schedule_payload_def)
    then have st: "session_state (ih_session h) = Inr st \<Longrightarrow> session_state s = Inr st"
      using session_state_extend [OF _ spliced(7,9)] replay_foreign [of "[e]"] by simp
    have "sp_start sp = length (ib_nextTurn (ih_inbox h))" "removed_count sp = 0"
      using spliced(5,6) by (simp_all add: actual_start_def actual_delete_count_def truncated_def)
    then have "splice_inbox sp (ih_inbox h) = (ih_inbox h)\<lparr>ib_nextTurn := ib_nextTurn (ih_inbox h) @ [m]\<rparr>"
      using spliced(2,3) by (simp add: splice_inbox_def spliced_def)
    then show thesis using spliced(10,11) ok st by (intro that(2)) simp_all
  qed simp
qed

end
