(* ===== verification/Spec2Isabelle.thy ===== *)
theory Spec2Isabelle
  imports LabValidation LabRuntimeProperties LabPlanning LabSkillProperties SessionTraceProperties GoalProperties
    ChunkRowProperties AgentInboxProperties TeamProperties TeamActivity ScheduleProperties
begin

text \<open>
  A verification development for the DSH agent harness and its laboratory packages (TypeScript,
  under \<open>src/packages\<close>). It covers the parts that hold durable state and decide what may happen to
  it: the controlled laboratory, the session log, and what is kept in that log: goals, the inbox of an
  agent, and teams of agents with their tasks and messages. Every definition is translated from the source it names; paths below are relative to \<open>src/packages\<close>.

  \<^bold>\<open>The program's parts and how they interact.\<close>

  A laboratory experiment starts as a proposal of the planner (\<open>experimental/lab-planning-local\<close>),
  which drafts Skills with the Skill provider (\<open>experimental/lab-skill-local\<close>), has its plan checked
  by the deterministic validator (\<open>experimental/lab-domain/src/validation.ts\<close>) and is approved by a
  person. The Runtime (\<open>experimental/lab-runtime-local\<close>) locks the approved plan's graph, runs it step
  by step, asks the device gateway (\<open>experimental/lab-device\<close>, \<open>lab-device-mock\<close>) to execute the
  device steps under a lease, collects the evidence and saves every experiment in its state store.
  Independently, every agent owns a session (\<open>core/session\<close>): an append-only event log from which the
  surface (the messages a model sees), the request header and the derived history are folded; a log
  that ends in the middle of a turn is repaired before it is resumed, and invariant companions veto
  events that would break the log. The goal service (\<open>goal/goal\<close>) keeps its state only as events of
  such a log and moves it by compare-and-set. The inbox of an agent (\<open>core/agent/src/inbox.ts\<close>) projects
  its pending messages from the log of the agent's own session. A team of agents
  (\<open>experimental/agent-team\<close>) keeps its members, tasks and messages in the log of the lead's session; a
  teammate is a child session with a descriptor (\<open>subagent/subagent/src/descriptor.ts\<close>), and a message counts
  as delivered once the inbox or the history of the target's session has it. Reminders (\<open>schedule/schedule\<close>) are kept in the
  session of a root agent, whose inbox receives the due ones.

  \<^bold>\<open>Theories.\<close>

  \<^item> \<open>Prelude\<close>: results with errors as values, JavaScript strings, numbers, maps and arrays, and the
    locale \<open>strict_log\<close>, the replay of an event log by a checking step. \<open>GraphSearch\<close>: the order
    argument behind the depth-first cycle searches.
  \<^item> \<open>LabDomain\<close> (\<open>lab-domain/src/types.ts\<close>, \<open>project.ts\<close>): plans, Skills, artifacts, the unit check and the log
    projections. \<open>LabValidation\<close> (\<open>validation.ts\<close>): the plan validator, its declarative
    specification and their equivalence, with the termination of the cycle search.
  \<^item> \<open>LabDevice\<close>: the provider slot, the locale \<open>device_gateway\<close> and the mock provider that interprets
    it. \<open>LabRuntimeTypes\<close>, \<open>LabRuntime\<close>: the Runtime's data, helpers and handlers.
    \<open>LabRuntimeSafety\<close>, \<open>LabRuntimeSteps\<close>: its invariant and step relation.
    \<open>LabRuntimeInterfaces\<close>: the locale \<open>state_store\<close> and the handlers over both interfaces.
    \<open>LabRuntimeProperties\<close>: its properties.
  \<^item> \<open>LabSkill\<close>, \<open>LabSkillProperties\<close>: the Skill provider and its life cycle. \<open>LabPlanning\<close>: the planner
    and what its approval has established.
  \<^item> \<open>Json\<close>, \<open>SessionEvents\<close> (\<open>core/session/src/json.ts\<close>, \<open>types.ts\<close>, \<open>llm/llm/src/message.ts\<close>): JSON values, events
    and messages. \<open>Surface\<close>, \<open>SurfaceFacts\<close>, \<open>SurfaceManager\<close> (\<open>surface.ts\<close>): the complete and the
    incremental surface fold. \<open>SessionSeed\<close>, \<open>SessionSeedProperties\<close> (\<open>index.ts\<close>): the import checks.
    \<open>SessionLog\<close>, \<open>SessionLogProperties\<close>, \<open>SessionProperties\<close> (\<open>index.ts\<close>, \<open>request-header.ts\<close>): the
    session with its caches, and the fork. \<open>SessionTrace\<close>, \<open>SessionTraceProperties\<close>
    (\<open>invariant.ts\<close>, \<open>repair.ts\<close>): the companion and the repair of interrupted logs. \<open>ChunkRows\<close>,
    \<open>ChunkRowProperties\<close> (\<open>chunk-rows.ts\<close>): the packing of streamed deltas into storage rows and back.
  \<^item> \<open>GoalFold\<close>, \<open>GoalFoldProperties\<close> (\<open>goal/goal/src/domain.ts\<close>, \<open>fold.ts\<close>): goal changes, their strict decoder
    and fold. \<open>GoalService\<close>, \<open>GoalServiceProperties\<close>, \<open>GoalProperties\<close> (\<open>index.ts\<close>, \<open>invariant.ts\<close>): the
    service, its specification, and the refinement between them.
  \<^item> \<open>AgentInbox\<close>, \<open>AgentInboxProperties\<close> (\<open>core/agent/src/inbox.ts\<close>): the inbox. \<open>SubagentDescriptor\<close>: the
    descriptor, its parser and writer.
  \<^item> \<open>TeamFold\<close>, \<open>TeamGraph\<close>, \<open>TeamFoldProperties\<close>, \<open>TeamStream\<close> (\<open>agent-team/src/types.ts\<close>, \<open>fold.ts\<close>,
    \<open>task-graph.ts\<close>): the team records, their decoder and fold, the check of the task graph, and what an
    accepted log consists of. \<open>TeamBoard\<close>, \<open>TeamBoardProperties\<close>, \<open>TeamBoardSafety\<close> (\<open>task-board.ts\<close>,
    \<open>journal.ts\<close>, \<open>validation.ts\<close>): the task board and its transactions. \<open>TeamRoster\<close> (\<open>roster.ts\<close>,
    \<open>session-message.ts\<close>): membership, creation and reconciliation of teammates. \<open>TeamMailbox\<close> (\<open>mailbox.ts\<close>):
    admission and acknowledgement of messages. \<open>TeamService\<close> (\<open>index.ts\<close>): the limits and the step relation of
    the whole service. \<open>TeamActivity\<close> (\<open>activity.ts\<close>): the waiters. \<open>TeamProperties\<close>: properties that span them.
  \<^item> \<open>Calendar\<close>: what JavaScript's \<open>Date\<close> computes, with the round trips between instants, fields and the ISO form.
    \<open>Schedule\<close>, \<open>ScheduleRules\<close> (\<open>schedule/schedule/src/types.ts\<close>, \<open>domain.ts\<close>): reminders, their changes, decoder,
    occurrences and fold, and how selectors become records. \<open>ScheduleService\<close> (\<open>runtime.ts\<close>, \<open>tools.ts\<close>): what is
    due, its delivery through the inbox, and the tools. \<open>ScheduleFacts\<close>, \<open>ScheduleFoldProperties\<close>,
    \<open>ScheduleProperties\<close>: their properties.

  \<^bold>\<open>How state and operations correspond.\<close> A class becomes a record of its fields and a method a function
  that takes the record and returns the outcome with the record it leaves, also when it throws
  (\<open>Inl\<close> of an error constructor that carries what the message interpolates). A JavaScript \<open>Map\<close> is an
  association list in insertion order, a \<open>Set\<close> the list of its elements. An asynchronous method runs as one
  step when nothing else can run between its awaits, and as several steps of the component's step relation
  otherwise. The clock, random identifiers, digests and vetoing listeners are arguments of the operations.
  A collaborator that is an interface of the source is a locale, interpreted on the model of its
  provider: \<open>device_gateway\<close>, \<open>state_store\<close>, \<open>strict_log\<close>.

  \<^bold>\<open>What the lemmas show.\<close> Validation: soundness and completeness against a declarative
  specification. Runtime, Skills, planner, session and goals: an invariant of the reachable states by
  rule induction over the component's steps, and the safety properties it gives (evidence of completed runs,
  vetted Skills, locked plans, atomic appends, consecutive goal rounds). Folds: the incremental and the
  complete replay agree. Goals: the service refines a log-free specification. Teams: an accepted log has consistent
  histories, every board request appends one accepted record or none, and the reachable states of the service
  keep the limits; messages and waiters settle once.

  \<^bold>\<open>Bounds and fuel.\<close> The recursive cycle searches take fuel, because the recursion of the source follows
  arbitrary edges; the fuel given is one more than the number of nodes, and the theorems on the searches show
  that it never runs out (\<open>validate_dependency_cycles_exact\<close>, \<open>task_graph_check_exact\<close>). All other recursion is structural. JavaScript numbers that count (revisions,
  sequence numbers, rounds) are integers or naturals with the safe-integer limit written out where
  the source tests it; the numbers a client may supply are JSON values or rationals.

  \<^bold>\<open>Not modelled.\<close> Network, file system, SQLite, processes, browser code and the Cordis service composition:
  their behaviour lies in libraries or the operating system. Zod schemas outside the modelled decoders,
  generated catalogues (\<open>tool-cordis/src/api-catalog.ts\<close>, \<open>slot-catalog.ts\<close>) and code generators are
  left out. The dispatch queues of the team mailbox and the timers of \<open>agent-team/src/lifecycle.ts\<close> order promises of
  the agent loop and are not modelled; a delivery is judged by the target session it leaves. The agent loop is a concurrent driver over streams and timers; only the log it writes is
  modelled. The identity of shared mutable objects plays no role in the modelled code, whose values
  are frozen or copied at its boundaries.
\<close>

end
